(* ===== verification/Hosts.thy ===== *)
theory Hosts
  imports Prelude
begin

text \<open>
  Host names and host patterns: \<^verbatim>\<open>canonicalHost\<close>, the two matchers (the linear
  \<^verbatim>\<open>matchHostPattern\<close> of config.go and the compiled \<^verbatim>\<open>compiledHostMatcher\<close> of
  module_runtime.go), pattern coverage, and the validity check a pattern has to pass before it
  can authorise anything. The lemmas show that the compiled matcher decides exactly what the
  linear scan decides, and that coverage of valid patterns is sound for matching.
\<close>

section \<open>Splitting host and port (net.SplitHostPort)\<close>

definition split_host_port :: "string \<Rightarrow> (string \<times> string) option" where
  "split_host_port hp =
     (case last_index_byte hp CHR '':'' of
        None \<Rightarrow> None
      | Some i \<Rightarrow>
          (if hd hp = CHR ''['' then
             (case index_byte hp CHR '']'' of
                None \<Rightarrow> None
              | Some e \<Rightarrow>
                  (if e + 1 \<noteq> i then None
                   else if CHR ''['' \<in> set (drop 1 hp) \<or> CHR '']'' \<in> set (drop (e + 1) hp) then None
                   else Some (take (e - 1) (drop 1 hp), drop (i + 1) hp)))
           else
             (if CHR '':'' \<in> set (take i hp) then None
              else if CHR ''['' \<in> set hp \<or> CHR '']'' \<in> set hp then None
              else Some (take i hp, drop (i + 1) hp))))"

section \<open>Canonical hosts and pattern matching (config.go)\<close>

definition canonicalHost :: "string \<Rightarrow> string" where
  "canonicalHost value =
     (let host = to_lower (trim_space value);
          host = (if CHR '':'' \<in> set host
                  then (case split_host_port host of Some (parsed, _) \<Rightarrow> parsed | None \<Rightarrow> host)
                  else host)
      in trim_suffix host ''.'')"

definition matchHostPattern :: "string \<Rightarrow> string \<Rightarrow> bool" where
  "matchHostPattern pattern host =
     (if has_prefix pattern ''*.'' then
        (let sfx = trim_prefix pattern ''*.''
         in length host > length sfx + 1 \<and> has_suffix host (''.'' @ sfx))
      else host = pattern)"

definition hostPatternCovers :: "string \<Rightarrow> string \<Rightarrow> bool" where
  "hostPatternCovers allowed candidate =
     (if allowed = candidate then True
      else if \<not> has_prefix allowed ''*.'' then False
      else has_suffix (trim_prefix candidate ''*.'') (''.'' @ trim_prefix allowed ''*.''))"

fun hostCoveredBy :: "string list \<Rightarrow> string \<Rightarrow> bool" where
  "hostCoveredBy [] candidate = False"
| "hostCoveredBy (pattern # patterns) candidate =
     (if hostPatternCovers pattern candidate then True else hostCoveredBy patterns candidate)"

definition validHostLabel :: "string \<Rightarrow> bool" where
  "validHostLabel label =
     (\<not> (label = [] \<or> length label > 63 \<or> hd label = CHR ''-'' \<or> last label = CHR ''-'') \<and>
      list_all (\<lambda>r. (97 \<le> code r \<and> code r \<le> 122) \<or> (48 \<le> code r \<and> code r \<le> 57) \<or> r = CHR ''-'') label)"

definition validHostPattern :: "string \<Rightarrow> bool" where
  "validHostPattern pattern =
     (let pattern = to_lower (trim_space pattern);
          pattern = (if has_prefix pattern ''*.'' then trim_prefix pattern ''*.'' else pattern)
      in if CHR ''*'' \<in> set pattern \<or> length pattern > 253 \<or> CHR ''.'' \<notin> set pattern then False
         else list_all validHostLabel (split_on CHR ''.'' pattern))"

fun uniqueFold :: "string list \<Rightarrow> string list \<Rightarrow> string list" where
  "uniqueFold out [] = out"
| "uniqueFold out (value # values) =
     (let value = to_lower (trim_space value)
      in if value \<in> set out then uniqueFold out values else uniqueFold (out @ [value]) values)"

definition uniqueSorted :: "string list \<Rightarrow> string list" where
  "uniqueSorted values = sort (uniqueFold [] values)"

fun containsString :: "string list \<Rightarrow> string \<Rightarrow> bool" where
  "containsString [] want = False"
| "containsString (value # values) want = (if value = want then True else containsString values want)"

fun firstNonEmpty :: "string list \<Rightarrow> string" where
  "firstNonEmpty [] = []"
| "firstNonEmpty (value # values) =
     (if trim_space value \<noteq> [] then trim_space value else firstNonEmpty values)"

section \<open>The compiled matcher (module_runtime.go)\<close>

record compiledHostMatcher =
  exact :: "string list"
  wildcard :: "string list"

fun addPatterns :: "compiledHostMatcher \<Rightarrow> string list \<Rightarrow> compiledHostMatcher" where
  "addPatterns m [] = m"
| "addPatterns m (pattern # patterns) =
     (if has_prefix pattern ''*.'' then
        (let sfx = trim_prefix pattern ''*.''
         in if sfx \<in> set (wildcard m) then addPatterns m patterns
            else addPatterns (m\<lparr>wildcard := wildcard m @ [sfx]\<rparr>) patterns)
      else addPatterns (m\<lparr>exact := List.insert pattern (exact m)\<rparr>) patterns)"

definition newCompiledHostMatcher :: "string list \<Rightarrow> compiledHostMatcher" where
  "newCompiledHostMatcher patterns = addPatterns \<lparr>exact = [], wildcard = []\<rparr> patterns"

fun matchWildcards :: "string list \<Rightarrow> string \<Rightarrow> bool" where
  "matchWildcards [] host = False"
| "matchWildcards (sfx # sfxs) host =
     (if length host > length sfx + 1 \<and> host ! (length host - length sfx - 1) = CHR ''.''
         \<and> has_suffix host sfx
      then True else matchWildcards sfxs host)"

definition matchCanonical :: "compiledHostMatcher option \<Rightarrow> string \<Rightarrow> bool" where
  "matchCanonical m host =
     (case m of None \<Rightarrow> False
      | Some m \<Rightarrow> if host \<in> set (exact m) then True else matchWildcards (wildcard m) host)"

definition Match :: "compiledHostMatcher option \<Rightarrow> string \<Rightarrow> bool" where
  "Match m value = (case m of None \<Rightarrow> False | Some _ \<Rightarrow> matchCanonical m (canonicalHost value))"

section \<open>Lemmas\<close>

lemma hostCoveredBy_iff: "hostCoveredBy ps c \<longleftrightarrow> (\<exists>p\<in>set ps. hostPatternCovers p c)"
  by (induction ps) auto

lemma containsString_iff [simp]: "containsString vs w \<longleftrightarrow> w \<in> set vs"
  by (induction vs) auto

lemma has_suffix_dot_iff:
  "length host > length s + 1 \<and> host ! (length host - length s - 1) = CHR ''.'' \<and> has_suffix host s
   \<longleftrightarrow> length host > length s + 1 \<and> has_suffix host (''.'' @ s)" (is "?L \<longleftrightarrow> ?R")
proof
  assume ?L
  then obtain t where t: "host = t @ s" and len: "length t > 1"
    by (auto simp: has_suffix_iff)
  have "length t - 1 < length t" "t \<noteq> []" using len by auto
  with \<open>?L\<close> t have "last t = CHR ''.''" by (simp add: nth_append last_conv_nth)
  then have "host = butlast t @ ''.'' @ s"
    using t len by (metis append.assoc append_butlast_last_id list.size(3) not_less_zero)
  then show ?R using \<open>?L\<close> by (auto simp: has_suffix_iff)
next
  assume ?R
  then obtain t where t: "host = t @ ''.'' @ s" by (auto simp: has_suffix_iff)
  have "has_suffix host s" using t by (metis append.assoc has_suffix_append)
  then show ?L using t \<open>?R\<close> by (simp add: nth_append)
qed

lemma matchWildcards_iff:
  "matchWildcards ws h \<longleftrightarrow> (\<exists>s\<in>set ws. length h > length s + 1 \<and> has_suffix h (''.'' @ s))"
  by (induction ws) (simp_all only: matchWildcards.simps has_suffix_dot_iff, auto)

lemma wildcard_pattern_iff:
  "matchHostPattern (''*.'' @ s) h \<longleftrightarrow> length h > length s + 1 \<and> has_suffix h (''.'' @ s)"
  unfolding matchHostPattern_def Let_def by (simp add: has_prefix_def del: append.simps)

lemma matchCanonical_addPatterns:
  "matchCanonical (Some (addPatterns m ps)) h \<longleftrightarrow>
     matchCanonical (Some m) h \<or> (\<exists>p\<in>set ps. matchHostPattern p h)"
proof (induction m ps rule: addPatterns.induct)
  case (2 m p ps)
  show ?case
  proof (cases "has_prefix p ''*.''")
    case False
    then have "matchHostPattern p h \<longleftrightarrow> h = p" by (simp add: matchHostPattern_def)
    with 2 False show ?thesis by (auto simp: matchCanonical_def)
  next
    case True
    then obtain s where p: "p = ''*.'' @ s" by (auto simp: has_prefix_iff)
    have tp: "trim_prefix p ''*.'' = s" using p by (metis trim_prefix_append)
    have pat: "matchHostPattern p h \<longleftrightarrow> length h > length s + 1 \<and> has_suffix h (''.'' @ s)"
      using p wildcard_pattern_iff by metis
    show ?thesis
      using 2(1,2)[OF True] True tp pat
      by (auto simp: Let_def matchCanonical_def matchWildcards_iff simp del: append.simps)
  qed
qed simp

lemma matchCanonical_compiled:
  "matchCanonical (Some (newCompiledHostMatcher ps)) h \<longleftrightarrow> (\<exists>p\<in>set ps. matchHostPattern p h)"
  by (simp add: newCompiledHostMatcher_def matchCanonical_addPatterns)
     (simp add: matchCanonical_def)

lemma Match_compiled:
  "Match (Some (newCompiledHostMatcher ps)) v \<longleftrightarrow> (\<exists>p\<in>set ps. matchHostPattern p (canonicalHost v))"
  by (simp add: Match_def matchCanonical_compiled)

lemma valid_pattern_no_leading_dot:
  assumes "validHostPattern (CHR ''.'' # t)"
  shows False
proof -
  have ns: "\<not> is_space CHR ''.''" by (simp add: is_space_def code_def)
  then have "dropWhile is_space (rev t @ [CHR ''.'']) = dropWhile is_space (rev t) @ [CHR ''.'']"
    by (metis dropWhile_append3 dropWhile_append1 dropWhile_eq_Nil_conv append_Nil)
  then obtain u where u: "trim_space (CHR ''.'' # t) = CHR ''.'' # u"
    using ns by (simp add: trim_space_def)
  then have "to_lower (trim_space (CHR ''.'' # t)) = CHR ''.'' # to_lower u"
    by (simp add: to_lower_def lower_char_def code_def)
  with assms show False
    by (simp add: validHostPattern_def has_prefix_def validHostLabel_def Let_def split: if_splits)
qed

lemma hostPatternCovers_sound:
  assumes cov: "hostPatternCovers a c" and valid: "validHostPattern c" and m: "matchHostPattern c h"
  shows "matchHostPattern a h"
proof (cases "a = c")
  case False
  with cov obtain b where a: "a = ''*.'' @ b"
    and suf: "has_suffix (trim_prefix c ''*.'') (''.'' @ b)"
    by (auto simp: hostPatternCovers_def has_prefix_iff simp del: append.simps split: if_splits)
  then obtain t where t: "trim_prefix c ''*.'' = t @ ''.'' @ b" by (auto simp: has_suffix_iff)
  show ?thesis
  proof (cases "has_prefix c ''*.''")
    case True
    with t have c: "c = ''*.'' @ t @ ''.'' @ b" by (metis has_prefix_iff trim_prefix_append)
    with m obtain u where "h = u @ ''.'' @ t @ ''.'' @ b"
      using wildcard_pattern_iff by (metis has_suffix_iff append.assoc)
    then have "h = (u @ ''.'' @ t) @ ''.'' @ b" and "length h > length b + 1" by simp_all
    then show ?thesis unfolding a wildcard_pattern_iff by (metis has_suffix_append)
  next
    case False
    with t have c: "c = t @ ''.'' @ b" by (simp add: trim_prefix_def)
    have "t \<noteq> []" using valid valid_pattern_no_leading_dot c by fastforce
    moreover have "h = c" using m False by (simp add: matchHostPattern_def)
    ultimately show ?thesis unfolding a wildcard_pattern_iff using c by (auto simp: has_suffix_iff)
  qed
qed (use m in simp)

lemma hostCoveredBy_sound:
  assumes "hostCoveredBy ps c" and "validHostPattern c" and "matchHostPattern c h"
  shows "\<exists>p\<in>set ps. matchHostPattern p h"
  using assms hostPatternCovers_sound by (auto simp: hostCoveredBy_iff)

lemma uniqueFold_set:
  "set (uniqueFold out vs) = set out \<union> (\<lambda>v. to_lower (trim_space v)) ` set vs"
  by (induction out vs rule: uniqueFold.induct) (auto simp: Let_def)

lemma uniqueFold_distinct: "distinct out \<Longrightarrow> distinct (uniqueFold out vs)"
  by (induction out vs rule: uniqueFold.induct) (auto simp: Let_def)

lemma set_uniqueSorted [simp]:
  "set (uniqueSorted vs) = (\<lambda>v. to_lower (trim_space v)) ` set vs"
  by (simp add: uniqueSorted_def uniqueFold_set)

lemma uniqueSorted_sorted_distinct: "sorted (uniqueSorted vs) \<and> distinct (uniqueSorted vs)"
  by (simp add: uniqueSorted_def uniqueFold_distinct)

lemma uniqueSorted_idem: "uniqueSorted (uniqueSorted vs) = uniqueSorted vs"
proof (rule sorted_distinct_set_unique)
  show "set (uniqueSorted (uniqueSorted vs)) = set (uniqueSorted vs)"
    by (auto simp: image_image trim_space_to_lower)
qed (use uniqueSorted_sorted_distinct in blast)+

lemma length_uniqueSorted: "length (uniqueSorted vs) \<le> length vs"
proof -
  have "length (uniqueSorted vs) = card (set (uniqueSorted vs))"
    using uniqueSorted_sorted_distinct by (metis distinct_card)
  also have "\<dots> \<le> length vs" by (metis set_uniqueSorted card_image_le card_length le_trans finite_set)
  finally show ?thesis .
qed

end
