(* ===== verification/Config_Types.thy ===== *)
theory Config_Types
  imports Hosts
begin

text \<open>
  The configuration document of config.go and the compiled snapshot of module_runtime.go as
  records. A Go pointer that may be nil is an \<^typ>\<open>'a option\<close>; a slice the code compares with nil
  is an option of a list; a JSON number is its literal, a \<^verbatim>\<open>float64\<close> constraint a rational; a \<^verbatim>\<open>json.RawMessage\<close> is
  the bytes of the message. The field names carry the struct as a prefix.

  The artifacts other packages build are represented by the text they are built from: a
  \<^verbatim>\<open>*goja.Program\<close> by file name and source, a \<^verbatim>\<open>*gojq.Code\<close> by its program text, a
  \<^verbatim>\<open>*regexp.Regexp\<close> by its pattern.
\<close>

datatype json =
    JNull
  | JBool bool
  | JNum string
  | JStr string
  | JArr "json list"
  | JObj "(string \<times> json) list"

datatype goja_program = Program (progFile: string) (progSource: string)
datatype jq_code = JQ (jqText: string)
datatype regexp = Regexp (reText: string)

record ProxyConfig =
  proxyAddress :: string
  proxyUsername :: string
  proxyPassword :: string

record MITMSettings =
  mitmEnabled :: bool
  mitmHTTP2 :: bool
  mitmQUICFallbackProtection :: bool

record ModuleSource =
  srcURL :: string
  srcDigest :: string
  srcBody :: string

record ActionMatch =
  matchHosts :: "string list"
  matchSchemes :: "string list"
  matchMethods :: "string list"
  matchPathRegex :: string
  matchStatusCodes :: "int list"

record ActionGate =
  gateKey :: string
  gateEquals :: string

record MockResponse =
  mockStatus :: int
  mockHeaders :: "(string \<times> string) list"
  mockBody :: string
  mockBase64Body :: string

record HeaderEdits =
  editSet :: "(string \<times> string) list"
  editRemove :: "string list"

record URLRewrite =
  rwPattern :: string
  rwTo :: string
  rwStatus :: int
  rwCompiled :: "regexp option"

record BodyReplace =
  brPattern :: string
  brTo :: string
  brValueMap :: "(string \<times> (string \<times> string) list) list"
  brCompiled :: "regexp option"

record ScriptRule =
  ruleID :: string
  rulePhase :: string
  ruleMatch :: ActionMatch
  ruleEnabledWhen :: "ActionGate option"
  ruleScriptURL :: string
  ruleScriptDigest :: string
  ruleScriptBody :: string
  ruleBodyMode :: string
  ruleEntry :: string
  ruleJQProgram :: string
  ruleReject :: bool
  ruleMock :: "MockResponse option"
  ruleHeaders :: "HeaderEdits option"
  ruleRewrite :: "URLRewrite option"
  ruleReplaceBody :: "BodyReplace option"
  ruleTimeoutMS :: int
  ruleMaxBodyBytes :: int
  ruleProgram :: "goja_program option"
  ruleJQ :: "jq_code option"
  ruleSettings :: "(string \<times> json) list option"

record ModuleSetting =
  setKey :: string
  setType :: string
  setLabel :: string
  setDescription :: string
  setRequired :: bool
  setOptions :: "string list"
  setMin :: "rat option"
  setMax :: "rat option"
  setDefault :: string
  setValue :: string

record HostMapping =
  mapPattern :: string
  mapTarget :: string

record RoutingRule =
  rtAction :: string
  rtDomain :: "string option"
  rtDomainSuffix :: "string option"
  rtDomainKeywords :: "string list option"
  rtAllDomainKeywords :: "string list option"
  rtIPCIDR :: "string option"
  rtNetwork :: "string option"
  rtDestinationPort :: "int option"

record Module =
  modID :: string
  modVersion :: string
  modName :: string
  modDescription :: string
  modEnabled :: bool
  modImportedAt :: string
  modSource :: ModuleSource
  modCaptureHosts :: "string list"
  modCaptureDNS :: string
  modHostMappings :: "HostMapping list"
  modRoutingRules :: "RoutingRule list"
  modSettings :: "ModuleSetting list"
  modScripts :: "ScriptRule list"
  modPersistentStorage :: bool
  modNetwork :: bool
  modEgressGroupRequired :: bool
  modEgressGroup :: string

record compiledScriptRule =
  crRule :: ScriptRule
  crPath :: regexp
  crHosts :: compiledHostMatcher

record compiledScriptModule =
  cmModule :: Module
  cmRules :: "compiledScriptRule list"
  cmHosts :: "compiledHostMatcher option"

record compiledScriptConfig =
  rtModules :: "compiledScriptModule list"
  rtModuleHosts :: "(string \<times> compiledHostMatcher) list"
  rtActiveHosts :: "compiledHostMatcher option"
  rtActivePatterns :: "string list"

record Config =
  cfgVersion :: int
  cfgExecutionOrder :: "string list option"
  cfgListen :: string
  cfgUsername :: string
  cfgPassword :: string
  cfgTLSCert :: string
  cfgTLSKey :: string
  cfgUpstreamProxy :: ProxyConfig
  cfgMITM :: MITMSettings
  cfgModules :: "Module list"
  cfgRuntime :: "compiledScriptConfig option"
  cfgGeneration :: "64 word"


text \<open>The zero value of \<^verbatim>\<open>Config\<close>.\<close>

definition zeroConfig :: Config where
  "zeroConfig = \<lparr>cfgVersion = 0, cfgExecutionOrder = None, cfgListen = [], cfgUsername = [], cfgPassword = [],
     cfgTLSCert = [], cfgTLSKey = [], cfgUpstreamProxy = \<lparr>proxyAddress = [], proxyUsername = [], proxyPassword = []\<rparr>,
     cfgMITM = \<lparr>mitmEnabled = False, mitmHTTP2 = False, mitmQUICFallbackProtection = False\<rparr>,
     cfgModules = [], cfgRuntime = None, cfgGeneration = 0\<rparr>"

end
