(* ===== verification/Durable_Store.thy ===== *)
theory Durable_Store
  imports Prelude
begin

text \<open>
  The contract between the bundle manager and its durable store. Whatever happens to an
  operation, it changes what is stored at most by its one intended change; a success means the
  change is there. From these laws alone follows when an operation keeps the pointer naming a
  sound record, which is what a restart depends on.
\<close>

locale durable_store =
  fixes recs :: "'w \<Rightarrow> string \<Rightarrow> 'c option"
    and pointer :: "'w \<Rightarrow> 'c option"
    and put :: "'r \<Rightarrow> 'w \<Rightarrow> 'o \<times> 'w"
    and key :: "'r \<Rightarrow> string"
    and image :: "'r \<Rightarrow> 'c"
    and del :: "string \<Rightarrow> 'w \<Rightarrow> 'o \<times> 'w"
    and setp :: "'p \<Rightarrow> 'w \<Rightarrow> 'o \<times> 'w"
    and target :: "'p \<Rightarrow> string option"
    and names :: "'c \<Rightarrow> string option"
    and ok :: "'o \<Rightarrow> bool"
  assumes put_pointer: "pointer (snd (put r w)) = pointer w"
    and put_recs: "recs (snd (put r w)) = (recs w)(key r \<mapsto> image r)
                   \<or> recs (snd (put r w)) = recs w \<and> \<not> ok (fst (put r w))"
    and del_pointer: "pointer (snd (del i w)) = pointer w"
    and del_recs: "recs (snd (del i w)) = (recs w)(i := None)
                   \<or> recs (snd (del i w)) = recs w \<and> \<not> ok (fst (del i w))"
    and setp_recs: "recs (snd (setp p w)) = recs w"
    and setp_pointer: "(\<exists>c. pointer (snd (setp p w)) = Some c \<and> names c = target p)
                   \<or> pointer (snd (setp p w)) = pointer w \<and> \<not> ok (fst (setp p w))"
begin

definition named :: "'w \<Rightarrow> string option" where
  "named w = Option.bind (pointer w) names"

definition pointer_sound :: "(string \<Rightarrow> 'c \<Rightarrow> bool) \<Rightarrow> 'w \<Rightarrow> bool" where
  "pointer_sound S w \<longleftrightarrow> (\<forall>i. named w = Some i \<longrightarrow> (\<exists>c. recs w i = Some c \<and> S i c))"

lemma put_named [simp]: "named (snd (put r w)) = named w"
  by (simp add: named_def put_pointer)

lemma del_named [simp]: "named (snd (del i w)) = named w"
  by (simp add: named_def del_pointer)

lemma setp_named: "named (snd (setp p w)) = target p \<or> named (snd (setp p w)) = named w \<and> \<not> ok (fst (setp p w))"
  using setp_pointer[of p w] by (auto simp: named_def)

lemma put_ok: "ok (fst (put r w)) \<Longrightarrow> recs (snd (put r w)) = (recs w)(key r \<mapsto> image r)"
  using put_recs by blast

lemma put_sound:
  "pointer_sound S w \<Longrightarrow> S (key r) (image r) \<Longrightarrow> pointer_sound S (snd (put r w))"
  using put_recs[of r w] by (auto simp: pointer_sound_def)

lemma put_unnamed:
  "pointer_sound S w \<Longrightarrow> named w \<noteq> Some (key r) \<Longrightarrow> pointer_sound S (snd (put r w))"
  using put_recs[of r w] by (auto simp: pointer_sound_def)

lemma del_sound:
  "pointer_sound S w \<Longrightarrow> (\<And>c. recs w i = Some c \<Longrightarrow> \<not> S i c) \<Longrightarrow> pointer_sound S (snd (del i w))"
  using del_recs[of i w] by (auto simp: pointer_sound_def)

lemma setp_sound:
  assumes "pointer_sound S w" and "\<And>i. target p = Some i \<Longrightarrow> \<exists>c. recs w i = Some c \<and> S i c"
  shows "pointer_sound S (snd (setp p w))"
  using assms setp_named[of p w] by (auto simp: pointer_sound_def setp_recs)

lemma del_other: "j \<noteq> i \<Longrightarrow> recs (snd (del i w)) j = recs w j"
  using del_recs[of i w] by auto

lemma put_other: "j \<noteq> key r \<Longrightarrow> recs (snd (put r w)) j = recs w j"
  using put_recs[of r w] by auto

end

text \<open>A store that can also enumerate its records.\<close>

locale listed_store = durable_store recs pointer put key image del setp target names ok
  for recs :: "'w \<Rightarrow> string \<Rightarrow> 'c option"
    and pointer :: "'w \<Rightarrow> 'c option"
    and put :: "'r \<Rightarrow> 'w \<Rightarrow> 'o \<times> 'w"
    and key :: "'r \<Rightarrow> string"
    and image :: "'r \<Rightarrow> 'c"
    and del :: "string \<Rightarrow> 'w \<Rightarrow> 'o \<times> 'w"
    and setp :: "'p \<Rightarrow> 'w \<Rightarrow> 'o \<times> 'w"
    and target :: "'p \<Rightarrow> string option"
    and names :: "'c \<Rightarrow> string option"
    and ok :: "'o \<Rightarrow> bool" +
  fixes wf :: "'w \<Rightarrow> bool"
    and lst :: "'w \<Rightarrow> string list option \<times> 'w"
  assumes lst_same: "recs (snd (lst w)) = recs w" "pointer (snd (lst w)) = pointer w"
    and lst_dom: "wf w \<Longrightarrow> fst (lst w) = Some ids \<Longrightarrow> set ids = dom (recs w)"
    and lst_sorted: "wf w \<Longrightarrow> fst (lst w) = Some ids \<Longrightarrow> sorted ids \<and> distinct ids"
begin

lemma lst_sound: "pointer_sound S w \<Longrightarrow> pointer_sound S (snd (lst w))"
  by (simp add: pointer_sound_def named_def lst_same)

end

end
