(* ===== verification/Bundle_Store.thy ===== *)
theory Bundle_Store
  imports Durable_Store
begin

text \<open>
  The durable bundle store of bundle_store.go.

  The state is the store directory: the files in it by path, and whether the bundles directory
  exists. A file holds the JSON of a record, of the pointer or of the metadata, or bytes that do
  not decode (\<open>Unreadable\<close>); the JSON encoding itself is not modelled, only that a value read back
  is the value written. Every system call takes the next entry of the fault schedule \<open>faults\<close>,
  so a theorem over all schedules covers every combination of failing, failing after taking
  effect, and the process dying before the call. The clock is the list \<open>times\<close> in the same
  way. The mutex of the Go store makes each operation one step, which is what a function of
  the world is here.

  SHA-256 with its hexadecimal rendering is the argument \<open>sha\<close>; nothing is assumed of it.
\<close>

section \<open>Errors, faults and outcomes\<close>

datatype bundle_error =
    errBundleNotFound
  | errBundleWrongState
  | errBundleConflict
  | errBundleCorrupt
  | errBundleSchema
  | errBundleInvalidDocument
  | errUnclassified

datatype io = IoOk | IoErr | IoErrDone | IoCrash

datatype 'a outcome = Ret 'a | Err bundle_error | Crashed

section \<open>Artifacts\<close>

definition bundleStoreSchema :: int where "bundleStoreSchema = 1"

definition bundleStaged :: string where "bundleStaged = ''STAGED''"
definition bundleActive :: string where "bundleActive = ''ACTIVE''"
definition bundleSuperseded :: string where "bundleSuperseded = ''SUPERSEDED''"

record bundleRecord =
  recSchema :: int
  recID :: string
  recState :: string
  recDigest :: string
  recDocument :: string
  recStagedAt :: int
  recActivatedAt :: int
  recRecordDigest :: string

record bundlePointer =
  ptrSchema :: int
  ptrActive :: string
  ptrPrevious :: string
  ptrUpdatedAt :: int
  ptrDigest :: string

record bundleStoreMeta =
  metaSchema :: int
  metaCreatedAt :: int

definition nul :: string where "nul = [char_of (0::nat)]"

definition recordPreimage :: "bundleRecord \<Rightarrow> string" where
  "recordPreimage r =
     ''bundle-record/v1'' @ nul @ itoa (recSchema r) @ nul @ recID r @ nul @ recState r @ nul
     @ recDigest r @ nul @ itoa (recStagedAt r) @ nul @ itoa (recActivatedAt r) @ nul @ recDocument r"

definition computeRecordDigest :: "(string \<Rightarrow> string) \<Rightarrow> bundleRecord \<Rightarrow> string" where
  "computeRecordDigest sha r = sha (recordPreimage r)"

definition pointerPreimage :: "bundlePointer \<Rightarrow> string" where
  "pointerPreimage p =
     ''bundle-pointer/v1'' @ nul @ itoa (ptrSchema p) @ nul @ ptrActive p @ nul @ ptrPrevious p
     @ nul @ itoa (ptrUpdatedAt p)"

definition computePointerDigest :: "(string \<Rightarrow> string) \<Rightarrow> bundlePointer \<Rightarrow> string" where
  "computePointerDigest sha p = sha (pointerPreimage p)"

section \<open>The directory and the system calls\<close>

datatype content = Unreadable | RecordJSON bundleRecord | PointerJSON bundlePointer | MetaJSON bundleStoreMeta

datatype path = Root string | InBundles string

record world =
  files :: "(path \<times> content) list"
  bundlesDir :: bool
  faults :: "io list"
  times :: "int list"

definition next_io :: "world \<Rightarrow> io \<times> world" where
  "next_io w = (case faults w of [] \<Rightarrow> (IoOk, w) | x # xs \<Rightarrow> (x, w\<lparr>faults := xs\<rparr>))"

definition now_unix :: "world \<Rightarrow> int \<times> world" where
  "now_unix w = (case times w of [] \<Rightarrow> (0, w) | t # ts \<Rightarrow> (t, w\<lparr>times := ts\<rparr>))"

definition syscall :: "(world \<Rightarrow> world) \<Rightarrow> world \<Rightarrow> unit outcome \<times> world" where
  "syscall eff w =
     (case next_io w of
        (IoOk, w') \<Rightarrow> (Ret (), eff w')
      | (IoErr, w') \<Rightarrow> (Err errUnclassified, w')
      | (IoErrDone, w') \<Rightarrow> (Err errUnclassified, eff w')
      | (IoCrash, w') \<Rightarrow> (Crashed, w'))"

definition andThen :: "'a outcome \<times> 's \<Rightarrow> ('a \<Rightarrow> 's \<Rightarrow> 'b outcome \<times> 's) \<Rightarrow> 'b outcome \<times> 's" where
  "andThen m k =
     (case m of (Ret a, w) \<Rightarrow> k a w | (Err e, w) \<Rightarrow> (Err e, w) | (Crashed, w) \<Rightarrow> (Crashed, w))"

text \<open>An error that is reported and then cleaned up after: the cleanup's own error is dropped.\<close>

definition onError :: "unit outcome \<times> world \<Rightarrow> (world \<Rightarrow> unit outcome \<times> world) \<Rightarrow> unit outcome \<times> world" where
  "onError m cleanup =
     (case m of
        (Err e, w) \<Rightarrow> (case cleanup w of (Crashed, w') \<Rightarrow> (Crashed, w') | (_, w') \<Rightarrow> (Err e, w'))
      | r \<Rightarrow> r)"

definition readFile :: "path \<Rightarrow> world \<Rightarrow> content option outcome \<times> world" where
  "readFile p w =
     (case next_io w of
        (IoOk, w') \<Rightarrow> (Ret (map_of (files w') p), w')
      | (IoErr, w') \<Rightarrow> (Err errUnclassified, w')
      | (IoErrDone, w') \<Rightarrow> (Err errUnclassified, w')
      | (IoCrash, w') \<Rightarrow> (Crashed, w'))"

fun tempPath :: "path \<Rightarrow> path" where
  "tempPath (Root n) = Root (n @ ''.tmp'')"
| "tempPath (InBundles n) = InBundles (n @ ''.tmp'')"

fun dirExists :: "path \<Rightarrow> world \<Rightarrow> bool" where
  "dirExists (Root n) w = True"
| "dirExists (InBundles n) w = bundlesDir w"

definition putFile :: "path \<Rightarrow> content \<Rightarrow> world \<Rightarrow> world" where
  "putFile p c w = w\<lparr>files := AList.update p c (files w)\<rparr>"

definition dropFile :: "path \<Rightarrow> world \<Rightarrow> world" where
  "dropFile p w = w\<lparr>files := AList.delete p (files w)\<rparr>"

definition renameFile :: "path \<Rightarrow> path \<Rightarrow> world \<Rightarrow> world" where
  "renameFile src dst w =
     (case map_of (files w) src of
        None \<Rightarrow> w
      | Some c \<Rightarrow> dropFile src (putFile dst c w))"

definition syncBundleDir :: "world \<Rightarrow> unit outcome \<times> world" where
  "syncBundleDir w = andThen (syscall id w) (\<lambda>_. syscall id)"

text \<open>
  \<open>writeJSON\<close>: temporary file, write, fsync, close (\<open>writeTemp\<close>), then rename and fsync of the
  directory (\<open>publishTemp\<close>). A failing step closes and removes the temporary file.
\<close>

definition closeAndRemove :: "path \<Rightarrow> world \<Rightarrow> unit outcome \<times> world" where
  "closeAndRemove tmp w =
     (case syscall id w of (Crashed, w) \<Rightarrow> (Crashed, w) | (_, w) \<Rightarrow> syscall (dropFile tmp) w)"

definition writeTemp :: "path \<Rightarrow> content \<Rightarrow> world \<Rightarrow> unit outcome \<times> world" where
  "writeTemp tmp v w =
     andThen (syscall (putFile tmp Unreadable) w) (\<lambda>_ w.
     andThen (onError (syscall (putFile tmp v) w) (closeAndRemove tmp)) (\<lambda>_ w.
     andThen (onError (syscall id w) (closeAndRemove tmp)) (\<lambda>_ w.
     onError (syscall id w) (syscall (dropFile tmp)))))"

definition publishTemp :: "path \<Rightarrow> path \<Rightarrow> world \<Rightarrow> unit outcome \<times> world" where
  "publishTemp tmp p w =
     andThen (onError (syscall (renameFile tmp p) w) (syscall (dropFile tmp))) (\<lambda>_. syncBundleDir)"

definition writeJSON :: "path \<Rightarrow> content \<Rightarrow> world \<Rightarrow> unit outcome \<times> world" where
  "writeJSON p v w =
     (if \<not> dirExists p w then (Err errUnclassified, w)
      else andThen (writeTemp (tempPath p) v w) (\<lambda>_. publishTemp (tempPath p) p))"

section \<open>Bundle identifiers\<close>

definition idByte :: "char \<Rightarrow> bool" where
  "idByte c \<longleftrightarrow> (97 \<le> code c \<and> code c \<le> 122) \<or> (65 \<le> code c \<and> code c \<le> 90) \<or> (48 \<le> code c \<and> code c \<le> 57)
     \<or> c = CHR ''-'' \<or> c = CHR ''_'' \<or> c = CHR ''.''"

definition validateBundleID :: "string \<Rightarrow> bundle_error option" where
  "validateBundleID i =
     (if i = [] then Some errUnclassified
      else if length i > 128 then Some errUnclassified
      else if \<not> list_all idByte i then Some errUnclassified
      else if i = ''.'' \<or> i = ''..'' \<or> has_prefix i ''.'' then Some errUnclassified
      else None)"

definition bundlePath :: "string \<Rightarrow> bundle_error + path" where
  "bundlePath i =
     (case validateBundleID i of Some e \<Rightarrow> Inl e | None \<Rightarrow> Inr (InBundles (i @ ''.json'')))"

section \<open>Store operations\<close>

definition bundleMetaFile :: path where "bundleMetaFile = Root ''meta.json''"
definition bundlePointerFile :: path where "bundlePointerFile = Root ''pointer.json''"

definition openBundleStore :: "string \<Rightarrow> world \<Rightarrow> unit outcome \<times> world" where
  "openBundleStore dir w =
     (if dir = [] then (Err errUnclassified, w)
      else
        andThen (syscall (\<lambda>w. w\<lparr>bundlesDir := True\<rparr>) w) (\<lambda>_ w.
        andThen (readFile bundleMetaFile w) (\<lambda>raw w.
          case raw of
            None \<Rightarrow> (let (t, w) = now_unix w
                     in writeJSON bundleMetaFile (MetaJSON \<lparr>metaSchema = bundleStoreSchema, metaCreatedAt = t\<rparr>) w)
          | Some (MetaJSON m) \<Rightarrow>
              (if metaSchema m \<noteq> bundleStoreSchema then (Err errBundleSchema, w) else (Ret (), w))
          | Some _ \<Rightarrow> (Err errBundleCorrupt, w))))"

definition sealRecord :: "(string \<Rightarrow> string) \<Rightarrow> bundleRecord \<Rightarrow> bundleRecord" where
  "sealRecord sha r =
     (let r = r\<lparr>recSchema := bundleStoreSchema\<rparr> in r\<lparr>recRecordDigest := computeRecordDigest sha r\<rparr>)"

definition Put :: "(string \<Rightarrow> string) \<Rightarrow> bundleRecord \<Rightarrow> world \<Rightarrow> unit outcome \<times> world" where
  "Put sha r w =
     (case bundlePath (recID r) of
        Inl e \<Rightarrow> (Err e, w)
      | Inr p \<Rightarrow> writeJSON p (RecordJSON (sealRecord sha r)) w)"

definition checkRecord :: "(string \<Rightarrow> string) \<Rightarrow> string \<Rightarrow> content \<Rightarrow> bundle_error + bundleRecord" where
  "checkRecord sha i c =
     (case c of
        RecordJSON r \<Rightarrow>
          (if recSchema r \<noteq> bundleStoreSchema then Inl errBundleSchema
           else if recRecordDigest r \<noteq> computeRecordDigest sha r then Inl errBundleCorrupt
           else if recID r \<noteq> i then Inl errBundleCorrupt
           else Inr r)
      | _ \<Rightarrow> Inl errBundleCorrupt)"

definition Get :: "(string \<Rightarrow> string) \<Rightarrow> string \<Rightarrow> world \<Rightarrow> bundleRecord outcome \<times> world" where
  "Get sha i w =
     (case bundlePath i of
        Inl e \<Rightarrow> (Err e, w)
      | Inr p \<Rightarrow>
          andThen (readFile p w) (\<lambda>raw w.
            case raw of
              None \<Rightarrow> (Err errBundleNotFound, w)
            | Some c \<Rightarrow> (case checkRecord sha i c of Inl e \<Rightarrow> (Err e, w) | Inr r \<Rightarrow> (Ret r, w))))"

definition Delete :: "string \<Rightarrow> world \<Rightarrow> unit outcome \<times> world" where
  "Delete i w =
     (case bundlePath i of
        Inl e \<Rightarrow> (Err e, w)
      | Inr p \<Rightarrow> andThen (syscall (dropFile p) w) (\<lambda>_. syncBundleDir))"

definition bundleNames :: "world \<Rightarrow> string list" where
  "bundleNames w = map (\<lambda>p. case p of InBundles n \<Rightarrow> n | Root n \<Rightarrow> n)
     (filter (\<lambda>p. case p of InBundles _ \<Rightarrow> True | Root _ \<Rightarrow> False) (remdups (map fst (files w))))"

definition ListBundles :: "world \<Rightarrow> string list outcome \<times> world" where
  "ListBundles w =
     (case next_io w of
        (IoOk, w') \<Rightarrow>
          (if \<not> bundlesDir w' then (Ret [], w')
           else (Ret (sort (map (\<lambda>n. trim_suffix n ''.json'')
                   (filter (\<lambda>n. has_suffix n ''.json'') (bundleNames w')))), w'))
      | (IoCrash, w') \<Rightarrow> (Crashed, w')
      | (_, w') \<Rightarrow> (Err errUnclassified, w'))"

definition emptyPointer :: bundlePointer where
  "emptyPointer = \<lparr>ptrSchema = bundleStoreSchema, ptrActive = [], ptrPrevious = [], ptrUpdatedAt = 0, ptrDigest = []\<rparr>"

definition checkPointer :: "(string \<Rightarrow> string) \<Rightarrow> content \<Rightarrow> bundle_error + bundlePointer" where
  "checkPointer sha c =
     (case c of
        PointerJSON p \<Rightarrow>
          (if ptrSchema p \<noteq> bundleStoreSchema then Inl errBundleSchema
           else if ptrDigest p \<noteq> computePointerDigest sha p then Inl errBundleCorrupt
           else Inr p)
      | _ \<Rightarrow> Inl errBundleCorrupt)"

definition Pointer :: "(string \<Rightarrow> string) \<Rightarrow> world \<Rightarrow> bundlePointer outcome \<times> world" where
  "Pointer sha w =
     andThen (readFile bundlePointerFile w) (\<lambda>raw w.
       case raw of
         None \<Rightarrow> (Ret emptyPointer, w)
       | Some c \<Rightarrow> (case checkPointer sha c of Inl e \<Rightarrow> (Err e, w) | Inr p \<Rightarrow> (Ret p, w)))"

definition sealPointer :: "(string \<Rightarrow> string) \<Rightarrow> int \<Rightarrow> bundlePointer \<Rightarrow> bundlePointer" where
  "sealPointer sha t p =
     (let p = p\<lparr>ptrSchema := bundleStoreSchema, ptrUpdatedAt := t\<rparr>
      in p\<lparr>ptrDigest := computePointerDigest sha p\<rparr>)"

definition SetPointer :: "(string \<Rightarrow> string) \<Rightarrow> bundlePointer \<Rightarrow> world \<Rightarrow> unit outcome \<times> world" where
  "SetPointer sha p w =
     (let (t, w) = now_unix w in writeJSON bundlePointerFile (PointerJSON (sealPointer sha t p)) w)"

text \<open>
  \<^verbatim>\<open>os.RemoveAll\<close> removes what it can entry by entry, and the directory only when every entry
  went; the first error is what it reports.
\<close>

fun removeEntries :: "string list \<Rightarrow> world \<Rightarrow> bool outcome \<times> world" where
  "removeEntries [] w = (Ret True, w)"
| "removeEntries (n # ns) w =
     (case syscall (dropFile (InBundles n)) w of
        (Crashed, w) \<Rightarrow> (Crashed, w)
      | (Err _, w) \<Rightarrow> (case removeEntries ns w of (Ret _, w) \<Rightarrow> (Ret False, w) | r \<Rightarrow> r)
      | (Ret _, w) \<Rightarrow> removeEntries ns w)"

definition removeAllBundles :: "world \<Rightarrow> unit outcome \<times> world" where
  "removeAllBundles w =
     andThen (removeEntries (bundleNames w) w) (\<lambda>clean w.
       if clean then syscall (\<lambda>w. w\<lparr>bundlesDir := False\<rparr>) w else (Err errUnclassified, w))"

definition PurgeStore :: "world \<Rightarrow> unit outcome \<times> world" where
  "PurgeStore w =
     andThen (removeAllBundles w) (\<lambda>_ w.
     andThen (syscall (dropFile bundlePointerFile) w) (\<lambda>_ w.
     andThen (syscall (\<lambda>w. w\<lparr>bundlesDir := True\<rparr>) w) (\<lambda>_ w.
     syncBundleDir w)))"

section \<open>What a system call can and cannot change\<close>

text \<open>
  A view is a projection of the world that does not read the fault schedule. An operation built
  from calls that keep a view keeps it on every outcome.
\<close>

definition view :: "(world \<Rightarrow> 'v) \<Rightarrow> bool" where
  "view f \<longleftrightarrow> (\<forall>w xs. f (w\<lparr>faults := xs\<rparr>) = f w)"

definition keeps :: "('s \<Rightarrow> 'v) \<Rightarrow> 's \<Rightarrow> 'a outcome \<times> 's \<Rightarrow> bool" where
  "keeps f w m \<longleftrightarrow> f (snd m) = f w"

named_theorems keeping "operations that keep a view of the world"

lemma keeps_syscall [keeping]: "view f \<Longrightarrow> (\<And>w. f (eff w) = f w) \<Longrightarrow> keeps f w (syscall eff w)"
  by (auto simp: keeps_def view_def syscall_def next_io_def split: list.splits io.splits)

lemma keeps_andThen [keeping]:
  "keeps f w m \<Longrightarrow> (\<And>a w1. keeps f w1 (k a w1)) \<Longrightarrow> keeps f w (andThen m k)"
  by (auto simp: keeps_def andThen_def split: prod.splits outcome.splits)

lemma keeps_onError [keeping]:
  "keeps f w m \<Longrightarrow> (\<And>w1. keeps f w1 (cleanup w1)) \<Longrightarrow> keeps f w (onError m cleanup)"
  by (auto simp: keeps_def onError_def split: prod.splits outcome.splits) (metis snd_conv)+

lemma keeps_readFile [keeping]: "view f \<Longrightarrow> keeps f w (readFile p w)"
  by (auto simp: keeps_def view_def readFile_def next_io_def split: list.splits io.splits)

lemma keeps_closeAndRemove [keeping]:
  assumes "view f" and "\<And>w. f (dropFile tmp w) = f w"
  shows "keeps f w (closeAndRemove tmp w)"
  using keeps_syscall[OF assms(1), of id w] keeps_syscall[OF assms]
  by (auto simp: keeps_def closeAndRemove_def split: prod.splits outcome.splits)

lemma keeps_syncBundleDir [keeping]: "view f \<Longrightarrow> keeps f w (syncBundleDir w)"
  unfolding syncBundleDir_def by (intro keeping) auto

lemma keeps_writeTemp [keeping]:
  assumes "view f" and "\<And>w c. f (putFile tmp c w) = f w" and "\<And>w. f (dropFile tmp w) = f w"
  shows "keeps f w (writeTemp tmp v w)"
  unfolding writeTemp_def by (intro keeping) (simp_all add: assms)

lemma syscall_Ret:
  "syscall eff w = (Ret (), w') \<Longrightarrow> \<exists>xs. w' = eff (w\<lparr>faults := xs\<rparr>)"
  by (cases w) (auto simp: syscall_def next_io_def split: list.splits io.splits)

lemma andThen_Ret: "andThen m k = (Ret b, w') \<longleftrightarrow> (\<exists>a w1. m = (Ret a, w1) \<and> k a w1 = (Ret b, w'))"
  by (auto simp: andThen_def split: prod.splits outcome.splits)

lemma onError_Ret: "onError m c = (Ret (), w) \<longleftrightarrow> m = (Ret (), w)"
  by (auto simp: onError_def split: prod.splits outcome.splits)

definition fileAt :: "path \<Rightarrow> world \<Rightarrow> content option" where
  "fileAt p w = map_of (files w) p"

lemma fileAt_faults [simp]: "fileAt p (w\<lparr>faults := xs\<rparr>) = fileAt p w" "fileAt p (w\<lparr>times := ts\<rparr>) = fileAt p w"
  "fileAt p (w\<lparr>bundlesDir := b\<rparr>) = fileAt p w"
  by (simp_all add: fileAt_def)

lemma fileAt_putFile [simp]: "fileAt q (putFile p c w) = (if q = p then Some c else fileAt q w)"
  by (simp add: fileAt_def putFile_def)

lemma fileAt_dropFile [simp]: "fileAt q (dropFile p w) = (if q = p then None else fileAt q w)"
  by (simp add: fileAt_def dropFile_def)

lemma fileAt_renameFile:
  "src \<noteq> dst \<Longrightarrow> fileAt src w = Some c \<Longrightarrow>
     fileAt q (renameFile src dst w) = (if q = src then None else if q = dst then Some c else fileAt q w)"
  by (simp add: renameFile_def fileAt_def dropFile_def putFile_def)

lemma view_fileAt [simp]: "view (fileAt p)"
  by (simp add: view_def)

lemma tempPath_neq [simp]: "tempPath p \<noteq> p" "p \<noteq> tempPath p"
  by (cases p; simp)+

lemma tempPath_inject [simp]: "tempPath p = tempPath q \<longleftrightarrow> p = q"
  by (cases p; cases q; simp)

lemma writeTemp_Ret:
  assumes "writeTemp tmp v w = (Ret (), w')"
  shows "fileAt tmp w' = Some v"
proof -
  from assms obtain w1 w2 w3 where
    "syscall (putFile tmp v) w1 = (Ret (), w2)" "syscall id w2 = (Ret (), w3)" "syscall id w3 = (Ret (), w')"
    by (auto simp: writeTemp_def andThen_Ret onError_Ret)
  then show ?thesis by (auto dest!: syscall_Ret)
qed

lemma publishTemp_cases:
  assumes "fileAt tmp w = Some v" and "tmp \<noteq> p" and "publishTemp tmp p w = (x, w')"
  shows "fileAt p w' = Some v \<or> (fileAt p w' = fileAt p w \<and> x \<noteq> Ret ())"
proof -
  obtain y w1 where r: "syscall (renameFile tmp p) w = (y, w1)" by fastforce
  then have "fileAt p w1 = Some v \<or> (fileAt p w1 = fileAt p w \<and> y \<noteq> Ret ())"
    using assms(1,2)
    by (auto simp: syscall_def next_io_def fileAt_renameFile split: list.splits io.splits)
  moreover have "keeps (fileAt p) w1 (andThen (onError (y, w1) (syscall (dropFile tmp))) (\<lambda>_. syncBundleDir))"
    using assms(2) by (intro keeping) (simp_all add: keeps_def)
  then have "fileAt p w' = fileAt p w1"
    using assms(3) r by (simp add: publishTemp_def keeps_def)
  moreover have "x = Ret () \<Longrightarrow> y = Ret ()"
    using assms(3) r by (auto simp: publishTemp_def andThen_Ret onError_Ret)
  ultimately show ?thesis by auto
qed

lemma keeps_publishTemp [keeping]:
  assumes "q \<noteq> tmp" and "q \<noteq> p"
  shows "keeps (fileAt q) w (publishTemp tmp p w)"
proof -
  have "\<And>w. fileAt q (renameFile tmp p w) = fileAt q w"
    using assms by (simp add: renameFile_def split: option.splits)
  then show ?thesis
    unfolding publishTemp_def using assms by (intro keeping) simp_all
qed

text \<open>
  The atomicity of \<open>writeJSON\<close>: on every fault schedule the target holds its old content or the
  whole new one, a success means the new one, and no other artifact is touched.
\<close>

lemma writeJSON_atomic:
  assumes "writeJSON p v w = (x, w')"
  shows "fileAt p w' = Some v \<or> (fileAt p w' = fileAt p w \<and> x \<noteq> Ret ())"
proof (cases "dirExists p w")
  case True
  obtain y w1 where t: "writeTemp (tempPath p) v w = (y, w1)" by fastforce
  have keep: "fileAt p w1 = fileAt p w" using keeps_writeTemp[of "fileAt p" "tempPath p" w v] t by (simp add: keeps_def)
  show ?thesis
  proof (cases y)
    case (Ret u)
    with t have "fileAt (tempPath p) w1 = Some v" by (simp add: writeTemp_Ret)
    moreover have "publishTemp (tempPath p) p w1 = (x, w')"
      using assms True t Ret by (simp add: writeJSON_def andThen_def)
    ultimately show ?thesis using publishTemp_cases[of "tempPath p" w1 v p x w'] keep by simp
  qed (use assms True t keep in \<open>auto simp: writeJSON_def andThen_def\<close>)
qed (use assms in \<open>auto simp: writeJSON_def\<close>)

lemma keeps_writeJSON [keeping]:
  assumes "q \<noteq> p" and "q \<noteq> tempPath p"
  shows "keeps (fileAt q) w (writeJSON p v w)"
  using assms by (simp add: writeJSON_def) (intro conjI impI keeping, simp_all add: keeps_def)

section \<open>The store as a durable store\<close>

definition recs :: "world \<Rightarrow> string \<Rightarrow> content option" where
  "recs w i = fileAt (InBundles (i @ ''.json'')) w"

definition ptrf :: "world \<Rightarrow> content option" where
  "ptrf w = fileAt bundlePointerFile w"

definition names :: "(string \<Rightarrow> string) \<Rightarrow> content \<Rightarrow> string option" where
  "names sha c = (case checkPointer sha c of
      Inl _ \<Rightarrow> None | Inr p \<Rightarrow> if ptrActive p = [] then None else Some (ptrActive p))"

definition target :: "bundlePointer \<Rightarrow> string option" where
  "target p = (if ptrActive p = [] then None else Some (ptrActive p))"

definition isRet :: "'a outcome \<Rightarrow> bool" where
  "isRet x \<longleftrightarrow> (\<exists>a. x = Ret a)"

definition listing :: "world \<Rightarrow> string list option \<times> world" where
  "listing w = (case ListBundles w of (Ret ids, w) \<Rightarrow> (Some ids, w) | (_, w) \<Rightarrow> (None, w))"

lemma view_recs [simp]: "view recs" "view ptrf" "view (\<lambda>w. recs w i)"
  by (simp_all add: view_def recs_def ptrf_def fun_eq_iff)

lemma tempPath_not_record: "InBundles (i @ ''.json'') \<noteq> tempPath (InBundles (j @ ''.json''))"
proof
  assume "InBundles (i @ ''.json'') = tempPath (InBundles (j @ ''.json''))"
  then have "rev (i @ ''.json'') = rev (j @ ''.json'' @ ''.tmp'')" by simp
  then show False by simp
qed

lemma record_paths_distinct [simp]:
  "bundlePointerFile \<noteq> InBundles n" "InBundles n \<noteq> bundlePointerFile" "bundlePointerFile \<noteq> bundleMetaFile"
  by (simp_all add: bundlePointerFile_def bundleMetaFile_def)

lemma keeps_recs_pointer_write [keeping]: "keeps recs w (writeJSON bundlePointerFile v w)"
proof -
  have "keeps (fileAt (InBundles n)) w (writeJSON bundlePointerFile v w)" for n
    by (rule keeps_writeJSON) (simp_all add: bundlePointerFile_def)
  then show ?thesis by (simp add: keeps_def recs_def fun_eq_iff)
qed

lemma keeps_ptrf_record_write [keeping]: "keeps ptrf w (writeJSON (InBundles n) v w)"
proof -
  have "keeps (fileAt bundlePointerFile) w (writeJSON (InBundles n) v w)"
    by (rule keeps_writeJSON) (simp_all add: bundlePointerFile_def)
  then show ?thesis by (simp add: keeps_def ptrf_def)
qed

lemma writeJSON_recs:
  assumes "writeJSON (InBundles (i @ ''.json'')) v w = (x, w')"
  shows "recs w' = (recs w)(i \<mapsto> v) \<or> recs w' = recs w \<and> \<not> isRet x"
proof -
  have other: "recs w' j = recs w j" if "j \<noteq> i" for j
    using keeps_writeJSON[of "InBundles (j @ ''.json'')" "InBundles (i @ ''.json'')" w v] that assms
      tempPath_not_record[of j i] by (simp add: keeps_def recs_def)
  from writeJSON_atomic[OF assms] have "recs w' i = Some v \<or> recs w' i = recs w i \<and> \<not> isRet x"
    by (auto simp: recs_def isRet_def)
  then show ?thesis using other by (metis fun_upd_apply ext)
qed

lemma checkPointer_seal: "checkPointer sha (PointerJSON (sealPointer sha t p)) = Inr (sealPointer sha t p)"
  by (simp add: checkPointer_def sealPointer_def Let_def computePointerDigest_def pointerPreimage_def)

lemma checkRecord_seal: "checkRecord sha (recID r) (RecordJSON (sealRecord sha r)) = Inr (sealRecord sha r)"
  by (simp add: checkRecord_def sealRecord_def Let_def computeRecordDigest_def recordPreimage_def)

lemma sealRecord_simps [simp]:
  "recID (sealRecord sha r) = recID r" "recState (sealRecord sha r) = recState r"
  "recDigest (sealRecord sha r) = recDigest r" "recDocument (sealRecord sha r) = recDocument r"
  "recActivatedAt (sealRecord sha r) = recActivatedAt r" "recStagedAt (sealRecord sha r) = recStagedAt r"
  by (simp_all add: sealRecord_def Let_def)

lemma sealPointer_active [simp]: "ptrActive (sealPointer sha t p) = ptrActive p"
  by (simp add: sealPointer_def Let_def)

lemma keeps_now_unix: "view f \<Longrightarrow> (\<And>w ts. f (w\<lparr>times := ts\<rparr>) = f w) \<Longrightarrow> f (snd (now_unix w)) = f w"
  by (auto simp: now_unix_def split: list.splits)

lemma bundleNames_iff: "n \<in> set (bundleNames w) \<longleftrightarrow> fileAt (InBundles n) w \<noteq> None"
proof -
  have "n \<in> set (bundleNames w) \<longleftrightarrow>
      (\<exists>p\<in>fst ` set (files w). (case p of InBundles _ \<Rightarrow> True | Root _ \<Rightarrow> False) \<and> n = (case p of InBundles n \<Rightarrow> n | Root n \<Rightarrow> n))"
    by (auto simp: bundleNames_def)
  also have "\<dots> \<longleftrightarrow> InBundles n \<in> fst ` set (files w)"
  proof
    assume "\<exists>p\<in>fst ` set (files w). (case p of InBundles _ \<Rightarrow> True | Root _ \<Rightarrow> False) \<and> n = (case p of InBundles n \<Rightarrow> n | Root n \<Rightarrow> n)"
    then show "InBundles n \<in> fst ` set (files w)" by (metis path.exhaust path.simps(5,6))
  qed (metis path.simps(6))
  finally show ?thesis by (simp add: fileAt_def map_of_eq_None_iff)
qed

lemma distinct_bundleNames: "distinct (bundleNames w)"
  by (auto simp: bundleNames_def distinct_map inj_on_def split: path.splits)

lemma inj_trim_json: "inj_on (\<lambda>n. trim_suffix n ''.json'') {n. has_suffix n ''.json''}"
  by (auto simp: inj_on_def has_suffix_iff)

lemma keeps_ListBundles [keeping]: "view f \<Longrightarrow> keeps f w (ListBundles w)"
  by (auto simp: keeps_def view_def ListBundles_def next_io_def split: list.splits io.splits)

lemma ListBundles_Ret:
  assumes "ListBundles w = (Ret ids, w')" and dir: "bundlesDir w \<or> (\<forall>n. fileAt (InBundles n) w = None)"
  shows "set ids = dom (recs w)" "sorted ids \<and> distinct ids"
proof -
  let ?js = "filter (\<lambda>n. has_suffix n ''.json'') (bundleNames w)"
  have ids: "ids = (if bundlesDir w then sort (map (\<lambda>n. trim_suffix n ''.json'') ?js) else [])"
    using assms(1) by (auto simp: ListBundles_def next_io_def bundleNames_def split: list.splits io.splits if_splits)
  have "set (map (\<lambda>n. trim_suffix n ''.json'') ?js) = dom (recs w)"
    by (force simp: bundleNames_iff has_suffix_iff recs_def image_iff)
  then show "set ids = dom (recs w)" using ids dir by (auto simp: recs_def)
  have "inj_on (\<lambda>n. trim_suffix n ''.json'') (set ?js)"
    using inj_trim_json by (rule inj_on_subset) auto
  then show "sorted ids \<and> distinct ids" using ids by (simp add: distinct_map distinct_bundleNames)
qed

definition dirWf :: "world \<Rightarrow> bool" where
  "dirWf w \<longleftrightarrow> bundlesDir w \<or> (\<forall>n. fileAt (InBundles n) w = None)"

lemma view_bundlesDir [simp]: "view bundlesDir"
  by (simp add: view_def)

lemma bundlesDir_file_ops [simp]:
  "bundlesDir (putFile p c w) = bundlesDir w" "bundlesDir (dropFile p w) = bundlesDir w"
  "bundlesDir (renameFile p q w) = bundlesDir w"
  by (simp_all add: putFile_def dropFile_def renameFile_def split: option.splits)

lemma keeps_bundlesDir_writeJSON [keeping]: "keeps bundlesDir w (writeJSON p v w)"
proof -
  have "keeps bundlesDir w1 (publishTemp q p w1)" for q w1
    unfolding publishTemp_def by (intro keeping) simp_all
  then show ?thesis unfolding writeJSON_def by (auto intro!: keeping) (simp add: keeps_def)
qed

lemma Put_valid: "validateBundleID (recID r) = None \<Longrightarrow>
    Put sha r w = writeJSON (InBundles (recID r @ ''.json'')) (RecordJSON (sealRecord sha r)) w"
  by (simp add: Put_def bundlePath_def)

lemma Put_invalid: "validateBundleID (recID r) = Some e \<Longrightarrow> Put sha r w = (Err e, w)"
  by (simp add: Put_def bundlePath_def)

lemma keeps_dropFile_pointer [simp]: "ptrf (dropFile (InBundles n) w) = ptrf w"
  by (simp add: ptrf_def)

lemma Delete_valid: "validateBundleID i = None \<Longrightarrow>
    Delete i w = andThen (syscall (dropFile (InBundles (i @ ''.json''))) w) (\<lambda>_. syncBundleDir)"
  by (simp add: Delete_def bundlePath_def)

lemma recs_dropFile: "recs (dropFile (InBundles (i @ ''.json'')) w) = (recs w)(i := None)"
  by (auto simp: recs_def)

lemma syscall_cases:
  "(\<exists>xs. snd (syscall eff w) = eff (w\<lparr>faults := xs\<rparr>)) \<or> (\<exists>xs. snd (syscall eff w) = w\<lparr>faults := xs\<rparr> \<and> \<not> isRet (fst (syscall eff w)))"
  by (cases w) (auto simp: syscall_def next_io_def isRet_def split: list.splits io.splits)

lemma andThen_isRet: "isRet (fst (andThen m k)) \<Longrightarrow> isRet (fst m)"
  by (auto simp: andThen_def isRet_def split: prod.splits outcome.splits)

lemma recs_view: "recs (w\<lparr>faults := xs\<rparr>) = recs w"
  by (simp add: recs_def fun_eq_iff)

lemma Delete_recs:
  "recs (snd (Delete i w)) = (recs w)(i := None) \<or> recs (snd (Delete i w)) = recs w \<and> \<not> isRet (fst (Delete i w))"
proof (cases "validateBundleID i")
  case None
  let ?s = "syscall (dropFile (InBundles (i @ ''.json''))) w"
  have "keeps recs (snd ?s) (andThen ?s (\<lambda>_. syncBundleDir))"
    by (rule keeps_andThen) (auto simp: keeps_def[of recs "snd ?s" ?s] intro: keeping)
  then have "recs (snd (Delete i w)) = recs (snd ?s)" by (simp add: Delete_valid[OF None] keeps_def)
  moreover have "\<not> isRet (fst ?s) \<Longrightarrow> \<not> isRet (fst (Delete i w))"
    using Delete_valid[OF None] andThen_isRet by metis
  ultimately show ?thesis
    using syscall_cases[of "dropFile (InBundles (i @ ''.json''))" w] by (auto simp: recs_dropFile recs_view)
qed (simp add: Delete_def bundlePath_def isRet_def)

lemma keeps_ptrf_Delete [keeping]: "keeps ptrf w (Delete i w)"
  unfolding Delete_def by (cases "bundlePath i")
    (auto simp: bundlePath_def keeps_def[of ptrf w "(Err _, w)"] split: option.splits intro!: keeping)

lemma SetPointer_pointer:
  "(\<exists>c. ptrf (snd (SetPointer sha p w)) = Some c \<and> names sha c = target p)
   \<or> ptrf (snd (SetPointer sha p w)) = ptrf w \<and> \<not> isRet (fst (SetPointer sha p w))"
proof -
  obtain u w1 where t: "now_unix w = (u, w1)" by fastforce
  obtain x w2 where wr: "writeJSON bundlePointerFile (PointerJSON (sealPointer sha u p)) w1 = (x, w2)" by fastforce
  have "ptrf w1 = ptrf w" using t by (auto simp: now_unix_def ptrf_def split: list.splits)
  moreover have "names sha (PointerJSON (sealPointer sha u p)) = target p"
    by (simp add: names_def checkPointer_seal target_def)
  ultimately show ?thesis
    using writeJSON_atomic[OF wr] t wr by (auto simp: SetPointer_def ptrf_def isRet_def)
qed

lemma keeps_recs_SetPointer [keeping]: "keeps recs w (SetPointer sha p w)"
proof -
  have "recs (snd (now_unix w)) = recs w" by (rule keeps_now_unix) (simp, simp add: recs_def fun_eq_iff)
  then show ?thesis
    using keeps_recs_pointer_write by (auto simp: SetPointer_def keeps_def split: prod.splits)
qed

lemma listing_same: "recs (snd (listing w)) = recs w" "ptrf (snd (listing w)) = ptrf w"
  using keeps_ListBundles[of recs w] keeps_ListBundles[of ptrf w]
  by (auto simp: listing_def keeps_def split: prod.splits outcome.splits)

interpretation bs: listed_store recs ptrf "Put sha" recID "\<lambda>r. RecordJSON (sealRecord sha r)" Delete
    "SetPointer sha" target "names sha" isRet dirWf listing
  for sha :: "string \<Rightarrow> string"
proof (unfold_locales, goal_cases)
  case (1 r w)
  show ?case using keeps_ptrf_record_write
    by (cases "validateBundleID (recID r)") (auto simp: Put_valid Put_invalid keeps_def)
next
  case (2 r w)
  show ?case
    using writeJSON_recs[of "recID r" "RecordJSON (sealRecord sha r)" w]
    by (cases "validateBundleID (recID r)") (auto simp: Put_valid Put_invalid isRet_def surjective_pairing)
next
  case (3 i w)
  show ?case using keeps_ptrf_Delete by (simp add: keeps_def)
next
  case (4 i w)
  show ?case by (rule Delete_recs)
next
  case (5 p w)
  show ?case using keeps_recs_SetPointer by (simp add: keeps_def)
next
  case (6 p w)
  show ?case by (rule SetPointer_pointer)
next
  case (7 w)
  show ?case by (rule listing_same)
next
  case (8 w)
  show ?case by (rule listing_same)
qed (auto simp: dirWf_def listing_def split: prod.splits outcome.splits dest: ListBundles_Ret)

end
