(* ===== verification/Bundle_Manager.thy ===== *)
theory Bundle_Manager
  imports Config_Types Bundle_Store "HOL-Library.Product_Lexorder"
begin

text \<open>
  The bundle manager of bundle_manager.go: stage, commit with compare-and-swap, abort, purge,
  recovery after a restart, and the two readbacks.

  The manager's state holds the store's world, so an operation that fails halfway leaves exactly
  the directory the Go code would leave. A live configuration is a Go pointer; it is modelled by
  the configuration together with the number of its allocation, because the configuration store
  compares pointers. \<open>decodeConfig\<close> is the argument \<open>decode\<close> (\<open>None\<close> when it returns an error);
  the mutex makes each operation one step.
\<close>

record manager =
  mgrWorld :: world
  mgrActive :: "(nat \<times> Config) option"
  mgrActiveID :: string
  mgrActiveDigest :: string
  mgrMigrated :: bool
  mgrInstanceID :: string
  mgrGeneration :: "64 word"
  mgrStaged :: "string list"
  mgrAllocs :: nat
  mgrLogging :: bool
  mgrLog :: "(string \<times> string) list"

definition newBundleManager :: "world \<Rightarrow> string \<Rightarrow> bool \<Rightarrow> manager" where
  "newBundleManager w inst logging =
     \<lparr>mgrWorld = w, mgrActive = None, mgrActiveID = [], mgrActiveDigest = [], mgrMigrated = False,
      mgrInstanceID = inst, mgrGeneration = 0, mgrStaged = [], mgrAllocs = 0, mgrLogging = logging,
      mgrLog = []\<rparr>"

text \<open>The instance identifier: the first eight bytes of a digest of the start time, in hexadecimal.\<close>

definition newInstanceID :: "(string \<Rightarrow> string) \<Rightarrow> 64 word \<Rightarrow> string" where
  "newInstanceID sha now =
     take 16 (sha (map (\<lambda>i. char_of (unat (drop_bit (8 * i) now) mod 256)) [0..<8]))"

definition publish :: "string \<Rightarrow> string \<Rightarrow> manager \<Rightarrow> manager" where
  "publish level message m =
     (if \<not> mgrLogging m then m else m\<lparr>mgrLog := mgrLog m @ [(level, message)]\<rparr>)"

definition onStore :: "(world \<Rightarrow> 'a outcome \<times> world) \<Rightarrow> manager \<Rightarrow> 'a outcome \<times> manager" where
  "onStore f m = (case f (mgrWorld m) of (x, w) \<Rightarrow> (x, m\<lparr>mgrWorld := w\<rparr>))"

definition mgrNow :: "manager \<Rightarrow> int \<times> manager" where
  "mgrNow m = (case now_unix (mgrWorld m) of (t, w) \<Rightarrow> (t, m\<lparr>mgrWorld := w\<rparr>))"

definition setActive :: "string \<Rightarrow> string \<Rightarrow> Config \<Rightarrow> manager \<Rightarrow> manager" where
  "setActive i digest cfg m =
     m\<lparr>mgrActive := Some (mgrAllocs m, cfg), mgrAllocs := Suc (mgrAllocs m),
       mgrActiveID := i, mgrActiveDigest := digest, mgrMigrated := True\<rparr>"

section \<open>Recover\<close>

definition Recover :: "(string \<Rightarrow> string) \<Rightarrow> (string \<Rightarrow> Config option) \<Rightarrow> manager \<Rightarrow> unit outcome \<times> manager" where
  "Recover sha decode m =
     andThen (onStore (Pointer sha) m) (\<lambda>ptr m.
       if ptrActive ptr = [] then (Ret (), m)
       else andThen (onStore (Get sha (ptrActive ptr)) m) (\<lambda>r m.
         case decode (recDocument r) of
           None \<Rightarrow> (Err errUnclassified, m)
         | Some cfg \<Rightarrow>
             (let m = m\<lparr>mgrGeneration := 1\<rparr>;
                  m = setActive (recID r) (recDigest r) cfg m
              in (Ret (), publish ''info'' (''recovered bundle '' @ recID r @ '' after restart'') m))))"

section \<open>Stage\<close>

definition stagedRecord :: "int \<Rightarrow> string \<Rightarrow> string \<Rightarrow> string \<Rightarrow> bundleRecord" where
  "stagedRecord t i digest document =
     \<lparr>recSchema = 0, recID = i, recState = bundleStaged, recDigest = digest, recDocument = document,
      recStagedAt = t, recActivatedAt = 0, recRecordDigest = []\<rparr>"

definition Stage :: "(string \<Rightarrow> string) \<Rightarrow> (string \<Rightarrow> Config option) \<Rightarrow> string \<Rightarrow> string \<Rightarrow> manager \<Rightarrow> string outcome \<times> manager" where
  "Stage sha decode i document m =
     (case validateBundleID i of
        Some e \<Rightarrow> (Err e, m)
      | None \<Rightarrow>
          (case decode document of
             None \<Rightarrow> (Err errBundleInvalidDocument, m)
           | Some cfg \<Rightarrow>
               (let digest = sha document
                in case onStore (Get sha i) m of
                     (Crashed, m) \<Rightarrow> (Crashed, m)
                   | (Ret existing, m) \<Rightarrow>
                       (if recDigest existing \<noteq> digest then (Err errBundleWrongState, m)
                        else (Ret digest,
                              if recState existing = bundleStaged
                              then m\<lparr>mgrStaged := List.insert i (mgrStaged m)\<rparr> else m))
                   | (Err e, m) \<Rightarrow>
                       (if e \<noteq> errBundleNotFound then (Err e, m)
                        else
                          (let (t, m) = mgrNow m
                           in andThen (onStore (Put sha (stagedRecord t i digest document)) m) (\<lambda>_ m.
                                (Ret digest,
                                 publish ''info'' (''staged bundle '' @ i @ '' ('' @ itoa (int (length (cfgModules cfg))) @ '' extensions)'')
                                   (m\<lparr>mgrStaged := List.insert i (mgrStaged m)\<rparr>))))))))"

section \<open>Commit and pruning\<close>

definition bundleRetainedGenerations :: nat where "bundleRetainedGenerations = 3"

fun collectSuperseded :: "(string \<Rightarrow> string) \<Rightarrow> string \<Rightarrow> string list \<Rightarrow> manager \<Rightarrow> (string \<times> int) list outcome \<times> manager" where
  "collectSuperseded sha justSuperseded [] m = (Ret [], m)"
| "collectSuperseded sha justSuperseded (i # ids) m =
     (if i = justSuperseded then collectSuperseded sha justSuperseded ids m
      else (case onStore (Get sha i) m of
              (Crashed, m) \<Rightarrow> (Crashed, m)
            | (Err _, m) \<Rightarrow> collectSuperseded sha justSuperseded ids m
            | (Ret r, m) \<Rightarrow>
                (if recState r = bundleSuperseded
                 then andThen (collectSuperseded sha justSuperseded ids m) (\<lambda>rest m. (Ret ((i, recActivatedAt r) # rest), m))
                 else collectSuperseded sha justSuperseded ids m)))"

text \<open>Newest activation first, the identifier breaking ties, both descending.\<close>

definition newestFirst :: "(string \<times> int) list \<Rightarrow> string list" where
  "newestFirst activated = map snd (rev (sort (map (\<lambda>(i, t). (t, i)) activated)))"

fun pruneDelete :: "string list \<Rightarrow> manager \<Rightarrow> unit outcome \<times> manager" where
  "pruneDelete [] m = (Ret (), m)"
| "pruneDelete (i # ids) m =
     (case onStore (Delete i) m of
        (Crashed, m) \<Rightarrow> (Crashed, m)
      | (Err _, m) \<Rightarrow> (Ret (), publish ''warn'' (''could not prune superseded bundle '' @ i) m)
      | (Ret _, m) \<Rightarrow> pruneDelete ids (publish ''info'' (''pruned superseded bundle '' @ i) m))"

definition pruneSuperseded :: "(string \<Rightarrow> string) \<Rightarrow> string \<Rightarrow> manager \<Rightarrow> unit outcome \<times> manager" where
  "pruneSuperseded sha justSuperseded m =
     (case onStore ListBundles m of
        (Crashed, m) \<Rightarrow> (Crashed, m)
      | (Err _, m) \<Rightarrow> (Ret (), publish ''warn'' ''could not list bundles to prune'' m)
      | (Ret ids, m) \<Rightarrow>
          (let older = bundleRetainedGenerations - 1
           in andThen (collectSuperseded sha justSuperseded ids m) (\<lambda>activated m.
                if length activated \<le> older then (Ret (), m)
                else pruneDelete (drop older (newestFirst activated)) m)))"

definition markSuperseded :: "(string \<Rightarrow> string) \<Rightarrow> string \<Rightarrow> manager \<Rightarrow> unit outcome \<times> manager" where
  "markSuperseded sha current m =
     (if current = [] then (Ret (), m)
      else (case onStore (Get sha current) m of
              (Crashed, m) \<Rightarrow> (Crashed, m)
            | (Err _, m) \<Rightarrow> (Ret (), m)
            | (Ret prev, m) \<Rightarrow>
                (case onStore (Put sha (prev\<lparr>recState := bundleSuperseded\<rparr>)) m of
                   (Crashed, m) \<Rightarrow> (Crashed, m)
                 | (Err _, m) \<Rightarrow> (Ret (), publish ''warn'' (''could not mark '' @ current @ '' superseded'') m)
                 | (Ret _, m) \<Rightarrow> (Ret (), m))))"

definition activeRecord :: "int \<Rightarrow> bundleRecord \<Rightarrow> bundleRecord" where
  "activeRecord t r = r\<lparr>recState := bundleActive, recActivatedAt := t\<rparr>"

definition pointerTo :: "string \<Rightarrow> string \<Rightarrow> bundlePointer" where
  "pointerTo i current = \<lparr>ptrSchema = 0, ptrActive = i, ptrPrevious = current, ptrUpdatedAt = 0, ptrDigest = []\<rparr>"

definition goLive :: "(string \<Rightarrow> string) \<Rightarrow> string \<Rightarrow> string \<Rightarrow> string \<Rightarrow> Config \<Rightarrow> manager \<Rightarrow> string outcome \<times> manager" where
  "goLive sha i current digest cfg m =
     (let m = setActive i digest cfg m;
          m = m\<lparr>mgrGeneration := mgrGeneration m + 1, mgrStaged := removeAll i (mgrStaged m)\<rparr>;
          m = publish ''info'' (''committed bundle '' @ i @ '' as generation '' @ itoa (uint (mgrGeneration m))) m
      in andThen (pruneSuperseded sha current m) (\<lambda>_ m. (Ret digest, m)))"

definition Commit :: "(string \<Rightarrow> string) \<Rightarrow> (string \<Rightarrow> Config option) \<Rightarrow> string \<Rightarrow> string \<Rightarrow> manager \<Rightarrow> string outcome \<times> manager" where
  "Commit sha decode i expectedActive m =
     (let current = mgrActiveID m
      in if current = i then (Ret (mgrActiveDigest m), m)
         else if current \<noteq> expectedActive then (Err errBundleConflict, m)
         else andThen (onStore (Get sha i) m) (\<lambda>r m.
           case decode (recDocument r) of
             None \<Rightarrow> (Err errBundleInvalidDocument, m)
           | Some cfg \<Rightarrow>
               (let (t, m) = mgrNow m; r = activeRecord t r
                in andThen (onStore (Put sha r) m) (\<lambda>_ m.
                   andThen (onStore (SetPointer sha (pointerTo i current)) m) (\<lambda>_ m.
                   andThen (markSuperseded sha current m) (\<lambda>_ m.
                   goLive sha i current (recDigest r) cfg m))))))"

section \<open>Abort and purge\<close>

definition Abort :: "(string \<Rightarrow> string) \<Rightarrow> string \<Rightarrow> manager \<Rightarrow> unit outcome \<times> manager" where
  "Abort sha i m =
     (if mgrActiveID m = i then (Err errBundleWrongState, m)
      else andThen (onStore (Get sha i) m) (\<lambda>r m.
        if recState r = bundleActive then (Err errBundleWrongState, m)
        else onStore (Delete i) (m\<lparr>mgrStaged := removeAll i (mgrStaged m)\<rparr>)))"

definition Purge :: "manager \<Rightarrow> unit outcome \<times> manager" where
  "Purge m =
     (let m = m\<lparr>mgrActive := None, mgrGeneration := 0, mgrActiveID := [], mgrActiveDigest := [], mgrStaged := []\<rparr>;
          m = publish ''warn'' ''purged all bundle state'' m
      in onStore PurgeStore m)"

section \<open>Readbacks\<close>

record bundleReadback =
  rbSchema :: int
  rbInstanceID :: string
  rbActiveBundle :: string
  rbActiveDigest :: string
  rbGeneration :: "64 word"
  rbMasterEnabled :: bool
  rbExtensions :: nat
  rbCaptureHosts :: nat
  rbStaged :: "string list"
  rbStored :: "string list"
  rbVersion :: string
  rbDroppedLogs :: "64 word"

definition Readback :: "string \<Rightarrow> 64 word \<Rightarrow> manager \<Rightarrow> bundleReadback outcome \<times> manager" where
  "Readback version dropped m =
     (let rb = \<lparr>rbSchema = bundleStoreSchema, rbInstanceID = mgrInstanceID m, rbActiveBundle = mgrActiveID m,
                rbActiveDigest = mgrActiveDigest m, rbGeneration = 0, rbMasterEnabled = False, rbExtensions = 0,
                rbCaptureHosts = 0, rbStaged = mgrStaged m, rbStored = [], rbVersion = version,
                rbDroppedLogs = dropped\<rparr>;
          rb = (case mgrActive m of
                  None \<Rightarrow> rb
                | Some (_, cfg) \<Rightarrow>
                    rb\<lparr>rbGeneration := mgrGeneration m, rbMasterEnabled := mitmEnabled (cfgMITM cfg),
                       rbExtensions := length (cfgModules cfg),
                       rbCaptureHosts := length (remdups (concat (map modCaptureHosts (cfgModules cfg))))\<rparr>)
      in case onStore ListBundles m of
           (Ret stored, m) \<Rightarrow> (Ret (rb\<lparr>rbStored := stored\<rparr>), m)
         | (Err _, m) \<Rightarrow> (Ret rb, m)
         | (Crashed, m) \<Rightarrow> (Crashed, m))"

record pluginStatus =
  psID :: string
  psName :: string
  psVersion :: string
  psEnabled :: bool
  psCaptureHosts :: "string list"
  psActions :: nat
  psSettings :: nat
  psNetwork :: bool
  psEgressGroup :: string
  psOrder :: nat

fun orderOf :: "nat \<Rightarrow> (string \<times> nat) list \<Rightarrow> string list \<Rightarrow> (string \<times> nat) list" where
  "orderOf k order [] = order"
| "orderOf k order (i # ids) = orderOf (Suc k) (AList.update i k order) ids"

definition Plugins :: "manager \<Rightarrow> string \<times> pluginStatus list" where
  "Plugins m =
     (case mgrActive m of
        None \<Rightarrow> (mgrActiveID m, [])
      | Some (_, cfg) \<Rightarrow>
          (let order = orderOf 0 [] (case cfgExecutionOrder cfg of None \<Rightarrow> [] | Some ids \<Rightarrow> ids)
           in (mgrActiveID m,
               map (\<lambda>mo. \<lparr>psID = modID mo, psName = modName mo, psVersion = modVersion mo, psEnabled = modEnabled mo,
                          psCaptureHosts = modCaptureHosts mo, psActions = length (modScripts mo),
                          psSettings = length (modSettings mo), psNetwork = modNetwork mo,
                          psEgressGroup = modEgressGroup mo,
                          psOrder = (case map_of order (modID mo) of None \<Rightarrow> 0 | Some k \<Rightarrow> k)\<rparr>)
                   (cfgModules cfg))))"

end
