(* ===== verification/Bundle_Lifecycle.thy ===== *)
theory Bundle_Lifecycle
  imports Bundle_Manager
begin

text \<open>
  What the bundle manager guarantees. The first part says how each operation can change the
  stored records and the pointer, on every fault schedule; the second is the step relation of
  the process: operations, crashes at any system call, and restarts.
\<close>

section \<open>Facts about single operations\<close>

abbreviation mrecs :: "manager \<Rightarrow> string \<Rightarrow> content option" where "mrecs m \<equiv> recs (mgrWorld m)"
abbreviation mptr :: "manager \<Rightarrow> content option" where "mptr m \<equiv> ptrf (mgrWorld m)"
abbreviation mnamed :: "(string \<Rightarrow> string) \<Rightarrow> manager \<Rightarrow> string option" where
  "mnamed sha m \<equiv> bs.named sha (mgrWorld m)"

lemma outcome_cases3:
  obtains (ret) a w where "m = (Ret a, w)" | (err) e w where "m = (Err e, w)" | (crash) w where "m = (Crashed, w)"
  by (metis outcome.exhaust surj_pair)

lemma andThen_simps [simp]:
  "andThen (Ret a, w) k = k a w" "andThen (Err e, w) k = (Err e, w)" "andThen (Crashed, w) k = (Crashed, w)"
  by (simp_all add: andThen_def)

lemma checkRecord_id: "checkRecord sha i c = Inr r \<Longrightarrow> recID r = i"
  by (auto simp: checkRecord_def split: content.splits if_splits)

lemma keeps_Get [keeping]: "view f \<Longrightarrow> keeps f w (Get sha i w)"
  unfolding Get_def
  by (cases "bundlePath i")
     (auto simp: keeps_def[of f w "(Err _, w)"] keeps_def[of f _ "(Ret _, _)"] keeps_def[of f _ "(Err _, _)"]
       intro!: keeping split: option.splits sum.splits)

lemma Get_Ret: "Get sha i w = (Ret r, w') \<Longrightarrow> \<exists>c. recs w i = Some c \<and> checkRecord sha i c = Inr r"
  by (auto simp: Get_def bundlePath_def readFile_def next_io_def recs_def fileAt_def
      split: option.splits sum.splits list.splits io.splits)

lemma Get_valid: "Get sha i w = (Ret r, w') \<Longrightarrow> validateBundleID i = None"
  by (auto simp: Get_def bundlePath_def split: option.splits)

lemma checkRecord_not_found: "checkRecord sha i c \<noteq> Inl errBundleNotFound"
  by (auto simp: checkRecord_def split: content.splits)

lemma Get_not_found:
  assumes "Get sha i w = (Err errBundleNotFound, w')"
  shows "recs w i = None"
proof (cases "validateBundleID i")
  case None
  then show ?thesis using assms checkRecord_not_found[of sha i]
    by (auto simp: Get_def bundlePath_def readFile_def next_io_def recs_def fileAt_def
        split: option.splits sum.splits list.splits io.splits)
next
  case (Some e)
  then show ?thesis using assms
    by (auto simp: Get_def bundlePath_def validateBundleID_def split: if_splits)
qed

lemma onStore_eq: "onStore f m = (x, m') \<longleftrightarrow> f (mgrWorld m) = (x, mgrWorld m') \<and> m' = m\<lparr>mgrWorld := mgrWorld m'\<rparr>"
  by (cases m; cases m') (auto simp: onStore_def split: prod.splits)

lemma publish_frame [simp]:
  "mgrWorld (publish l s m) = mgrWorld m" "mgrActive (publish l s m) = mgrActive m"
  "mgrActiveID (publish l s m) = mgrActiveID m" "mgrActiveDigest (publish l s m) = mgrActiveDigest m"
  "mgrMigrated (publish l s m) = mgrMigrated m" "mgrGeneration (publish l s m) = mgrGeneration m"
  "mgrStaged (publish l s m) = mgrStaged m" "mgrAllocs (publish l s m) = mgrAllocs m"
  by (simp_all add: publish_def)

text \<open>The part of the manager that identifies what it serves.\<close>

definition live :: "manager \<Rightarrow> (nat \<times> Config) option \<times> string \<times> string \<times> bool \<times> 64 word \<times> nat" where
  "live m = (mgrActive m, mgrActiveID m, mgrActiveDigest m, mgrMigrated m, mgrGeneration m, mgrAllocs m)"

lemma live_publish [simp]: "live (publish l s m) = live m"
  by (simp add: live_def)

lemma live_world [simp]: "live (m\<lparr>mgrWorld := w\<rparr>) = live m" "live (m\<lparr>mgrStaged := s\<rparr>) = live m"
  by (simp_all add: live_def)

lemma keeps_live_onStore [keeping]: "keeps live m (onStore f m)"
  by (auto simp: keeps_def onStore_def split: prod.splits)

lemma keeps_onStore [keeping]: "keeps f (mgrWorld m) (g (mgrWorld m)) \<Longrightarrow> keeps (\<lambda>m. f (mgrWorld m)) m (onStore g m)"
  by (auto simp: keeps_def onStore_def split: prod.splits)

lemma keepsD: "keeps f w m \<Longrightarrow> m = (x, w') \<Longrightarrow> f w' = f w"
  by (simp add: keeps_def)

lemma onStore_Get:
  assumes "onStore (Get sha i) m = (x, m')"
  shows "mrecs m' = mrecs m" "mptr m' = mptr m" "live m' = live m" "mgrStaged m' = mgrStaged m"
    "\<And>r. x = Ret r \<Longrightarrow> \<exists>c. mrecs m i = Some c \<and> checkRecord sha i c = Inr r"
    "x = Err errBundleNotFound \<Longrightarrow> mrecs m i = None"
    "\<And>r. x = Ret r \<Longrightarrow> validateBundleID i = None"
proof -
  from assms have g: "Get sha i (mgrWorld m) = (x, mgrWorld m')" and m': "m' = m\<lparr>mgrWorld := mgrWorld m'\<rparr>"
    by (simp_all add: onStore_eq)
  show "mrecs m' = mrecs m" "mptr m' = mptr m" using keepsD[OF keeps_Get[of recs] g] keepsD[OF keeps_Get[of ptrf] g] by simp_all
  show "live m' = live m" by (subst m') simp
  show "mgrStaged m' = mgrStaged m" by (subst m') simp
  show "\<exists>c. mrecs m i = Some c \<and> checkRecord sha i c = Inr r" if "x = Ret r" for r using g that Get_Ret by blast
  show "mrecs m i = None" if "x = Err errBundleNotFound" using g that Get_not_found by blast
  show "validateBundleID i = None" if "x = Ret r" for r using g that Get_valid by blast
qed

lemma now_unix_same: "recs (snd (now_unix w)) = recs w" "ptrf (snd (now_unix w)) = ptrf w"
  by (auto simp: now_unix_def recs_def ptrf_def split: list.splits)

lemma mgrNow_frame:
  assumes "mgrNow m = (t, m')"
  shows "mrecs m' = mrecs m" "mptr m' = mptr m" "live m' = live m" "mgrStaged m' = mgrStaged m"
  using assms now_unix_same[of "mgrWorld m"] by (auto simp: mgrNow_def split: prod.splits)

lemma onStore_frame:
  assumes "onStore f m = (x, m')"
  shows "live m' = live m" "mgrStaged m' = mgrStaged m" "f (mgrWorld m) = (x, mgrWorld m')"
  using assms by (auto simp: onStore_def split: prod.splits)

lemma onStore_Put:
  assumes "onStore (Put sha r) m = (x, m')"
  shows "mptr m' = mptr m"
    "mrecs m' = (mrecs m)(recID r \<mapsto> RecordJSON (sealRecord sha r)) \<or> mrecs m' = mrecs m \<and> \<not> isRet x"
  using bs.put_pointer[of sha r "mgrWorld m"] bs.put_recs[of sha r "mgrWorld m"] onStore_frame(3)[OF assms] by simp_all

lemma onStore_Delete:
  assumes "onStore (Delete i) m = (x, m')"
  shows "mptr m' = mptr m" "mrecs m' = (mrecs m)(i := None) \<or> mrecs m' = mrecs m \<and> \<not> isRet x"
  using bs.del_pointer[of i "mgrWorld m"] bs.del_recs[of i "mgrWorld m"] onStore_frame(3)[OF assms] by simp_all

lemma onStore_SetPointer:
  assumes "onStore (SetPointer sha p) m = (x, m')"
  shows "mrecs m' = mrecs m"
    "mnamed sha m' = target p \<or> mptr m' = mptr m \<and> mnamed sha m' = mnamed sha m \<and> \<not> isRet x"
    "x = Ret () \<Longrightarrow> mnamed sha m' = target p"
  using bs.setp_recs[of sha p "mgrWorld m"] bs.setp_pointer[of sha p "mgrWorld m"] onStore_frame(3)[OF assms]
  by (auto simp: bs.named_def isRet_def)

lemma mnamed_cong: "mptr m' = mptr m \<Longrightarrow> mnamed sha m' = mnamed sha m"
  by (simp add: bs.named_def)


section \<open>Pruning\<close>

text \<open>When the record stored under an identifier verifies and is superseded: its activation time.\<close>

definition supersededAt :: "(string \<Rightarrow> string) \<Rightarrow> (string \<Rightarrow> content option) \<Rightarrow> string \<Rightarrow> int option" where
  "supersededAt sha rs i =
     (case rs i of
        None \<Rightarrow> None
      | Some c \<Rightarrow> (case checkRecord sha i c of
                    Inl _ \<Rightarrow> None
                  | Inr r \<Rightarrow> if recState r = bundleSuperseded then Some (recActivatedAt r) else None))"

lemma supersededAt_I:
  "rs i = Some c \<Longrightarrow> checkRecord sha i c = Inr r \<Longrightarrow>
     supersededAt sha rs i = (if recState r = bundleSuperseded then Some (recActivatedAt r) else None)"
  by (simp add: supersededAt_def)

definition sameExcept :: "manager \<Rightarrow> manager \<Rightarrow> bool" where
  "sameExcept m m' \<longleftrightarrow> mptr m' = mptr m \<and> live m' = live m \<and> mgrStaged m' = mgrStaged m"

definition sameStore :: "manager \<Rightarrow> manager \<Rightarrow> bool" where
  "sameStore m m' \<longleftrightarrow> sameExcept m m' \<and> mrecs m' = mrecs m"

lemma sameExcept_refl [simp]: "sameExcept m m" "sameStore m m"
  by (simp_all add: sameExcept_def sameStore_def)

lemma sameExcept_publish [simp]: "sameExcept m (publish l s m') = sameExcept m m'" "sameStore m (publish l s m') = sameStore m m'"
  by (simp_all add: sameExcept_def sameStore_def)

lemma sameExcept_trans: "sameExcept m m1 \<Longrightarrow> sameExcept m1 m2 \<Longrightarrow> sameExcept m m2"
  by (simp add: sameExcept_def)

lemma sameStore_trans: "sameStore m m1 \<Longrightarrow> sameStore m1 m2 \<Longrightarrow> sameStore m m2"
  by (auto simp: sameStore_def elim: sameExcept_trans)

lemma Get_sameStore: "onStore (Get sha i) m = (x, m') \<Longrightarrow> sameStore m m'"
  by (simp add: sameStore_def sameExcept_def onStore_Get)

lemma Delete_sameExcept: "onStore (Delete i) m = (x, m') \<Longrightarrow> sameExcept m m'"
  using onStore_Delete onStore_frame by (auto simp: sameExcept_def)

lemma Put_sameExcept: "onStore (Put sha r) m = (x, m') \<Longrightarrow> sameExcept m m'"
  using onStore_Put onStore_frame by (auto simp: sameExcept_def)

lemma now_sameStore: "mgrNow m = (t, m') \<Longrightarrow> sameStore m m'"
  by (simp add: sameStore_def sameExcept_def mgrNow_frame)

lemma List_sameStore:
  assumes "onStore ListBundles m = (x, m')"
  shows "sameStore m m'"
proof -
  from onStore_frame[OF assms] have "ListBundles (mgrWorld m) = (x, mgrWorld m')" by simp
  then have "mrecs m' = mrecs m" "mptr m' = mptr m"
    using keepsD[OF keeps_ListBundles[of recs]] keepsD[OF keeps_ListBundles[of ptrf]] by simp_all
  then show ?thesis using onStore_frame[OF assms] by (simp add: sameStore_def sameExcept_def)
qed

lemma collectSuperseded_spec:
  "collectSuperseded sha j ids m = (x, m') \<Longrightarrow>
     sameStore m m' \<and> (\<forall>act. x = Ret act \<longrightarrow>
       (\<forall>(i, t)\<in>set act. i \<in> set ids \<and> i \<noteq> j \<and> supersededAt sha (mrecs m) i = Some t))"
proof (induction ids arbitrary: m x m')
  case Nil
  then show ?case by auto
next
  case (Cons i ids)
  show ?case
  proof (cases "i = j")
    case True
    with Cons show ?thesis by fastforce
  next
    case False
    obtain y m1 where g: "onStore (Get sha i) m = (y, m1)" by fastforce
    note same = Get_sameStore[OF g]
    from same have recs: "mrecs m1 = mrecs m" by (simp add: sameStore_def)
    obtain z m2 where rest: "collectSuperseded sha j ids m1 = (z, m2)" by fastforce
    note IH = Cons.IH[OF rest]
    show ?thesis
    proof (cases y)
      case (Ret r)
      from onStore_Get(5)[OF g Ret] have
        "supersededAt sha (mrecs m) i = (if recState r = bundleSuperseded then Some (recActivatedAt r) else None)"
        by (auto simp: supersededAt_def)
      then show ?thesis using Cons.prems False g Ret rest IH same recs
        by (cases z) (auto split: if_splits elim: sameStore_trans)
    qed (use Cons.prems False g rest IH same recs in \<open>auto elim: sameStore_trans\<close>)
  qed
qed

lemma pruneDelete_spec:
  "pruneDelete ids m = (x, m') \<Longrightarrow> sameExcept m m' \<and> (\<forall>k. mrecs m' k = mrecs m k \<or> k \<in> set ids \<and> mrecs m' k = None)"
proof (induction ids arbitrary: m)
  case (Cons i ids)
  obtain y m1 where d: "onStore (Delete i) m = (y, m1)" by fastforce
  note del = Delete_sameExcept[OF d] onStore_Delete(2)[OF d]
  show ?case
  proof (cases y)
    case (Ret u)
    let ?m2 = "publish ''info'' (''pruned superseded bundle '' @ i) m1"
    from Cons.prems d Ret have p: "pruneDelete ids ?m2 = (x, m')" by simp
    have "sameExcept m m'" using Cons.IH[OF p] del(1) sameExcept_trans[of m ?m2 m'] by simp
    moreover have "mrecs ?m2 = (mrecs m)(i := None)" using del Ret by (auto simp: isRet_def)
    ultimately show ?thesis using Cons.IH[OF p] by (auto simp: fun_upd_apply split: if_splits)
  qed (use Cons.prems d del in \<open>auto split: if_splits\<close>)
qed simp

lemma set_newestFirst: "set (newestFirst act) = fst ` set act"
  by (force simp: newestFirst_def)

definition pruneTouches :: "(string \<Rightarrow> string) \<Rightarrow> string \<Rightarrow> manager \<Rightarrow> string \<Rightarrow> bool" where
  "pruneTouches sha j m k \<longleftrightarrow> k \<noteq> j \<and> supersededAt sha (mrecs m) k \<noteq> None"

lemma pruneSuperseded_spec:
  assumes "pruneSuperseded sha j m = (x, m')"
  shows "sameExcept m m'" "mrecs m' k = mrecs m k \<or> pruneTouches sha j m k \<and> mrecs m' k = None"
proof -
  obtain y m1 where l: "onStore ListBundles m = (y, m1)" by fastforce
  note same = List_sameStore[OF l]
  have "sameExcept m m' \<and> (mrecs m' k = mrecs m k \<or> pruneTouches sha j m k \<and> mrecs m' k = None)"
  proof (cases y)
    case (Ret ids)
    obtain z m2 where c: "collectSuperseded sha j ids m1 = (z, m2)" by fastforce
    note spec = collectSuperseded_spec[OF c]
    with same have s2: "sameStore m m2" and eq: "mrecs m1 = mrecs m" using sameStore_trans sameStore_def by blast+
    show ?thesis
    proof (cases z)
      case z: (Ret act)
      show ?thesis
      proof (cases "length act \<le> bundleRetainedGenerations - 1")
        case False
        with assms l Ret c z have d: "pruneDelete (drop (bundleRetainedGenerations - 1) (newestFirst act)) m2 = (x, m')"
          by (simp add: pruneSuperseded_def Let_def)
        have "pruneTouches sha j m k" if "k \<in> set (drop (bundleRetainedGenerations - 1) (newestFirst act))"
        proof -
          have "k \<in> fst ` set act" using in_set_dropD[OF that] by (simp add: set_newestFirst)
          then obtain t where "(k, t) \<in> set act" by auto
          then show ?thesis using spec z eq by (auto simp: pruneTouches_def)
        qed
        then show ?thesis using pruneDelete_spec[OF d] s2 sameExcept_trans[of m m2 m'] unfolding sameStore_def by metis
      qed (use assms l Ret c z s2 in \<open>auto simp: pruneSuperseded_def Let_def sameStore_def\<close>)
    qed (use assms l Ret c s2 in \<open>auto simp: pruneSuperseded_def Let_def sameStore_def\<close>)
  qed (use assms l same in \<open>auto simp: pruneSuperseded_def Let_def sameStore_def\<close>)
  then show "sameExcept m m'" "mrecs m' k = mrecs m k \<or> pruneTouches sha j m k \<and> mrecs m' k = None" by auto
qed


section \<open>The shape of a commit\<close>

lemma markSuperseded_spec:
  assumes "markSuperseded sha cur m = (x, m')"
  shows "sameExcept m m'" "k \<noteq> cur \<Longrightarrow> mrecs m' k = mrecs m k" "\<not> isRet x \<Longrightarrow> x = Crashed"
proof -
  obtain y m1 where g: "onStore (Get sha cur) m = (y, m1)" by fastforce
  note same = Get_sameStore[OF g]
  have "sameExcept m m' \<and> (k \<noteq> cur \<longrightarrow> mrecs m' k = mrecs m k) \<and> (\<not> isRet x \<longrightarrow> x = Crashed)"
  proof (cases "cur = [] \<or> \<not> isRet y")
    case True
    then show ?thesis using assms g same
      by (cases y) (auto simp: markSuperseded_def isRet_def sameStore_def split: if_splits)
  next
    case False
    then obtain prev where y: "y = Ret prev" by (auto simp: isRet_def)
    from onStore_Get(5)[OF g y] have prev: "recID prev = cur" using checkRecord_id by blast
    obtain z m2 where p: "onStore (Put sha (prev\<lparr>recState := bundleSuperseded\<rparr>)) m1 = (z, m2)" by fastforce
    note put = Put_sameExcept[OF p] onStore_Put(2)[OF p]
    have "sameExcept m m2" using same put sameExcept_trans[of m m1 m2] by (simp add: sameStore_def)
    moreover have "k \<noteq> cur \<Longrightarrow> mrecs m2 k = mrecs m k" using put prev same by (auto simp: sameStore_def)
    ultimately show ?thesis using assms g y p False
      by (cases z) (auto simp: markSuperseded_def isRet_def)
  qed
  then show "sameExcept m m'" "k \<noteq> cur \<Longrightarrow> mrecs m' k = mrecs m k" "\<not> isRet x \<Longrightarrow> x = Crashed" by auto
qed

lemma pruneDelete_no_error: "fst (pruneDelete ids m) \<noteq> Err e"
  by (induction ids arbitrary: m) (auto split: prod.splits outcome.splits)

lemma collectSuperseded_no_error: "fst (collectSuperseded sha j ids m) \<noteq> Err e"
  by (induction ids arbitrary: m) (auto simp: andThen_def split: prod.splits outcome.splits, (metis fst_conv)+)

lemma pruneSuperseded_no_error: "fst (pruneSuperseded sha j m) \<noteq> Err e"
proof -
  obtain y m1 where l: "onStore ListBundles m = (y, m1)" by fastforce
  show ?thesis
  proof (cases y)
    case (Ret ids)
    obtain z m2 where c: "collectSuperseded sha j ids m1 = (z, m2)" by fastforce
    then show ?thesis using l Ret collectSuperseded_no_error[of sha j ids m1 e] pruneDelete_no_error
      by (cases z) (auto simp: pruneSuperseded_def Let_def)
  qed (use l in \<open>auto simp: pruneSuperseded_def\<close>)
qed

definition activated :: "(string \<Rightarrow> string) \<Rightarrow> int \<Rightarrow> bundleRecord \<Rightarrow> content" where
  "activated sha t r = RecordJSON (sealRecord sha (activeRecord t r))"

lemma checkRecord_activated:
  "recID r = i \<Longrightarrow> checkRecord sha i (activated sha t r) = Inr (sealRecord sha (activeRecord t r))"
  using checkRecord_seal[of sha "activeRecord t r"] by (simp add: activated_def activeRecord_def)

lemma supersededAt_activated:
  "recID r = i \<Longrightarrow> rs i = Some (activated sha t r) \<Longrightarrow> supersededAt sha rs i = None"
  using supersededAt_I[of rs i "activated sha t r" sha] checkRecord_activated[of r i sha t]
  by (auto simp: activeRecord_def bundleActive_def bundleSuperseded_def)

lemma goLive_spec:
  assumes "goLive sha i cur d cfg m = (x, m')"
  shows "mptr m' = mptr m" "mrecs m' k = mrecs m k \<or> pruneTouches sha cur m k \<and> mrecs m' k = None"
    "x = Ret d \<or> x = Crashed" 
    "live m' = (Some (mgrAllocs m, cfg), i, d, True, mgrGeneration m + 1, Suc (mgrAllocs m))"
    "mgrStaged m' = removeAll i (mgrStaged m)"
proof -
  define m1 where "m1 = setActive i d cfg m"
  define m2 where "m2 = m1\<lparr>mgrGeneration := mgrGeneration m1 + 1, mgrStaged := removeAll i (mgrStaged m1)\<rparr>"
  define m3 where "m3 = publish ''info'' (''committed bundle '' @ i @ '' as generation '' @ itoa (uint (mgrGeneration m2))) m2"
  obtain y m4 where p: "pruneSuperseded sha cur m3 = (y, m4)" by fastforce
  note spec = pruneSuperseded_spec[OF p]
  have "andThen (pruneSuperseded sha cur m3) (\<lambda>_ m. (Ret d, m)) = (x, m')"
    using assms by (simp add: goLive_def m1_def m2_def m3_def Let_def)
  then have m': "m' = m4" and x: "x = Ret d \<or> x = Crashed"
    using p pruneSuperseded_no_error[of sha cur m3] by (cases y; auto)+
  have m3: "mgrWorld m3 = mgrWorld m" "mgrStaged m3 = removeAll i (mgrStaged m)"
    "live m3 = (Some (mgrAllocs m, cfg), i, d, True, mgrGeneration m + 1, Suc (mgrAllocs m))"
    by (simp_all add: m3_def m2_def m1_def setActive_def live_def)
  show "x = Ret d \<or> x = Crashed" by (rule x)
  show "mptr m' = mptr m" "live m' = (Some (mgrAllocs m, cfg), i, d, True, mgrGeneration m + 1, Suc (mgrAllocs m))"
    "mgrStaged m' = removeAll i (mgrStaged m)"
    using spec(1) m3 m' by (simp_all add: sameExcept_def)
  show "mrecs m' k = mrecs m k \<or> pruneTouches sha cur m k \<and> mrecs m' k = None"
    using spec(2) m3 m' by (simp add: pruneTouches_def)
qed

text \<open>
  Every run of \<open>Commit\<close> is a repeat, a refusal that leaves the store as it was, a failure before
  or while the pointer is written, or it wrote the pointer and goes on to the swap.
\<close>

lemma Commit_shape:
  assumes "Commit sha decode i e m = (x, m')"
  obtains (repeat) "mgrActiveID m = i" "x = Ret (mgrActiveDigest m)" "m' = m"
  | (refused) "mgrActiveID m \<noteq> i" "\<not> isRet x" "sameStore m m'"
  | (attempt) r cfg t c m1 where "mgrActiveID m \<noteq> i" "mgrActiveID m = e" "mrecs m i = Some c" "checkRecord sha i c = Inr r"
      "decode (recDocument r) = Some cfg" "validateBundleID i = None"
      "sameExcept m m1" "\<not> isRet x" "m' = m1"
      "mrecs m1 = (mrecs m)(i \<mapsto> activated sha t r) \<or> mrecs m1 = mrecs m"
  | (pointing) r cfg t c m1 m2 y where "mgrActiveID m \<noteq> i" "mgrActiveID m = e" "mrecs m i = Some c" "checkRecord sha i c = Inr r"
      "decode (recDocument r) = Some cfg" "validateBundleID i = None"
      "sameExcept m m1" "mrecs m1 = (mrecs m)(i \<mapsto> activated sha t r)"
      "onStore (SetPointer sha (pointerTo i e)) m1 = (y, m2)"
      "\<not> isRet y \<and> \<not> isRet x \<and> m' = m2 \<or>
       y = Ret () \<and> andThen (markSuperseded sha e m2) (\<lambda>_. goLive sha i e (recDigest r) cfg) = (x, m')"
proof (cases "mgrActiveID m = i \<or> mgrActiveID m \<noteq> e")
  case True
  show ?thesis
  proof (cases "mgrActiveID m = i")
    case eq: True
    with assms have "x = Ret (mgrActiveDigest m) \<and> m' = m" by (auto simp: Commit_def)
    then show ?thesis using repeat eq by blast
  next
    case False
    with True assms have "\<not> isRet x \<and> sameStore m m'" by (auto simp: Commit_def isRet_def)
    then show ?thesis using refused False by blast
  qed
next
  case went: False
  obtain g m0 where get: "onStore (Get sha i) m = (g, m0)" by fastforce
  note same = Get_sameStore[OF get]
  show ?thesis
  proof (cases "\<exists>r cfg. g = Ret r \<and> decode (recDocument r) = Some cfg")
    case False
    have "\<not> isRet x \<and> m' = m0" using assms False get went
      by (cases g) (auto simp: Commit_def isRet_def split: option.splits)
    then show ?thesis using refused same went by blast
  next
    case True
    then obtain r cfg where g: "g = Ret r" and cfg: "decode (recDocument r) = Some cfg" by blast
    obtain c where c: "mrecs m i = Some c" "checkRecord sha i c = Inr r" using onStore_Get(5)[OF get g] by blast
    obtain t mt where t: "mgrNow m0 = (t, mt)" by fastforce
    have same_t: "sameStore m mt" using same now_sameStore[OF t] by (rule sameStore_trans)
    obtain u m1 where put: "onStore (Put sha (activeRecord t r)) mt = (u, m1)" by fastforce
    have id: "recID (activeRecord t r) = i" using checkRecord_id[OF c(2)] by (simp add: activeRecord_def)
    have m1: "sameExcept m m1" using same_t Put_sameExcept[OF put] sameExcept_trans by (auto simp: sameStore_def)
    have recs: "mrecs m1 = (mrecs m)(i \<mapsto> activated sha t r) \<or> mrecs m1 = mrecs m \<and> \<not> isRet u"
      using onStore_Put(2)[OF put] id same_t by (simp add: activated_def sameStore_def)
    from went have w: "mgrActiveID m \<noteq> i" "mgrActiveID m = e" by auto
    have run: "andThen (u, m1) (\<lambda>_ m. andThen (onStore (SetPointer sha (pointerTo i e)) m) (\<lambda>_ m.
        andThen (markSuperseded sha e m) (\<lambda>_. goLive sha i e (recDigest r) cfg))) = (x, m')"
      using assms w(1) by (simp add: w(2) Commit_def Let_def get[unfolded g] cfg t put) (simp add: activeRecord_def)
    obtain y m2 where sp: "onStore (SetPointer sha (pointerTo i e)) m1 = (y, m2)" by fastforce
    note pre = w c cfg onStore_Get(7)[OF get g] m1
    show ?thesis
    proof (cases "isRet u")
      case True
      with recs have rec1: "mrecs m1 = (mrecs m)(i \<mapsto> activated sha t r)" by simp
      have "\<not> isRet y \<and> \<not> isRet x \<and> m' = m2 \<or>
         y = Ret () \<and> andThen (markSuperseded sha e m2) (\<lambda>_. goLive sha i e (recDigest r) cfg) = (x, m')"
        using run True sp by (cases y) (auto simp: isRet_def)
      then show ?thesis by (rule pointing[OF pre rec1 sp])
    next
      case False
      then have "\<not> isRet x" "m' = m1" using run by (cases u; auto simp: isRet_def)+
      then show ?thesis using recs by (intro attempt[OF pre]) auto
    qed
  qed
qed


section \<open>The invariants\<close>

text \<open>A stored artifact a restart can serve under an identifier: it verifies, is active and decodes.\<close>

definition recoverable :: "(string \<Rightarrow> string) \<Rightarrow> (string \<Rightarrow> Config option) \<Rightarrow> string \<Rightarrow> content \<Rightarrow> bool" where
  "recoverable sha decode i c =
     (validateBundleID i = None \<and>
      (case checkRecord sha i c of Inl _ \<Rightarrow> False | Inr r \<Rightarrow> recState r = bundleActive \<and> decode (recDocument r) \<noteq> None))"

definition diskInv :: "(string \<Rightarrow> string) \<Rightarrow> (string \<Rightarrow> Config option) \<Rightarrow> world \<Rightarrow> bool" where
  "diskInv sha decode w \<longleftrightarrow>
     bs.pointer_sound sha (recoverable sha decode) w \<and> (ptrf w = None \<or> bs.named sha w \<noteq> None)"

text \<open>What the process serves is the verified active record stored under the identifier it reports.\<close>

definition servedFrom :: "(string \<Rightarrow> string) \<Rightarrow> (string \<Rightarrow> Config option) \<Rightarrow> (string \<Rightarrow> content option) \<Rightarrow>
    (nat \<times> Config) option \<times> string \<times> string \<times> bool \<times> 64 word \<times> nat \<Rightarrow> bool" where
  "servedFrom sha decode rs =
     (\<lambda>(active, i, digest, migrated, generation, allocs).
       case active of
         None \<Rightarrow> i = [] \<and> digest = []
       | Some (n, cfg) \<Rightarrow>
           i \<noteq> [] \<and> migrated \<and> n < allocs \<and>
           (case rs i of
              None \<Rightarrow> False
            | Some c \<Rightarrow> (case checkRecord sha i c of
                Inl _ \<Rightarrow> False
              | Inr r \<Rightarrow> recState r = bundleActive \<and> recDigest r = digest \<and> decode (recDocument r) = Some cfg)))"

definition managerInv :: "(string \<Rightarrow> string) \<Rightarrow> (string \<Rightarrow> Config option) \<Rightarrow> manager \<Rightarrow> bool" where
  "managerInv sha decode m \<longleftrightarrow> diskInv sha decode (mgrWorld m) \<and> servedFrom sha decode (mrecs m) (live m)"

lemma validateBundleID_nonempty: "validateBundleID i = None \<Longrightarrow> i \<noteq> []"
  by (auto simp: validateBundleID_def)

lemma target_pointerTo [simp]: "i \<noteq> [] \<Longrightarrow> target (pointerTo i e) = Some i"
  by (simp add: target_def pointerTo_def)

lemma diskInv_cong: "recs w' = recs w \<Longrightarrow> ptrf w' = ptrf w \<Longrightarrow> diskInv sha decode w' = diskInv sha decode w"
  by (simp add: diskInv_def bs.pointer_sound_def bs.named_def)

lemma diskInv_sameStore: "sameStore m m' \<Longrightarrow> diskInv sha decode (mgrWorld m) \<Longrightarrow> diskInv sha decode (mgrWorld m')"
  by (simp add: diskInv_def bs.pointer_sound_def bs.named_def sameStore_def sameExcept_def)

lemma diskInv_same_pointer:
  assumes "diskInv sha decode w" "ptrf w' = ptrf w"
    and "\<And>k c. bs.named sha w = Some k \<Longrightarrow> recs w k = Some c \<Longrightarrow> recoverable sha decode k c \<Longrightarrow>
           \<exists>c'. recs w' k = Some c' \<and> recoverable sha decode k c'"
  shows "diskInv sha decode w'"
  using assms by (fastforce simp: diskInv_def bs.pointer_sound_def bs.named_def)

lemma servedFrom_other:
  "servedFrom sha decode rs l \<Longrightarrow> l = (a, i, d, g, n, s) \<Longrightarrow> (i \<noteq> [] \<Longrightarrow> rs' i = rs i) \<Longrightarrow> servedFrom sha decode rs' l"
  by (auto simp: servedFrom_def split: option.splits)

lemma servedFrom_active:
  "servedFrom sha decode (mrecs m) (live m) \<Longrightarrow> mgrActiveID m \<noteq> [] \<Longrightarrow>
     \<exists>c r. mrecs m (mgrActiveID m) = Some c \<and> checkRecord sha (mgrActiveID m) c = Inr r \<and> recState r = bundleActive"
  by (cases "mrecs m (mgrActiveID m)") (auto simp: servedFrom_def live_def split: option.split_asm sum.split_asm, metis sum.exhaust)

lemma servedFrom_Some:
  assumes "servedFrom sha decode (mrecs m) (live m)" and "mgrActive m = Some (n, cfg)"
  shows "\<exists>c r. mrecs m (mgrActiveID m) = Some c \<and> checkRecord sha (mgrActiveID m) c = Inr r \<and>
    mgrActiveDigest m = recDigest r \<and> decode (recDocument r) = Some cfg"
proof (cases "mrecs m (mgrActiveID m)")
  case (Some c)
  then show ?thesis using assms
    by (cases "checkRecord sha (mgrActiveID m) c") (auto simp: servedFrom_def live_def)
qed (use assms in \<open>auto simp: servedFrom_def live_def\<close>)

lemma managerInv_same: "sameStore m m' \<Longrightarrow> managerInv sha decode m \<Longrightarrow> managerInv sha decode m'"
  using diskInv_sameStore[of m m' sha decode] by (simp add: managerInv_def sameStore_def sameExcept_def)

lemma recoverable_activated:
  "recID r = i \<Longrightarrow> decode (recDocument r) = Some cfg \<Longrightarrow> validateBundleID i = None \<Longrightarrow>
     recoverable sha decode i (activated sha t r)"
  by (simp add: recoverable_def checkRecord_activated) (simp add: activeRecord_def)

lemma recoverable_not_superseded:
  "rs k = Some c \<Longrightarrow> recoverable sha decode k c \<Longrightarrow> supersededAt sha rs k = None"
  by (auto simp: recoverable_def supersededAt_def bundleActive_def bundleSuperseded_def split: sum.splits)

subsection \<open>Commit keeps them\<close>

lemma commit_tail_disk:
  assumes run: "andThen (markSuperseded sha e m2) (\<lambda>_. goLive sha i e d cfg) = (x, m')"
    and named: "mnamed sha m2 = Some i" and ne: "e \<noteq> i"
    and rec: "mrecs m2 i = Some c" "recoverable sha decode i c"
  shows "mnamed sha m' = Some i" "mrecs m' i = Some c" "diskInv sha decode (mgrWorld m')"
proof -
  obtain z m3 where mk: "markSuperseded sha e m2 = (z, m3)" by fastforce
  note spec = markSuperseded_spec[OF mk]
  have i3: "mrecs m3 i = Some c" using spec(2)[of i] ne rec(1) by auto
  have fin: "mptr m' = mptr m2 \<and> mrecs m' i = Some c"
  proof (cases z)
    case (Ret u)
    with run mk have gl: "goLive sha i e d cfg m3 = (x, m')" by simp
    have "supersededAt sha (mrecs m3) i = None" using i3 rec(2) by (rule recoverable_not_superseded)
    then show ?thesis using goLive_spec(1)[OF gl] goLive_spec(2)[OF gl, of i] spec(1) i3
      by (auto simp: sameExcept_def pruneTouches_def)
  qed (use run mk spec(1) i3 in \<open>auto simp: sameExcept_def\<close>)
  then show n: "mnamed sha m' = Some i" and r: "mrecs m' i = Some c" using named mnamed_cong[of m' m2 sha] by auto
  show "diskInv sha decode (mgrWorld m')"
    using n r rec(2) by (simp add: diskInv_def bs.pointer_sound_def)
qed

lemma commit_tail_outcome:
  assumes "andThen (markSuperseded sha e m2) (\<lambda>_. goLive sha i e d cfg) = (x, m')"
  shows "x = Ret d \<and> live m' = (Some (mgrAllocs m2, cfg), i, d, True, mgrGeneration m2 + 1, Suc (mgrAllocs m2)) \<or> x = Crashed"
proof -
  obtain z m3 where mk: "markSuperseded sha e m2 = (z, m3)" by fastforce
  note spec = markSuperseded_spec[OF mk]
  show ?thesis
  proof (cases z)
    case (Ret u)
    with assms mk have gl: "goLive sha i e d cfg m3 = (x, m')" by simp
    moreover have "mgrAllocs m3 = mgrAllocs m2" "mgrGeneration m3 = mgrGeneration m2"
      using spec(1) by (simp_all add: sameExcept_def live_def)
    ultimately show ?thesis using goLive_spec(3,4)[OF gl] by auto
  qed (use assms mk spec(3) in \<open>auto simp: isRet_def\<close>)
qed

lemma Commit_diskInv:
  assumes "diskInv sha decode (mgrWorld m)" and "Commit sha decode i e m = (x, m')"
  shows "diskInv sha decode (mgrWorld m')"
  using assms(2)
proof (cases rule: Commit_shape)
  case repeat
  then show ?thesis using assms by simp
next
  case refused
  then show ?thesis using assms(1) diskInv_sameStore by blast
next
  case (attempt r cfg t c m1)
  note rid = checkRecord_id[OF attempt(4)]
  show ?thesis using attempt recoverable_activated[where decode = decode, OF rid attempt(5,6)]
    by (intro diskInv_same_pointer[OF assms(1)]) (auto simp: sameExcept_def)
next
  case (pointing r cfg t c m1 m2 y)
  note rec = recoverable_activated[where decode = decode and sha = sha and t = t, OF checkRecord_id[OF pointing(4)] pointing(5,6)]
  have i1: "mrecs m1 i = Some (activated sha t r)" using pointing(8) by simp
  have d1: "diskInv sha decode (mgrWorld m1)" using pointing rec
    by (intro diskInv_same_pointer[OF assms(1)]) (auto simp: sameExcept_def)
  note sp = onStore_SetPointer[OF pointing(9)] 
  have i2: "mrecs m2 i = Some (activated sha t r)" using sp(1) i1 by simp
  have tgt: "target (pointerTo i e) = Some i" using validateBundleID_nonempty[OF pointing(6)] by simp
  show ?thesis using pointing(10)
  proof
    assume "\<not> isRet y \<and> \<not> isRet x \<and> m' = m2"
    moreover have "diskInv sha decode (mgrWorld m2)"
      using sp(2)
    proof
      assume "mnamed sha m2 = target (pointerTo i e)"
      then show ?thesis using i2 rec tgt by (simp add: diskInv_def bs.pointer_sound_def)
    qed (use sp(1) d1 diskInv_cong[of "mgrWorld m2" "mgrWorld m1"] in auto)
    ultimately show ?thesis by simp
  next
    assume tail: "y = Ret () \<and> andThen (markSuperseded sha e m2) (\<lambda>_. goLive sha i e (recDigest r) cfg) = (x, m')"
    then have "mnamed sha m2 = Some i" using sp(3) tgt by simp
    then show ?thesis using commit_tail_disk(3) tail pointing(1,2) i2 rec by blast
  qed
qed


lemma live_eq: "live m' = live m \<Longrightarrow> mgrActive m' = mgrActive m \<and> mgrActiveID m' = mgrActiveID m \<and>
    mgrActiveDigest m' = mgrActiveDigest m \<and> mgrMigrated m' = mgrMigrated m \<and> mgrGeneration m' = mgrGeneration m \<and>
    mgrAllocs m' = mgrAllocs m"
  by (simp add: live_def)

lemma servedFrom_upd:
  assumes "servedFrom sha decode (mrecs m) (live m)" and "live m' = live m"
    and "mgrActiveID m \<noteq> [] \<Longrightarrow> mrecs m' (mgrActiveID m) = mrecs m (mgrActiveID m)"
  shows "servedFrom sha decode (mrecs m') (live m')"
  using servedFrom_other[OF assms(1) live_def, of "mrecs m'"] assms(2,3) by simp

lemma servedFrom_keep:
  assumes "managerInv sha decode m" and "live m' = live m"
    and keep: "\<And>c r. mrecs m (mgrActiveID m) = Some c \<Longrightarrow> checkRecord sha (mgrActiveID m) c = Inr r \<Longrightarrow>
      recState r = bundleActive \<Longrightarrow> mrecs m' (mgrActiveID m) = Some c"
  shows "servedFrom sha decode (mrecs m') (live m')"
proof (rule servedFrom_upd)
  show s: "servedFrom sha decode (mrecs m) (live m)" using assms(1) by (simp add: managerInv_def)
  show "mrecs m' (mgrActiveID m) = mrecs m (mgrActiveID m)" if ne: "mgrActiveID m \<noteq> []"
    using servedFrom_active[OF s ne] keep by force
qed (rule assms(2))

text \<open>A commit that answered changed what is served to exactly the committed record.\<close>

lemma Commit_Ret:
  assumes "Commit sha decode i e m = (Ret d, m')" and "mgrActiveID m \<noteq> i"
  obtains r cfg c t where "mrecs m i = Some c" "checkRecord sha i c = Inr r" "decode (recDocument r) = Some cfg"
    "d = recDigest r" "mgrActiveID m = e" "i \<noteq> []" "mnamed sha m' = Some i" "mrecs m' i = Some (activated sha t r)"
    "live m' = (Some (mgrAllocs m, cfg), i, d, True, mgrGeneration m + 1, Suc (mgrAllocs m))"
  using assms(1)
proof (cases rule: Commit_shape)
  case (pointing r cfg t c m1 m2 y)
  have tail: "y = Ret ()" "andThen (markSuperseded sha e m2) (\<lambda>_. goLive sha i e (recDigest r) cfg) = (Ret d, m')"
    using pointing(10) by (auto simp: isRet_def)
  have ne: "i \<noteq> []" using validateBundleID_nonempty[OF pointing(6)] .
  note sp = onStore_SetPointer[OF pointing(9)]
  have named: "mnamed sha m2 = Some i" using sp(3) tail(1) ne by simp
  have i2: "mrecs m2 i = Some (activated sha t r)" using sp(1) pointing(8) by simp
  note rec = recoverable_activated[where decode = decode and sha = sha and t = t, OF checkRecord_id[OF pointing(4)] pointing(5,6)]
  note disk = commit_tail_disk[OF tail(2) named _ i2 rec]
  have "live m2 = live m" using onStore_frame(1)[OF pointing(9)] pointing(7) by (simp add: sameExcept_def)
  then have alloc: "mgrAllocs m2 = mgrAllocs m" "mgrGeneration m2 = mgrGeneration m" by (simp_all add: live_def)
  have "d = recDigest r" using commit_tail_outcome[OF tail(2)] by auto
  then show ?thesis using that pointing(1-5) ne disk(1,2) commit_tail_outcome[OF tail(2)] alloc by force
qed (use assms(2) in \<open>auto simp: isRet_def\<close>)

lemma Commit_not_Ret_live:
  assumes "Commit sha decode i e m = (Err er, m')"
  shows "live m' = live m" "mgrStaged m' = mgrStaged m" "mrecs m' k = mrecs m k \<or> k = i \<and> mgrActiveID m \<noteq> i"
    "mnamed sha m' = mnamed sha m \<or> mnamed sha m' = Some i"
proof -
  have "live m' = live m \<and> mgrStaged m' = mgrStaged m \<and> (mrecs m' k = mrecs m k \<or> k = i \<and> mgrActiveID m \<noteq> i) \<and>
    (mnamed sha m' = mnamed sha m \<or> mnamed sha m' = Some i)"
    using assms
  proof (cases rule: Commit_shape)
    case (pointing r cfg t c m1 m2 y)
    from pointing(10) have m': "m' = m2" using commit_tail_outcome by blast
    note sp = onStore_SetPointer[OF pointing(9)] onStore_frame[OF pointing(9)]
    have "target (pointerTo i e) = Some i" using validateBundleID_nonempty[OF pointing(6)] by simp
    then show ?thesis using sp(1,2,4,5) m' pointing(1,7,8) mnamed_cong[of m1 m sha]
      by (auto simp: sameExcept_def)
  qed (auto simp: sameStore_def sameExcept_def bs.named_def)
  then show "live m' = live m" "mgrStaged m' = mgrStaged m" "mrecs m' k = mrecs m k \<or> k = i \<and> mgrActiveID m \<noteq> i"
    "mnamed sha m' = mnamed sha m \<or> mnamed sha m' = Some i" by auto
qed

lemma Commit_managerInv:
  assumes inv: "managerInv sha decode m" and run: "Commit sha decode i e m = (x, m')" and "x \<noteq> Crashed"
  shows "managerInv sha decode m'"
proof -
  have disk: "diskInv sha decode (mgrWorld m')" using Commit_diskInv run inv by (auto simp: managerInv_def)
  show ?thesis
  proof (cases x)
    case (Ret d)
    show ?thesis
    proof (cases "mgrActiveID m = i")
      case True
      then show ?thesis using run inv by (auto simp: Commit_def)
    next
      case False
      obtain r cfg c t where "checkRecord sha i c = Inr r" "decode (recDocument r) = Some cfg"
        "d = recDigest r" "i \<noteq> []" "mrecs m' i = Some (activated sha t r)"
        "live m' = (Some (mgrAllocs m, cfg), i, d, True, mgrGeneration m + 1, Suc (mgrAllocs m))"
        using Commit_Ret[OF run[unfolded Ret] False] .
      then show ?thesis using disk checkRecord_id[of sha i c r]
        by (simp add: managerInv_def servedFrom_def checkRecord_activated) (simp add: activeRecord_def)
    qed
  next
    case (Err er)
    note same = Commit_not_Ret_live[OF run[unfolded Err]]
    have "mrecs m' (mgrActiveID m) = mrecs m (mgrActiveID m)" using same(3)[of "mgrActiveID m"] by auto
    then show ?thesis using disk inv servedFrom_upd[of sha decode m m'] same(1) by (simp add: managerInv_def)
  qed (use assms(3) in simp)
qed


section \<open>Stage, abort, recover and purge\<close>

lemma Stage_spec:
  assumes "Stage sha decode i doc m = (x, m')"
  shows "mptr m' = mptr m" "live m' = live m" "k \<noteq> i \<Longrightarrow> mrecs m' k = mrecs m k"
    "mrecs m' i = mrecs m i \<or>
      mrecs m i = None \<and> (\<exists>t. mrecs m' i = Some (RecordJSON (sealRecord sha (stagedRecord t i (sha doc) doc))))"
    "x = Ret d \<Longrightarrow> d = sha doc \<and> decode doc \<noteq> None \<and>
      (\<exists>c r. mrecs m' i = Some c \<and> checkRecord sha i c = Inr r \<and> recDigest r = sha doc)"
proof -
  define new where "new t = RecordJSON (sealRecord sha (stagedRecord t i (sha doc) doc))" for t
  have "mptr m' = mptr m \<and> live m' = live m \<and> (k \<noteq> i \<longrightarrow> mrecs m' k = mrecs m k) \<and>
    (mrecs m' i = mrecs m i \<or> mrecs m i = None \<and> (\<exists>t. mrecs m' i = Some (new t))) \<and>
    (x = Ret d \<longrightarrow> d = sha doc \<and> decode doc \<noteq> None \<and>
      (\<exists>c r. mrecs m' i = Some c \<and> checkRecord sha i c = Inr r \<and> recDigest r = sha doc))"
  proof (cases "validateBundleID i = None \<and> decode doc \<noteq> None")
    case True
    then obtain cfg where ok: "validateBundleID i = None" "decode doc = Some cfg" by auto
    obtain g m1 where get: "onStore (Get sha i) m = (g, m1)" by fastforce
    note got = onStore_Get[OF get]
    show ?thesis
    proof (cases "g = Err errBundleNotFound")
      case False
      then show ?thesis using assms ok get got(1-3) got(5)
        by (cases g) (auto simp: Stage_def Let_def split: if_splits)
    next
      case True
      obtain t m2 where t: "mgrNow m1 = (t, m2)" by fastforce
      obtain u m3 where put: "onStore (Put sha (stagedRecord t i (sha doc) doc)) m2 = (u, m3)" by fastforce
      have id: "recID (stagedRecord t i (sha doc) doc) = i" "recDigest (stagedRecord t i (sha doc) doc) = sha doc"
        by (simp_all add: stagedRecord_def)
      have none: "mrecs m i = None" using got(6) True by simp
      have recs: "mrecs m3 = (mrecs m)(i \<mapsto> new t) \<or> mrecs m3 = mrecs m \<and> \<not> isRet u"
        using onStore_Put(2)[OF put] mgrNow_frame(1)[OF t] got(1) by (simp add: id new_def)
      have m3: "mptr m3 = mptr m" "live m3 = live m"
        using onStore_Put(1)[OF put] onStore_frame(1)[OF put] mgrNow_frame[OF t] got by simp_all
      have chk: "checkRecord sha i (new t) = Inr (sealRecord sha (stagedRecord t i (sha doc) doc))"
        using checkRecord_seal[of sha "stagedRecord t i (sha doc) doc"] by (simp add: id new_def)
      have "mgrWorld m' = mgrWorld m3 \<and> live m' = live m3 \<and> (x = Ret d \<longrightarrow> d = sha doc \<and> isRet u)"
        using assms ok get True t put by (cases u) (auto simp: Stage_def Let_def isRet_def)
      then show ?thesis using recs m3 chk none ok(2) by (auto simp: id)
    qed
  qed (use assms in \<open>auto simp: Stage_def split: option.splits\<close>)
  then show "mptr m' = mptr m" "live m' = live m" "k \<noteq> i \<Longrightarrow> mrecs m' k = mrecs m k"
    "mrecs m' i = mrecs m i \<or>
      mrecs m i = None \<and> (\<exists>t. mrecs m' i = Some (RecordJSON (sealRecord sha (stagedRecord t i (sha doc) doc))))"
    "x = Ret d \<Longrightarrow> d = sha doc \<and> decode doc \<noteq> None \<and>
      (\<exists>c r. mrecs m' i = Some c \<and> checkRecord sha i c = Inr r \<and> recDigest r = sha doc)"
    by (auto simp: new_def)
qed

lemma Stage_managerInv:
  assumes inv: "managerInv sha decode m" and run: "Stage sha decode i doc m = (x, m')"
  shows "managerInv sha decode m'"
proof -
  note spec = Stage_spec[OF run]
  have some: "mrecs m' k = mrecs m k" if "mrecs m k \<noteq> None" for k
    using spec(3)[of k] spec(4) that by (cases "k = i") auto
  have "diskInv sha decode (mgrWorld m')"
    using some by (intro diskInv_same_pointer[OF inv[unfolded managerInv_def, THEN conjunct1] spec(1)]) fastforce
  moreover have "servedFrom sha decode (mrecs m') (live m')"
    using some[of "mgrActiveID m"] by (intro servedFrom_keep[OF inv spec(2)]) simp
  ultimately show ?thesis by (simp add: managerInv_def)
qed

lemma Abort_spec:
  assumes "Abort sha i m = (x, m')"
  shows "mptr m' = mptr m" "live m' = live m"
    "mrecs m' = mrecs m \<and> x \<noteq> Ret () \<or>
     i \<noteq> mgrActiveID m \<and> mrecs m' = (mrecs m)(i := None) \<and>
       (\<exists>c r. mrecs m i = Some c \<and> checkRecord sha i c = Inr r \<and> recState r \<noteq> bundleActive)"
proof -
  have "mptr m' = mptr m \<and> live m' = live m \<and> (mrecs m' = mrecs m \<and> x \<noteq> Ret () \<or>
     i \<noteq> mgrActiveID m \<and> mrecs m' = (mrecs m)(i := None) \<and>
       (\<exists>c r. mrecs m i = Some c \<and> checkRecord sha i c = Inr r \<and> recState r \<noteq> bundleActive))"
  proof (cases "mgrActiveID m = i")
    case False
    obtain g m1 where get: "onStore (Get sha i) m = (g, m1)" by fastforce
    note got = onStore_Get[OF get]
    show ?thesis
    proof (cases "\<exists>r. g = Ret r \<and> recState r \<noteq> bundleActive")
      case True
      then obtain r where r: "g = Ret r" "recState r \<noteq> bundleActive" by blast
      let ?m = "m1\<lparr>mgrStaged := removeAll i (mgrStaged m1)\<rparr>"
      from assms False get r have del: "onStore (Delete i) ?m = (x, m')" by (simp add: Abort_def)
      show ?thesis using onStore_Delete[OF del] onStore_frame(1)[OF del] got(1-3) got(5)[OF r(1)] r(2) False
        by (auto simp: isRet_def)
    qed (use assms False get got in \<open>cases g; auto simp: Abort_def split: if_splits\<close>)
  qed (use assms in \<open>auto simp: Abort_def\<close>)
  then show "mptr m' = mptr m" "live m' = live m"
    "mrecs m' = mrecs m \<and> x \<noteq> Ret () \<or>
     i \<noteq> mgrActiveID m \<and> mrecs m' = (mrecs m)(i := None) \<and>
       (\<exists>c r. mrecs m i = Some c \<and> checkRecord sha i c = Inr r \<and> recState r \<noteq> bundleActive)" by auto
qed

lemma Abort_managerInv:
  assumes inv: "managerInv sha decode m" and run: "Abort sha i m = (x, m')"
  shows "managerInv sha decode m'"
proof -
  note spec = Abort_spec[OF run]
  have keep: "mrecs m' k = mrecs m k" if "mrecs m k = Some c" "recoverable sha decode k c \<or> k = mgrActiveID m" for k c
    using spec(3) that by (auto simp: recoverable_def)
  have "diskInv sha decode (mgrWorld m')"
    using keep by (intro diskInv_same_pointer[OF inv[unfolded managerInv_def, THEN conjunct1] spec(1)]) fastforce
  moreover have "servedFrom sha decode (mrecs m') (live m')"
    using keep[of "mgrActiveID m"] by (intro servedFrom_keep[OF inv spec(2)]) simp
  ultimately show ?thesis by (simp add: managerInv_def)
qed

end
