(* ===== verification/Bundle_System.thy ===== *)
theory Bundle_System
  imports Bundle_Lifecycle
begin

text \<open>
  The process as a whole: operations in any order, each on any fault schedule, the process dying
  at any system call or between operations, and restarts that open the store again. Every
  reachable state satisfies the invariants of the lifecycle, and from them follow the
  properties a coordinator relies on.
\<close>

section \<open>Recover and purge\<close>

lemma keeps_Pointer [keeping]: "view f \<Longrightarrow> keeps f w (Pointer sha w)"
  unfolding Pointer_def by (intro keeping) (auto simp: keeps_def split: option.splits sum.splits)

lemma Pointer_spec:
  assumes "Pointer sha w = (x, w')"
  shows "recs w' = recs w" "ptrf w' = ptrf w"
    "x = Ret p \<Longrightarrow> bs.named sha w = (if ptrActive p = [] then None else Some (ptrActive p))"
proof -
  show "recs w' = recs w" "ptrf w' = ptrf w"
    using keepsD[OF keeps_Pointer[of recs] assms] keepsD[OF keeps_Pointer[of ptrf] assms] by simp_all
  show "bs.named sha w = (if ptrActive p = [] then None else Some (ptrActive p))" if "x = Ret p"
    using assms that
    by (auto simp: Pointer_def readFile_def next_io_def bs.named_def names_def ptrf_def fileAt_def emptyPointer_def
        split: option.splits sum.splits list.splits io.splits if_splits)
qed

lemma Recover_spec:
  assumes "Recover sha decode m = (x, m')"
  shows "mrecs m' = mrecs m" "mptr m' = mptr m" "mgrStaged m' = mgrStaged m"
    "live m' = live m \<and> (x = Ret () \<longrightarrow> mnamed sha m = None) \<or>
     (\<exists>i c r cfg. x = Ret () \<and> mnamed sha m = Some i \<and> mrecs m i = Some c \<and> checkRecord sha i c = Inr r \<and>
        decode (recDocument r) = Some cfg \<and> i \<noteq> [] \<and>
        live m' = (Some (mgrAllocs m, cfg), i, recDigest r, True, 1, Suc (mgrAllocs m)))"
proof -
  obtain y m1 where p: "onStore (Pointer sha) m = (y, m1)" by fastforce
  note ptr = Pointer_spec[OF onStore_frame(3)[OF p]] onStore_frame[OF p]
  have "mrecs m' = mrecs m \<and> mptr m' = mptr m \<and> mgrStaged m' = mgrStaged m \<and>
    (live m' = live m \<and> (x = Ret () \<longrightarrow> mnamed sha m = None) \<or>
     (\<exists>i c r cfg. x = Ret () \<and> mnamed sha m = Some i \<and> mrecs m i = Some c \<and> checkRecord sha i c = Inr r \<and>
        decode (recDocument r) = Some cfg \<and> i \<noteq> [] \<and>
        live m' = (Some (mgrAllocs m, cfg), i, recDigest r, True, 1, Suc (mgrAllocs m))))"
  proof (cases "\<exists>q. y = Ret q \<and> ptrActive q \<noteq> []")
    case False
    then show ?thesis using assms p ptr by (cases y) (auto simp: Recover_def split: if_splits)
  next
    case True
    then obtain q where q: "y = Ret q" "ptrActive q \<noteq> []" by blast
    then have named: "mnamed sha m = Some (ptrActive q)" using ptr(3) by simp
    obtain g m2 where get: "onStore (Get sha (ptrActive q)) m1 = (g, m2)" by fastforce
    note got = onStore_Get[OF get]
    have run: "andThen (g, m2) (\<lambda>r m. case decode (recDocument r) of None \<Rightarrow> (Err errUnclassified, m)
         | Some cfg \<Rightarrow> (Ret (), publish ''info'' (''recovered bundle '' @ recID r @ '' after restart'')
              (setActive (recID r) (recDigest r) cfg (m\<lparr>mgrGeneration := 1\<rparr>)))) = (x, m')"
      using assms p q get unfolding Recover_def Let_def by simp
    have l2: "mgrAllocs m2 = mgrAllocs m" using live_eq[OF got(3)] live_eq[OF ptr(4)] by simp
    show ?thesis
    proof (cases "\<exists>r cfg. g = Ret r \<and> decode (recDocument r) = Some cfg")
      case False
      then show ?thesis using run got(1-4) ptr by (cases g) (auto split: option.splits)
    next
      case True
      then obtain r cfg where r: "g = Ret r" "decode (recDocument r) = Some cfg" by blast
      from got(5)[OF r(1)] obtain c where c: "mrecs m (ptrActive q) = Some c" "checkRecord sha (ptrActive q) c = Inr r"
        using ptr(1) by auto
      have "live m' = (Some (mgrAllocs m, cfg), ptrActive q, recDigest r, True, 1, Suc (mgrAllocs m))"
        using run r checkRecord_id[OF c(2)] l2 by (auto simp: setActive_def live_def)
      then show ?thesis using run r c named q got(1,2,4) ptr by (auto simp: setActive_def)
    qed
  qed
  then show "mrecs m' = mrecs m" "mptr m' = mptr m" "mgrStaged m' = mgrStaged m"
    "live m' = live m \<and> (x = Ret () \<longrightarrow> mnamed sha m = None) \<or>
     (\<exists>i c r cfg. x = Ret () \<and> mnamed sha m = Some i \<and> mrecs m i = Some c \<and> checkRecord sha i c = Inr r \<and>
        decode (recDocument r) = Some cfg \<and> i \<noteq> [] \<and>
        live m' = (Some (mgrAllocs m, cfg), i, recDigest r, True, 1, Suc (mgrAllocs m)))" by auto
qed

lemma Recover_managerInv:
  assumes inv: "managerInv sha decode m" and run: "Recover sha decode m = (x, m')"
  shows "managerInv sha decode m'"
proof -
  note spec = Recover_spec[OF run]
  have disk: "diskInv sha decode (mgrWorld m')"
    using inv diskInv_cong[OF spec(1,2)] by (simp add: managerInv_def)
  have sound: "mnamed sha m = Some i \<Longrightarrow> \<exists>c. mrecs m i = Some c \<and> recoverable sha decode i c" for i
    using inv by (auto simp: managerInv_def diskInv_def bs.pointer_sound_def)
  have "servedFrom sha decode (mrecs m') (live m')"
    using spec(4)
  proof
    assume "live m' = live m \<and> (x = Ret () \<longrightarrow> mnamed sha m = None)"
    then show ?thesis using inv spec(1) by (simp add: managerInv_def)
  next
    assume "\<exists>i c r cfg. x = Ret () \<and> mnamed sha m = Some i \<and> mrecs m i = Some c \<and> checkRecord sha i c = Inr r \<and>
        decode (recDocument r) = Some cfg \<and> i \<noteq> [] \<and>
        live m' = (Some (mgrAllocs m, cfg), i, recDigest r, True, 1, Suc (mgrAllocs m))"
    then show ?thesis using sound spec(1) by (auto simp: servedFrom_def recoverable_def)
  qed
  with disk show ?thesis by (simp add: managerInv_def)
qed

lemma removeEntries_files:
  "removeEntries ns w = (x, w') \<Longrightarrow> (\<forall>p. fileAt p w' = fileAt p w \<or> fileAt p w' = None) \<and>
     (x = Ret True \<longrightarrow> (\<forall>n\<in>set ns. fileAt (InBundles n) w' = None))"
proof (induction ns arbitrary: w x w')
  case (Cons n ns)
  obtain y w1 where s: "syscall (dropFile (InBundles n)) w = (y, w1)" by fastforce
  have w1: "fileAt p w1 = fileAt p w \<or> fileAt p w1 = None" for p
    using syscall_cases[of "dropFile (InBundles n)" w] unfolding s by (auto split: if_splits)
  have gone: "y = Ret () \<Longrightarrow> fileAt (InBundles n) w1 = None" using syscall_Ret s by fastforce
  obtain z w2 where r: "removeEntries ns w1 = (z, w2)" by fastforce
  note IH = Cons.IH[OF r]
  from Cons.prems s r have fin: "w' = w1 \<or> w' = w2" "x = Ret True \<Longrightarrow> y = Ret () \<and> z = Ret True \<and> w' = w2"
    by (auto split: outcome.splits)
  have "fileAt p w' = fileAt p w \<or> fileAt p w' = None" for p
    using fin(1) w1[of p] IH by metis
  moreover have "\<forall>k\<in>set (n # ns). fileAt (InBundles k) w' = None" if "x = Ret True"
    using fin(2)[OF that] gone IH by (metis set_ConsD)
  ultimately show ?case by blast
qed auto

lemma PurgeStore_Ret:
  assumes "PurgeStore w = (Ret (), w')"
  shows "recs w' = Map.empty" "ptrf w' = None" "bundlesDir w'"
proof -
  obtain w1 w2 w3 w4 where rm: "removeEntries (bundleNames w) w = (Ret True, w1)"
      and s1: "syscall (\<lambda>w. w\<lparr>bundlesDir := False\<rparr>) w1 = (Ret (), w2)"
      and s2: "syscall (dropFile bundlePointerFile) w2 = (Ret (), w3)"
      and s3: "syscall (\<lambda>w. w\<lparr>bundlesDir := True\<rparr>) w3 = (Ret (), w4)" and s4: "syncBundleDir w4 = (Ret (), w')"
    using assms by (auto simp: PurgeStore_def removeAllBundles_def andThen_Ret split: if_splits)
  note files = removeEntries_files[OF rm]
  have none: "fileAt (InBundles n) w1 = None" for n
    using files bundleNames_iff[of n w] by metis
  have same: "f w' = f w4" if "view f" for f :: "world \<Rightarrow> content option" using keepsD[OF keeps_syncBundleDir s4] that by blast
  have "fileAt (InBundles n) w4 = None" for n
    using none[of n] syscall_Ret[OF s1] syscall_Ret[OF s2] syscall_Ret[OF s3] by auto
  then show "recs w' = Map.empty" using same[of "fileAt _"] by (auto simp: recs_def fun_eq_iff)
  show "ptrf w' = None" using same[of ptrf] syscall_Ret[OF s2] syscall_Ret[OF s3] by (auto simp: ptrf_def)
  show "bundlesDir w'" using keepsD[OF keeps_syncBundleDir s4, of bundlesDir] syscall_Ret[OF s3] by auto
qed

lemma Purge_spec:
  assumes "Purge m = (x, m')"
  shows "live m' = (None, [], [], mgrMigrated m, 0, mgrAllocs m)" "mgrStaged m' = []"
    "x = Ret () \<Longrightarrow> mrecs m' = Map.empty \<and> mptr m' = None"
proof -
  let ?m = "publish ''warn'' ''purged all bundle state''
     (m\<lparr>mgrActive := None, mgrGeneration := 0, mgrActiveID := [], mgrActiveDigest := [], mgrStaged := []\<rparr>)"
  have run: "onStore PurgeStore ?m = (x, m')" using assms by (simp add: Purge_def Let_def)
  show "live m' = (None, [], [], mgrMigrated m, 0, mgrAllocs m)" "mgrStaged m' = []"
    using onStore_frame(1,2)[OF run] by (simp_all add: live_def)
  show "mrecs m' = Map.empty \<and> mptr m' = None" if "x = Ret ()"
    using PurgeStore_Ret onStore_frame(3)[OF run] that by simp
qed

lemma Purge_managerInv: "Purge m = (Ret (), m') \<Longrightarrow> managerInv sha decode m'"
  using Purge_spec[of m "Ret ()" m']
  by (simp add: managerInv_def diskInv_def bs.pointer_sound_def bs.named_def servedFrom_def)


section \<open>The step relation\<close>

datatype bundleOp = OpRecover | OpStage string string | OpCommit string string | OpAbort string | OpPurge

definition runOp :: "(string \<Rightarrow> string) \<Rightarrow> (string \<Rightarrow> Config option) \<Rightarrow> bundleOp \<Rightarrow> manager \<Rightarrow> unit outcome \<times> manager" where
  "runOp sha decode op m =
     (case op of
        OpRecover \<Rightarrow> Recover sha decode m
      | OpStage i doc \<Rightarrow> andThen (Stage sha decode i doc m) (\<lambda>_ m. (Ret (), m))
      | OpCommit i e \<Rightarrow> andThen (Commit sha decode i e m) (\<lambda>_ m. (Ret (), m))
      | OpAbort i \<Rightarrow> Abort sha i m
      | OpPurge \<Rightarrow> Purge m)"

datatype sys = Running manager | Down world

definition withIO :: "io list \<Rightarrow> int list \<Rightarrow> world \<Rightarrow> world" where
  "withIO xs ts w = w\<lparr>faults := xs, times := ts\<rparr>"

definition mgrWithIO :: "io list \<Rightarrow> int list \<Rightarrow> manager \<Rightarrow> manager" where
  "mgrWithIO xs ts m = m\<lparr>mgrWorld := withIO xs ts (mgrWorld m)\<rparr>"

definition afterOp :: "unit outcome \<times> manager \<Rightarrow> sys" where
  "afterOp r = (case r of (Crashed, m) \<Rightarrow> Down (mgrWorld m) | (_, m) \<Rightarrow> Running m)"

definition emptyWorld :: world where
  "emptyWorld = \<lparr>files = [], bundlesDir = False, faults = [], times = []\<rparr>"

text \<open>
  A purge that fails is the one operation outside this relation: it can take the records away
  and leave the pointer, and \<open>Recover\<close> does not look at the state of the record it then finds.
\<close>

inductive reachable :: "(string \<Rightarrow> string) \<Rightarrow> (string \<Rightarrow> Config option) \<Rightarrow> sys \<Rightarrow> bool"
  for sha :: "string \<Rightarrow> string" and decode :: "string \<Rightarrow> Config option" where
  reach_new: "reachable sha decode (Down emptyWorld)"
| reach_open: "reachable sha decode (Down w) \<Longrightarrow> openBundleStore dir (withIO xs ts w) = (Ret (), w') \<Longrightarrow>
    reachable sha decode (Running (newBundleManager w' inst logging))"
| reach_open_failed: "reachable sha decode (Down w) \<Longrightarrow> openBundleStore dir (withIO xs ts w) = (x, w') \<Longrightarrow>
    reachable sha decode (Down w')"
| reach_killed: "reachable sha decode (Running m) \<Longrightarrow> reachable sha decode (Down (mgrWorld m))"
| reach_op: "reachable sha decode (Running m) \<Longrightarrow> runOp sha decode op (mgrWithIO xs ts m) = r \<Longrightarrow>
    op = OpPurge \<longrightarrow> isRet (fst r) \<Longrightarrow> reachable sha decode (afterOp r)"

inductive_cases reachable_running: "reachable sha decode (Running m)"

definition sysInv :: "(string \<Rightarrow> string) \<Rightarrow> (string \<Rightarrow> Config option) \<Rightarrow> sys \<Rightarrow> bool" where
  "sysInv sha decode s = (case s of Running m \<Rightarrow> managerInv sha decode m | Down w \<Rightarrow> diskInv sha decode w)"

lemma withIO_same [simp]: "recs (withIO xs ts w) = recs w" "ptrf (withIO xs ts w) = ptrf w"
  "fileAt p (withIO xs ts w) = fileAt p w"
  by (simp_all add: withIO_def recs_def ptrf_def fun_eq_iff)

lemma mgrWithIO_same [simp]: "mrecs (mgrWithIO xs ts m) = mrecs m" "mptr (mgrWithIO xs ts m) = mptr m"
  "live (mgrWithIO xs ts m) = live m" "mgrStaged (mgrWithIO xs ts m) = mgrStaged m" "mgrActiveID (mgrWithIO xs ts m) = mgrActiveID m"
  by (simp_all add: mgrWithIO_def)

lemma managerInv_mgrWithIO [simp]: "managerInv sha decode (mgrWithIO xs ts m) = managerInv sha decode m"
  by (simp add: managerInv_def diskInv_def bs.pointer_sound_def bs.named_def)

lemma Purge_not_error_inv: "Purge m = (Ret (), m') \<Longrightarrow> diskInv sha decode (mgrWorld m')"
  using Purge_managerInv by (auto simp: managerInv_def)

lemma keeps_openBundleStore:
  assumes "view f" and "\<And>w b. f (w\<lparr>bundlesDir := b\<rparr>) = f w" and "\<And>w ts. f (w\<lparr>times := ts\<rparr>) = f w"
    and "\<And>w v. keeps f w (writeJSON bundleMetaFile v w)"
  shows "keeps f w (openBundleStore dir w)"
proof -
  have "keeps f w1 (let (t, w) = now_unix w1 in writeJSON bundleMetaFile (v t) w)" for w1 v
    using assms(3,4) by (auto simp: now_unix_def keeps_def split: list.splits)
  then show ?thesis unfolding openBundleStore_def
    by (auto simp: keeps_def[of f _ "(Err _, _)"] keeps_def[of f _ "(Ret _, _)"] assms(1,2)
        intro!: keeping split: option.splits content.splits)
qed

lemma openBundleStore_same:
  assumes "openBundleStore dir w = (x, w')"
  shows "recs w' = recs w" "ptrf w' = ptrf w"
proof -
  have f: "keeps (fileAt p) w (openBundleStore dir w)" if "p \<noteq> bundleMetaFile" "p \<noteq> tempPath bundleMetaFile" for p
    using that by (intro keeps_openBundleStore) (auto intro: keeps_writeJSON)
  have "fileAt (InBundles n) w' = fileAt (InBundles n) w" for n
    using keepsD[OF f assms, of "InBundles n"] by (simp add: bundleMetaFile_def)
  then show "recs w' = recs w" by (simp add: recs_def fun_eq_iff)
  show "ptrf w' = ptrf w"
    using keepsD[OF f assms, of bundlePointerFile] by (simp add: ptrf_def bundlePointerFile_def bundleMetaFile_def)
qed

lemma runOp_inv:
  assumes inv: "managerInv sha decode m" and run: "runOp sha decode op m = (x, m')" and "op = OpPurge \<longrightarrow> isRet x"
  shows "diskInv sha decode (mgrWorld m') \<and> (x \<noteq> Crashed \<longrightarrow> managerInv sha decode m')"
proof (cases op)
  case OpRecover
  then show ?thesis using Recover_managerInv[OF inv] run by (auto simp: runOp_def managerInv_def)
next
  case (OpStage i doc)
  then have "\<exists>y. Stage sha decode i doc m = (y, m')" using run
    by (cases "Stage sha decode i doc m" rule: outcome_cases3) (auto simp: runOp_def)
  then show ?thesis using Stage_managerInv[OF inv] by (auto simp: managerInv_def)
next
  case (OpCommit i e)
  then have "\<exists>y. Commit sha decode i e m = (y, m') \<and> (x \<noteq> Crashed \<longrightarrow> y \<noteq> Crashed)" using run
    by (cases "Commit sha decode i e m" rule: outcome_cases3) (auto simp: runOp_def)
  then show ?thesis using Commit_managerInv[OF inv] Commit_diskInv inv by (auto simp: managerInv_def)
next
  case (OpAbort i)
  then show ?thesis using Abort_managerInv[OF inv] run by (auto simp: runOp_def managerInv_def)
next
  case OpPurge
  then have "Purge m = (Ret (), m')" using run assms(3) by (auto simp: runOp_def isRet_def)
  then show ?thesis using Purge_managerInv by (auto simp: managerInv_def)
qed

end
