(* ===== verification/Bundle_Properties.thy ===== *)
theory Bundle_Properties
  imports Bundle_System
begin

text \<open>
  The properties of the bundle store and its manager, over the step relation of the process and
  over single operations on arbitrary fault schedules. The example process at the end of the
  first section is the concrete run the witnesses use.
\<close>

section \<open>Recovery with working I/O\<close>

lemma readFile_healthy: "faults w = [] \<Longrightarrow> readFile p w = (Ret (fileAt p w), w)"
  by (simp add: readFile_def next_io_def fileAt_def)

lemma Pointer_healthy:
  assumes "faults w = []" and "ptrf w = None \<or> bs.named sha w \<noteq> None"
  shows "\<exists>p. Pointer sha w = (Ret p, w) \<and> bs.named sha w = (if ptrActive p = [] then None else Some (ptrActive p))"
proof (cases "ptrf w")
  case None
  then show ?thesis using assms
    by (simp add: Pointer_def readFile_healthy ptrf_def bs.named_def emptyPointer_def)
next
  case (Some c)
  with assms obtain p where p: "checkPointer sha c = Inr p"
    by (auto simp: bs.named_def names_def split: sum.splits)
  then show ?thesis using Some assms(1)
    by (auto simp: Pointer_def readFile_healthy ptrf_def bs.named_def names_def)
qed

lemma Get_healthy:
  "faults w = [] \<Longrightarrow> validateBundleID i = None \<Longrightarrow> recs w i = Some c \<Longrightarrow> checkRecord sha i c = Inr r \<Longrightarrow>
     Get sha i w = (Ret r, w)"
  by (simp add: Get_def bundlePath_def readFile_healthy recs_def)

lemma Recover_healthy:
  assumes disk: "diskInv sha decode w" and io: "faults w = []"
  shows "\<exists>m. Recover sha decode (newBundleManager w inst logging) = (Ret (), m)"
proof -
  let ?m = "newBundleManager w inst logging"
  obtain p where p: "Pointer sha w = (Ret p, w)" and nm: "bs.named sha w = (if ptrActive p = [] then None else Some (ptrActive p))"
    using Pointer_healthy[OF io] disk by (auto simp: diskInv_def)
  have store: "onStore (Pointer sha) ?m = (Ret p, ?m)" using p by (simp add: onStore_def newBundleManager_def)
  show ?thesis
  proof (cases "ptrActive p = []")
    case True
    then show ?thesis using store by (simp add: Recover_def)
  next
    case False
    then obtain c where c: "recs w (ptrActive p) = Some c" "recoverable sha decode (ptrActive p) c"
      using disk nm by (auto simp: diskInv_def bs.pointer_sound_def)
    then obtain r cfg where r: "checkRecord sha (ptrActive p) c = Inr r" "decode (recDocument r) = Some cfg"
        "validateBundleID (ptrActive p) = None"
      by (auto simp: recoverable_def split: sum.splits)
    have "onStore (Get sha (ptrActive p)) ?m = (Ret r, ?m)"
      using Get_healthy[OF io r(3) c(1) r(1)] by (simp add: onStore_def newBundleManager_def)
    then show ?thesis using store False r(2) by (simp add: Recover_def Let_def)
  qed
qed

lemma newBundleManager_frame [simp]:
  "mgrWorld (newBundleManager w inst logging) = w" "live (newBundleManager w inst logging) = (None, [], [], False, 0, 0)"
  "mgrAllocs (newBundleManager w inst logging) = 0"
  by (simp_all add: newBundleManager_def live_def)

section \<open>An example process\<close>

definition exSha :: "string \<Rightarrow> string" where "exSha s = ''h'' @ s"
definition exDecode :: "string \<Rightarrow> Config option" where
  "exDecode doc = (if doc = ''one'' \<or> doc = ''two'' then Some (zeroConfig\<lparr>cfgListen := doc\<rparr>) else None)"

definition exOpened :: manager where
  "exOpened = newBundleManager (snd (openBundleStore ''store'' (withIO [] [7] emptyWorld))) ''inst'' True"
definition exStaged :: manager where
  "exStaged = snd (runOp exSha exDecode (OpStage ''a'' ''one'') (mgrWithIO [] [8] exOpened))"
definition exLive :: manager where
  "exLive = snd (runOp exSha exDecode (OpCommit ''a'' []) (mgrWithIO [] [9, 9] exStaged))"
definition exBoth :: manager where
  "exBoth = snd (runOp exSha exDecode (OpStage ''b'' ''two'') (mgrWithIO [] [10] exLive))"

lemma afterOp_Ret: "fst r = Ret () \<Longrightarrow> afterOp r = Running (snd r)"
  by (cases r) (simp add: afterOp_def)

lemma reach_op_ok: "reachable sha decode (Running m) \<Longrightarrow> fst (runOp sha decode op (mgrWithIO xs ts m)) = Ret () \<Longrightarrow>
    reachable sha decode (Running (snd (runOp sha decode op (mgrWithIO xs ts m))))"
  using reach_op[OF _ refl, of sha decode m op xs ts] by (auto simp: afterOp_Ret isRet_def)

lemma exOpened_reachable: "reachable exSha exDecode (Running exOpened)"
proof -
  have "fst (openBundleStore ''store'' (withIO [] [7] emptyWorld)) = Ret ()" by code_simp
  then show ?thesis unfolding exOpened_def
    by (intro reach_open[OF reach_new, where dir = "''store''" and xs = "[]" and ts = "[7]"]) (simp add: prod_eq_iff)
qed

lemma exStaged_reachable: "reachable exSha exDecode (Running exStaged)"
  unfolding exStaged_def by (rule reach_op_ok[OF exOpened_reachable]) code_simp

lemma exLive_reachable: "reachable exSha exDecode (Running exLive)"
  unfolding exLive_def by (rule reach_op_ok[OF exStaged_reachable]) code_simp

lemma exBoth_reachable: "reachable exSha exDecode (Running exBoth)"
  unfolding exBoth_def by (rule reach_op_ok[OF exLive_reachable]) code_simp

section \<open>The process\<close>

lemma sysInv_reachable: "reachable sha decode s \<Longrightarrow> sysInv sha decode s"
proof (induction rule: reachable.induct)
  case reach_new
  have "ptrf emptyWorld = None" by (simp add: emptyWorld_def ptrf_def fileAt_def)
  then show ?case by (simp add: sysInv_def diskInv_def bs.pointer_sound_def bs.named_def)
next
  case (reach_open w dir xs ts w' inst logging)
  from openBundleStore_same[OF reach_open(2)] have "diskInv sha decode w'"
    using reach_open(3) diskInv_cong[of w' w sha decode] by (simp add: sysInv_def)
  then show ?case by (simp add: sysInv_def managerInv_def servedFrom_def)
next
  case (reach_open_failed w dir xs ts x w')
  from openBundleStore_same[OF reach_open_failed(2)] show ?case
    using reach_open_failed(3) diskInv_cong[of w' w sha decode] by (simp add: sysInv_def)
next
  case (reach_killed m)
  then show ?case by (simp add: sysInv_def managerInv_def)
next
  case (reach_op m op xs ts r)
  obtain x m' where r: "r = (x, m')" by fastforce
  have "managerInv sha decode (mgrWithIO xs ts m)" using reach_op by (simp add: sysInv_def)
  from runOp_inv[OF this, of op x m'] show ?case using reach_op r
    by (cases x) (auto simp: sysInv_def afterOp_def)
qed




text \<open>Restarting on any reachable directory with working I/O succeeds, and the new process serves exactly
  the bundle the pointer names: nothing when there is no pointer, and otherwise the decoded document of
  the record under the pointer's identifier, as generation 1.\<close>

theorem restart_serves_pointer:
  assumes "reachable sha decode (Down w)"
  shows "\<exists>m. Recover sha decode (newBundleManager (withIO [] ts w) inst logging) = (Ret (), m) \<and>
    (case bs.named sha w of
       None \<Rightarrow> mgrActive m = None \<and> mgrActiveID m = [] \<and> \<not> mgrMigrated m
     | Some i \<Rightarrow> \<exists>c r cfg. recs w i = Some c \<and> checkRecord sha i c = Inr r \<and> recState r = bundleActive \<and>
         decode (recDocument r) = Some cfg \<and> mgrActive m = Some (0, cfg) \<and> mgrActiveID m = i \<and>
         mgrActiveDigest m = recDigest r \<and> mgrGeneration m = 1 \<and> mgrMigrated m)"
proof -
  let ?w = "withIO [] ts w"
  have disk: "diskInv sha decode ?w"
    using sysInv_reachable[OF assms] diskInv_cong[of ?w w sha decode] by (simp add: sysInv_def)
  moreover have "faults ?w = []" by (simp add: withIO_def)
  ultimately obtain m where m: "Recover sha decode (newBundleManager ?w inst logging) = (Ret (), m)"
    using Recover_healthy by blast
  note spec = Recover_spec(4)[OF m, simplified]
  have named: "bs.named sha ?w = bs.named sha w" by (simp add: bs.named_def)
  have sound: "bs.named sha w = Some i \<Longrightarrow> \<exists>c. recs w i = Some c \<and> recoverable sha decode i c" for i
    using disk named by (auto simp: diskInv_def bs.pointer_sound_def)
  show ?thesis
  proof (cases "bs.named sha w")
    case None
    then show ?thesis using m spec named by (auto simp: live_def)
  next
    case (Some i)
    then show ?thesis using m spec named sound[OF Some] by (fastforce simp: live_def recoverable_def)
  qed
qed

lemma exLive_down: "reachable exSha exDecode (Down (mgrWorld exLive))"
  by (rule reach_killed[OF exLive_reachable])

theorem restart_serves_pointer_witness:
  "\<exists>m. Recover exSha exDecode (newBundleManager (withIO [] [] (mgrWorld exLive)) ''x'' False) = (Ret (), m) \<and>
     mgrActiveID m = ''a''"
proof -
  have "bs.named exSha (mgrWorld exLive) = Some ''a''"
    unfolding bs.named_def by code_simp
  then show ?thesis using restart_serves_pointer[OF exLive_down, of "[]" "''x''" False] by auto
qed




section \<open>Commits\<close>

text \<open>C3: A commit that reports an error has not changed what is served: configuration, identifier, digest and
  generation are those from before, so is the staged set, no stored record but the one named in the
  request changed, and the pointer is the old one or names the requested bundle. In particular no error
  is reported once the pointer is durable and the swap has begun.\<close>

theorem commit_error_keeps_serving:
  assumes "Commit sha decode i e m = (Err er, m')"
  shows "live m' = live m \<and> mgrStaged m' = mgrStaged m \<and> (\<forall>k. k \<noteq> i \<longrightarrow> mrecs m' k = mrecs m k) \<and>
    (mnamed sha m' = mnamed sha m \<or> mnamed sha m' = Some i) \<and> (mgrActiveID m = e \<or> er = errBundleConflict)"
proof -
  have "mgrActiveID m = e \<or> er = errBundleConflict"
    using assms by (cases "mgrActiveID m = i"; cases "mgrActiveID m = e") (simp_all add: Commit_def)
  then show ?thesis using Commit_not_Ret_live[OF assms] by blast
qed

theorem commit_error_keeps_serving_witness:
  "live (snd (Commit exSha exDecode ''b'' ''a'' (mgrWithIO (replicate 7 IoOk @ [IoErr]) [11] exBoth))) = live (mgrWithIO (replicate 7 IoOk @ [IoErr]) [11] exBoth)
   \<and> fst (Commit exSha exDecode ''b'' ''a'' (mgrWithIO (replicate 7 IoOk @ [IoErr]) [11] exBoth)) = Err errUnclassified"
proof -
  have e: "fst (Commit exSha exDecode ''b'' ''a'' (mgrWithIO (replicate 7 IoOk @ [IoErr]) [11] exBoth)) = Err errUnclassified"
    by code_simp
  then have "Commit exSha exDecode ''b'' ''a'' (mgrWithIO (replicate 7 IoOk @ [IoErr]) [11] exBoth) =
      (Err errUnclassified, snd (Commit exSha exDecode ''b'' ''a'' (mgrWithIO (replicate 7 IoOk @ [IoErr]) [11] exBoth)))"
    by (simp add: prod_eq_iff)
  from commit_error_keeps_serving[OF this] e show ?thesis by simp
qed

text \<open>C4: The compare-and-swap lets one of two racing commits through. When a commit that expected \<open>e\<close> made
  \<open>i\<close> live, any other commit that expected \<open>e\<close> as well is refused as a conflict and changes nothing, and
  repeating the successful one answers the same digest and changes nothing.\<close>

theorem commit_exclusive:
  assumes "Commit sha decode i e m = (Ret d, m1)" and "mgrActiveID m \<noteq> i" and "j \<noteq> i"
  shows "Commit sha decode j e m1 = (Err errBundleConflict, m1) \<and> Commit sha decode i e m1 = (Ret d, m1)"
proof -
  have "mgrActiveID m = e" "mgrActiveID m1 = i" "mgrActiveDigest m1 = d"
    using Commit_Ret[OF assms(1,2)] by (auto simp: live_def)
  then show ?thesis using assms(2,3) by (auto simp: Commit_def)
qed

theorem commit_exclusive_witness:
  "Commit exSha exDecode ''b'' [] (snd (Commit exSha exDecode ''a'' [] exStaged)) =
     (Err errBundleConflict, snd (Commit exSha exDecode ''a'' [] exStaged)) \<and>
   Commit exSha exDecode ''a'' [] (snd (Commit exSha exDecode ''a'' [] exStaged)) =
     (Ret ''hone'', snd (Commit exSha exDecode ''a'' [] exStaged))"
proof -
  have "fst (Commit exSha exDecode ''a'' [] exStaged) = Ret ''hone''" by code_simp
  then have "Commit exSha exDecode ''a'' [] exStaged = (Ret ''hone'', snd (Commit exSha exDecode ''a'' [] exStaged))"
    by (simp add: prod_eq_iff)
  moreover have "mgrActiveID exStaged \<noteq> ''a''" by code_simp
  ultimately show ?thesis by (rule commit_exclusive) simp
qed

section \<open>Staging and aborting\<close>

text \<open>Staging never changes what is served, the pointer, or any record that is already stored; the only
  record it may add is the staged one for its identifier. When it answers, the answer is the digest of the
  document, the document decodes, and the record stored under the identifier verifies and carries that
  digest, so a different document under an existing identifier is never accepted.\<close>

theorem stage_immutable:
  "case Stage sha decode i doc m of (x, m') \<Rightarrow>
     mptr m' = mptr m \<and> live m' = live m \<and>
     (\<forall>k. mrecs m' k = mrecs m k \<or> k = i \<and> mrecs m k = None \<and>
        (\<exists>t. mrecs m' k = Some (RecordJSON (sealRecord sha (stagedRecord t i (sha doc) doc))))) \<and>
     (case x of
        Ret d \<Rightarrow> d = sha doc \<and> decode doc \<noteq> None \<and>
          (\<exists>c r. mrecs m' i = Some c \<and> checkRecord sha i c = Inr r \<and> recDigest r = sha doc)
      | _ \<Rightarrow> True)"
proof -
  obtain x m' where st: "Stage sha decode i doc m = (x, m')" by fastforce
  note spec = Stage_spec[OF st]
  have "mrecs m' k = mrecs m k \<or> k = i \<and> mrecs m k = None \<and>
        (\<exists>t. mrecs m' k = Some (RecordJSON (sealRecord sha (stagedRecord t i (sha doc) doc))))" for k
    using spec(3)[of k] spec(4) by (cases "k = i") simp_all
  moreover have "case x of Ret d \<Rightarrow> d = sha doc \<and> decode doc \<noteq> None \<and>
      (\<exists>c r. mrecs m' i = Some c \<and> checkRecord sha i c = Inr r \<and> recDigest r = sha doc) | _ \<Rightarrow> True"
    using spec(5) by (cases x) simp_all
  ultimately show ?thesis using st spec(1,2) by simp
qed

text \<open>Aborting never takes away what is serving: the pointer and everything the process reports as live
  are unchanged, and the only record that can disappear is the named one, when it is not the active bundle
  and its stored state is not active; if anything else holds, the store is untouched and the caller gets an error.\<close>

theorem abort_spares_live:
  "case Abort sha i m of (x, m') \<Rightarrow>
     mptr m' = mptr m \<and> live m' = live m \<and>
     (mrecs m' = mrecs m \<and> x \<noteq> Ret () \<or>
      i \<noteq> mgrActiveID m \<and> mrecs m' = (mrecs m)(i := None) \<and>
        (\<exists>c r. mrecs m i = Some c \<and> checkRecord sha i c = Inr r \<and> recState r \<noteq> bundleActive))"
proof -
  obtain x m' where ab: "Abort sha i m = (x, m')" by fastforce
  then show ?thesis using Abort_spec[OF ab] by simp
qed

section \<open>Purging\<close>

text \<open>A purge withdraws what is served on every outcome, even when the store fails or the process dies in
  it: no configuration, identifier, digest, generation or staged bundle is left, while the migration latch
  keeps its value. When it answers success nothing is stored and there is no pointer, so a restart with
  working I/O serves nothing.\<close>

theorem purge_withdraws:
  "case Purge m of (x, m') \<Rightarrow>
     mgrActive m' = None \<and> mgrActiveID m' = [] \<and> mgrActiveDigest m' = [] \<and> mgrGeneration m' = 0 \<and> mgrStaged m' = [] \<and>
     mgrMigrated m' = mgrMigrated m \<and>
     (case x of
        Ret _ \<Rightarrow> mrecs m' = Map.empty \<and> mptr m' = None \<and>
          (\<exists>m''. Recover sha decode (newBundleManager (withIO [] ts (mgrWorld m')) inst logging) = (Ret (), m'') \<and>
             mgrActive m'' = None)
      | _ \<Rightarrow> True)"
proof -
  obtain x m' where pu: "Purge m = (x, m')" by fastforce
  note spec = Purge_spec[OF pu]
  have "\<exists>m''. Recover sha decode (newBundleManager (withIO [] ts (mgrWorld m')) inst logging) = (Ret (), m'') \<and>
      mgrActive m'' = None" if "x = Ret ()"
  proof -
    let ?w = "withIO [] ts (mgrWorld m')"
    have n: "bs.named sha ?w = None" using spec(3)[OF that] by (simp add: bs.named_def)
    then have "diskInv sha decode ?w" using spec(3)[OF that] by (simp add: diskInv_def bs.pointer_sound_def)
    moreover have "faults ?w = []" by (simp add: withIO_def)
    ultimately obtain m'' where "Recover sha decode (newBundleManager ?w inst logging) = (Ret (), m'')"
      using Recover_healthy by blast
    moreover from Recover_spec(4)[OF this] n have "live m'' = (None, [], [], False, 0, 0)" by simp
    ultimately show ?thesis by (auto simp: live_def)
  qed
  then show ?thesis using pu spec by (auto simp: live_def split: outcome.split)
qed

text \<open>After a purge that fails between removing the records and removing the pointer, the identifier the
  pointer still names can be staged anew, and a restart then serves it although it was never committed:
  \<open>Recover\<close> does not look at the state of the record.\<close>

theorem failed_purge_revives_staged:
  "let purged = Purge (mgrWithIO [IoOk, IoErr] [] exLive);
       staged = Stage exSha exDecode ''a'' ''two'' (snd purged);
       restarted = Recover exSha exDecode (newBundleManager (withIO [] [] (mgrWorld (snd staged))) ''x'' False)
   in fst purged = Err errUnclassified \<and> fst staged = Ret ''htwo'' \<and>
      fst restarted = Ret () \<and> mgrActiveID (snd restarted) = ''a'' \<and> mgrActiveDigest (snd restarted) = ''htwo''"
  by code_simp


text \<open>A commit of \<open>b\<close> that fails on the directory sync after the pointer was renamed leaves the pointer
  naming \<open>b\<close> while \<open>a\<close> is still served. Committing \<open>a\<close> then answers success as an idempotent repeat
  without touching the store, and a restart serves \<open>b\<close>, the bundle whose commit was reported as failed.\<close>

theorem repeat_after_failed_commit_not_durable:
  "let failed = Commit exSha exDecode ''b'' ''a'' (mgrWithIO (replicate 13 IoOk @ [IoErr]) [11, 11] exBoth);
       again = Commit exSha exDecode ''a'' ''a'' (snd failed);
       restarted = Recover exSha exDecode (newBundleManager (withIO [] [] (mgrWorld (snd again))) ''x'' False)
   in fst failed = Err errUnclassified \<and> fst again = Ret ''hone'' \<and> mgrActiveID (snd again) = ''a'' \<and>
      fst restarted = Ret () \<and> mgrActiveID (snd restarted) = ''b''"
  by code_simp


section \<open>Retention\<close>

lemma healthy_world: "faults w = [] \<Longrightarrow> syscall eff w = (Ret (), eff w)"
  by (simp add: syscall_def next_io_def)

lemma onStore_Get_healthy:
  "faults (mgrWorld m) = [] \<Longrightarrow> \<exists>x. onStore (Get sha i) m = (x, m) \<and>
     (\<forall>r. x = Ret r \<longleftrightarrow> validateBundleID i = None \<and> (\<exists>c. mrecs m i = Some c \<and> checkRecord sha i c = Inr r)) \<and> x \<noteq> Crashed"
  by (cases "validateBundleID i")
     (auto simp: onStore_def Get_def bundlePath_def readFile_healthy recs_def fileAt_def split: option.splits sum.splits)

definition sweepable :: "(string \<Rightarrow> string) \<Rightarrow> string \<Rightarrow> (string \<Rightarrow> content option) \<Rightarrow> string \<Rightarrow> bool" where
  "sweepable sha j rs k \<longleftrightarrow> k \<noteq> j \<and> validateBundleID k = None \<and> supersededAt sha rs k \<noteq> None"

lemma collectSuperseded_healthy:
  assumes "faults (mgrWorld m) = []"
  shows "collectSuperseded sha j ids m =
     (Ret (map (\<lambda>i. (i, the (supersededAt sha (mrecs m) i))) (filter (sweepable sha j (mrecs m)) ids)), m)"
proof (induction ids)
  case (Cons i ids)
  obtain x where get: "onStore (Get sha i) m = (x, m)" and x: "x \<noteq> Crashed"
      "\<And>r. x = Ret r \<longleftrightarrow> validateBundleID i = None \<and> (\<exists>c. mrecs m i = Some c \<and> checkRecord sha i c = Inr r)"
    using onStore_Get_healthy[OF assms, of sha i] by blast
  show ?case
  proof (cases x)
    case (Ret r)
    then show ?thesis using Cons get x(2)[of r] by (auto simp: sweepable_def supersededAt_def)
  next
    case (Err e)
    then have "\<not> sweepable sha j (mrecs m) i" using x(2)
      by (auto simp: sweepable_def supersededAt_def split: option.splits sum.splits)
    then show ?thesis using Cons get Err by simp
  qed (use x in simp)
qed simp

lemma onStore_Delete_healthy:
  assumes "faults (mgrWorld m) = []" and "validateBundleID i = None"
  shows "\<exists>m'. onStore (Delete i) m = (Ret (), m') \<and> mrecs m' = (mrecs m)(i := None) \<and> faults (mgrWorld m') = []"
  using assms by (simp add: onStore_def Delete_valid healthy_world syncBundleDir_def recs_dropFile dropFile_def[of _ "mgrWorld m"])
     (simp add: dropFile_def[symmetric] recs_dropFile)

lemma pruneDelete_healthy:
  "faults (mgrWorld m) = [] \<Longrightarrow> \<forall>i\<in>set ids. validateBundleID i = None \<Longrightarrow>
     \<exists>m'. pruneDelete ids m = (Ret (), m') \<and> mrecs m' = (\<lambda>k. if k \<in> set ids then None else mrecs m k)"
proof (induction ids arbitrary: m)
  case (Cons i ids)
  obtain m1 where d: "onStore (Delete i) m = (Ret (), m1)" "mrecs m1 = (mrecs m)(i := None)" "faults (mgrWorld m1) = []"
    using onStore_Delete_healthy[of m i] Cons.prems by auto
  let ?m2 = "publish ''info'' (''pruned superseded bundle '' @ i) m1"
  obtain m' where "pruneDelete ids ?m2 = (Ret (), m')" "mrecs m' = (\<lambda>k. if k \<in> set ids then None else mrecs ?m2 k)"
    using Cons.IH[of ?m2] Cons.prems d(3) by auto
  then show ?case using d by (auto simp: fun_eq_iff)
qed auto

lemma newestFirst_sorted:
  "sorted_wrt (\<lambda>a b. b \<le> a) (map (\<lambda>k. (f k, k)) (newestFirst (map (\<lambda>k. (k, f k)) ks)))"
proof -
  have "map (\<lambda>k. (f k, k)) (newestFirst (map (\<lambda>k. (k, f k)) ks)) = rev (sort (map (\<lambda>k. (f k, k)) ks))"
    by (auto simp: newestFirst_def o_def rev_map[symmetric] intro!: map_idI)
  then show ?thesis by (simp add: sorted_wrt_rev)
qed

lemma newestFirst_drop_take:
  assumes "k \<in> set (drop n (newestFirst (map (\<lambda>k. (k, f k)) ks)))" "l \<in> set (take n (newestFirst (map (\<lambda>k. (k, f k)) ks)))"
  shows "(f k, k) \<le> (f l, l)"
proof -
  define ns where "ns = newestFirst (map (\<lambda>k. (k, f k)) ks)"
  have "sorted_wrt (\<lambda>a b. b \<le> a) (map (\<lambda>k. (f k, k)) (take n ns) @ map (\<lambda>k. (f k, k)) (drop n ns))"
    using newestFirst_sorted[of f ks] unfolding map_append[symmetric] by (simp add: ns_def)
  then have "\<forall>x\<in>set (map (\<lambda>k. (f k, k)) (take n ns)). \<forall>y\<in>set (map (\<lambda>k. (f k, k)) (drop n ns)). y \<le> x"
    unfolding sorted_wrt_append by blast
  moreover have "(f l, l) \<in> set (map (\<lambda>k. (f k, k)) (take n ns))" "(f k, k) \<in> set (map (\<lambda>k. (f k, k)) (drop n ns))"
    using assms by (auto simp: ns_def)
  ultimately show ?thesis by blast
qed

lemma length_newestFirst: "length (newestFirst act) = length act"
  by (simp add: newestFirst_def)


lemma distinct_newestFirst: "distinct ks \<Longrightarrow> distinct (newestFirst (map (\<lambda>k. (k, f k)) ks))"
  by (auto simp: newestFirst_def distinct_map inj_on_def o_def)

lemma onStore_List_healthy:
  assumes "faults (mgrWorld m) = []" and "dirWf (mgrWorld m)"
  obtains ids where "onStore ListBundles m = (Ret ids, m)" "set ids = dom (mrecs m)" "distinct ids"
proof -
  obtain ids where "ListBundles (mgrWorld m) = (Ret ids, mgrWorld m)"
    using assms(1) by (cases "bundlesDir (mgrWorld m)") (auto simp: ListBundles_def next_io_def)
  with ListBundles_Ret[OF this] assms(2) show ?thesis
    by (intro that[of ids]) (auto simp: onStore_def dirWf_def)
qed

lemma sweepable_dom: "sweepable sha j rs k \<Longrightarrow> k \<in> dom rs"
  by (auto simp: sweepable_def supersededAt_def split: option.splits)

text \<open>With working I/O a sweep succeeds and leaves at most two superseded records beside the one just
  replaced. It only removes superseded records other than that one, and only when two remain that are at
  least as recent (by activation time, then identifier) as each removed one.\<close>

theorem prune_retains_newest:
  assumes io: "faults (mgrWorld m) = []" and dir: "dirWf (mgrWorld m)"
  shows "\<exists>m'. pruneSuperseded sha j m = (Ret (), m') \<and> card {l. sweepable sha j (mrecs m') l} \<le> 2 \<and>
     (\<forall>k. mrecs m' k = mrecs m k \<or>
        mrecs m' k = None \<and> sweepable sha j (mrecs m) k \<and> card {l. sweepable sha j (mrecs m') l} = 2 \<and>
        (\<forall>l\<in>{l. sweepable sha j (mrecs m') l}.
           (the (supersededAt sha (mrecs m) k), k) \<le> (the (supersededAt sha (mrecs m) l), l)))"
proof -
  obtain ids where ids: "onStore ListBundles m = (Ret ids, m)" "set ids = dom (mrecs m)" "distinct ids"
    using onStore_List_healthy[OF io dir] .
  define ks where "ks = filter (sweepable sha j (mrecs m)) ids"
  define f where "f k = the (supersededAt sha (mrecs m) k)" for k
  define ns where "ns = newestFirst (map (\<lambda>k. (k, f k)) ks)"
  have ks: "distinct ks" "set ks = {k. sweepable sha j (mrecs m) k}"
    using ids sweepable_dom[of sha j "mrecs m"] by (auto simp: ks_def)
  have ns: "distinct ns" "set ns = set ks" "length ns = length ks"
    unfolding ns_def using distinct_newestFirst[OF ks(1)] by (auto simp: set_newestFirst length_newestFirst image_image)
  have run: "pruneSuperseded sha j m = (if length ks \<le> 2 then (Ret (), m) else pruneDelete (drop 2 ns) m)"
    using ids(1) collectSuperseded_healthy[OF io, of sha j ids]
    by (simp add: pruneSuperseded_def Let_def bundleRetainedGenerations_def ks_def[symmetric] f_def[symmetric] ns_def)
  show ?thesis
  proof (cases "length ks \<le> 2")
    case True
    have "card {k. sweepable sha j (mrecs m) k} \<le> 2" using ks card_length[of ks] True by simp
    then show ?thesis using run True by simp
  next
    case False
    have "\<forall>i\<in>set (drop 2 ns). validateBundleID i = None"
      using ns(2) ks(2) by (auto simp: sweepable_def dest: in_set_dropD)
    then obtain m' where m': "pruneDelete (drop 2 ns) m = (Ret (), m')"
        "mrecs m' = (\<lambda>k. if k \<in> set (drop 2 ns) then None else mrecs m k)"
      using pruneDelete_healthy[OF io] by blast
    have disj: "set (take 2 ns) \<inter> set (drop 2 ns) = {}" using ns(1) by (simp add: set_take_disj_set_drop_if_distinct)
    have split: "set ns = set (take 2 ns) \<union> set (drop 2 ns)" by (metis append_take_drop_id set_append)
    have kept: "{l. sweepable sha j (mrecs m') l} = set (take 2 ns)"
    proof -
      have "sweepable sha j (mrecs m') l \<longleftrightarrow> l \<notin> set (drop 2 ns) \<and> sweepable sha j (mrecs m) l" for l
        by (auto simp: sweepable_def supersededAt_def m'(2))
      then show ?thesis using ns(2) ks(2) disj split by blast
    qed
    moreover have "card (set (take 2 ns)) = 2" using ns False distinct_card[of "take 2 ns"] by simp
    moreover have "(f k, k) \<le> (f l, l)" if "k \<in> set (drop 2 ns)" "l \<in> set (take 2 ns)" for k l
      using newestFirst_drop_take[of k 2 f ks l] that by (simp add: ns_def)
    moreover have "\<forall>k\<in>set (drop 2 ns). sweepable sha j (mrecs m) k" using ns(2) ks(2) split by blast
    ultimately show ?thesis using run False m' by (auto simp: f_def)
  qed
qed

theorem prune_retains_newest_witness:
  "\<exists>m'. pruneSuperseded exSha ''b'' (mgrWithIO [] [] exBoth) = (Ret (), m') \<and> card {l. sweepable exSha ''b'' (mrecs m') l} \<le> 2"
proof -
  have "faults (mgrWorld (mgrWithIO [] [] exBoth)) = []" by (simp add: mgrWithIO_def withIO_def)
  moreover have "bundlesDir (mgrWorld (mgrWithIO [] [] exBoth))" by code_simp
  ultimately show ?thesis using prune_retains_newest[of "mgrWithIO [] [] exBoth" exSha "''b''"] by (auto simp: dirWf_def)
qed

section \<open>Readback\<close>

text \<open>What a reachable process reports is one coherent bundle: with no configuration the identifier, digest
  and counters are empty; otherwise the reported digest is that of the stored record under the reported
  identifier, and the counts are those of its decoded document. A listing that succeeds includes it.\<close>

theorem readback_coherent:
  assumes "reachable sha decode (Running m)" and "dirWf (mgrWorld m)"
  shows "\<exists>rb m'. Readback version dropped (mgrWithIO [] [] m) = (Ret rb, m') \<and>
    rbActiveBundle rb = mgrActiveID m \<and> set (rbStored rb) = dom (mrecs m) \<and>
    (case mgrActive m of
       None \<Rightarrow> rbActiveBundle rb = [] \<and> rbActiveDigest rb = [] \<and> rbGeneration rb = 0 \<and> rbExtensions rb = 0
     | Some (_, cfg) \<Rightarrow> rbActiveBundle rb \<in> set (rbStored rb) \<and> rbGeneration rb = mgrGeneration m \<and>
         rbExtensions rb = length (cfgModules cfg) \<and>
         (\<exists>c r. mrecs m (rbActiveBundle rb) = Some c \<and> checkRecord sha (rbActiveBundle rb) c = Inr r \<and>
            rbActiveDigest rb = recDigest r \<and> decode (recDocument r) = Some cfg))"
proof -
  let ?m = "mgrWithIO [] [] m"
  have "faults (mgrWorld ?m) = []" "dirWf (mgrWorld ?m)"
    using assms(2) by (simp_all add: mgrWithIO_def withIO_def dirWf_def)
  then obtain ids where ids: "onStore ListBundles ?m = (Ret ids, ?m)" "set ids = dom (mrecs m)"
    using onStore_List_healthy by (metis mgrWithIO_same(1))
  have served: "servedFrom sha decode (mrecs m) (live m)"
    using sysInv_reachable[OF assms(1)] by (simp add: sysInv_def managerInv_def)
  show ?thesis
  proof (cases "mgrActive m")
    case None
    then show ?thesis using ids served by (auto simp: Readback_def Let_def servedFrom_def live_def mgrWithIO_def)
  next
    case (Some a)
    then obtain n cfg where a: "mgrActive m = Some (n, cfg)" by (cases a) auto
    then show ?thesis using ids servedFrom_Some[OF served a] by (auto simp: Readback_def Let_def mgrWithIO_def)
  qed
qed

theorem readback_coherent_witness:
  "\<exists>rb m'. Readback ''v'' 0 (mgrWithIO [] [] exLive) = (Ret rb, m') \<and> rbActiveBundle rb = ''a''"
proof -
  have "bundlesDir (mgrWorld exLive)" "mgrActiveID exLive = ''a''" by code_simp+
  then show ?thesis using readback_coherent[OF exLive_reachable, of "''v''" 0] by (auto simp: dirWf_def)
qed


section \<open>The store\<close>

text \<open>C5: On every fault schedule a write of an artifact is atomic: afterwards the file holds the complete new
  artifact, or what it held before and the caller got no success; and no other artifact of the store than
  the file and its temporary changes.\<close>

theorem write_atomic:
  "case writeJSON p v w of (x, w') \<Rightarrow>
     (fileAt p w' = Some v \<or> fileAt p w' = fileAt p w \<and> x \<noteq> Ret ()) \<and>
     (\<forall>q. q = p \<or> q = tempPath p \<or> fileAt q w' = fileAt q w)"
proof -
  obtain x w' where wr: "writeJSON p v w = (x, w')" by fastforce
  have "q = p \<or> q = tempPath p \<or> fileAt q w' = fileAt q w" for q
    using keepsD[OF keeps_writeJSON wr] by blast
  then show ?thesis using writeJSON_atomic[OF wr] wr by auto
qed

text \<open>A record that was stored successfully, on whatever schedule, reads back: the next read returns the
  record as it was sealed, its digest verifies, and no other identifier's record changed.\<close>

theorem put_get_roundtrip:
  assumes "Put sha r w = (Ret (), w')"
  shows "Get sha (recID r) (withIO [] ts w') = (Ret (sealRecord sha r), withIO [] ts w') \<and>
    recDocument (sealRecord sha r) = recDocument r \<and> recState (sealRecord sha r) = recState r \<and>
    (\<forall>k. k = recID r \<or> recs w' k = recs w k)"
proof -
  have v: "validateBundleID (recID r) = None" using assms by (cases "validateBundleID (recID r)") (auto simp: Put_invalid)
  have "recs w' = (recs w)(recID r \<mapsto> RecordJSON (sealRecord sha r))"
    using bs.put_ok[of sha r w] assms by (simp add: isRet_def)
  moreover have "faults (withIO [] ts w') = []" by (simp add: withIO_def)
  ultimately show ?thesis using Get_healthy[OF _ v _ checkRecord_seal] by simp
qed

theorem put_get_roundtrip_witness:
  "Get exSha ''a'' (withIO [] [] (snd (Put exSha (stagedRecord 3 ''a'' ''hone'' ''one'') (mgrWorld exOpened)))) =
     (Ret (sealRecord exSha (stagedRecord 3 ''a'' ''hone'' ''one'')),
      withIO [] [] (snd (Put exSha (stagedRecord 3 ''a'' ''hone'' ''one'') (mgrWorld exOpened))))"
proof -
  have "fst (Put exSha (stagedRecord 3 ''a'' ''hone'' ''one'') (mgrWorld exOpened)) = Ret ()" by code_simp
  then have "Put exSha (stagedRecord 3 ''a'' ''hone'' ''one'') (mgrWorld exOpened) =
      (Ret (), snd (Put exSha (stagedRecord 3 ''a'' ''hone'' ''one'') (mgrWorld exOpened)))" by (simp add: prod_eq_iff)
  from put_get_roundtrip[OF this, of "[]"] show ?thesis by (simp add: stagedRecord_def)
qed

lemma nul_byte: "nul = [CHR 0x00]"
  by code_simp

lemma nul_split:
  assumes "x @ nul @ y = x' @ nul @ y'" and "CHR 0x00 \<notin> set x" and "CHR 0x00 \<notin> set x'"
  shows "x = x' \<and> y = y'"
proof -
  have "takeWhile (\<lambda>c. c \<noteq> CHR 0x00) (x @ nul @ y) = x" "takeWhile (\<lambda>c. c \<noteq> CHR 0x00) (x' @ nul @ y') = x'"
    using assms(2,3) by (subst takeWhile_append2; auto simp: nul_byte)+
  then have "x = x'" using assms(1) by metis
  then show ?thesis using assms(1) by simp
qed

lemma nul_itoa: "CHR 0x00 \<notin> set (itoa k)"
  using itoa_chars[of _ k] by (fastforce simp: is_digit_def code_def)

definition nulFree :: "bundleRecord \<Rightarrow> bool" where
  "nulFree r \<longleftrightarrow> CHR 0x00 \<notin> set (recID r @ recState r @ recDigest r)"

text \<open>The digest covers every field of a record. Two records with the same record digest agree in schema,
  identifier, state, document digest, both times and the document, unless the two preimages are an actual
  collision of the hash; so editing any field of a stored record is noticed when it is read.\<close>

theorem record_digest_binds:
  assumes "computeRecordDigest sha r = computeRecordDigest sha r'" and "nulFree r" and "nulFree r'"
  shows "r\<lparr>recRecordDigest := []\<rparr> = r'\<lparr>recRecordDigest := []\<rparr> \<or>
    (recordPreimage r \<noteq> recordPreimage r' \<and> sha (recordPreimage r) = sha (recordPreimage r'))"
proof (cases "recordPreimage r = recordPreimage r'")
  case True
  then have "itoa (recSchema r) @ nul @ recID r @ nul @ recState r @ nul @ recDigest r @ nul @ itoa (recStagedAt r) @ nul
      @ itoa (recActivatedAt r) @ nul @ recDocument r =
    itoa (recSchema r') @ nul @ recID r' @ nul @ recState r' @ nul @ recDigest r' @ nul @ itoa (recStagedAt r') @ nul
      @ itoa (recActivatedAt r') @ nul @ recDocument r'"
    by (simp add: recordPreimage_def nul_def)
  then have "itoa (recSchema r) = itoa (recSchema r') \<and> recID r = recID r' \<and> recState r = recState r' \<and> recDigest r = recDigest r' \<and>
      itoa (recStagedAt r) = itoa (recStagedAt r') \<and> itoa (recActivatedAt r) = itoa (recActivatedAt r') \<and> recDocument r = recDocument r'"
    using assms(2,3) by (auto simp: nulFree_def nul_itoa dest!: nul_split)
  then show ?thesis by (cases r; cases r') (simp add: itoa_inject)
qed (use assms in \<open>simp add: computeRecordDigest_def\<close>)

theorem record_digest_binds_witness:
  "(stagedRecord 1 ''a'' ''h'' ''one'')\<lparr>recRecordDigest := []\<rparr> = (stagedRecord 1 ''a'' ''h'' ''one'')\<lparr>recRecordDigest := ''x''\<rparr>\<lparr>recRecordDigest := []\<rparr> \<or>
   (recordPreimage (stagedRecord 1 ''a'' ''h'' ''one'') \<noteq> recordPreimage ((stagedRecord 1 ''a'' ''h'' ''one'')\<lparr>recRecordDigest := ''x''\<rparr>) \<and>
    exSha (recordPreimage (stagedRecord 1 ''a'' ''h'' ''one'')) = exSha (recordPreimage ((stagedRecord 1 ''a'' ''h'' ''one'')\<lparr>recRecordDigest := ''x''\<rparr>)))"
  by (rule record_digest_binds[of exSha]) code_simp+

end
