(* ===== verification/Script_Nesting.thy ===== *)
theory Script_Nesting
  imports Prelude
begin

text \<open>
  The nesting scanner of script_nesting.go, which bounds bracket depth and prefix-operator runs of
  a script before the JavaScript parser sees it. A position in the source is the suffix that is
  left; \<open>index += 2\<close> past the end is an empty suffix. The template stack has its top first.
\<close>

section \<open>The scanner\<close>

definition maxScriptNestingDepth :: nat where "maxScriptNestingDepth = 256"

definition isValueEnd :: "char \<Rightarrow> bool" where
  "isValueEnd c \<longleftrightarrow> (97 \<le> code c \<and> code c \<le> 122) \<or> (65 \<le> code c \<and> code c \<le> 90) \<or> (48 \<le> code c \<and> code c \<le> 57)
     \<or> c = CHR ''_'' \<or> c = CHR ''$''"

definition backslash :: char where "backslash = CHR 0x5C"
definition newline :: char where "newline = CHR 0x0A"
definition backquote :: char where "backquote = CHR 0x60"
definition singleQuote :: char where "singleQuote = CHR 0x27"
definition doubleQuote :: char where "doubleQuote = CHR 0x22"

fun skipQuoted :: "char \<Rightarrow> string \<Rightarrow> string" where
  "skipQuoted quote [] = []"
| "skipQuoted quote (c # cs) =
     (if c = backslash then skipQuoted quote (drop 1 cs)
      else if c = quote then cs
      else if c = newline then cs
      else skipQuoted quote cs)"

fun skipRegexLiteral :: "bool \<Rightarrow> string \<Rightarrow> string" where
  "skipRegexLiteral inClass [] = []"
| "skipRegexLiteral inClass (c # cs) =
     (if c = backslash then skipRegexLiteral inClass (drop 1 cs)
      else if c = CHR ''['' then skipRegexLiteral True cs
      else if c = CHR '']'' then skipRegexLiteral False cs
      else if c = CHR ''/'' then (if \<not> inClass then dropWhile isValueEnd cs else skipRegexLiteral inClass cs)
      else if c = newline then cs
      else skipRegexLiteral inClass cs)"

fun skipBlockComment :: "string \<Rightarrow> string" where
  "skipBlockComment (a # b # cs) = (if a = CHR ''*'' \<and> b = CHR ''/'' then cs else skipBlockComment (b # cs))"
| "skipBlockComment _ = []"

record scan =
  scDepth :: nat
  scDeepest :: nat
  scUnary :: nat
  scLongestUnary :: nat
  scTemplates :: "nat list"
  scRegexAllowed :: bool

definition enterBracket :: "scan \<Rightarrow> scan" where
  "enterBracket s = s\<lparr>scDepth := scDepth s + 1, scDeepest := max (scDeepest s) (scDepth s + 1)\<rparr>"

definition prefixOperator :: "scan \<Rightarrow> scan" where
  "prefixOperator s =
     s\<lparr>scUnary := scUnary s + 1, scLongestUnary := max (scLongestUnary s) (scUnary s + 1), scRegexAllowed := True\<rparr>"

definition inTemplate :: "scan \<Rightarrow> bool" where
  "inTemplate s = (case scTemplates s of [] \<Rightarrow> False | t # _ \<Rightarrow> scDepth s = t)"

definition templateStep :: "scan \<Rightarrow> char \<Rightarrow> string \<Rightarrow> scan \<times> string" where
  "templateStep s c cs =
     (if c = backslash then (s, drop 1 cs)
      else if c = backquote then (s\<lparr>scTemplates := tl (scTemplates s), scRegexAllowed := False\<rparr>, cs)
      else if c = CHR ''$'' \<and> cs \<noteq> [] \<and> hd cs = CHR ''{'' then ((enterBracket s)\<lparr>scRegexAllowed := True\<rparr>, drop 1 cs)
      else (s, cs))"

definition slashStep :: "scan \<Rightarrow> string \<Rightarrow> scan \<times> string" where
  "slashStep s cs =
     (if cs \<noteq> [] \<and> hd cs = CHR ''/'' then (s, dropWhile (\<lambda>c. c \<noteq> newline) cs)
      else if cs \<noteq> [] \<and> hd cs = CHR ''*'' then (s, skipBlockComment (drop 1 cs))
      else if scRegexAllowed s then (s\<lparr>scRegexAllowed := False, scUnary := 0\<rparr>, skipRegexLiteral False cs)
      else (s\<lparr>scRegexAllowed := True, scUnary := 0\<rparr>, cs))"

definition codeStep :: "scan \<Rightarrow> char \<Rightarrow> string \<Rightarrow> scan \<times> string" where
  "codeStep s c cs =
     (if c = CHR '' '' \<or> c = CHR 0x09 \<or> c = CHR 0x0D \<or> c = newline then (s, cs)
      else if c = CHR ''/'' then slashStep s cs
      else if c = singleQuote \<or> c = doubleQuote then (s\<lparr>scRegexAllowed := False, scUnary := 0\<rparr>, skipQuoted c cs)
      else if c = backquote then (s\<lparr>scTemplates := scDepth s # scTemplates s\<rparr>, cs)
      else if c = CHR ''('' \<or> c = CHR ''['' \<or> c = CHR ''{''
        then ((enterBracket s)\<lparr>scRegexAllowed := True, scUnary := 0\<rparr>, cs)
      else if c = CHR '')'' \<or> c = CHR '']'' \<or> c = CHR ''}''
        then (s\<lparr>scDepth := (if scDepth s > 0 then scDepth s - 1 else scDepth s), scRegexAllowed := False, scUnary := 0\<rparr>, cs)
      else if c = CHR ''!'' \<or> c = CHR ''~'' then (prefixOperator s, cs)
      else if c = CHR ''+'' \<or> c = CHR ''-'' then (prefixOperator s, cs)
      else (s\<lparr>scRegexAllowed := \<not> isValueEnd c, scUnary := 0\<rparr>, cs))"

definition scanStep :: "scan \<Rightarrow> char \<Rightarrow> string \<Rightarrow> scan \<times> string" where
  "scanStep s c cs = (if inTemplate s then templateStep s c cs else codeStep s c cs)"

lemma length_skipQuoted: "length (skipQuoted q cs) \<le> length cs"
  by (induction q cs rule: skipQuoted.induct) auto

lemma length_skipRegexLiteral: "length (skipRegexLiteral b cs) \<le> length cs"
  by (induction b cs rule: skipRegexLiteral.induct) (auto simp: length_dropWhile_le le_SucI)

lemma length_skipBlockComment: "length (skipBlockComment cs) \<le> length cs"
  by (induction cs rule: skipBlockComment.induct) auto

lemma if_shorter:
  "length (snd x) \<le> n \<Longrightarrow> length (snd y) \<le> n \<Longrightarrow> length (snd (if b then x else y)) \<le> n"
  by simp

lemma length_skipped: "length (dropWhile p cs) \<le> length cs" "length (skipBlockComment (drop 1 cs)) \<le> length cs"
  using length_skipBlockComment[of "drop 1 cs"] by (auto simp: length_dropWhile_le)

lemma scanStep_consumes: "length (snd (scanStep s c cs)) \<le> length cs"
  unfolding scanStep_def templateStep_def codeStep_def slashStep_def
  by (intro if_shorter)
     (simp_all only: snd_conv length_skipQuoted length_skipRegexLiteral length_skipped length_drop diff_le_self le_refl)

function scanScript :: "scan \<Rightarrow> string \<Rightarrow> scan" where
  "scanScript s [] = s"
| "scanScript s (c # cs) = (case scanStep s c cs of (s', rest) \<Rightarrow> scanScript s' rest)"
  by pat_completeness auto
termination
proof (relation "measure (\<lambda>(s, cs). length cs)")
  fix s c cs s' rest assume "(s', rest) = scanStep s c cs"
  then show "((s', rest), s, c # cs) \<in> measure (\<lambda>(s, cs). length cs)"
    using scanStep_consumes[of s c cs] by (metis case_prod_conv in_measure le_imp_less_Suc length_Cons snd_conv)
qed simp

definition scanStart :: scan where
  "scanStart = \<lparr>scDepth = 0, scDeepest = 0, scUnary = 0, scLongestUnary = 0, scTemplates = [], scRegexAllowed = True\<rparr>"

datatype nesting_error = NestsTooDeep nat | ChainsTooLong nat

definition checkScriptNesting :: "string \<Rightarrow> nesting_error option" where
  "checkScriptNesting source =
     (let s = scanScript scanStart source
      in if scDeepest s > maxScriptNestingDepth then Some (NestsTooDeep (scDeepest s))
         else if scLongestUnary s > maxScriptNestingDepth then Some (ChainsTooLong (scLongestUnary s))
         else None)"


section \<open>Source without comments and literals\<close>

definition isOpener :: "char \<Rightarrow> bool" where "isOpener c \<longleftrightarrow> c = CHR ''('' \<or> c = CHR ''['' \<or> c = CHR ''{''"
definition isCloser :: "char \<Rightarrow> bool" where "isCloser c \<longleftrightarrow> c = CHR '')'' \<or> c = CHR '']'' \<or> c = CHR ''}''"
definition isPrefixOp :: "char \<Rightarrow> bool" where
  "isPrefixOp c \<longleftrightarrow> c = CHR ''!'' \<or> c = CHR ''~'' \<or> c = CHR ''+'' \<or> c = CHR ''-''"
definition isBlank :: "char \<Rightarrow> bool" where
  "isBlank c \<longleftrightarrow> c = CHR '' '' \<or> c = CHR 0x09 \<or> c = CHR 0x0D \<or> c = newline"
definition isPlain :: "char \<Rightarrow> bool" where
  "isPlain c \<longleftrightarrow> c \<noteq> CHR ''/'' \<and> c \<noteq> singleQuote \<and> c \<noteq> doubleQuote \<and> c \<noteq> backquote"

text \<open>The nesting level after a piece of source, and the length of the prefix-operator run it ends in.\<close>

definition depthAfter :: "string \<Rightarrow> nat" where
  "depthAfter src = fold (\<lambda>c d. if isOpener c then d + 1 else if isCloser c then d - 1 else d) src 0"

definition prefixRun :: "string \<Rightarrow> nat" where
  "prefixRun src = length (filter isPrefixOp (takeWhile (\<lambda>c. isPrefixOp c \<or> isBlank c) (rev src)))"

definition plainStep :: "char \<Rightarrow> scan \<Rightarrow> scan" where
  "plainStep c s = fst (codeStep s c [])"

lemmas char_classes = isOpener_def isCloser_def isPrefixOp_def isBlank_def isPlain_def
lemmas char_names = backslash_def newline_def backquote_def singleQuote_def doubleQuote_def

lemma codeStep_plain: "isPlain c \<Longrightarrow> codeStep s c cs = (plainStep c s, cs)"
  by (simp add: plainStep_def codeStep_def isPlain_def)

lemma plainStep_templates [simp]: "isPlain c \<Longrightarrow> scTemplates (plainStep c s) = scTemplates s"
  by (simp add: plainStep_def codeStep_def isPlain_def enterBracket_def prefixOperator_def)

lemma plainStep_depth:
  "isPlain c \<Longrightarrow> scDepth (plainStep c s) = (if isOpener c then scDepth s + 1 else if isCloser c then scDepth s - 1 else scDepth s)"
  by (auto simp: plainStep_def codeStep_def char_classes char_names enterBracket_def prefixOperator_def)

lemma plainStep_deepest: "isPlain c \<Longrightarrow> scDeepest (plainStep c s) = (if isOpener c then max (scDeepest s) (scDepth s + 1) else scDeepest s)"
  by (auto simp: plainStep_def codeStep_def char_classes char_names enterBracket_def prefixOperator_def)

lemma plainStep_unary:
  "isPlain c \<Longrightarrow> scUnary (plainStep c s) = (if isPrefixOp c then scUnary s + 1 else if isBlank c then scUnary s else 0)"
  by (auto simp: plainStep_def codeStep_def char_classes char_names enterBracket_def prefixOperator_def)

lemma plainStep_longest: "isPlain c \<Longrightarrow>
    scLongestUnary (plainStep c s) = (if isPrefixOp c then max (scLongestUnary s) (scUnary s + 1) else scLongestUnary s)"
  by (auto simp: plainStep_def codeStep_def char_classes char_names enterBracket_def prefixOperator_def)

lemma scanScript_plain: "list_all isPlain src \<Longrightarrow> scTemplates s = [] \<Longrightarrow> scanScript s src = fold plainStep src s"
proof (induction src arbitrary: s)
  case (Cons c cs)
  then show ?case by (simp add: scanStep_def inTemplate_def codeStep_plain)
qed simp

lemma all_take_snoc: "(\<forall>k. P (take k (xs @ [x]))) \<longleftrightarrow> (\<forall>k. P (take k xs)) \<and> P (xs @ [x])"
proof (intro iffI conjI allI)
  fix k assume a: "\<forall>k. P (take k (xs @ [x]))"
  show "P (take k xs)" using a[rule_format, of "min k (length xs)"] by (simp add: min_def split: if_splits)
next
  assume a: "\<forall>k. P (take k (xs @ [x]))"
  show "P (xs @ [x])" using a[rule_format, of "Suc (length xs)"] by simp
next
  fix k assume "(\<forall>k. P (take k xs)) \<and> P (xs @ [x])"
  then show "P (take k (xs @ [x]))" by (cases "k \<le> length xs") (auto simp: take_all)
qed

lemma depthAfter_snoc: "depthAfter (xs @ [c]) = (if isOpener c then depthAfter xs + 1 else if isCloser c then depthAfter xs - 1 else depthAfter xs)"
  by (simp add: depthAfter_def)

lemma prefixRun_snoc: "prefixRun (xs @ [c]) = (if isPrefixOp c then prefixRun xs + 1 else if isBlank c then prefixRun xs else 0)"
  by (simp add: prefixRun_def)

lemma fold_plain:
  assumes "list_all isPlain src"
  shows "scDepth (fold plainStep src scanStart) = depthAfter src" "scUnary (fold plainStep src scanStart) = prefixRun src"
    "scDeepest (fold plainStep src scanStart) \<le> n \<longleftrightarrow> (\<forall>k. depthAfter (take k src) \<le> n)"
    "scLongestUnary (fold plainStep src scanStart) \<le> n \<longleftrightarrow> (\<forall>k. prefixRun (take k src) \<le> n)"
  using assms
proof (induction src rule: rev_induct)
  case Nil
  { case 1 show ?case by (simp add: scanStart_def depthAfter_def) }
  { case 2 show ?case by (simp add: scanStart_def prefixRun_def) }
  { case 3 show ?case by (simp add: scanStart_def depthAfter_def) }
  { case 4 show ?case by (simp add: scanStart_def prefixRun_def) }
next
  case (snoc c src)
  { case 1 then show ?case using snoc by (simp add: plainStep_depth depthAfter_snoc) }
  { case 2 then show ?case using snoc by (simp add: plainStep_unary prefixRun_snoc) }
  { case 3
    have "(\<forall>k. depthAfter (take k src) \<le> n) \<Longrightarrow> depthAfter src \<le> n" by (metis order_refl take_all)
    then show ?case unfolding all_take_snoc[of "\<lambda>p. depthAfter p \<le> n"] using 3 snoc(1,3)
      by (auto simp: plainStep_deepest depthAfter_snoc) }
  { case 4
    have "(\<forall>k. prefixRun (take k src) \<le> n) \<Longrightarrow> prefixRun src \<le> n" by (metis order_refl take_all)
    then show ?case unfolding all_take_snoc[of "\<lambda>p. prefixRun p \<le> n"] using 4 snoc(2,4)
      by (auto simp: plainStep_longest prefixRun_snoc) }
qed

text \<open>On source without comments, strings, templates and regular expressions the scanner is exact: it
  accepts precisely when no prefix of the source is nested deeper than the limit and none ends in a longer
  run of prefix operators.\<close>

theorem nesting_exact_on_plain_source:
  assumes "list_all isPlain src"
  shows "checkScriptNesting src = None \<longleftrightarrow>
    (\<forall>k. depthAfter (take k src) \<le> maxScriptNestingDepth) \<and> (\<forall>k. prefixRun (take k src) \<le> maxScriptNestingDepth)"
proof -
  have "scanScript scanStart src = fold plainStep src scanStart"
    using assms by (intro scanScript_plain) (simp_all add: scanStart_def)
  then show ?thesis using fold_plain(3,4)[OF assms, of maxScriptNestingDepth]
    by (auto simp: checkScriptNesting_def Let_def)
qed

theorem nesting_exact_on_plain_source_witness:
  "checkScriptNesting ''f([!a, {b}])'' = None \<longleftrightarrow>
    (\<forall>k. depthAfter (take k ''f([!a, {b}])'') \<le> maxScriptNestingDepth) \<and> (\<forall>k. prefixRun (take k ''f([!a, {b}])'') \<le> maxScriptNestingDepth)"
  by (rule nesting_exact_on_plain_source) code_simp


section \<open>Any source\<close>

definition openers :: "string \<Rightarrow> nat" where "openers src = length (filter isOpener src)"
definition prefixOps :: "string \<Rightarrow> nat" where "prefixOps src = length (filter isPrefixOp src)"

definition noMore :: "string \<Rightarrow> string \<Rightarrow> bool" where
  "noMore rest cs \<longleftrightarrow> openers rest \<le> openers cs \<and> prefixOps rest \<le> prefixOps cs"

lemma noMore_Cons: "noMore rest cs \<Longrightarrow> noMore rest (c # cs)"
  by (auto simp: noMore_def openers_def prefixOps_def)

lemma noMore_refl [simp]: "noMore cs cs"
  by (simp add: noMore_def)

lemma noMore_drop [simp]: "noMore (drop n cs) cs"
proof -
  have "length (filter p (drop n cs)) \<le> length (filter p cs)" for p :: "char \<Rightarrow> bool"
    by (metis append_take_drop_id filter_append le_add2 length_append)
  then show ?thesis by (simp add: noMore_def openers_def prefixOps_def)
qed

lemma noMore_trans: "noMore a b \<Longrightarrow> noMore b c \<Longrightarrow> noMore a c"
  by (auto simp: noMore_def)

lemma noMore_dropWhile [simp]: "noMore (dropWhile p cs) cs"
  by (simp add: dropWhile_eq_drop)

lemma noMore_skipQuoted [simp]: "noMore (skipQuoted q cs) cs"
proof (induction q cs rule: skipQuoted.induct)
  case (2 q c cs)
  have "noMore (skipQuoted q (drop 1 cs)) cs" if "c = backslash" using 2(1)[OF that] noMore_drop noMore_trans by blast
  then show ?case using 2 by (auto intro: noMore_Cons)
qed simp

lemma noMore_skipRegexLiteral [simp]: "noMore (skipRegexLiteral b cs) cs"
proof (induction b cs rule: skipRegexLiteral.induct)
  case (2 b c cs)
  have "noMore (skipRegexLiteral b (drop 1 cs)) cs" if "c = backslash" using 2(1)[OF that] noMore_drop noMore_trans by blast
  then show ?case using 2 by (auto intro: noMore_Cons)
qed simp

lemma noMore_skipBlockComment [simp]: "noMore (skipBlockComment cs) cs"
proof (induction cs rule: skipBlockComment.induct)
  case (1 a b cs)
  have "noMore cs (a # b # cs)" by (intro noMore_Cons noMore_refl)
  moreover have "noMore (skipBlockComment (b # cs)) (a # b # cs)" if "\<not> (a = CHR ''*'' \<and> b = CHR ''/'')"
    using 1[OF that] by (rule noMore_Cons)
  ultimately show ?case by auto
qed (simp_all add: noMore_def openers_def prefixOps_def)

text \<open>Each step adds at most one level or one operator, and only for a character it consumes.\<close>

definition stepBound :: "scan \<Rightarrow> string \<Rightarrow> scan \<times> string \<Rightarrow> bool" where
  "stepBound s src r \<longleftrightarrow>
     scDepth (fst r) + openers (snd r) \<le> scDepth s + openers src \<and>
     scDeepest (fst r) \<le> max (scDeepest s) (scDepth s + openers src) \<and>
     scUnary (fst r) + prefixOps (snd r) \<le> scUnary s + prefixOps src \<and>
     scLongestUnary (fst r) \<le> max (scLongestUnary s) (scUnary s + prefixOps src)"

lemma stepBound_keep:
  "noMore rest cs \<Longrightarrow> scDepth s' \<le> scDepth s \<Longrightarrow> scDeepest s' = scDeepest s \<Longrightarrow> scUnary s' \<le> scUnary s \<Longrightarrow>
     scLongestUnary s' = scLongestUnary s \<Longrightarrow> stepBound s (c # cs) (s', rest)"
  by (auto simp: stepBound_def noMore_def openers_def prefixOps_def)

lemma stepBound_enter:
  "isOpener c \<Longrightarrow> scDepth s' = scDepth s + 1 \<Longrightarrow> scDeepest s' = max (scDeepest s) (scDepth s + 1) \<Longrightarrow>
     scUnary s' \<le> scUnary s \<Longrightarrow> scLongestUnary s' = scLongestUnary s \<Longrightarrow> stepBound s (c # cs) (s', cs)"
  by (auto simp: stepBound_def openers_def prefixOps_def)

lemma stepBound_op: "isPrefixOp c \<Longrightarrow> stepBound s (c # cs) (prefixOperator s, cs)"
  by (auto simp: stepBound_def openers_def prefixOps_def prefixOperator_def)

lemma stepBound_later: "stepBound s cs r \<Longrightarrow> stepBound s (c # cs) r"
  by (auto simp: stepBound_def openers_def prefixOps_def)

lemma slashStep_bound: "stepBound s (c # cs) (slashStep s cs)"
  using noMore_trans[OF noMore_skipBlockComment[of "drop 1 cs"] noMore_drop]
  by (auto simp: slashStep_def intro!: stepBound_keep)

lemma templateStep_bound: "stepBound s (c # cs) (templateStep s c cs)"
proof (cases "c = CHR ''$'' \<and> cs \<noteq> [] \<and> hd cs = CHR ''{''")
  case True
  then obtain cs' where cs: "cs = CHR ''{'' # cs'" by (cases cs) auto
  have "stepBound s cs ((enterBracket s)\<lparr>scRegexAllowed := True\<rparr>, cs')"
    unfolding cs by (rule stepBound_enter) (simp_all add: enterBracket_def isOpener_def)
  then show ?thesis using True cs by (simp add: templateStep_def char_names stepBound_later)
qed (auto simp: templateStep_def intro!: stepBound_keep)

lemma codeStep_bound: "stepBound s (c # cs) (codeStep s c cs)"
proof -
  have "stepBound s (c # cs) ((enterBracket s)\<lparr>scRegexAllowed := True, scUnary := 0\<rparr>, cs)" if "isOpener c"
    using that by (rule stepBound_enter) (simp_all add: enterBracket_def)
  then show ?thesis unfolding codeStep_def isOpener_def
    by (simp add: slashStep_bound stepBound_op isPrefixOp_def stepBound_keep)
qed

lemma scanScript_bound:
  "scDeepest (scanScript s cs) \<le> max (scDeepest s) (scDepth s + openers cs) \<and>
   scLongestUnary (scanScript s cs) \<le> max (scLongestUnary s) (scUnary s + prefixOps cs)"
proof (induction s cs rule: scanScript.induct)
  case (2 s c cs)
  obtain s' rest where st: "scanStep s c cs = (s', rest)" by fastforce
  have "stepBound s (c # cs) (s', rest)"
    using templateStep_bound codeStep_bound st by (metis scanStep_def)
  then show ?case using 2[OF st[symmetric]] st by (auto simp: stepBound_def)
qed simp

text \<open>The scanner never rejects source that holds at most 256 opening brackets and at most 256 prefix
  operator characters in all, whatever comments, literals and templates it has: every level and every
  operator it counts is a character of the source, counted once.\<close>

theorem nesting_accepts_small_source:
  assumes "openers src \<le> maxScriptNestingDepth" and "prefixOps src \<le> maxScriptNestingDepth"
  shows "checkScriptNesting src = None"
  using scanScript_bound[of scanStart src] assms by (auto simp: checkScriptNesting_def Let_def scanStart_def)

theorem nesting_accepts_small_source_witness: "checkScriptNesting ''let a = [1, (2)] / 3; // (((('' = None"
  by (rule nesting_accepts_small_source) code_simp+

section \<open>What gets past\<close>

lemma skipQuoted_all:
  "list_all (\<lambda>c. c \<noteq> backslash \<and> c \<noteq> q \<and> c \<noteq> newline) cs \<Longrightarrow> skipQuoted q cs = []"
  by (induction cs) auto

text \<open>Arbitrarily deep nesting passes the check when a regular expression that contains a quote follows a
  keyword: \<^verbatim>\<open>return /'/;((((...\<close> is scanned as a division followed by an unterminated string, so the
  brackets after it are never counted.\<close>

theorem nesting_hidden_by_regex:
  "checkScriptNesting (''return /'' @ [singleQuote] @ ''/;'' @ replicate n (CHR ''('')) = None"
proof -
  have sk: "skipQuoted (CHR 0x27) (replicate n (CHR ''('')) = []"
    by (rule skipQuoted_all) (simp add: char_names list_all_iff)
  show ?thesis
    by (simp add: checkScriptNesting_def Let_def scanStart_def scanStep_def inTemplate_def codeStep_def slashStep_def
        isValueEnd_def code_def char_names sk maxScriptNestingDepth_def)
qed

text \<open>Prefix operators spelled as words are not counted: any number of \<^verbatim>\<open>typeof\<close> in a row passes.\<close>

theorem nesting_ignores_word_operators: "checkScriptNesting (concat (replicate n ''typeof '')) = None"
proof -
  have "openers (concat (replicate n ''typeof '')) = 0" "prefixOps (concat (replicate n ''typeof '')) = 0"
    by (simp_all add: openers_def prefixOps_def filter_empty_conv char_classes)
  then have "scDeepest (scanScript scanStart (concat (replicate n ''typeof ''))) \<le> 0"
      "scLongestUnary (scanScript scanStart (concat (replicate n ''typeof ''))) \<le> 0"
    using scanScript_bound[of scanStart "concat (replicate n ''typeof '')"] by (simp_all add: scanStart_def)
  then show ?thesis by (simp add: checkScriptNesting_def)
qed

end
