(* ===== verification/Net_Addr.thy ===== *)
theory Net_Addr
  imports Hosts
begin

text \<open>
  IP addresses as the Go standard library reads and writes them: \<^verbatim>\<open>netip.ParseAddr\<close>,
  \<^verbatim>\<open>net.ParseIP\<close>, \<^verbatim>\<open>net.IP.String\<close> and \<^verbatim>\<open>netip.Addr.Unmap\<close>. An IPv4 address is its four
  octets and an IPv6 address its eight 16-bit groups. The result that matters to the program is
  that an address that is printed parses back to itself.
\<close>

section \<open>Addresses\<close>

datatype addr = V4 "nat list" | V6 "nat list" string

fun validAddr :: "addr \<Rightarrow> bool" where
  "validAddr (V4 os) \<longleftrightarrow> length os = 4 \<and> list_all (\<lambda>n. n < 256) os"
| "validAddr (V6 gs z) \<longleftrightarrow> length gs = 8 \<and> list_all (\<lambda>n. n < 65536) gs"

fun addrZone :: "addr \<Rightarrow> string" where
  "addrZone (V4 os) = []"
| "addrZone (V6 gs z) = z"

definition groupsOf4 :: "nat list \<Rightarrow> nat list" where
  "groupsOf4 os = [os ! 0 * 256 + os ! 1, os ! 2 * 256 + os ! 3]"

definition octetsOf :: "nat list \<Rightarrow> nat list" where
  "octetsOf gs = concat (map (\<lambda>g. [g div 256, g mod 256]) gs)"

definition is4In6 :: "nat list \<Rightarrow> bool" where
  "is4In6 gs \<longleftrightarrow> take 6 gs = [0, 0, 0, 0, 0, 65535]"

fun Unmap :: "addr \<Rightarrow> addr" where
  "Unmap (V4 os) = V4 os"
| "Unmap (V6 gs z) = (if is4In6 gs then V4 (octetsOf (drop 6 gs)) else V6 gs z)"

section \<open>Parsing (netip.ParseAddr)\<close>

fun parseOctet :: "nat \<Rightarrow> nat \<Rightarrow> string \<Rightarrow> (nat \<times> string) option" where
  "parseOctet n v [] = (if n = 0 then None else Some (v, []))"
| "parseOctet n v (c # cs) =
     (if is_digit c then
        (if n = 1 \<and> v = 0 then None
         else if v * 10 + (code c - 48) > 255 then None
         else parseOctet (Suc n) (v * 10 + (code c - 48)) cs)
      else if n = 0 then None
      else Some (v, c # cs))"

fun parseOctets :: "nat \<Rightarrow> string \<Rightarrow> nat list option" where
  "parseOctets 0 s = None"
| "parseOctets (Suc k) s =
     (case parseOctet 0 0 s of
        None \<Rightarrow> None
      | Some (v, rest) \<Rightarrow>
          (if k = 0 then (if rest = [] then Some [v] else None)
           else (case rest of
                   c # rest' \<Rightarrow> if c = CHR ''.'' then map_option ((#) v) (parseOctets k rest') else None
                 | [] \<Rightarrow> None)))"

definition parseIPv4Fields :: "string \<Rightarrow> nat list option" where
  "parseIPv4Fields s = parseOctets 4 s"

definition hexValue :: "char \<Rightarrow> nat option" where
  "hexValue c =
     (if is_digit c then Some (code c - 48)
      else if 97 \<le> code c \<and> code c \<le> 102 then Some (code c - 87)
      else if 65 \<le> code c \<and> code c \<le> 70 then Some (code c - 55)
      else None)"

text \<open>The digits of one group: how many, their value, and what follows; more than four fail.\<close>

fun parseGroup :: "nat \<Rightarrow> nat \<Rightarrow> string \<Rightarrow> (nat \<times> nat \<times> string) option" where
  "parseGroup n v [] = Some (n, v, [])"
| "parseGroup n v (c # cs) =
     (case hexValue c of
        None \<Rightarrow> Some (n, v, c # cs)
      | Some d \<Rightarrow> if n > 3 then None else parseGroup (Suc n) (v * 16 + d) cs)"

text \<open>
  The loop of \<^verbatim>\<open>parseIPv6\<close>: the groups so far, where the ellipsis stands, and the rest of the
  text. A trailing embedded IPv4 address takes two groups.
\<close>

definition embedded4 :: "nat list \<Rightarrow> nat option \<Rightarrow> string \<Rightarrow> (nat list \<times> nat option) option" where
  "embedded4 acc ell s =
     (if ell = None \<and> length acc \<noteq> 6 then None
      else if length acc + 2 > 8 then None
      else map_option (\<lambda>os. (acc @ groupsOf4 os, ell)) (parseIPv4Fields s))"

function parseGroups :: "nat list \<Rightarrow> nat option \<Rightarrow> string \<Rightarrow> (nat list \<times> nat option) option" where
  "parseGroups acc ell s =
     (if length acc \<ge> 8 then (if s = [] then Some (acc, ell) else None)
      else (case parseGroup 0 0 s of
              None \<Rightarrow> None
            | Some (n, v, rest) \<Rightarrow>
                (if n = 0 then None
                 else if rest \<noteq> [] \<and> hd rest = CHR ''.'' then embedded4 acc ell s
                 else if rest = [] then Some (acc @ [v], ell)
                 else if hd rest \<noteq> CHR '':'' then None
                 else if length rest = 1 then None
                 else if rest ! 1 = CHR '':'' then
                   (if ell \<noteq> None then None
                    else if length rest = 2 then Some (acc @ [v], Some (length acc + 1))
                    else parseGroups (acc @ [v]) (Some (length acc + 1)) (drop 2 rest))
                 else parseGroups (acc @ [v]) ell (drop 1 rest))))"
  by pat_completeness auto
termination by (relation "measure (\<lambda>(acc, ell, s). 8 - length acc)") auto

definition expandEllipsis :: "nat list \<times> nat option \<Rightarrow> nat list option" where
  "expandEllipsis r =
     (case r of
        (gs, ell) \<Rightarrow>
          (if length gs < 8 then
             (case ell of
                None \<Rightarrow> None
              | Some e \<Rightarrow> Some (take e gs @ replicate (8 - length gs) 0 @ drop e gs))
           else if ell \<noteq> None then None
           else Some gs))"

definition parse6 :: "string \<Rightarrow> nat list option" where
  "parse6 s =
     (if take 2 s = ''::'' then
        (if length s = 2 then Some (replicate 8 0)
         else Option.bind (parseGroups [] (Some 0) (drop 2 s)) expandEllipsis)
      else Option.bind (parseGroups [] None s) expandEllipsis)"

definition parseIPv6 :: "string \<Rightarrow> addr option" where
  "parseIPv6 s =
     (case index_byte s CHR ''%'' of
        None \<Rightarrow> map_option (\<lambda>gs. V6 gs []) (parse6 s)
      | Some i \<Rightarrow>
          (if drop (i + 1) s = [] then None
           else map_option (\<lambda>gs. V6 gs (drop (i + 1) s)) (parse6 (take i s))))"

definition ParseAddr :: "string \<Rightarrow> addr option" where
  "ParseAddr s =
     (case dropWhile (\<lambda>c. c \<noteq> CHR ''.'' \<and> c \<noteq> CHR '':'' \<and> c \<noteq> CHR ''%'') s of
        [] \<Rightarrow> None
      | c # _ \<Rightarrow>
          (if c = CHR ''.'' then map_option V4 (parseIPv4Fields s)
           else if c = CHR '':'' then parseIPv6 s
           else None))"

text \<open>\<^verbatim>\<open>net.ParseIP\<close> refuses a zone and does not tell an IPv4 address from its mapped form.\<close>

definition ParseIP :: "string \<Rightarrow> addr option" where
  "ParseIP s = (case ParseAddr s of None \<Rightarrow> None | Some a \<Rightarrow> if addrZone a = [] then Some (Unmap a) else None)"

section \<open>Printing (net.IP.String)\<close>

fun hexDigits :: "nat \<Rightarrow> string" where
  "hexDigits n =
     (let c = (if n mod 16 < 10 then char_of (48 + n mod 16) else char_of (87 + n mod 16))
      in if n < 16 then [c] else hexDigits (n div 16) @ [c])"

declare hexDigits.simps [simp del]

fun join :: "string \<Rightarrow> string list \<Rightarrow> string" where
  "join sep [] = []"
| "join sep [x] = x"
| "join sep (x # y # xs) = x @ sep @ join sep (y # xs)"

text \<open>The leftmost longest run of at least two zero groups, as its bounds.\<close>

definition zeroRun :: "nat list \<Rightarrow> nat \<Rightarrow> nat" where
  "zeroRun gs i = i + length (takeWhile (\<lambda>g. g = 0) (drop i gs))"

definition longestZeros :: "nat list \<Rightarrow> (nat \<times> nat) option" where
  "longestZeros gs =
     fold (\<lambda>i best. let j = zeroRun gs i; l = j - i
                    in if l \<ge> 2 \<and> l > (case best of None \<Rightarrow> 0 | Some (a, b) \<Rightarrow> b - a) then Some (i, j) else best)
       [0..<8] None"

definition string6 :: "nat list \<Rightarrow> string" where
  "string6 gs =
     (case longestZeros gs of
        None \<Rightarrow> join '':'' (map hexDigits gs)
      | Some (a, b) \<Rightarrow> join '':'' (map hexDigits (take a gs)) @ ''::'' @ join '':'' (map hexDigits (drop b gs)))"

definition string4 :: "nat list \<Rightarrow> string" where
  "string4 os = join ''.'' (map digits_of os)"

text \<open>The text of four or of sixteen bytes; a mapped IPv4 address prints in dotted form.\<close>

definition ipString :: "addr \<Rightarrow> string" where
  "ipString a = (case Unmap a of V4 os \<Rightarrow> string4 os | V6 gs z \<Rightarrow> string6 gs)"


section \<open>Printed addresses parse back\<close>

lemma code_char_of_small: "n < 256 \<Longrightarrow> code (char_of (n::nat)) = n"
  by (simp add: code_def)

lemma hexValue_digit: "n < 16 \<Longrightarrow> hexValue (if n < 10 then char_of (48 + n) else char_of (87 + n)) = Some n"
  by (auto simp: hexValue_def is_digit_def code_char_of_small)

lemma hexDigits_hex: "c \<in> set (hexDigits n) \<Longrightarrow> hexValue c \<noteq> None"
proof (induction n rule: hexDigits.induct)
  case (1 n)
  let ?c = "if n mod 16 < 10 then char_of (48 + n mod 16) else char_of (87 + n mod 16)"
  have c: "hexValue ?c = Some (n mod 16)" by (rule hexValue_digit) simp
  from "1.prems" have "c = ?c \<or> (\<not> n < 16 \<and> c \<in> set (hexDigits (n div 16)))"
    by (subst (asm) hexDigits.simps) (auto simp: Let_def split: if_splits)
  then show ?case using c 1 by fastforce
qed

definition hexFold :: "nat \<Rightarrow> string \<Rightarrow> nat" where
  "hexFold v s = foldl (\<lambda>v c. v * 16 + the (hexValue c)) v s"

lemma hexFold_hexDigits: "hexFold 0 (hexDigits n) = n"
proof (induction n rule: hexDigits.induct)
  case (1 n)
  let ?c = "if n mod 16 < 10 then char_of (48 + n mod 16) else char_of (87 + n mod 16)"
  have c: "hexValue ?c = Some (n mod 16)" by (rule hexValue_digit) simp
  have "hexDigits n = (if n < 16 then [?c] else hexDigits (n div 16) @ [?c])"
    by (subst hexDigits.simps) (simp add: Let_def)
  then show ?case using 1 c by (auto simp: hexFold_def)
qed

lemma length_hexDigits: "n < 16 ^ Suc k \<Longrightarrow> length (hexDigits n) \<le> Suc k"
proof (induction k arbitrary: n)
  case 0
  then show ?case by (subst hexDigits.simps) (simp add: Let_def)
next
  case (Suc k)
  then have "n div 16 < 16 ^ Suc k" by (simp add: less_mult_imp_div_less mult.commute)
  with Suc.IH have "length (hexDigits (n div 16)) \<le> Suc k" by blast
  then show ?case by (subst hexDigits.simps) (simp add: Let_def)
qed

lemma hexDigits_not_Nil [simp]: "hexDigits n \<noteq> []"
  by (subst hexDigits.simps) (simp add: Let_def)

lemma parseGroup_append:
  "(\<And>c. c \<in> set xs \<Longrightarrow> hexValue c \<noteq> None) \<Longrightarrow> n + length xs \<le> 4 \<Longrightarrow>
     parseGroup n v (xs @ ys) = parseGroup (n + length xs) (hexFold v xs) ys"
proof (induction xs arbitrary: n v)
  case Nil
  then show ?case by (simp add: hexFold_def)
next
  case (Cons c xs)
  obtain d where "hexValue c = Some d" using Cons.prems(1)[of c] by auto
  then show ?case using Cons.IH[of "Suc n" "v * 16 + d"] Cons.prems by (simp add: hexFold_def)
qed

definition notHex :: "string \<Rightarrow> bool" where
  "notHex s \<longleftrightarrow> s = [] \<or> hexValue (hd s) = None"

lemma parseGroup_hexDigits:
  assumes "g < 65536" and "notHex rest"
  shows "\<exists>n. n > 0 \<and> parseGroup 0 0 (hexDigits g @ rest) = Some (n, g, rest)"
proof -
  have len: "length (hexDigits g) \<le> 4" using length_hexDigits[of g 3] assms(1) by simp
  have "parseGroup 0 0 (hexDigits g @ rest) = parseGroup (length (hexDigits g)) g rest"
    using parseGroup_append[of "hexDigits g" 0 0 rest] hexDigits_hex len by (simp add: hexFold_hexDigits)
  also have "\<dots> = Some (length (hexDigits g), g, rest)"
    using assms(2) by (cases rest) (auto simp: notHex_def)
  finally show ?thesis by auto
qed

lemma hexDigits_hd: "hd (hexDigits g @ s) \<noteq> CHR '':'' \<and> hd (hexDigits g @ s) \<noteq> CHR ''.''"
  using hexDigits_hex[of "hd (hexDigits g)" g] by (auto simp: hexValue_def is_digit_def code_def)

lemma notHex_sep: "notHex (CHR '':'' # s)" "notHex []"
  by (auto simp: notHex_def hexValue_def is_digit_def code_def)

declare parseGroups.simps [simp del]

lemma join_Cons: "xs \<noteq> [] \<Longrightarrow> join sep (x # xs) = x @ sep @ join sep xs"
  by (cases xs) auto

lemma join_hd: "gs \<noteq> [] \<Longrightarrow> join sep (map hexDigits gs) \<noteq> [] \<and>
    hd (join sep (map hexDigits gs) @ s) \<noteq> CHR '':'' "
  using hexDigits_hd by (cases gs rule: remdups_adj.cases) (auto simp: hexDigits_hd)

lemma parseGroups_last:
  assumes "g < 65536" and "length acc < 8"
  shows "parseGroups acc ell (hexDigits g) = Some (acc @ [g], ell)"
proof -
  obtain n where "n > 0" "parseGroup 0 0 (hexDigits g @ []) = Some (n, g, [])"
    using parseGroup_hexDigits[OF assms(1) notHex_sep(2)] by blast
  then show ?thesis using assms(2) by (subst parseGroups.simps) simp
qed

lemma parseGroups_colon:
  assumes "g < 65536" and "length acc < 8" and "s \<noteq> []" and "hd s \<noteq> CHR '':''"
  shows "parseGroups acc ell (hexDigits g @ '':'' @ s) = parseGroups (acc @ [g]) ell s"
proof -
  obtain n where "n > 0" "parseGroup 0 0 (hexDigits g @ '':'' @ s) = Some (n, g, '':'' @ s)"
    using parseGroup_hexDigits[OF assms(1) notHex_sep(1)[of s]] by auto
  then show ?thesis using assms(2-4) by (subst parseGroups.simps) (cases s; simp)
qed

lemma parseGroups_ellipsis:
  assumes "g < 65536" and "length acc < 8"
  shows "parseGroups acc None (hexDigits g @ ''::'' @ s) =
    (if s = [] then Some (acc @ [g], Some (length acc + 1)) else parseGroups (acc @ [g]) (Some (length acc + 1)) s)"
proof -
  obtain n where "n > 0" "parseGroup 0 0 (hexDigits g @ ''::'' @ s) = Some (n, g, ''::'' @ s)"
    using parseGroup_hexDigits[OF assms(1) notHex_sep(1)[of "'':'' @ s"]] by auto
  then show ?thesis using assms(2) by (subst parseGroups.simps) simp
qed

lemma parseGroups_join:
  "gs \<noteq> [] \<Longrightarrow> list_all (\<lambda>g. g < 65536) gs \<Longrightarrow> length acc + length gs \<le> 8 \<Longrightarrow>
     parseGroups acc ell (join '':'' (map hexDigits gs)) = Some (acc @ gs, ell)"
proof (induction gs arbitrary: acc)
  case (Cons g gs)
  show ?case
  proof (cases "gs = []")
    case True
    then show ?thesis using Cons.prems parseGroups_last by simp
  next
    case False
    then show ?thesis
      using Cons.IH[of "acc @ [g]"] Cons.prems join_hd[OF False, of "'':''" "[]"]
        parseGroups_colon[of g acc "join '':'' (map hexDigits gs)" ell] by (simp add: join_Cons)
  qed
qed simp

lemma parseGroups_split:
  "gs \<noteq> [] \<Longrightarrow> list_all (\<lambda>g. g < 65536) (gs @ hs) \<Longrightarrow> length acc + length gs + length hs < 8 \<Longrightarrow>
     parseGroups acc None (join '':'' (map hexDigits gs) @ ''::'' @ join '':'' (map hexDigits hs)) =
       Some (acc @ gs @ hs, Some (length acc + length gs))"
proof (induction gs arbitrary: acc)
  case (Cons g gs)
  show ?case
  proof (cases "gs = []")
    case True
    then show ?thesis
      using Cons.prems parseGroups_ellipsis[of g acc "join '':'' (map hexDigits hs)"]
        parseGroups_join[of hs "acc @ [g]" "Some (length acc + 1)"] join_hd[of hs "'':''" "[]"]
      by (cases "hs = []") simp_all
  next
    case False
    let ?s = "join '':'' (map hexDigits gs) @ ''::'' @ join '':'' (map hexDigits hs)"
    have "?s \<noteq> []" "hd ?s \<noteq> CHR '':''"
      using join_hd[OF False, of "'':''" "''::'' @ join '':'' (map hexDigits hs)"] by auto
    then show ?thesis
      using Cons.IH[of "acc @ [g]"] Cons.prems False parseGroups_colon[of g acc ?s None] by (simp add: join_Cons)
  qed
qed simp


lemma zeroRun_zeros:
  assumes "i \<le> k" and "k < zeroRun gs i"
  shows "gs ! k = 0"
proof -
  let ?t = "takeWhile (\<lambda>g. g = 0) (drop i gs)"
  have n: "k - i < length ?t" using assms by (simp add: zeroRun_def)
  then have "?t ! (k - i) = 0" using set_takeWhileD nth_mem by fastforce
  moreover have "?t ! (k - i) = drop i gs ! (k - i)" using n by (rule takeWhile_nth)
  moreover have "i \<le> length gs" using n by (cases "i \<le> length gs") auto
  ultimately show ?thesis using assms(1) by simp
qed

lemma zeroRun_le: "i \<le> length gs \<Longrightarrow> zeroRun gs i \<le> length gs"
  using length_takeWhile_le[of "\<lambda>g. g = 0" "drop i gs"] by (simp add: zeroRun_def)

definition zeroSpan :: "nat list \<Rightarrow> nat \<times> nat \<Rightarrow> bool" where
  "zeroSpan gs ab \<longleftrightarrow> fst ab + 2 \<le> snd ab \<and> snd ab \<le> length gs \<and> (\<forall>k. fst ab \<le> k \<and> k < snd ab \<longrightarrow> gs ! k = 0)"

lemma longestZeros_span:
  assumes "length gs = 8" and "longestZeros gs = Some ab"
  shows "zeroSpan gs ab"
proof -
  let ?f = "\<lambda>i best. let j = zeroRun gs i; l = j - i
      in if l \<ge> 2 \<and> l > (case best of None \<Rightarrow> 0 | Some (a, b) \<Rightarrow> b - a) then Some (i, j) else best"
  have "case fold ?f is best of None \<Rightarrow> True | Some ab \<Rightarrow> zeroSpan gs ab"
    if "\<forall>i\<in>set is. i \<le> 8" "case best of None \<Rightarrow> True | Some ab \<Rightarrow> zeroSpan gs ab" for "is" best
    using that
  proof (induction "is" arbitrary: best)
    case (Cons i "is")
    have "case ?f i best of None \<Rightarrow> True | Some ab \<Rightarrow> zeroSpan gs ab"
      using Cons.prems zeroRun_le[of i gs] assms(1) zeroRun_zeros[of i _ gs]
      by (auto simp: Let_def zeroSpan_def split: option.splits)
    then show ?case using Cons by simp
  qed simp
  from this[of "[0..<8]" None] assms(2) show ?thesis by (simp add: longestZeros_def)
qed

lemma zeroSpan_expand:
  assumes "length gs = 8" and "zeroSpan gs (a, b)"
  shows "take a gs @ replicate (b - a) 0 @ drop b gs = gs"
proof -
  have "take (b - a) (drop a gs) = replicate (b - a) 0"
    using assms by (intro nth_equalityI) (auto simp: zeroSpan_def)
  then show ?thesis using assms
    by (metis (no_types, lifting) append_take_drop_id drop_drop fst_conv le_add_diff_inverse2 le_trans le_add1 snd_conv zeroSpan_def)
qed

lemma parse6_string6:
  assumes "length gs = 8" and "list_all (\<lambda>g. g < 65536) gs"
  shows "parse6 (string6 gs) = Some gs"
proof (cases "longestZeros gs")
  case None
  have ne: "gs \<noteq> []" using assms(1) by auto
  have "parseGroups [] None (join '':'' (map hexDigits gs)) = Some (gs, None)"
    using parseGroups_join[OF ne assms(2), of "[]" None] assms(1) by simp
  moreover have "take 2 (join '':'' (map hexDigits gs)) \<noteq> ''::''"
    using join_hd[OF ne, of "'':''" "[]"] by (metis append_Nil2 hd_append2 append_take_drop_id list.sel(1) list.distinct(1))
  ultimately show ?thesis using None assms(1) by (simp add: parse6_def string6_def expandEllipsis_def)
next
  case (Some ab)
  obtain a b where ab: "ab = (a, b)" by fastforce
  have span: "zeroSpan gs (a, b)" using longestZeros_span[OF assms(1)] Some ab by blast
  then have le: "a + 2 \<le> b" "b \<le> 8" using assms(1) by (auto simp: zeroSpan_def)
  have expand: "expandEllipsis (take a gs @ drop b gs, Some a) = Some gs"
    using zeroSpan_expand[OF assms(1) span] le assms(1) by (simp add: expandEllipsis_def)
  have small: "list_all (\<lambda>g. g < 65536) (take a gs @ drop b gs)"
    using assms(2) by (auto simp: list_all_iff dest: in_set_takeD in_set_dropD)
  let ?s = "join '':'' (map hexDigits (take a gs)) @ ''::'' @ join '':'' (map hexDigits (drop b gs))"
  show ?thesis
  proof (cases "a = 0")
    case True
    then show ?thesis
      using Some ab expand small le assms(1) parseGroups_join[of "drop b gs" "[]" "Some 0"] join_hd[of "drop b gs" "'':''" "[]"]
        zeroSpan_expand[OF assms(1) span]
      by (cases "b = 8") (auto simp: parse6_def string6_def)
  next
    case False
    then have ne: "take a gs \<noteq> []" using assms(1) by auto
    have "take 2 ?s \<noteq> ''::''" using join_hd[OF ne, of "'':''" "''::'' @ join '':'' (map hexDigits (drop b gs))"]
      by (metis append_take_drop_id hd_append2 list.distinct(1) list.sel(1))
    moreover have "parseGroups [] None ?s = Some (take a gs @ drop b gs, Some a)"
      using parseGroups_split[OF ne small, of "[]"] le assms(1) by simp
    ultimately show ?thesis using Some ab expand by (simp add: parse6_def string6_def)
  qed
qed


lemma parseOctet_digits:
  assumes "n < 256" and "rest = [] \<or> \<not> is_digit (hd rest)"
  shows "parseOctet 0 0 (digits_of n @ rest) = Some (n, rest)"
proof -
  have stop: "k > 0 \<Longrightarrow> parseOctet k v rest = Some (v, rest)" for k v using assms(2) by (cases rest) auto
  have dig: "is_digit (char_of (48 + d))" "code (char_of (48 + d)) - 48 = d" if "d < 10" for d :: nat
    using is_digit_char_of[OF that] that by (simp_all add: code_char_of_small)
  consider "n < 10" | "10 \<le> n" "n < 100" | "100 \<le> n" by linarith
  then show ?thesis
  proof cases
    case 1
    then have "digits_of n = [char_of (48 + n)]" by (subst digits_of.simps) simp
    then show ?thesis using 1 dig[of n] stop by simp
  next
    case 2
    then have "digits_of n = [char_of (48 + n div 10), char_of (48 + n mod 10)]"
      by (subst digits_of.simps, subst digits_of.simps) simp
    moreover have "n div 10 > 0" "n div 10 \<le> 255" "n div 10 < 10" "n div 10 * 10 + n mod 10 = n" using 2 by auto
    ultimately show ?thesis using assms(1) dig[of "n div 10"] dig[of "n mod 10"] stop by simp
  next
    case 3
    have ar: "n div 10 div 10 > 0" "n div 10 div 10 < 10" "n div 10 \<le> 255" "n div 10 > 0" "\<not> n < 10" "\<not> n div 10 < 10"
      using 3 assms(1) by auto
    then have "digits_of n = [char_of (48 + n div 10 div 10), char_of (48 + n div 10 mod 10), char_of (48 + n mod 10)]"
      by (subst digits_of.simps, subst digits_of.simps, subst digits_of.simps) simp
    moreover have "(n div 10 div 10 * 10 + n div 10 mod 10) * 10 + n mod 10 = n"
      "n div 10 div 10 * 10 + n div 10 mod 10 = n div 10" by auto
    ultimately show ?thesis
      using ar assms(1) dig[of "n div 10 div 10"] dig[of "n div 10 mod 10"] dig[of "n mod 10"] stop by simp
  qed
qed

lemma parseIPv4Fields_string4:
  assumes "length os = 4" and "list_all (\<lambda>n. n < 256) os"
  shows "parseIPv4Fields (string4 os) = Some os"
proof -
  obtain a b c d where os: "os = [a, b, c, d]" using assms(1)
    by (auto simp: length_Suc_conv numeral_eq_Suc)
  have dot: "\<not> is_digit (CHR ''.'')" by (simp add: is_digit_def code_def)
  show ?thesis using assms(2) dot unfolding os
    by (simp add: parseIPv4Fields_def string4_def numeral_eq_Suc parseOctet_digits parseOctet_digits[where rest = "[]", simplified])
qed

lemma first_separator:
  assumes "\<And>c. c \<in> set xs \<Longrightarrow> c \<noteq> CHR ''.'' \<and> c \<noteq> CHR '':'' \<and> c \<noteq> CHR ''%''" and "y = CHR ''.'' \<or> y = CHR '':''"
  shows "ParseAddr (xs @ y # ys) =
    (if y = CHR ''.'' then map_option V4 (parseIPv4Fields (xs @ y # ys)) else parseIPv6 (xs @ y # ys))"
proof -
  have "dropWhile (\<lambda>c. c \<noteq> CHR ''.'' \<and> c \<noteq> CHR '':'' \<and> c \<noteq> CHR ''%'') (xs @ y # ys) = y # ys"
    using assms by (subst dropWhile_append2) auto
  then show ?thesis using assms(2) by (auto simp: ParseAddr_def)
qed

lemma ParseAddr_string4:
  assumes "length os = 4" and "list_all (\<lambda>n. n < 256) os"
  shows "ParseAddr (string4 os) = Some (V4 os)"
proof -
  obtain a b c d where os: "os = [a, b, c, d]" using assms(1) by (auto simp: length_Suc_conv numeral_eq_Suc)
  then have s: "string4 os = digits_of a @ CHR ''.'' # (digits_of b @ ''.'' @ digits_of c @ ''.'' @ digits_of d)"
    by (simp add: string4_def)
  have "c \<noteq> CHR ''.'' \<and> c \<noteq> CHR '':'' \<and> c \<noteq> CHR ''%''" if "c \<in> set (digits_of a)" for c
    using digits_of_chars[OF that] by (auto simp: is_digit_def code_def)
  from first_separator[OF this, where y = "CHR ''.''"] show ?thesis
    using parseIPv4Fields_string4[OF assms] unfolding s by simp
qed

lemma join_chars: "c \<in> set (join sep xs) \<Longrightarrow> c \<in> set sep \<or> (\<exists>x\<in>set xs. c \<in> set x)"
  by (induction sep xs rule: join.induct) auto

lemma hex_char: "hexValue c \<noteq> None \<Longrightarrow> c \<noteq> CHR ''.'' \<and> c \<noteq> CHR '':'' \<and> c \<noteq> CHR ''%''"
  by (auto simp: hexValue_def is_digit_def code_def)

lemma string6_chars: "c \<in> set (string6 gs) \<Longrightarrow> c = CHR '':'' \<or> hexValue c \<noteq> None"
  using join_chars[of c "'':''"] hexDigits_hex by (fastforce simp: string6_def split: option.splits)

lemma string6_colon:
  assumes "length gs = 8"
  shows "CHR '':'' \<in> set (string6 gs)"
proof (cases "longestZeros gs")
  case None
  obtain g h hs where "gs = g # h # hs" using assms by (cases gs rule: remdups_adj.cases) auto
  then show ?thesis using None by (simp add: string6_def)
qed (auto simp: string6_def)

lemma ParseAddr_string6:
  assumes "length gs = 8" and "list_all (\<lambda>g. g < 65536) gs"
  shows "ParseAddr (string6 gs) = Some (V6 gs [])"
proof -
  obtain xs ys where s: "string6 gs = xs @ CHR '':'' # ys" "CHR '':'' \<notin> set xs"
    using split_list_first[OF string6_colon[OF assms(1)]] by blast
  have "c \<noteq> CHR ''.'' \<and> c \<noteq> CHR '':'' \<and> c \<noteq> CHR ''%''" if "c \<in> set xs" for c
    using string6_chars[of c gs] hex_char[of c] s that by auto
  from first_separator[OF this, where y = "CHR '':''" and ys = ys] have "ParseAddr (string6 gs) = parseIPv6 (string6 gs)" using s by simp
  moreover have "CHR ''%'' \<notin> set (string6 gs)" using string6_chars[of "CHR ''%''" gs] hex_char by auto
  ultimately show ?thesis using parse6_string6[OF assms] by (simp add: parseIPv6_def index_byte_None[THEN iffD2])
qed

lemma Unmap_valid: "validAddr a \<Longrightarrow> validAddr (Unmap a)"
proof (cases a)
  case (V6 gs z)
  assume v: "validAddr a"
  have two: "\<exists>g h. xs = [g, h]" if "length xs = 2" for xs :: "nat list"
    using that by (auto simp: length_Suc_conv numeral_eq_Suc)
  have "length (drop 6 gs) = 2" using V6 v by simp
  then obtain g h where gh: "drop 6 gs = [g, h]" using two by blast
  then have "g \<in> set gs" "h \<in> set gs" using in_set_dropD[of _ 6 gs] by auto
  then have "g < 65536" "h < 65536" using v V6 by (auto simp: list_all_iff)
  then show ?thesis using v V6 gh by (auto simp: octetsOf_def)
qed auto

fun dropZone :: "addr \<Rightarrow> addr" where
  "dropZone (V4 os) = V4 os"
| "dropZone (V6 gs z) = V6 gs []"

lemma ParseAddr_ipString:
  assumes "validAddr a"
  shows "ParseAddr (ipString a) = Some (dropZone (Unmap a))"
  using Unmap_valid[OF assms] ParseAddr_string4 ParseAddr_string6
  by (cases "Unmap a") (auto simp: ipString_def)

lemma Unmap_idem [simp]: "Unmap (Unmap a) = Unmap a"
  by (cases a) auto


section \<open>Parsed addresses are well formed\<close>

lemma parseOctet_bound: "parseOctet n v s = Some (w, rest) \<Longrightarrow> v < 256 \<Longrightarrow> w < 256"
  by (induction n v s rule: parseOctet.induct) (auto split: if_splits)

lemma parseOctets_valid: "parseOctets k s = Some os \<Longrightarrow> length os = k \<and> list_all (\<lambda>n. n < 256) os"
proof (induction k s arbitrary: os rule: parseOctets.induct)
  case (2 k s)
  obtain v rest where o: "parseOctet 0 0 s = Some (v, rest)" using 2(2) by (auto split: option.splits)
  have v: "v < 256" using parseOctet_bound[OF o] by simp
  show ?case
  proof (cases "k = 0")
    case True
    then show ?thesis using 2(2) o v by (auto split: if_splits)
  next
    case False
    then obtain c rest' os' where "rest = c # rest'" "c = CHR ''.''" "parseOctets k rest' = Some os'" "os = v # os'"
      using 2(2) o by (auto split: list.splits if_splits)
    then show ?thesis using 2(1)[OF o refl False] v by simp
  qed
qed simp

lemma hexValue_bound: "hexValue c = Some d \<Longrightarrow> d < 16"
  by (auto simp: hexValue_def is_digit_def split: if_splits)

lemma parseGroup_bound: "parseGroup n v s = Some (m, w, rest) \<Longrightarrow> n \<le> 4 \<Longrightarrow> v < 16 ^ n \<Longrightarrow> m \<le> 4 \<and> w < 16 ^ m"
proof (induction n v s rule: parseGroup.induct)
  case (2 n v c cs)
  show ?case
  proof (cases "hexValue c")
    case (Some d)
    then have n: "n \<le> 3" and run: "parseGroup (Suc n) (v * 16 + d) cs = Some (m, w, rest)"
      using 2(2) by (auto split: if_splits)
    have "v * 16 + d < 16 ^ Suc n" using 2(4) hexValue_bound[OF Some] by simp
    then show ?thesis using 2(1)[OF Some _ run] n by simp
  qed (use 2 in auto)
qed auto

definition groupsOK :: "nat list \<Rightarrow> nat option \<Rightarrow> bool" where
  "groupsOK gs ell \<longleftrightarrow> length gs \<le> 8 \<and> list_all (\<lambda>g. g < 65536) gs \<and> (\<forall>e. ell = Some e \<longrightarrow> e \<le> length gs)"

lemma groupsOK_snoc: "groupsOK acc ell \<Longrightarrow> length acc < 8 \<Longrightarrow> v < 65536 \<Longrightarrow> groupsOK (acc @ [v]) ell"
  by (auto simp: groupsOK_def)

lemma embedded4_OK: "groupsOK acc ell \<Longrightarrow> embedded4 acc ell s = Some (gs, e) \<Longrightarrow> groupsOK gs e"
proof -
  assume a: "groupsOK acc ell" "embedded4 acc ell s = Some (gs, e)"
  then obtain os where os: "parseIPv4Fields s = Some os" "gs = acc @ groupsOf4 os" "e = ell" "length acc + 2 \<le> 8"
    by (auto simp: embedded4_def split: if_splits)
  have "length os = 4" "list_all (\<lambda>n. n < 256) os" using parseOctets_valid os(1) by (simp_all add: parseIPv4Fields_def)
  then have "\<forall>i<4. os ! i < 256" by (simp add: list_all_length)
  then have "os ! 0 < 256" "os ! 1 < 256" "os ! 2 < 256" "os ! 3 < 256" by simp_all
  then have "list_all (\<lambda>g. g < 65536) (groupsOf4 os)" by (simp add: groupsOf4_def)
  then show ?thesis using a(1) os by (auto simp: groupsOK_def groupsOf4_def)
qed

lemma parseGroups_OK: "groupsOK acc ell \<Longrightarrow> parseGroups acc ell s = Some (gs, e) \<Longrightarrow> groupsOK gs e"
proof (induction acc ell s rule: parseGroups.induct)
  case (1 acc ell s)
  show ?case
  proof (cases "length acc \<ge> 8")
    case True
    then show ?thesis using 1(3,4) by (subst (asm) parseGroups.simps) (auto split: if_splits)
  next
    case False
    then obtain n v rest where g: "parseGroup 0 0 s = Some (n, v, rest)"
      using 1(4) by (subst (asm) parseGroups.simps) (auto split: option.splits)
    have v: "v < 65536"
    proof -
      have "n \<le> 4" "v < 16 ^ n" using parseGroup_bound[OF g] by simp_all
      then have "v < 16 ^ 4" using power_increasing[of n 4 "16::nat"] by linarith
      then show ?thesis by simp
    qed
    have ok: "groupsOK (acc @ [v]) ell" "groupsOK (acc @ [v]) (Some (length acc + 1))"
      using groupsOK_snoc[OF 1(3) _ v] False by (auto simp: groupsOK_def)
    note body = 1(4)[unfolded parseGroups.simps[of acc ell s] g option.case prod.case]
    consider "rest \<noteq> []" "hd rest = CHR ''.''" "embedded4 acc ell s = Some (gs, e)"
      | "(gs, e) = (acc @ [v], ell) \<or> (gs, e) = (acc @ [v], Some (length acc + 1))"
      | "n \<noteq> 0" "rest \<noteq> []" "hd rest \<noteq> CHR ''.''" "hd rest = CHR '':''" "length rest \<noteq> 1" "rest ! 1 = CHR '':''" "ell = None"
        "length rest \<noteq> 2" "parseGroups (acc @ [v]) (Some (length acc + 1)) (drop 2 rest) = Some (gs, e)"
      | "n \<noteq> 0" "rest \<noteq> []" "hd rest \<noteq> CHR ''.''" "hd rest = CHR '':''" "length rest \<noteq> 1" "rest ! 1 \<noteq> CHR '':''"
        "parseGroups (acc @ [v]) ell (drop 1 rest) = Some (gs, e)"
      using body False by (simp split: if_split_asm)
    then show ?thesis
    proof cases
      case 3
      then show ?thesis using 1(1)[OF False g refl refl] ok(2) by simp
    next
      case 4
      then show ?thesis using 1(2)[OF False g refl refl] ok(1) by simp
    qed (use ok embedded4_OK[OF 1(3)] in auto)
  qed
qed

lemma parse6_valid: "parse6 s = Some gs \<Longrightarrow> length gs = 8 \<and> list_all (\<lambda>g. g < 65536) gs"
proof -
  have ex: "expandEllipsis (hs, e) = Some gs \<Longrightarrow> groupsOK hs e \<Longrightarrow> length gs = 8 \<and> list_all (\<lambda>g. g < 65536) gs" for hs e
    by (auto simp: expandEllipsis_def groupsOK_def list_all_iff split: if_splits option.splits) (meson in_set_takeD in_set_dropD)+
  have start: "groupsOK [] None" "groupsOK [] (Some 0)" by (simp_all add: groupsOK_def)
  assume "parse6 s = Some gs"
  then show ?thesis
    using parseGroups_OK[OF start(1)] parseGroups_OK[OF start(2)] ex
    by (auto simp: parse6_def list_all_iff bind_eq_Some_conv split: if_splits)
qed

lemma ParseAddr_valid: "ParseAddr s = Some a \<Longrightarrow> validAddr a"
  using parse6_valid parseOctets_valid
  by (auto simp: ParseAddr_def parseIPv6_def parseIPv4Fields_def split: list.splits if_splits option.splits)

end
