(* ===== verification/Socks_Address.thy ===== *)
theory Socks_Address
  imports Net_Addr
begin

text \<open>
  SOCKS addresses and UDP datagrams of socks.go. Bytes are characters, as in a Go string. Reading
  from a stream is a function of the bytes that are left; an operation that runs out of bytes
  fails. A reusable packet buffer is represented by its capacity, because its content is never
  read before it is written.
\<close>

section \<open>Targets and errors\<close>

record socksTarget =
  tgtHost :: string
  tgtPort :: int

datatype socks_error =
    UnexpectedEOF
  | WriteFailed
  | InvalidGreeting
  | NoUserPassMethod
  | InvalidAuthHeader
  | EmptyPassword
  | InvalidCredentials
  | InvalidRequestHeader
  | EmptyDomain
  | UnsupportedAddressType nat
  | PortOutOfRange
  | DomainLengthInvalid
  | DomainHasColon
  | CredentialsLength
  | AuthRejected
  | AuthFailed
  | InvalidReply
  | RequestFailed nat
  | InvalidPacket
  | PacketTooLarge
  | UnexpectedPeer

definition byte :: "nat \<Rightarrow> char" where "byte n = char_of n"

lemma code_byte [simp]: "n < 256 \<Longrightarrow> code (byte n) = n"
  by (simp add: byte_def code_char_of_small)

lemma byte_code [simp]: "byte (code c) = c"
  by (simp add: byte_def code_def)

definition joinHostPort :: "string \<Rightarrow> string \<Rightarrow> string" where
  "joinHostPort host port =
     (if CHR '':'' \<in> set host then ''['' @ host @ '']:'' @ port else host @ '':'' @ port)"

definition targetString :: "socksTarget \<Rightarrow> string" where
  "targetString t = joinHostPort (tgtHost t) (itoa (tgtPort t))"

section \<open>Reading\<close>

text \<open>\<^verbatim>\<open>io.ReadFull\<close> of \<open>n\<close> bytes.\<close>

definition readFull :: "nat \<Rightarrow> string \<Rightarrow> socks_error + string \<times> string" where
  "readFull n s = (if length s < n then Inl UnexpectedEOF else Inr (take n s, drop n s))"

definition andThenR :: "'e + 'a \<times> 's \<Rightarrow> ('a \<Rightarrow> 's \<Rightarrow> 'e + 'b) \<Rightarrow> 'e + 'b" where
  "andThenR r k = (case r of Inl e \<Rightarrow> Inl e | Inr (a, s) \<Rightarrow> k a s)"

definition addrBytes4 :: "string \<Rightarrow> addr" where
  "addrBytes4 v = V4 (map code v)"

fun pairs16 :: "nat list \<Rightarrow> nat list" where
  "pairs16 (a # b # xs) = (a * 256 + b) # pairs16 xs"
| "pairs16 _ = []"

definition addrBytes16 :: "string \<Rightarrow> addr" where
  "addrBytes16 v = V6 (pairs16 (map code v)) []"

definition readSOCKSHost :: "nat \<Rightarrow> string \<Rightarrow> socks_error + string \<times> string" where
  "readSOCKSHost atyp s =
     (if atyp = 1 then andThenR (readFull 4 s) (\<lambda>v s. Inr (ipString (addrBytes4 v), s))
      else if atyp = 4 then andThenR (readFull 16 s) (\<lambda>v s. Inr (ipString (addrBytes16 v), s))
      else if atyp = 3 then
        andThenR (readFull 1 s) (\<lambda>l s.
          if code (hd l) = 0 then Inl EmptyDomain
          else andThenR (readFull (code (hd l)) s) (\<lambda>v s. Inr (v, s)))
      else Inl (UnsupportedAddressType atyp))"

definition readSOCKSAddress :: "string \<Rightarrow> socks_error + socksTarget \<times> string" where
  "readSOCKSAddress s =
     andThenR (readFull 1 s) (\<lambda>atyp s.
     andThenR (readSOCKSHost (code (hd atyp)) s) (\<lambda>host s.
     andThenR (readFull 2 s) (\<lambda>p s.
       Inr (\<lparr>tgtHost = host, tgtPort = int (code (p ! 0)) * 256 + int (code (p ! 1))\<rparr>, s))))"

section \<open>Writing\<close>

definition mayBeIPAddress :: "string \<Rightarrow> bool" where
  "mayBeIPAddress host =
     (if host = [] then False
      else if CHR '':'' \<in> set host then True
      else list_all (\<lambda>v. v = CHR ''.'' \<or> is_digit v) host)"

definition targetIP :: "string \<Rightarrow> addr option" where
  "targetIP host =
     (if mayBeIPAddress host
      then (case ParseAddr host of
              None \<Rightarrow> None
            | Some a \<Rightarrow> if addrZone a = [] then Some (Unmap a) else None)
      else None)"

definition portBytes :: "int \<Rightarrow> string" where
  "portBytes p = [byte (nat (p mod 65536 div 256)), byte (nat (p mod 256))]"

definition appendSOCKSAddress :: "string \<Rightarrow> socksTarget \<Rightarrow> socks_error + string" where
  "appendSOCKSAddress out t =
     (if tgtPort t < 0 \<or> tgtPort t > 65535 then Inl PortOutOfRange
      else (case targetIP (tgtHost t) of
              Some (V4 os) \<Rightarrow> Inr (out @ [byte 1] @ map byte os @ portBytes (tgtPort t))
            | Some (V6 gs z) \<Rightarrow> Inr (out @ [byte 4] @ map byte (octetsOf gs) @ portBytes (tgtPort t))
            | None \<Rightarrow>
                (if tgtHost t = [] \<or> length (tgtHost t) > 255 then Inl DomainLengthInvalid
                 else if CHR '':'' \<in> set (tgtHost t) then Inl DomainHasColon
                 else Inr (out @ [byte 3, byte (length (tgtHost t))] @ tgtHost t @ portBytes (tgtPort t)))))"

definition encodeSOCKSAddress :: "socksTarget \<Rightarrow> socks_error + string" where
  "encodeSOCKSAddress t = appendSOCKSAddress [] t"

section \<open>UDP datagrams\<close>

definition maxSOCKSUDPEnvelopeBytes :: nat where "maxSOCKSUDPEnvelopeBytes = 3 + 1 + 1 + 255 + 2"
definition maxSOCKSUDPDatagramBytes :: nat where "maxSOCKSUDPDatagramBytes = 65507"

text \<open>The length and the capacity of the buffer a resize returns.\<close>

definition resizeSOCKSUDPBuffer :: "nat \<Rightarrow> nat \<Rightarrow> nat \<times> nat" where
  "resizeSOCKSUDPBuffer cap required =
     (let required = min required maxSOCKSUDPDatagramBytes
      in if cap < required
         then (let capacity = cap * 2;
                   capacity = (if capacity < required then required else capacity);
                   capacity = (if capacity > maxSOCKSUDPDatagramBytes then maxSOCKSUDPDatagramBytes else capacity)
               in (required, capacity))
         else (required, cap))"

definition resizeSOCKSUDPReadBuffer :: "nat \<Rightarrow> nat \<Rightarrow> nat \<times> nat" where
  "resizeSOCKSUDPReadBuffer cap payloadBytes =
     resizeSOCKSUDPBuffer cap
       (if payloadBytes \<le> maxSOCKSUDPDatagramBytes - maxSOCKSUDPEnvelopeBytes - 1
        then payloadBytes + maxSOCKSUDPEnvelopeBytes + 1 else maxSOCKSUDPDatagramBytes)"

text \<open>The packet and the capacity of the storage it was built in.\<close>

definition encodeSOCKSUDPDatagramInto :: "nat \<Rightarrow> socksTarget \<Rightarrow> string \<Rightarrow> (socks_error + string) \<times> nat" where
  "encodeSOCKSUDPDatagramInto cap t payload =
     (let required = (if length payload \<le> maxSOCKSUDPDatagramBytes - maxSOCKSUDPEnvelopeBytes
                      then length payload + maxSOCKSUDPEnvelopeBytes else maxSOCKSUDPDatagramBytes);
          cap = snd (resizeSOCKSUDPBuffer cap required)
      in case appendSOCKSAddress [byte 0, byte 0, byte 0] t of
           Inl e \<Rightarrow> (Inl e, cap)
         | Inr packet \<Rightarrow>
             (if int (length payload) > int maxSOCKSUDPDatagramBytes - int (length packet)
              then (Inl PacketTooLarge, cap) else (Inr (packet @ payload), cap)))"

definition encodeSOCKSUDPDatagram :: "socksTarget \<Rightarrow> string \<Rightarrow> socks_error + string" where
  "encodeSOCKSUDPDatagram t payload = fst (encodeSOCKSUDPDatagramInto 0 t payload)"

definition parseSOCKSUDPDatagram :: "string \<Rightarrow> socks_error + string \<times> socksTarget" where
  "parseSOCKSUDPDatagram packet =
     (if length packet < 4 \<or> take 3 packet \<noteq> [byte 0, byte 0, byte 0] then Inl InvalidPacket
      else andThenR (readSOCKSAddress (drop 3 packet)) (\<lambda>t rest. Inr (rest, t)))"

section \<open>Comparing targets\<close>

definition plainHost :: "string \<Rightarrow> string" where
  "plainHost h = trim_suffix (to_lower (trim_space h)) ''.''"

definition sameSOCKSTarget :: "socksTarget \<Rightarrow> socksTarget \<Rightarrow> bool" where
  "sameSOCKSTarget left right =
     (if tgtPort left \<noteq> tgtPort right then False
      else
        (let l = plainHost (tgtHost left); r = plainHost (tgtHost right);
             ips = (if mayBeIPAddress l \<and> mayBeIPAddress r
                    then (case (ParseAddr l, ParseAddr r) of
                            (Some a, Some b) \<Rightarrow> if addrZone a = [] \<and> addrZone b = [] then Some (Unmap a = Unmap b) else None
                          | _ \<Rightarrow> None)
                    else None)
         in case ips of
              Some same \<Rightarrow> same
            | None \<Rightarrow> if CHR '':'' \<in> set l \<or> CHR '':'' \<in> set r then False else l = r))"

text \<open>A \<^verbatim>\<open>net.Addr\<close> a caller may hand in: a target by value or pointer, or any other address by its text.\<close>

datatype net_addr = TargetAddr socksTarget | NilTarget | OtherAddr string | NilAddr

definition matchesSOCKSTarget :: "net_addr \<Rightarrow> socksTarget \<Rightarrow> bool" where
  "matchesSOCKSTarget address t =
     (case address of
        TargetAddr v \<Rightarrow> sameSOCKSTarget v t
      | NilTarget \<Rightarrow> False
      | OtherAddr s \<Rightarrow> s = targetString t
      | NilAddr \<Rightarrow> False)"

section \<open>Round trips and sizes\<close>

lemma readFull_append: "length xs = n \<Longrightarrow> readFull n (xs @ ys) = Inr (xs, ys)"
  by (simp add: readFull_def)

lemma andThenR_simps [simp]: "andThenR (Inr (a, s)) k = k a s" "andThenR (Inl e) k = Inl e"
  by (simp_all add: andThenR_def)

lemma map_code_byte: "list_all (\<lambda>n. n < 256) ns \<Longrightarrow> map code (map byte ns) = ns"
  by (induction ns) auto

lemma pairs16_octetsOf: "list_all (\<lambda>g. g < 65536) gs \<Longrightarrow> pairs16 (octetsOf gs) = gs"
  by (induction gs) (auto simp: octetsOf_def)

lemma octetsOf_small: "list_all (\<lambda>g. g < 65536) gs \<Longrightarrow> list_all (\<lambda>n. n < 256) (octetsOf gs)"
  by (induction gs) (auto simp: octetsOf_def)

lemma length_octetsOf: "length (octetsOf gs) = 2 * length gs"
  by (induction gs) (auto simp: octetsOf_def)

lemma portBytes_value:
  assumes "0 \<le> p" "p \<le> 65535"
  shows "int (code (portBytes p ! 0)) * 256 + int (code (portBytes p ! 1)) = p" "length (portBytes p) = 2"
proof -
  have "p mod 65536 = p" "nat (p div 256) < 256" "nat (p mod 256) < 256" "0 \<le> p div 256" using assms by auto
  then show "int (code (portBytes p ! 0)) * 256 + int (code (portBytes p ! 1)) = p"
    by (simp add: portBytes_def)
qed (simp add: portBytes_def)

lemma targetIP_valid: "targetIP h = Some a \<Longrightarrow> validAddr a \<and> Unmap a = a \<and> addrZone a = [] \<and> (\<exists>b. ParseAddr h = Some b \<and> Unmap b = a)"
proof -
  assume "targetIP h = Some a"
  then obtain b where b: "ParseAddr h = Some b" "addrZone b = []" "a = Unmap b"
    by (auto simp: targetIP_def split: if_splits option.splits)
  have "addrZone (Unmap b) = []" using b(2) by (cases b) auto
  then show ?thesis using b ParseAddr_valid Unmap_valid by auto
qed

lemma readSOCKSAddress_frame:
  assumes "readSOCKSHost k (hs @ portBytes p @ rest) = Inr (h, portBytes p @ rest)" "k < 256" "0 \<le> p" "p \<le> 65535"
  shows "readSOCKSAddress (byte k # hs @ portBytes p @ rest) = Inr (\<lparr>tgtHost = h, tgtPort = p\<rparr>, rest)"
proof -
  have "readFull 1 (byte k # hs @ portBytes p @ rest) = Inr ([byte k], hs @ portBytes p @ rest)"
    by (simp add: readFull_def)
  moreover have "readFull 2 (portBytes p @ rest) = Inr (portBytes p, rest)"
    using portBytes_value[OF assms(3,4)] by (intro readFull_append) simp
  ultimately show ?thesis using assms(1,2) portBytes_value[OF assms(3,4)] by (simp add: readSOCKSAddress_def)
qed

text \<open>What the far end makes of an encoded target.\<close>

definition canonicalTarget :: "socksTarget \<Rightarrow> socksTarget" where
  "canonicalTarget t =
     (case targetIP (tgtHost t) of None \<Rightarrow> t | Some a \<Rightarrow> t\<lparr>tgtHost := ipString a\<rparr>)"

lemma address_roundtrip:
  assumes "appendSOCKSAddress out t = Inr bs"
  shows "\<exists>body. bs = out @ body \<and> readSOCKSAddress (body @ rest) = Inr (canonicalTarget t, rest) \<and> length body \<le> 259"
proof -
  have port: "0 \<le> tgtPort t" "tgtPort t \<le> 65535" using assms by (auto simp: appendSOCKSAddress_def split: if_splits)
  note frame = readSOCKSAddress_frame[OF _ _ port]
  have plen: "length (portBytes (tgtPort t)) = 2" using portBytes_value[OF port] by simp
  have t: "t = \<lparr>tgtHost = tgtHost t, tgtPort = tgtPort t\<rparr>" by simp
  show ?thesis
  proof (cases "targetIP (tgtHost t)")
    case None
    let ?h = "tgtHost t"
    have h: "?h \<noteq> []" "length ?h \<le> 255" and bs: "bs = out @ [byte 3, byte (length ?h)] @ ?h @ portBytes (tgtPort t)"
      using assms None port by (auto simp: appendSOCKSAddress_def split: if_splits)
    have "readSOCKSHost 3 (([byte (length ?h)] @ ?h) @ portBytes (tgtPort t) @ rest) = Inr (?h, portBytes (tgtPort t) @ rest)"
      using h by (simp add: readSOCKSHost_def readFull_def)
    from frame[OF this] show ?thesis using bs None h plen by (intro exI[of _ "[byte 3, byte (length ?h)] @ ?h @ portBytes (tgtPort t)"]) (simp add: canonicalTarget_def)
  next
    case (Some a)
    note v = targetIP_valid[OF Some]
    show ?thesis
    proof (cases a)
      case (V4 os)
      have os: "length os = 4" "list_all (\<lambda>n. n < 256) os" using v V4 by simp_all
      have "readSOCKSHost 1 (map byte os @ portBytes (tgtPort t) @ rest) = Inr (ipString a, portBytes (tgtPort t) @ rest)"
        using os V4 readFull_append[of "map byte os" 4] map_code_byte[OF os(2)]
        by (simp add: readSOCKSHost_def addrBytes4_def)
      from frame[OF this] show ?thesis using assms Some V4 port plen os
        by (intro exI[of _ "byte 1 # map byte os @ portBytes (tgtPort t)"]) (simp add: canonicalTarget_def appendSOCKSAddress_def)
    next
      case (V6 gs z)
      have gs: "length gs = 8" "list_all (\<lambda>n. n < 65536) gs" "z = []" using v V6 by simp_all
      have "readSOCKSHost 4 (map byte (octetsOf gs) @ portBytes (tgtPort t) @ rest) = Inr (ipString a, portBytes (tgtPort t) @ rest)"
        using gs V6 readFull_append[of "map byte (octetsOf gs)" 16] map_code_byte[OF octetsOf_small[OF gs(2)]]
        by (simp add: readSOCKSHost_def addrBytes16_def length_octetsOf pairs16_octetsOf)
      from frame[OF this] show ?thesis using assms Some V6 port plen gs
        by (intro exI[of _ "byte 4 # map byte (octetsOf gs) @ portBytes (tgtPort t)"])
           (simp add: canonicalTarget_def appendSOCKSAddress_def length_octetsOf)
    qed
  qed
qed


lemma readFull_Inr: "readFull n s = Inr (v, rest) \<longleftrightarrow> n \<le> length s \<and> v = take n s \<and> rest = drop n s"
  by (auto simp: readFull_def)

lemma andThenR_Inr: "andThenR r k = Inr b \<longleftrightarrow> (\<exists>a s. r = Inr (a, s) \<and> k a s = Inr b)"
  by (auto simp: andThenR_def split: sum.splits)

lemma readSOCKSHost_length: "readSOCKSHost k s = Inr (h, rest) \<Longrightarrow> length s \<le> length rest + 256"
  using code_less[of "hd (take 1 s)"] by (auto simp: readSOCKSHost_def andThenR_Inr readFull_Inr split: if_splits)

lemma readSOCKSAddress_length: "readSOCKSAddress s = Inr (t, rest) \<Longrightarrow> length s \<le> length rest + 259"
  using readSOCKSHost_length by (fastforce simp: readSOCKSAddress_def andThenR_Inr readFull_Inr)


text \<open>C6: An encoded target reads back, and nothing after it is consumed: the far end gets the same port and
  the same name, or for an IP address the canonical text of the same (unmapped) address. The encoding
  takes at most 259 bytes.\<close>

theorem socks_address_roundtrip:
  assumes "encodeSOCKSAddress t = Inr bs"
  shows "\<exists>t'. readSOCKSAddress (bs @ rest) = Inr (t', rest) \<and> tgtPort t' = tgtPort t \<and> length bs \<le> 259 \<and>
    (t' = t \<or> (\<exists>a. ParseAddr (tgtHost t) = Some a \<and> ParseAddr (tgtHost t') = Some (Unmap a)))"
proof -
  have r: "readSOCKSAddress (bs @ rest) = Inr (canonicalTarget t, rest)" "length bs \<le> 259"
    using address_roundtrip[of "[]" t bs rest] assms by (auto simp: encodeSOCKSAddress_def)
  have "canonicalTarget t = t \<or> (\<exists>a. ParseAddr (tgtHost t) = Some a \<and> ParseAddr (tgtHost (canonicalTarget t)) = Some (Unmap a))"
  proof (cases "targetIP (tgtHost t)")
    case (Some b)
    note v = targetIP_valid[OF Some]
    have "dropZone b = b" using v by (cases b) auto
    then have "ParseAddr (ipString b) = Some b" using ParseAddr_ipString[of b] v by simp
    then show ?thesis using v Some by (auto simp: canonicalTarget_def)
  qed (simp add: canonicalTarget_def)
  moreover have "tgtPort (canonicalTarget t) = tgtPort t" by (simp add: canonicalTarget_def split: option.splits)
  ultimately show ?thesis using r by blast
qed

theorem socks_address_roundtrip_witness:
  "\<exists>t'. readSOCKSAddress ([byte 3, byte 5] @ ''a.com'' @ [byte 1, byte 187] @ ''tail'') = Inr (t', ''tail'') \<and> tgtPort t' = 443"
proof -
  have "encodeSOCKSAddress \<lparr>tgtHost = ''a.com'', tgtPort = 443\<rparr> = Inr ([byte 3, byte 5] @ ''a.com'' @ [byte 1, byte 187])"
    by code_simp
  from socks_address_roundtrip[OF this, of "''tail''"] show ?thesis by auto
qed

lemma appendSOCKSAddress_prefix:
  "appendSOCKSAddress out t = Inr bs \<Longrightarrow> length bs \<le> length out + 259"
  using address_roundtrip[of out t bs "[]"] by auto

text \<open>A datagram that was built is at most 65507 bytes, parses back to exactly the payload and the target,
  and fits into the storage that was sized for it, whose capacity never shrinks and never exceeds 65507, so
  building it never reallocates.\<close>

theorem udp_datagram_roundtrip:
  assumes "encodeSOCKSUDPDatagramInto cap t payload = (Inr p, cap')" and "cap \<le> maxSOCKSUDPDatagramBytes"
  shows "parseSOCKSUDPDatagram p = Inr (payload, canonicalTarget t) \<and> length p \<le> maxSOCKSUDPDatagramBytes \<and>
    length p \<le> cap' \<and> cap \<le> cap' \<and> cap' \<le> maxSOCKSUDPDatagramBytes"
proof -
  let ?z = "[byte 0, byte 0, byte 0]"
  obtain q where q: "appendSOCKSAddress ?z t = Inr q" "p = q @ payload" "length q + length payload \<le> maxSOCKSUDPDatagramBytes"
    using assms(1) by (auto simp: encodeSOCKSUDPDatagramInto_def Let_def split: sum.splits if_splits)
  obtain body where body: "q = ?z @ body" "readSOCKSAddress (body @ payload) = Inr (canonicalTarget t, payload)" "length body \<le> 259"
    using address_roundtrip[OF q(1), of payload] by blast
  have "body \<noteq> []" using body(2) q(1) body(1) by (auto simp: appendSOCKSAddress_def split: if_splits option.splits addr.splits)
  then have "parseSOCKSUDPDatagram p = Inr (payload, canonicalTarget t)"
    using body q(2) by (cases body) (simp_all add: parseSOCKSUDPDatagram_def)
  moreover have "length p \<le> cap' \<and> cap \<le> cap' \<and> cap' \<le> maxSOCKSUDPDatagramBytes"
    using assms q body(1,3)
    by (auto simp: encodeSOCKSUDPDatagramInto_def resizeSOCKSUDPBuffer_def Let_def maxSOCKSUDPDatagramBytes_def
        maxSOCKSUDPEnvelopeBytes_def split: sum.splits if_splits)
  ultimately show ?thesis using q by simp
qed

theorem udp_datagram_roundtrip_witness:
  "parseSOCKSUDPDatagram ([byte 0, byte 0, byte 0, byte 1, byte 10, byte 0, byte 0, byte 7, byte 0, byte 53] @ ''query'') =
     Inr (''query'', \<lparr>tgtHost = ''10.0.0.7'', tgtPort = 53\<rparr>)"
proof -
  have "appendSOCKSAddress [byte 0, byte 0, byte 0] \<lparr>tgtHost = ''10.0.0.7'', tgtPort = 53\<rparr> =
      Inr [byte 0, byte 0, byte 0, byte 1, byte 10, byte 0, byte 0, byte 7, byte 0, byte 53]" by code_simp
  then have "encodeSOCKSUDPDatagramInto 0 \<lparr>tgtHost = ''10.0.0.7'', tgtPort = 53\<rparr> ''query'' =
      (Inr ([byte 0, byte 0, byte 0, byte 1, byte 10, byte 0, byte 0, byte 7, byte 0, byte 53] @ ''query''), 267)"
    by (simp add: encodeSOCKSUDPDatagramInto_def resizeSOCKSUDPBuffer_def maxSOCKSUDPDatagramBytes_def maxSOCKSUDPEnvelopeBytes_def)
  moreover have "canonicalTarget \<lparr>tgtHost = ''10.0.0.7'', tgtPort = 53\<rparr> = \<lparr>tgtHost = ''10.0.0.7'', tgtPort = 53\<rparr>" by code_simp
  ultimately show ?thesis using udp_datagram_roundtrip[of 0 "\<lparr>tgtHost = ''10.0.0.7'', tgtPort = 53\<rparr>" "''query''"] by simp
qed

lemma parseSOCKSUDPDatagram_length:
  "parseSOCKSUDPDatagram p = Inr (payload, t) \<Longrightarrow> length p \<le> length payload + maxSOCKSUDPEnvelopeBytes"
  using readSOCKSAddress_length[of "drop 3 p"]
  by (fastforce simp: parseSOCKSUDPDatagram_def andThenR_Inr maxSOCKSUDPEnvelopeBytes_def split: if_splits)

lemma whole_datagram:
  assumes "length d \<le> maxSOCKSUDPDatagramBytes"
    and "parseSOCKSUDPDatagram (take (fst (resizeSOCKSUDPReadBuffer cap n)) d) = Inr (payload, t)" and "length payload \<le> n"
  shows "take (fst (resizeSOCKSUDPReadBuffer cap n)) d = d"
proof -
  let ?r = "fst (resizeSOCKSUDPReadBuffer cap n)"
  have len: "length (take ?r d) \<le> n + maxSOCKSUDPEnvelopeBytes"
    using parseSOCKSUDPDatagram_length[OF assms(2)] assms(3) by simp
  have "?r = maxSOCKSUDPDatagramBytes \<or> ?r = n + maxSOCKSUDPEnvelopeBytes + 1"
    by (auto simp: resizeSOCKSUDPReadBuffer_def resizeSOCKSUDPBuffer_def Let_def maxSOCKSUDPDatagramBytes_def maxSOCKSUDPEnvelopeBytes_def)
  then show ?thesis using len assms(1) by auto
qed

end
