(* ===== verification/Projection.thy ===== *)
theory Projection
  imports Config_Types Socks_Address
begin

text \<open>
  Which upstream a request may reach: the host questions of config.go, the naive resolution of
  module_request_rewrite.go, and the projection of transport_projection.go that pooled transports
  use, with the fingerprint by which the pool decides whether to retire them.

  SHA-256 is the argument \<open>sha\<close>; the bytes that are hashed are defined on their own so that what
  the fingerprint can and cannot tell apart is a statement about bytes.
\<close>

section \<open>Host questions (config.go)\<close>

definition hostTargetServerPrefix :: string where "hostTargetServerPrefix = ''server:''"

definition resolverForm :: "HostMapping \<Rightarrow> bool" where
  "resolverForm m = has_prefix (to_lower (trim_space (mapTarget m))) hostTargetServerPrefix"

definition activeHostPatterns :: "Config \<Rightarrow> string list" where
  "activeHostPatterns cfg =
     (if \<not> mitmEnabled (cfgMITM cfg) then []
      else (case cfgRuntime cfg of
              Some rt \<Rightarrow> rtActivePatterns rt
            | None \<Rightarrow> uniqueSorted (concat (map modCaptureHosts (filter modEnabled (cfgModules cfg))))))"

definition activeInterceptHost :: "Config \<Rightarrow> string \<Rightarrow> bool" where
  "activeInterceptHost cfg value =
     (if \<not> mitmEnabled (cfgMITM cfg) then False
      else (case cfgRuntime cfg of
              Some rt \<Rightarrow> Match (rtActiveHosts rt) value
            | None \<Rightarrow> (let host = canonicalHost value
                       in list_ex (\<lambda>p. matchHostPattern p host) (activeHostPatterns cfg))))"

definition hasActiveExtensions :: "Config \<Rightarrow> bool" where
  "hasActiveExtensions cfg =
     (if \<not> mitmEnabled (cfgMITM cfg) then False
      else (case cfgRuntime cfg of
              Some rt \<Rightarrow> length (rtActivePatterns rt) > 0
            | None \<Rightarrow> length (activeHostPatterns cfg) > 0))"

definition moduleOwnsHost :: "Module \<Rightarrow> string \<Rightarrow> bool" where
  "moduleOwnsHost m host =
     (let host = canonicalHost host in list_ex (\<lambda>p. matchHostPattern p host) (modCaptureHosts m))"

definition moduleHostsLookup :: "Config \<Rightarrow> string \<Rightarrow> compiledHostMatcher option" where
  "moduleHostsLookup cfg i = (case cfgRuntime cfg of None \<Rightarrow> None | Some rt \<Rightarrow> map_of (rtModuleHosts rt) i)"

definition moduleCapturesHost :: "Config \<Rightarrow> Module \<Rightarrow> string \<Rightarrow> bool" where
  "moduleCapturesHost cfg m host =
     (case moduleHostsLookup cfg (modID m) of
        Some matcher \<Rightarrow> Match (Some matcher) host
      | None \<Rightarrow> moduleOwnsHost m host)"

text \<open>One mapping of the scan for the most specific one: the best pattern so far and its target.\<close>

definition considerMapping :: "string \<Rightarrow> HostMapping \<Rightarrow> string \<times> string \<Rightarrow> string \<times> string" where
  "considerMapping host mapping best =
     (if \<not> matchHostPattern (mapPattern mapping) host then best
      else if mapPattern mapping = host \<or> length (mapPattern mapping) > length (fst best)
      then (mapPattern mapping, mapTarget mapping) else best)"

definition mappedModule :: "Config \<Rightarrow> string \<Rightarrow> Module \<Rightarrow> string \<times> string \<Rightarrow> string \<times> string" where
  "mappedModule cfg host m best =
     (if \<not> modEnabled m then best
      else
        (let owns = (case cfgRuntime cfg of
                       None \<Rightarrow> moduleOwnsHost m host
                     | Some rt \<Rightarrow> Match (map_of (rtModuleHosts rt) (modID m)) host)
         in if \<not> owns then best
            else fold (\<lambda>mp best. if resolverForm mp then best else considerMapping host mp best) (modHostMappings m) best))"

definition mappedInterceptTarget :: "Config \<Rightarrow> string \<Rightarrow> string" where
  "mappedInterceptTarget cfg host =
     (let host = canonicalHost host in snd (fold (mappedModule cfg host) (cfgModules cfg) ([], host)))"

definition certificateHostPatterns :: "Config \<Rightarrow> string list" where
  "certificateHostPatterns cfg = uniqueSorted (concat (map modCaptureHosts (filter modEnabled (cfgModules cfg))))"

definition allowedInboundSOCKSTarget :: "Config \<Rightarrow> socksTarget \<Rightarrow> bool" where
  "allowedInboundSOCKSTarget cfg t =
     (if \<not> mitmEnabled (cfgMITM cfg) \<or> (tgtPort t \<noteq> 80 \<and> tgtPort t \<noteq> 443) then False
      else activeInterceptHost cfg (tgtHost t) \<or> ParseIP (tgtHost t) \<noteq> None)"

definition activeModuleUpstreamTarget :: "Config \<Rightarrow> string \<Rightarrow> string \<Rightarrow> socksTarget option" where
  "activeModuleUpstreamTarget cfg rawHost portText =
     (if \<not> mitmEnabled (cfgMITM cfg) then None
      else
        (let host = canonicalHost rawHost
         in case atoi portText of
              None \<Rightarrow> None
            | Some port \<Rightarrow>
                (if port < 1 \<or> port > 65535 then None
                 else if (port = 80 \<or> port = 443) \<and> activeInterceptHost cfg host
                 then Some \<lparr>tgtHost = mappedInterceptTarget cfg host, tgtPort = port\<rparr>
                 else if list_ex (\<lambda>m. modEnabled m \<and> modNetwork m) (cfgModules cfg)
                 then Some \<lparr>tgtHost = host, tgtPort = port\<rparr>
                 else None)))"

section \<open>The projection (transport_projection.go)\<close>

record upstreamModuleProjection =
  umHosts :: compiledHostMatcher
  umMappings :: "HostMapping list"

record upstreamTargetProjection =
  utEnabled :: bool
  utActiveHosts :: "compiledHostMatcher option"
  utModules :: "upstreamModuleProjection list"
  utNetworkGrant :: bool

record upstreamTransportProjection =
  upGeneration :: "64 word"
  upProxy :: ProxyConfig
  upHTTP2 :: bool
  upTargets :: upstreamTargetProjection
  upFingerprint :: string

record inboundUDPAuthorization =
  udpEnabled :: bool
  udpActiveHosts :: "compiledHostMatcher option"

definition projectedActiveHostMatcher :: "Config \<Rightarrow> compiledHostMatcher option" where
  "projectedActiveHostMatcher cfg =
     (case cfgRuntime cfg of
        Some rt \<Rightarrow> (case rtActiveHosts rt of
                      Some m \<Rightarrow> Some m
                    | None \<Rightarrow> Some (newCompiledHostMatcher (activeHostPatterns cfg)))
      | None \<Rightarrow> Some (newCompiledHostMatcher (activeHostPatterns cfg)))"

definition projectedModuleHostMatcher :: "Config \<Rightarrow> Module \<Rightarrow> compiledHostMatcher" where
  "projectedModuleHostMatcher cfg m =
     (case moduleHostsLookup cfg (modID m) of
        Some matcher \<Rightarrow> matcher
      | None \<Rightarrow> newCompiledHostMatcher (modCaptureHosts m))"

definition dialledMappings :: "Module \<Rightarrow> HostMapping list" where
  "dialledMappings m = filter (\<lambda>mp. \<not> resolverForm mp) (modHostMappings m)"

definition projectTargets :: "Config \<Rightarrow> upstreamTargetProjection" where
  "projectTargets cfg =
     (let ms = filter modEnabled (cfgModules cfg)
      in \<lparr>utEnabled = mitmEnabled (cfgMITM cfg),
          utActiveHosts = projectedActiveHostMatcher cfg,
          utModules = map (\<lambda>m. \<lparr>umHosts = projectedModuleHostMatcher cfg m, umMappings = dialledMappings m\<rparr>) ms,
          utNetworkGrant = list_ex modNetwork ms\<rparr>)"

primrec bigEndian :: "nat \<Rightarrow> nat \<Rightarrow> string" where
  "bigEndian 0 n = []"
| "bigEndian (Suc k) n = bigEndian k (n div 256) @ [byte (n mod 256)]"

definition writeFingerprintField :: "string \<Rightarrow> string" where
  "writeFingerprintField value = bigEndian 8 (length value) @ value"

definition writeFingerprintBool :: "bool \<Rightarrow> string" where
  "writeFingerprintBool value = [byte (if value then 1 else 0)]"

definition fingerprintModule :: "Module \<Rightarrow> string" where
  "fingerprintModule m =
     writeFingerprintField (modID m)
     @ concat (map writeFingerprintField (modCaptureHosts m))
     @ concat (map (\<lambda>mp. writeFingerprintField (mapPattern mp) @ writeFingerprintField (mapTarget mp)) (dialledMappings m))
     @ writeFingerprintBool (modNetwork m)"

definition fingerprintBytes :: "Config \<Rightarrow> string" where
  "fingerprintBytes cfg =
     (let ms = filter modEnabled (cfgModules cfg)
      in writeFingerprintField (proxyAddress (cfgUpstreamProxy cfg))
         @ writeFingerprintField (proxyUsername (cfgUpstreamProxy cfg))
         @ writeFingerprintField (proxyPassword (cfgUpstreamProxy cfg))
         @ writeFingerprintBool (mitmHTTP2 (cfgMITM cfg))
         @ writeFingerprintBool (mitmEnabled (cfgMITM cfg))
         @ concat (map fingerprintModule ms)
         @ writeFingerprintBool (list_ex modNetwork ms))"

definition newUpstreamTransportProjection :: "(string \<Rightarrow> string) \<Rightarrow> Config \<Rightarrow> upstreamTransportProjection" where
  "newUpstreamTransportProjection sha cfg =
     \<lparr>upGeneration = cfgGeneration cfg, upProxy = cfgUpstreamProxy cfg, upHTTP2 = mitmHTTP2 (cfgMITM cfg),
      upTargets = projectTargets cfg, upFingerprint = sha (fingerprintBytes cfg)\<rparr>"

definition newInboundUDPAuthorization :: "Config \<Rightarrow> inboundUDPAuthorization" where
  "newInboundUDPAuthorization cfg =
     \<lparr>udpEnabled = mitmEnabled (cfgMITM cfg), udpActiveHosts = projectedActiveHostMatcher cfg\<rparr>"

definition projectedModule :: "string \<Rightarrow> upstreamModuleProjection \<Rightarrow> string \<times> string \<Rightarrow> string \<times> string" where
  "projectedModule host m best =
     (if \<not> Match (Some (umHosts m)) host then best
      else fold (considerMapping host) (umMappings m) best)"

definition upstreamTarget :: "upstreamTargetProjection \<Rightarrow> string \<Rightarrow> string \<Rightarrow> socksTarget option" where
  "upstreamTarget p rawHost portText =
     (if \<not> utEnabled p then None
      else
        (let host = canonicalHost rawHost
         in case atoi portText of
              None \<Rightarrow> None
            | Some port \<Rightarrow>
                (if port < 1 \<or> port > 65535 then None
                 else if (port = 80 \<or> port = 443) \<and> Match (utActiveHosts p) host
                 then Some \<lparr>tgtHost = snd (fold (projectedModule host) (utModules p) ([], host)), tgtPort = port\<rparr>
                 else if \<not> utNetworkGrant p then None
                 else Some \<lparr>tgtHost = host, tgtPort = port\<rparr>)))"

definition allows :: "inboundUDPAuthorization \<Rightarrow> socksTarget \<Rightarrow> bool" where
  "allows a t =
     (if \<not> udpEnabled a \<or> tgtPort t \<noteq> 443 then False
      else if Match (udpActiveHosts a) (tgtHost t) then True
      else (case ParseAddr (tgtHost t) of None \<Rightarrow> False | Some ip \<Rightarrow> addrZone ip = []))"

end
