(* ===== verification/Projection_Properties.thy ===== *)
theory Projection_Properties
  imports Projection
begin

text \<open>
  What the upstream projection guarantees: a target is authorised by a capture host or the network
  grant, the most specific mapping wins, the projection agrees with the naive resolution, and what
  the transport fingerprint distinguishes.
\<close>

section \<open>The most specific mapping\<close>

lemma match_length: "matchHostPattern p h \<Longrightarrow> length p \<le> length h"
proof (cases "has_prefix p ''*.''")
  case True
  then obtain s where "p = ''*.'' @ s" by (auto simp: has_prefix_iff)
  then show "matchHostPattern p h \<Longrightarrow> length p \<le> length h" by (simp only: wildcard_pattern_iff) simp
qed (simp add: matchHostPattern_def)

definition applies :: "string \<Rightarrow> HostMapping \<Rightarrow> bool" where
  "applies host mp \<longleftrightarrow> matchHostPattern (mapPattern mp) host"

definition mostSpecific :: "string \<Rightarrow> HostMapping list \<Rightarrow> string \<times> string \<Rightarrow> bool" where
  "mostSpecific host cs best \<longleftrightarrow>
     (\<forall>mp\<in>set cs. applies host mp \<longrightarrow> length (mapPattern mp) \<le> length (fst best)) \<and>
     (best = ([], host) \<and> (\<forall>mp\<in>set cs. \<not> applies host mp) \<or>
      (\<exists>mp\<in>set cs. applies host mp \<and> best = (mapPattern mp, mapTarget mp)))"

lemma mostSpecific_snoc:
  assumes "mostSpecific host cs best"
  shows "mostSpecific host (cs @ [mp]) (considerMapping host mp best)"
proof (cases "applies host mp")
  case False
  then show ?thesis using assms by (auto simp: mostSpecific_def considerMapping_def applies_def)
next
  case True
  show ?thesis
  proof (cases "mapPattern mp = host \<or> length (mapPattern mp) > length (fst best)")
    case new: True
    have "length (mapPattern mp') \<le> length (mapPattern mp)" if "mp' \<in> set cs" "applies host mp'" for mp'
      using new that assms match_length[of "mapPattern mp'" host]
      by (auto simp: mostSpecific_def applies_def)
    then show ?thesis using True new by (auto simp: mostSpecific_def considerMapping_def applies_def)
  next
    case old: False
    have "best \<noteq> ([], host) \<or> \<not> (\<forall>mp\<in>set cs. \<not> applies host mp)"
      using old True by (cases "mapPattern mp") (auto simp: applies_def matchHostPattern_def has_prefix_iff)
    then show ?thesis using old True assms
      by (auto simp: mostSpecific_def considerMapping_def applies_def)
  qed
qed

lemma mostSpecific_fold: "mostSpecific host cs (fold (considerMapping host) cs ([], host))"
proof (induction cs rule: rev_induct)
  case Nil
  then show ?case by (simp add: mostSpecific_def)
next
  case (snoc mp cs)
  then show ?case using mostSpecific_snoc[of host cs _ mp] by simp
qed

section \<open>Both resolutions scan the same mappings\<close>

lemma fold_projectedModule:
  "fold (projectedModule host) ms best =
     fold (considerMapping host) (concat (map umMappings (filter (\<lambda>m. Match (Some (umHosts m)) host) ms))) best"
  by (induction ms arbitrary: best) (auto simp: projectedModule_def)

lemma fold_dialled:
  "fold (\<lambda>mp best. if resolverForm mp then best else considerMapping host mp best) mps best =
     fold (considerMapping host) (filter (\<lambda>mp. \<not> resolverForm mp) mps) best"
  by (induction mps arbitrary: best) auto

definition ownsHost :: "Config \<Rightarrow> string \<Rightarrow> Module \<Rightarrow> bool" where
  "ownsHost cfg host m \<longleftrightarrow>
     (case cfgRuntime cfg of None \<Rightarrow> moduleOwnsHost m host | Some rt \<Rightarrow> Match (map_of (rtModuleHosts rt) (modID m)) host)"

lemma fold_mappedModule:
  "fold (mappedModule cfg host) ms best =
     fold (considerMapping host) (concat (map dialledMappings (filter (\<lambda>m. modEnabled m \<and> ownsHost cfg host m) ms))) best"
  by (induction ms arbitrary: best) (auto simp: mappedModule_def fold_dialled dialledMappings_def ownsHost_def Let_def split: option.splits)

text \<open>The compiled state a configuration carries was compiled from its own modules.\<close>

definition runtimeFits :: "Config \<Rightarrow> bool" where
  "runtimeFits cfg \<longleftrightarrow>
     (case cfgRuntime cfg of
        None \<Rightarrow> True
      | Some rt \<Rightarrow>
          rtActivePatterns rt = (if mitmEnabled (cfgMITM cfg)
            then uniqueSorted (concat (map modCaptureHosts (filter modEnabled (cfgModules cfg)))) else []) \<and>
          rtActiveHosts rt = Some (newCompiledHostMatcher (rtActivePatterns rt)) \<and>
          list_all (\<lambda>m. modEnabled m \<longrightarrow> map_of (rtModuleHosts rt) (modID m) = Some (newCompiledHostMatcher (modCaptureHosts m)))
            (cfgModules cfg))"

lemma projectedModule_matches:
  assumes "runtimeFits cfg" and "m \<in> set (cfgModules cfg)" and "modEnabled m"
  shows "projectedModuleHostMatcher cfg m = newCompiledHostMatcher (modCaptureHosts m)"
  using assms by (auto simp: projectedModuleHostMatcher_def moduleHostsLookup_def runtimeFits_def list_all_iff split: option.splits)

lemma ownsHost_matches:
  assumes "runtimeFits cfg" and "m \<in> set (cfgModules cfg)" and "modEnabled m"
  shows "ownsHost cfg host m = Match (Some (newCompiledHostMatcher (modCaptureHosts m))) host"
  using assms
  by (auto simp: ownsHost_def runtimeFits_def list_all_iff moduleOwnsHost_def Match_compiled list_ex_iff Let_def split: option.splits)

lemma activePatterns_fit:
  assumes "runtimeFits cfg" and "mitmEnabled (cfgMITM cfg)"
  shows "activeHostPatterns cfg = uniqueSorted (concat (map modCaptureHosts (filter modEnabled (cfgModules cfg))))"
  using assms by (auto simp: activeHostPatterns_def runtimeFits_def split: option.splits)

lemma activeMatch_fit:
  assumes "runtimeFits cfg" and "mitmEnabled (cfgMITM cfg)"
  shows "projectedActiveHostMatcher cfg = Some (newCompiledHostMatcher (activeHostPatterns cfg))"
    and "activeInterceptHost cfg host = Match (Some (newCompiledHostMatcher (activeHostPatterns cfg))) host"
  using assms
  by (auto simp: projectedActiveHostMatcher_def activeInterceptHost_def runtimeFits_def activeHostPatterns_def Match_compiled
      list_ex_iff Let_def split: option.splits)

lemma projected_scan:
  assumes "runtimeFits cfg"
  shows "concat (map umMappings (filter (\<lambda>m. Match (Some (umHosts m)) host) (utModules (projectTargets cfg)))) =
    concat (map dialledMappings (filter (\<lambda>m. modEnabled m \<and> ownsHost cfg host m) (cfgModules cfg)))"
proof -
  have "concat (map umMappings (filter (\<lambda>m. Match (Some (umHosts m)) host)
      (map (\<lambda>m. \<lparr>umHosts = projectedModuleHostMatcher cfg m, umMappings = dialledMappings m\<rparr>) (filter modEnabled ms)))) =
    concat (map dialledMappings (filter (\<lambda>m. modEnabled m \<and> ownsHost cfg host m) ms))"
    if "set ms \<subseteq> set (cfgModules cfg)" for ms
    using that by (induction ms) (auto simp: projectedModule_matches[OF assms] ownsHost_matches[OF assms])
  then show ?thesis by (simp add: projectTargets_def Let_def)
qed



definition exModule :: "string \<Rightarrow> string list \<Rightarrow> HostMapping list \<Rightarrow> Module" where
  "exModule i hosts mappings =
     \<lparr>modID = i, modVersion = ''1'', modName = i, modDescription = [], modEnabled = True, modImportedAt = [],
      modSource = \<lparr>srcURL = [], srcDigest = [], srcBody = []\<rparr>, modCaptureHosts = hosts, modCaptureDNS = [],
      modHostMappings = mappings, modRoutingRules = [], modSettings = [], modScripts = [],
      modPersistentStorage = False, modNetwork = False, modEgressGroupRequired = False, modEgressGroup = []\<rparr>"

definition exConfig :: "Module list \<Rightarrow> Config" where
  "exConfig ms = zeroConfig\<lparr>cfgMITM := \<lparr>mitmEnabled = True, mitmHTTP2 = True, mitmQUICFallbackProtection = False\<rparr>, cfgModules := ms\<rparr>"

definition exMapped :: Config where
  "exMapped = exConfig [exModule ''m'' [''*.example.com''] [\<lparr>mapPattern = ''a.example.com'', mapTarget = ''b.example.com''\<rparr>]]"

definition exUnmapped :: Config where
  "exUnmapped = exConfig [exModule ''m'' [''*.example.com'', ''a.example.com'', ''b.example.com''] []]"


text \<open>Without a stable canonical form the two disagree: a host with two trailing dots keeps one after
  canonicalisation, still counts as captured, and is then dialled as it is by the projection while the
  naive walk applies the mapping.\<close>

theorem projection_differs_on_dotted_host:
  "upstreamTarget (projectTargets exMapped) ''a.example.com..'' ''443'' = Some \<lparr>tgtHost = ''a.example.com.'', tgtPort = 443\<rparr> \<and>
   activeModuleUpstreamTarget exMapped ''a.example.com..'' ''443'' = Some \<lparr>tgtHost = ''b.example.com'', tgtPort = 443\<rparr>"
  by code_simp

text \<open>A pooled transport only reaches what the configuration authorises. Interception is on, the port is a
  valid one, and either the host is captured by an active pattern on port 80 or 443 or an enabled extension
  holds the network grant. The dialled name is the host itself or the target of the most specific matching
  mapping of an enabled extension, and never one that names resolvers.\<close>

theorem upstream_target_authorised:
  assumes "runtimeFits cfg" and "upstreamTarget (projectTargets cfg) raw port = Some t"
  shows "mitmEnabled (cfgMITM cfg) \<and> 1 \<le> tgtPort t \<and> tgtPort t \<le> 65535 \<and>
    ((tgtPort t = 80 \<or> tgtPort t = 443) \<and> activeInterceptHost cfg (canonicalHost raw) \<or>
     (\<exists>m\<in>set (cfgModules cfg). modEnabled m \<and> modNetwork m)) \<and>
    (tgtHost t = canonicalHost raw \<or>
     (\<exists>m\<in>set (cfgModules cfg). \<exists>mp\<in>set (modHostMappings m). modEnabled m \<and> \<not> resolverForm mp \<and>
        applies (canonicalHost raw) mp \<and> tgtHost t = mapTarget mp \<and>
        (\<forall>mp'\<in>set (modHostMappings m). applies (canonicalHost raw) mp' \<and> \<not> resolverForm mp' \<longrightarrow>
           length (mapPattern mp') \<le> length (mapPattern mp))))"
proof -
  let ?h = "canonicalHost raw"
  have on: "mitmEnabled (cfgMITM cfg)" using assms(2)
    by (cases "mitmEnabled (cfgMITM cfg)") (simp_all add: upstreamTarget_def projectTargets_def Let_def)
  let ?cs = "concat (map dialledMappings (filter (\<lambda>m. modEnabled m \<and> ownsHost cfg ?h m) (cfgModules cfg)))"
  have scan: "snd (fold (projectedModule ?h) (utModules (projectTargets cfg)) ([], ?h)) = snd (fold (considerMapping ?h) ?cs ([], ?h))"
    by (simp add: fold_projectedModule projected_scan[OF assms(1)])
  have spec: "mostSpecific ?h ?cs (fold (considerMapping ?h) ?cs ([], ?h))" by (rule mostSpecific_fold)
  have port: "1 \<le> tgtPort t \<and> tgtPort t \<le> 65535"
    using assms(2) by (auto simp: upstreamTarget_def Let_def split: if_splits option.splits)
  have host: "tgtHost t = ?h \<or> tgtHost t = snd (fold (considerMapping ?h) ?cs ([], ?h))"
    using assms(2) scan by (auto simp: upstreamTarget_def Let_def split: if_splits option.splits)
  have auth: "(tgtPort t = 80 \<or> tgtPort t = 443) \<and> Match (utActiveHosts (projectTargets cfg)) ?h \<or> utNetworkGrant (projectTargets cfg)"
    using assms(2) by (auto simp: upstreamTarget_def Let_def split: if_splits option.splits)
  have act: "Match (utActiveHosts (projectTargets cfg)) ?h = activeInterceptHost cfg ?h"
    using activeMatch_fit[OF assms(1) on] by (simp add: projectTargets_def Let_def)
  have grant: "utNetworkGrant (projectTargets cfg) \<longleftrightarrow> (\<exists>m\<in>set (cfgModules cfg). modEnabled m \<and> modNetwork m)"
    by (auto simp: projectTargets_def Let_def list_ex_iff)
  have "tgtHost t = ?h \<or> (\<exists>m\<in>set (cfgModules cfg). \<exists>mp\<in>set (modHostMappings m). modEnabled m \<and> \<not> resolverForm mp \<and>
      applies ?h mp \<and> tgtHost t = mapTarget mp \<and>
      (\<forall>mp'\<in>set (modHostMappings m). applies ?h mp' \<and> \<not> resolverForm mp' \<longrightarrow> length (mapPattern mp') \<le> length (mapPattern mp)))"
  proof (cases "tgtHost t = ?h")
    case False
    then have best: "tgtHost t = snd (fold (considerMapping ?h) ?cs ([], ?h))" using host by blast
    with False spec obtain mp where mp: "mp \<in> set ?cs" "applies ?h mp" "fold (considerMapping ?h) ?cs ([], ?h) = (mapPattern mp, mapTarget mp)"
      by (auto simp: mostSpecific_def)
    from mp(1) obtain m where m: "m \<in> set (cfgModules cfg)" "modEnabled m" "ownsHost cfg ?h m" "mp \<in> set (dialledMappings m)" by auto
    have "length (mapPattern mp') \<le> length (mapPattern mp)"
      if "mp' \<in> set (modHostMappings m)" "applies ?h mp'" "\<not> resolverForm mp'" for mp'
    proof -
      have "mp' \<in> set ?cs" using m that by (auto simp: dialledMappings_def)
      then show ?thesis using spec that(2) mp(3) by (auto simp: mostSpecific_def)
    qed
    then show ?thesis using m mp best by (fastforce simp: dialledMappings_def)
  qed blast
  then show ?thesis using on port auth act grant by blast
qed

theorem upstream_target_authorised_witness:
  "mitmEnabled (cfgMITM exMapped) \<and> activeInterceptHost exMapped (canonicalHost ''a.example.com'') "
proof -
  have "upstreamTarget (projectTargets exMapped) ''a.example.com'' ''443'' = Some \<lparr>tgtHost = ''b.example.com'', tgtPort = 443\<rparr>" by code_simp
  moreover have "runtimeFits exMapped" by (simp add: runtimeFits_def exMapped_def exConfig_def zeroConfig_def)
  moreover have "\<not> (\<exists>m\<in>set (cfgModules exMapped). modEnabled m \<and> modNetwork m)"
    by (simp add: exMapped_def exConfig_def exModule_def)
  ultimately show ?thesis using upstream_target_authorised[of exMapped "''a.example.com''" "''443''"] by auto
qed

section \<open>The fingerprint\<close>

text \<open>The fingerprint does not separate capture hosts from mappings: removing a mapping and listing its
  pattern and its target as capture hosts leaves the hashed bytes unchanged, although the host is now dialled
  differently. A pool that compares fingerprints keeps the transports of the old mapping.\<close>

theorem fingerprint_collision:
  "fingerprintBytes exMapped = fingerprintBytes exUnmapped \<and>
   upstreamTarget (projectTargets exMapped) ''a.example.com'' ''443'' = Some \<lparr>tgtHost = ''b.example.com'', tgtPort = 443\<rparr> \<and>
   upstreamTarget (projectTargets exUnmapped) ''a.example.com'' ''443'' = Some \<lparr>tgtHost = ''a.example.com'', tgtPort = 443\<rparr>"
proof -
  have "\<not> resolverForm \<lparr>mapPattern = ''a.example.com'', mapTarget = ''b.example.com''\<rparr>" by code_simp
  then have "fingerprintBytes exMapped = fingerprintBytes exUnmapped"
    by (simp add: fingerprintBytes_def fingerprintModule_def dialledMappings_def exMapped_def exUnmapped_def exConfig_def
        exModule_def zeroConfig_def)
  moreover have "upstreamTarget (projectTargets exMapped) ''a.example.com'' ''443'' = Some \<lparr>tgtHost = ''b.example.com'', tgtPort = 443\<rparr>"
    by code_simp
  moreover have "upstreamTarget (projectTargets exUnmapped) ''a.example.com'' ''443'' = Some \<lparr>tgtHost = ''a.example.com'', tgtPort = 443\<rparr>"
    by code_simp
  ultimately show ?thesis by blast
qed


lemma length_bigEndian [simp]: "length (bigEndian k n) = k"
  by (induction k arbitrary: n) auto

lemma bigEndian_inject: "m < 256 ^ k \<Longrightarrow> n < 256 ^ k \<Longrightarrow> bigEndian k m = bigEndian k n \<Longrightarrow> m = n"
proof (induction k arbitrary: m n)
  case (Suc k)
  have "m div 256 < 256 ^ k" "n div 256 < 256 ^ k" using Suc.prems(1,2) by (auto simp: less_mult_imp_div_less mult.commute)
  moreover from Suc.prems(3) have "bigEndian k (m div 256) = bigEndian k (n div 256)" "byte (m mod 256) = byte (n mod 256)" by auto
  ultimately have "m div 256 = n div 256" "code (byte (m mod 256)) = code (byte (n mod 256))" using Suc.IH by auto
  then show ?case by (simp del: byte_code) (metis div_mult_mod_eq)
qed simp

text \<open>Lengths fit the eight bytes they are written in.\<close>

definition shortString :: "string \<Rightarrow> bool" where
  "shortString v \<longleftrightarrow> length v < 256 ^ 8"

lemma field_inject:
  assumes "writeFingerprintField a @ x = writeFingerprintField b @ y" and "shortString a" and "shortString b"
  shows "a = b \<and> x = y"
proof -
  have "bigEndian 8 (length a) = bigEndian 8 (length b) \<and> a @ x = b @ y"
    using assms(1) by (simp add: writeFingerprintField_def append_eq_append_conv)
  moreover then have "length a = length b"
    using bigEndian_inject[of "length a" 8 "length b"] assms(2,3) unfolding shortString_def by blast
  ultimately show ?thesis by simp
qed

lemma bool_inject: "writeFingerprintBool a @ x = writeFingerprintBool b @ y \<Longrightarrow> a = b \<and> x = y"
proof -
  assume a: "writeFingerprintBool a @ x = writeFingerprintBool b @ y"
  have "byte 0 \<noteq> byte 1" using code_byte[of 0] code_byte[of 1] by fastforce
  with a show ?thesis by (cases a; cases b) (auto simp: writeFingerprintBool_def)
qed

lemma fields_inject:
  "concat (map writeFingerprintField as) @ x = concat (map writeFingerprintField bs) @ y \<Longrightarrow> length as = length bs \<Longrightarrow>
     list_all shortString as \<Longrightarrow> list_all shortString bs \<Longrightarrow> as = bs \<and> x = y"
proof (induction as arbitrary: bs)
  case (Cons a as)
  then obtain b bs' where bs: "bs = b # bs'" by (cases bs) auto
  have "a = b \<and> concat (map writeFingerprintField as) @ x = concat (map writeFingerprintField bs') @ y"
    using Cons.prems bs by (intro field_inject) auto
  then show ?case using Cons.IH[of bs'] Cons.prems bs by simp
qed simp

definition mappingFields :: "HostMapping list \<Rightarrow> string list" where
  "mappingFields mps = concat (map (\<lambda>mp. [mapPattern mp, mapTarget mp]) mps)"

lemma mappingFields_inject: "mappingFields as = mappingFields bs \<Longrightarrow> as = bs"
proof (induction as arbitrary: bs)
  case Nil
  then show ?case by (cases bs) (auto simp: mappingFields_def)
next
  case (Cons a as)
  then obtain b bs' where bs: "bs = b # bs'" by (cases bs) (auto simp: mappingFields_def)
  with Cons.prems have "mapPattern a = mapPattern b" "mapTarget a = mapTarget b" "mappingFields as = mappingFields bs'"
    by (auto simp: mappingFields_def)
  then show ?case using Cons.IH bs by (auto intro: HostMapping.equality)
qed

lemma fingerprintModule_fields:
  "fingerprintModule m = concat (map writeFingerprintField (modID m # modCaptureHosts m @ mappingFields (dialledMappings m)))
     @ writeFingerprintBool (modNetwork m)"
proof -
  have "concat (map (\<lambda>mp. writeFingerprintField (mapPattern mp) @ writeFingerprintField (mapTarget mp)) mps) =
      concat (map writeFingerprintField (mappingFields mps))" for mps
    by (induction mps) (auto simp: mappingFields_def)
  then show ?thesis by (simp add: fingerprintModule_def)
qed

text \<open>Two configurations of the same shape: their enabled modules pair up with equally many hosts and mappings.\<close>

definition sameShape :: "Module \<Rightarrow> Module \<Rightarrow> bool" where
  "sameShape m m' \<longleftrightarrow> length (modCaptureHosts m) = length (modCaptureHosts m') \<and>
     length (dialledMappings m) = length (dialledMappings m')"

definition moduleFields :: "Module \<Rightarrow> string list" where
  "moduleFields m = modID m # modCaptureHosts m @ mappingFields (dialledMappings m)"

definition enabledModules :: "Config \<Rightarrow> Module list" where
  "enabledModules cfg = filter modEnabled (cfgModules cfg)"

definition shortFields :: "Config \<Rightarrow> bool" where
  "shortFields cfg \<longleftrightarrow> list_all shortString [proxyAddress (cfgUpstreamProxy cfg), proxyUsername (cfgUpstreamProxy cfg),
       proxyPassword (cfgUpstreamProxy cfg)] \<and>
     list_all (\<lambda>m. list_all shortString (moduleFields m)) (enabledModules cfg)"

lemma length_mappingFields: "length (mappingFields mps) = 2 * length mps"
  by (induction mps) (auto simp: mappingFields_def)

lemma modules_inject:
  "concat (map fingerprintModule ms) @ x = concat (map fingerprintModule ms') @ y \<Longrightarrow> list_all2 sameShape ms ms' \<Longrightarrow>
     list_all (\<lambda>m. list_all shortString (moduleFields m)) ms \<Longrightarrow> list_all (\<lambda>m. list_all shortString (moduleFields m)) ms' \<Longrightarrow>
     map (\<lambda>m. (modID m, modCaptureHosts m, dialledMappings m, modNetwork m)) ms =
       map (\<lambda>m. (modID m, modCaptureHosts m, dialledMappings m, modNetwork m)) ms' \<and> x = y"
proof (induction ms arbitrary: ms')
  case (Cons m ms)
  then obtain n ns where ms': "ms' = n # ns" and shape: "sameShape m n" "list_all2 sameShape ms ns"
    by (cases ms') auto
  let ?r = "concat (map fingerprintModule ms) @ x" and ?s = "concat (map fingerprintModule ns) @ y"
  have "moduleFields m = moduleFields n \<and> writeFingerprintBool (modNetwork m) @ ?r = writeFingerprintBool (modNetwork n) @ ?s"
  proof (rule fields_inject)
    show "concat (map writeFingerprintField (moduleFields m)) @ writeFingerprintBool (modNetwork m) @ ?r =
        concat (map writeFingerprintField (moduleFields n)) @ writeFingerprintBool (modNetwork n) @ ?s"
      using Cons.prems(1) ms' by (simp add: fingerprintModule_fields[of m] fingerprintModule_fields[of n] moduleFields_def)
    show "length (moduleFields m) = length (moduleFields n)"
      using shape(1) by (simp add: moduleFields_def sameShape_def length_mappingFields)
  qed (use Cons.prems(3,4) ms' in simp_all)
  then have "moduleFields m = moduleFields n" "modNetwork m = modNetwork n" "?r = ?s" using bool_inject by blast+
  moreover from this(1) have "modID m = modID n" "modCaptureHosts m = modCaptureHosts n" "dialledMappings m = dialledMappings n"
    using shape(1) mappingFields_inject by (auto simp: moduleFields_def sameShape_def)
  ultimately show ?case using Cons.IH[of ns] Cons.prems ms' shape(2) by simp
qed simp

lemma projectTargets_determined:
  assumes "runtimeFits c" "runtimeFits c'" "mitmEnabled (cfgMITM c) = mitmEnabled (cfgMITM c')"
    and eq: "map (\<lambda>m. (modID m, modCaptureHosts m, dialledMappings m, modNetwork m)) (enabledModules c) =
      map (\<lambda>m. (modID m, modCaptureHosts m, dialledMappings m, modNetwork m)) (enabledModules c')"
    and on: "mitmEnabled (cfgMITM c)"
  shows "projectTargets c = projectTargets c'"
proof -
  let ?f = "\<lambda>m. (modID m, modCaptureHosts m, dialledMappings m, modNetwork m)"
  have hosts: "map modCaptureHosts (enabledModules c) = map modCaptureHosts (enabledModules c')"
    "map modNetwork (enabledModules c) = map modNetwork (enabledModules c')"
    using arg_cong[OF eq, of "map (fst \<circ> snd)"] arg_cong[OF eq, of "map (snd \<circ> snd \<circ> snd)"] by (simp_all add: o_def)
  have proj: "map (\<lambda>m. \<lparr>umHosts = projectedModuleHostMatcher d m, umMappings = dialledMappings m\<rparr>) (enabledModules d) =
      map (\<lambda>(i, hs, mps, n). \<lparr>umHosts = newCompiledHostMatcher hs, umMappings = mps\<rparr>) (map ?f (enabledModules d))"
    if "runtimeFits d" for d
    using projectedModule_matches[OF that] by (simp add: enabledModules_def)
  have pats: "activeHostPatterns c = activeHostPatterns c'"
    using activePatterns_fit[OF assms(1)] activePatterns_fit[OF assms(2)] assms(3) on hosts by (simp add: enabledModules_def)
  then have act: "projectedActiveHostMatcher c = projectedActiveHostMatcher c'"
    using activeMatch_fit(1)[OF assms(1)] activeMatch_fit(1)[OF assms(2)] assms(3) on by simp
  have "list_ex modNetwork (enabledModules d) = list_ex id (map modNetwork (enabledModules d))" for d
    by (simp add: list_ex_iff)
  then have "list_ex modNetwork (enabledModules c) = list_ex modNetwork (enabledModules c')" using hosts(2) by metis
  then show ?thesis using proj[OF assms(1)] proj[OF assms(2)] act assms(3) eq
    by (simp add: projectTargets_def Let_def enabledModules_def[symmetric])
qed

text \<open>Between configurations whose enabled extensions have equally many capture hosts and mappings the
  fingerprint is faithful: equal hashed bytes mean the same proxy, the same protocol choice and the same
  authorised targets, so keeping the pooled transports is sound.\<close>

theorem fingerprint_sound_for_same_shape:
  assumes "fingerprintBytes c = fingerprintBytes c'" and "list_all2 sameShape (enabledModules c) (enabledModules c')"
    and "shortFields c" and "shortFields c'" and "runtimeFits c" and "runtimeFits c'" and "mitmEnabled (cfgMITM c)"
  shows "cfgUpstreamProxy c = cfgUpstreamProxy c' \<and> mitmHTTP2 (cfgMITM c) = mitmHTTP2 (cfgMITM c') \<and> projectTargets c = projectTargets c'"
proof -
  let ?p = "\<lambda>d. [proxyAddress (cfgUpstreamProxy d), proxyUsername (cfgUpstreamProxy d), proxyPassword (cfgUpstreamProxy d)]"
  let ?rest = "\<lambda>d. writeFingerprintBool (mitmHTTP2 (cfgMITM d)) @ writeFingerprintBool (mitmEnabled (cfgMITM d)) @
      concat (map fingerprintModule (enabledModules d)) @ writeFingerprintBool (list_ex modNetwork (enabledModules d))"
  have "concat (map writeFingerprintField (?p c)) @ ?rest c = concat (map writeFingerprintField (?p c')) @ ?rest c'"
    using assms(1) by (simp add: fingerprintBytes_def Let_def enabledModules_def)
  then have fs: "?p c = ?p c' \<and> ?rest c = ?rest c'"
    by (rule fields_inject) (use assms(3,4) in \<open>simp_all add: shortFields_def\<close>)
  have proxy: "cfgUpstreamProxy c = cfgUpstreamProxy c'" using fs by (intro ProxyConfig.equality) auto
  have b1: "mitmHTTP2 (cfgMITM c) = mitmHTTP2 (cfgMITM c')" and b2: "mitmEnabled (cfgMITM c) = mitmEnabled (cfgMITM c')"
    and r: "concat (map fingerprintModule (enabledModules c)) @ writeFingerprintBool (list_ex modNetwork (enabledModules c)) =
      concat (map fingerprintModule (enabledModules c')) @ writeFingerprintBool (list_ex modNetwork (enabledModules c'))"
    using fs bool_inject by blast+
  have "map (\<lambda>m. (modID m, modCaptureHosts m, dialledMappings m, modNetwork m)) (enabledModules c) =
      map (\<lambda>m. (modID m, modCaptureHosts m, dialledMappings m, modNetwork m)) (enabledModules c')"
    using modules_inject[OF r assms(2)] assms(3,4) by (simp add: shortFields_def)
  then show ?thesis using proxy b1 projectTargets_determined[OF assms(5,6) b2 _ assms(7)] by blast
qed

theorem fingerprint_sound_for_same_shape_witness:
  "projectTargets exMapped = projectTargets (exMapped\<lparr>cfgGeneration := 9\<rparr>)"
proof -
  have "fingerprintBytes exMapped = fingerprintBytes (exMapped\<lparr>cfgGeneration := 9\<rparr>)" by (simp add: fingerprintBytes_def)
  moreover have "enabledModules (exMapped\<lparr>cfgGeneration := 9\<rparr>) = enabledModules exMapped" by (simp add: enabledModules_def)
  then have "list_all2 sameShape (enabledModules exMapped) (enabledModules (exMapped\<lparr>cfgGeneration := 9\<rparr>))"
    by (simp add: list_all2_same sameShape_def)
  moreover have "shortFields exMapped" "shortFields (exMapped\<lparr>cfgGeneration := 9\<rparr>)"
    by (simp_all add: shortFields_def shortString_def enabledModules_def exMapped_def exConfig_def exModule_def zeroConfig_def moduleFields_def
        mappingFields_def dialledMappings_def)
  moreover have "runtimeFits exMapped" "runtimeFits (exMapped\<lparr>cfgGeneration := 9\<rparr>)"
    by (simp_all add: runtimeFits_def exMapped_def exConfig_def zeroConfig_def)
  moreover have "mitmEnabled (cfgMITM exMapped)" by (simp add: exMapped_def exConfig_def)
  ultimately show ?thesis using fingerprint_sound_for_same_shape by blast
qed

end
