(* ===== verification/Socks_Conn.thy ===== *)
theory Socks_Conn
  imports Projection
begin

text \<open>
  The SOCKS handshakes and the two UDP packet connections of socks.go. A TCP connection is the bytes
  the peer has sent and will send, the bytes written to it, and a schedule that says which writes
  fail. A UDP socket is the list of datagrams that arrive, each with its source; the read loop ends
  with an error when no more arrive. Deadlines and contexts are not part of the model.
\<close>

section \<open>Connections\<close>

record sconn =
  connIn :: string
  connOut :: string
  connWrites :: "bool list"
  connClosed :: bool

type_synonym 'a sres = "(socks_error + 'a) \<times> sconn"

definition andThenC :: "'a sres \<Rightarrow> ('a \<Rightarrow> sconn \<Rightarrow> 'b sres) \<Rightarrow> 'b sres" where
  "andThenC m k = (case m of (Inl e, c) \<Rightarrow> (Inl e, c) | (Inr a, c) \<Rightarrow> k a c)"

definition recv :: "nat \<Rightarrow> sconn \<Rightarrow> string sres" where
  "recv n c = (case readFull n (connIn c) of
                 Inl e \<Rightarrow> (Inl e, c\<lparr>connIn := []\<rparr>)
               | Inr (v, rest) \<Rightarrow> (Inr v, c\<lparr>connIn := rest\<rparr>))"

definition send :: "string \<Rightarrow> sconn \<Rightarrow> unit sres" where
  "send bs c =
     (case connWrites c of
        [] \<Rightarrow> (Inr (), c\<lparr>connOut := connOut c @ bs\<rparr>)
      | ok # oks \<Rightarrow> if ok then (Inr (), c\<lparr>connOut := connOut c @ bs, connWrites := oks\<rparr>)
                     else (Inl WriteFailed, c\<lparr>connWrites := oks\<rparr>))"

definition recvAddress :: "sconn \<Rightarrow> socksTarget sres" where
  "recvAddress c = (case readSOCKSAddress (connIn c) of
                      Inl e \<Rightarrow> (Inl e, c\<lparr>connIn := []\<rparr>)
                    | Inr (t, rest) \<Rightarrow> (Inr t, c\<lparr>connIn := rest\<rparr>))"

definition fails :: "socks_error \<Rightarrow> sconn \<Rightarrow> 'a sres" where
  "fails e c = (Inl e, c)"

section \<open>The server side\<close>

definition checkCredentials :: "string \<Rightarrow> string \<Rightarrow> string \<Rightarrow> string \<Rightarrow> sconn \<Rightarrow> unit sres" where
  "checkCredentials username password user pass c =
     (let status = (if user = username \<and> pass = password then 0 else 1)
      in andThenC (send [byte 1, byte status] c) (\<lambda>_ c.
           if status \<noteq> 0 then fails InvalidCredentials c else (Inr (), c)))"

definition authenticateSOCKSServer :: "string \<Rightarrow> string \<Rightarrow> sconn \<Rightarrow> unit sres" where
  "authenticateSOCKSServer username password c =
     andThenC (recv 2 c) (\<lambda>header c.
     if code (header ! 0) \<noteq> 5 \<or> code (header ! 1) = 0 then fails InvalidGreeting c
     else andThenC (recv (code (header ! 1)) c) (\<lambda>methods c.
     if \<not> list_ex (\<lambda>m. code m = 2) methods
     then fails NoUserPassMethod (snd (send [byte 5, byte 255] c))
     else andThenC (send [byte 5, byte 2] c) (\<lambda>_ c.
     andThenC (recv 2 c) (\<lambda>authHeader c.
     if code (authHeader ! 0) \<noteq> 1 \<or> code (authHeader ! 1) = 0 then fails InvalidAuthHeader c
     else andThenC (recv (code (authHeader ! 1)) c) (\<lambda>user c.
     andThenC (recv 1 c) (\<lambda>passwordLength c.
     if code (passwordLength ! 0) = 0 then fails EmptyPassword c
     else andThenC (recv (code (passwordLength ! 0)) c) (\<lambda>pass c.
     checkCredentials username password user pass c)))))))"

definition readSOCKSRequest :: "string \<Rightarrow> string \<Rightarrow> sconn \<Rightarrow> (nat \<times> socksTarget) sres" where
  "readSOCKSRequest username password c =
     andThenC (authenticateSOCKSServer username password c) (\<lambda>_ c.
     andThenC (recv 3 c) (\<lambda>header c.
     if code (header ! 0) \<noteq> 5 \<or> code (header ! 2) \<noteq> 0 then fails InvalidRequestHeader c
     else andThenC (recvAddress c) (\<lambda>target c. (Inr (code (header ! 1), target), c))))"

text \<open>The address is the text of the bound \<^verbatim>\<open>net.Addr\<close>, if there is one.\<close>

definition writeSOCKSReply :: "nat \<Rightarrow> string option \<Rightarrow> sconn \<Rightarrow> unit sres" where
  "writeSOCKSReply status address c =
     (let target = (case address of
                      None \<Rightarrow> Some \<lparr>tgtHost = ''0.0.0.0'', tgtPort = 0\<rparr>
                    | Some text \<Rightarrow>
                        (case split_host_port text of
                           None \<Rightarrow> None
                         | Some (host, portText) \<Rightarrow>
                             map_option (\<lambda>p. \<lparr>tgtHost = host, tgtPort = p\<rparr>) (atoi portText)))
      in case target of
           None \<Rightarrow> fails InvalidReply c
         | Some t \<Rightarrow> (case encodeSOCKSAddress t of
                         Inl e \<Rightarrow> fails e c
                       | Inr payload \<Rightarrow> send ([byte 5, byte status, byte 0] @ payload) c))"

section \<open>The client side\<close>

definition clientAuthPayload :: "string \<Rightarrow> string \<Rightarrow> string" where
  "clientAuthPayload username password =
     [byte 1, byte (length username)] @ username @ [byte (length password)] @ password"

definition authenticateSOCKSClient :: "string \<Rightarrow> string \<Rightarrow> sconn \<Rightarrow> unit sres" where
  "authenticateSOCKSClient username password c =
     (if username = [] \<or> length username > 255 \<or> password = [] \<or> length password > 255 then fails CredentialsLength c
      else andThenC (send [byte 5, byte 1, byte 2] c) (\<lambda>_ c.
           andThenC (recv 2 c) (\<lambda>response c.
           if response \<noteq> [byte 5, byte 2] then fails AuthRejected c
           else andThenC (send (clientAuthPayload username password) c) (\<lambda>_ c.
           andThenC (recv 2 c) (\<lambda>response c.
           if code (response ! 0) \<noteq> 1 \<or> code (response ! 1) \<noteq> 0 then fails AuthFailed c
           else (Inr (), c))))))"

definition readSOCKSClientReply :: "sconn \<Rightarrow> socksTarget sres" where
  "readSOCKSClientReply c =
     andThenC (recv 3 c) (\<lambda>header c.
     if code (header ! 0) \<noteq> 5 \<or> code (header ! 2) \<noteq> 0 then fails InvalidReply c
     else andThenC (recvAddress c) (\<lambda>address c.
     if code (header ! 1) \<noteq> 0 then fails (RequestFailed (code (header ! 1))) c
     else (Inr address, c)))"

definition closeOnError :: "'a sres \<Rightarrow> 'a sres" where
  "closeOnError r = (case r of (Inl e, c) \<Rightarrow> (Inl e, c\<lparr>connClosed := True\<rparr>) | (Inr a, c) \<Rightarrow> (Inr a, c))"

text \<open>\<^verbatim>\<open>dialSOCKS5TCP\<close> from the point where the proxy connection is established.\<close>

definition dialSOCKS5TCP :: "ProxyConfig \<Rightarrow> socksTarget \<Rightarrow> sconn \<Rightarrow> unit sres" where
  "dialSOCKS5TCP proxy target c =
     closeOnError
       (andThenC (authenticateSOCKSClient (proxyUsername proxy) (proxyPassword proxy) c) (\<lambda>_ c.
        case encodeSOCKSAddress target of
          Inl e \<Rightarrow> fails e c
        | Inr address \<Rightarrow>
            andThenC (send ([byte 5, byte 1, byte 0] @ address) c) (\<lambda>_ c.
            andThenC (readSOCKSClientReply c) (\<lambda>_ c. (Inr (), c)))))"

section \<open>UDP packet connections\<close>

type_synonym datagram = "(addr \<times> int) \<times> string"

definition sameIP :: "addr \<Rightarrow> addr \<Rightarrow> bool" where "sameIP a b \<longleftrightarrow> Unmap a = Unmap b"

record fixedSOCKSPacketConn =
  fpRelay :: "addr \<times> int"
  fpTarget :: socksTarget
  fpReadCap :: nat
  fpWriteCap :: nat
  fpArrivals :: "datagram list"
  fpSent :: "((addr \<times> int) \<times> string) list"

definition fixedAccepts :: "fixedSOCKSPacketConn \<Rightarrow> nat \<Rightarrow> nat \<Rightarrow> datagram \<Rightarrow> string option" where
  "fixedAccepts c room n d =
     (if \<not> sameIP (fst (fst d)) (fst (fpRelay c)) \<or> snd (fst d) \<noteq> snd (fpRelay c) then None
      else (case parseSOCKSUDPDatagram (take room (snd d)) of
              Inl _ \<Rightarrow> None
            | Inr (payload, source) \<Rightarrow>
                if tgtPort source \<noteq> tgtPort (fpTarget c) \<or> length payload > n then None else Some payload))"

fun fixedReadLoop :: "fixedSOCKSPacketConn \<Rightarrow> nat \<Rightarrow> nat \<Rightarrow> datagram list \<Rightarrow> (string \<times> datagram list) option" where
  "fixedReadLoop c room n [] = None"
| "fixedReadLoop c room n (d # ds) =
     (case fixedAccepts c room n d of Some payload \<Rightarrow> Some (payload, ds) | None \<Rightarrow> fixedReadLoop c room n ds)"

definition fixedReadFrom :: "nat \<Rightarrow> fixedSOCKSPacketConn \<Rightarrow> (string \<times> socksTarget) option \<times> fixedSOCKSPacketConn" where
  "fixedReadFrom n c =
     (let (room, cap) = resizeSOCKSUDPReadBuffer (fpReadCap c) n;
          c = c\<lparr>fpReadCap := cap\<rparr>
      in case fixedReadLoop c room n (fpArrivals c) of
           None \<Rightarrow> (None, c\<lparr>fpArrivals := []\<rparr>)
         | Some (payload, rest) \<Rightarrow> (Some (payload, fpTarget c), c\<lparr>fpArrivals := rest\<rparr>))"

definition fixedWriteTo :: "string \<Rightarrow> net_addr \<Rightarrow> fixedSOCKSPacketConn \<Rightarrow> (socks_error + nat) \<times> fixedSOCKSPacketConn" where
  "fixedWriteTo buffer address c =
     (if \<not> matchesSOCKSTarget address (fpTarget c) then (Inl UnexpectedPeer, c)
      else (case encodeSOCKSUDPDatagramInto (fpWriteCap c) (fpTarget c) buffer of
              (Inl e, _) \<Rightarrow> (Inl e, c)
            | (Inr packet, cap) \<Rightarrow>
                (Inr (length buffer), c\<lparr>fpWriteCap := cap, fpSent := fpSent c @ [(fpRelay c, packet)]\<rparr>)))"

record socksServerPacketConn =
  spAllowedIP :: "addr option"
  spAuthorization :: inboundUDPAuthorization
  spRelay :: "(addr \<times> int) option"
  spReadCap :: nat
  spWriteCap :: nat
  spArrivals :: "datagram list"
  spSent :: "((addr \<times> int) \<times> string) list"

definition fromAllowed :: "socksServerPacketConn \<Rightarrow> datagram \<Rightarrow> bool" where
  "fromAllowed c d = (case spAllowedIP c of None \<Rightarrow> False | Some ip \<Rightarrow> sameIP (fst (fst d)) ip)"

definition pinRelay :: "datagram \<Rightarrow> socksServerPacketConn \<Rightarrow> socksServerPacketConn" where
  "pinRelay d c = (case spRelay c of None \<Rightarrow> c\<lparr>spRelay := Some (fst d)\<rparr> | Some _ \<Rightarrow> c)"

definition fromRelay :: "socksServerPacketConn \<Rightarrow> datagram \<Rightarrow> bool" where
  "fromRelay c d = (case spRelay c of None \<Rightarrow> False | Some r \<Rightarrow> sameIP (fst (fst d)) (fst r) \<and> snd (fst d) = snd r)"

definition serverAccepts :: "socksServerPacketConn \<Rightarrow> nat \<Rightarrow> nat \<Rightarrow> datagram \<Rightarrow> (string \<times> socksTarget) option" where
  "serverAccepts c room n d =
     (case parseSOCKSUDPDatagram (take room (snd d)) of
        Inl _ \<Rightarrow> None
      | Inr (payload, target) \<Rightarrow>
          if \<not> allows (spAuthorization c) target \<or> length payload > n then None else Some (payload, target))"

fun serverReadLoop :: "nat \<Rightarrow> nat \<Rightarrow> socksServerPacketConn \<Rightarrow> datagram list \<Rightarrow>
    (string \<times> (addr \<times> int) \<times> socksTarget) option \<times> socksServerPacketConn" where
  "serverReadLoop room n c [] = (None, c\<lparr>spArrivals := []\<rparr>)"
| "serverReadLoop room n c (d # ds) =
     (if \<not> fromAllowed c d then serverReadLoop room n c ds
      else
        (let c = pinRelay d c
         in if \<not> fromRelay c d then serverReadLoop room n c ds
            else (case serverAccepts c room n d of
                    None \<Rightarrow> serverReadLoop room n c ds
                  | Some (payload, target) \<Rightarrow> (Some (payload, fst d, target), c\<lparr>spArrivals := ds\<rparr>))))"

definition serverReadFrom :: "nat \<Rightarrow> socksServerPacketConn \<Rightarrow>
    (string \<times> (addr \<times> int) \<times> socksTarget) option \<times> socksServerPacketConn" where
  "serverReadFrom n c =
     (let (room, cap) = resizeSOCKSUDPReadBuffer (spReadCap c) n
      in serverReadLoop room n (c\<lparr>spReadCap := cap\<rparr>) (spArrivals c))"

text \<open>The peer address a caller hands back, when it is one.\<close>

definition serverWriteTo :: "string \<Rightarrow> ((addr \<times> int) \<times> socksTarget) option \<Rightarrow> socksServerPacketConn \<Rightarrow>
    (socks_error + nat) \<times> socksServerPacketConn" where
  "serverWriteTo buffer peer c =
     (case peer of
        None \<Rightarrow> (Inl UnexpectedPeer, c)
      | Some (relay, target) \<Rightarrow>
          (case encodeSOCKSUDPDatagramInto (spWriteCap c) target buffer of
             (Inl e, _) \<Rightarrow> (Inl e, c)
           | (Inr packet, cap) \<Rightarrow>
               (Inr (length buffer), c\<lparr>spWriteCap := cap, spSent := spSent c @ [(relay, packet)]\<rparr>)))"


section \<open>The handshake\<close>

lemma andThenC_Inr: "andThenC m k = (Inr b, c') \<longleftrightarrow> (\<exists>a c. m = (Inr a, c) \<and> k a c = (Inr b, c'))"
  by (auto simp: andThenC_def split: prod.splits sum.splits)

lemma andThenC_simps [simp]: "andThenC (Inr a, c) k = k a c" "andThenC (Inl e, c) k = (Inl e, c)"
  by (simp_all add: andThenC_def)

lemma fails_not_Inr [simp]: "fails e c \<noteq> (Inr a, c')"
  by (simp add: fails_def)

lemma recv_Inr: "recv n c = (Inr v, c') \<Longrightarrow> connIn c = v @ connIn c' \<and> length v = n"
  by (auto simp: recv_def readFull_Inr split: sum.splits)

lemma recv_append: "connIn c = v @ rest \<Longrightarrow> length v = n \<Longrightarrow> recv n c = (Inr v, c\<lparr>connIn := rest\<rparr>)"
  by (simp add: recv_def readFull_append)

lemma send_Inr: "send bs c = (Inr u, c') \<Longrightarrow> connIn c' = connIn c"
  by (auto simp: send_def split: list.splits if_splits)

lemma send_free: "connWrites c = [] \<Longrightarrow> send bs c = (Inr (), c\<lparr>connOut := connOut c @ bs\<rparr>)"
  by (simp add: send_def)

lemma length2: "length v = 2 \<longleftrightarrow> (\<exists>a b. v = [a, b])"
  by (auto simp: length_Suc_conv numeral_eq_Suc)

lemma length1: "length v = Suc 0 \<longleftrightarrow> (\<exists>a. v = [a])"
  by (auto simp: length_Suc_conv)

lemma code_eq: "n < 256 \<Longrightarrow> code c = n \<longleftrightarrow> c = byte n"
  using byte_code[of c] code_byte[of n] by metis

definition handshakeInput :: "string \<Rightarrow> string \<Rightarrow> string \<Rightarrow> string" where
  "handshakeInput methods u p =
     [byte 5, byte (length methods)] @ methods @ [byte 1, byte (length u)] @ u @ [byte (length p)] @ p"

lemma auth_success:
  assumes "authenticateSOCKSServer u p c = (Inr (), c')"
  shows "\<exists>methods. connIn c = handshakeInput methods u p @ connIn c' \<and> byte 2 \<in> set methods"
proof -
  obtain header c1 methods c2 c3 auth c4 user c5 plen c6 pass c7
    where r1: "recv 2 c = (Inr header, c1)" "code (header ! 0) = 5"
      and r2: "recv (code (header ! 1)) c1 = (Inr methods, c2)" "list_ex (\<lambda>m. code m = 2) methods"
      and s1: "send [byte 5, byte 2] c2 = (Inr (), c3)"
      and r3: "recv 2 c3 = (Inr auth, c4)" "code (auth ! 0) = 1"
      and r4: "recv (code (auth ! 1)) c4 = (Inr user, c5)"
      and r5: "recv 1 c5 = (Inr plen, c6)"
      and r6: "recv (code (plen ! 0)) c6 = (Inr pass, c7)"
      and chk: "checkCredentials u p user pass c7 = (Inr (), c')"
    using assms by (auto simp: authenticateSOCKSServer_def andThenC_Inr split: if_splits)
  have up: "user = u" "pass = p" and c7: "connIn c' = connIn c7"
    using chk send_Inr by (auto simp: checkCredentials_def Let_def andThenC_Inr split: if_splits)
  obtain h where h: "header = [byte 5, h]" "length methods = code h"
    using recv_Inr[OF r1(1)] recv_Inr[OF r2(1)] r1(2) by (auto simp: length2 code_eq)
  obtain a where a: "auth = [byte 1, a]" "length user = code a"
    using recv_Inr[OF r3(1)] recv_Inr[OF r4] r3(2) by (auto simp: length2 code_eq)
  obtain l where l: "plen = [l]" "length pass = code l"
    using recv_Inr[OF r5] recv_Inr[OF r6] by (auto simp: length1)
  have "connIn c = header @ methods @ auth @ user @ plen @ pass @ connIn c7"
    using recv_Inr[OF r1(1)] recv_Inr[OF r2(1)] send_Inr[OF s1] recv_Inr[OF r3(1)] recv_Inr[OF r4] recv_Inr[OF r5] recv_Inr[OF r6]
    by simp
  moreover have "byte 2 \<in> set methods" using r2(2) by (auto simp: list_ex_iff code_eq)
  ultimately show ?thesis using h a l up c7
    by (intro exI[of _ methods]) (simp add: handshakeInput_def)
qed

text \<open>A client that gets through the server's authentication has presented exactly the configured user
  name and password: the bytes consumed are a greeting that offers the method and one sub-negotiation with
  those credentials, and nothing beyond it was consumed.\<close>

theorem socks_auth_sound:
  assumes "fst (authenticateSOCKSServer u p c) = Inr ()"
  shows "\<exists>methods. connIn c = handshakeInput methods u p @ connIn (snd (authenticateSOCKSServer u p c)) \<and> byte 2 \<in> set methods"
  using auth_success[of u p c "snd (authenticateSOCKSServer u p c)"] assms by (simp add: prod_eq_iff)

definition exConn :: "string \<Rightarrow> sconn" where
  "exConn s = \<lparr>connIn = s, connOut = [], connWrites = [], connClosed = False\<rparr>"

theorem socks_auth_sound_witness:
  "\<exists>methods. connIn (exConn (handshakeInput [byte 0, byte 2] ''me'' ''pw'' @ ''x'')) =
     handshakeInput methods ''me'' ''pw'' @
       connIn (snd (authenticateSOCKSServer ''me'' ''pw'' (exConn (handshakeInput [byte 0, byte 2] ''me'' ''pw'' @ ''x'')))) \<and>
     byte 2 \<in> set methods"
  by (rule socks_auth_sound) code_simp

lemma auth_accepts:
  assumes "connIn c = handshakeInput methods u p @ rest" and "connWrites c = []" and "byte 2 \<in> set methods"
    and "length methods < 256" and "0 < length u" "length u < 256" "0 < length p" "length p < 256"
  shows "authenticateSOCKSServer u' p' c =
    (if u = u' \<and> p = p' then (Inr (), c\<lparr>connIn := rest, connOut := connOut c @ [byte 5, byte 2, byte 1, byte 0]\<rparr>)
     else (Inl InvalidCredentials, c\<lparr>connIn := rest, connOut := connOut c @ [byte 5, byte 2, byte 1, byte 1]\<rparr>))"
proof -
  let ?i = "\<lambda>s. c\<lparr>connIn := s\<rparr>" and ?o = "\<lambda>s. c\<lparr>connOut := connOut c @ [byte 5, byte 2], connIn := s\<rparr>"
  have ne: "0 < length methods" using assms(3) by auto
  have 1: "recv 2 c = (Inr [byte 5, byte (length methods)],
      ?i (methods @ [byte 1, byte (length u)] @ u @ [byte (length p)] @ p @ rest))"
    using assms(1) by (intro recv_append) (simp_all add: handshakeInput_def)
  have 2: "recv (length methods) (?i (methods @ s)) = (Inr methods, ?i s)" for s
    using recv_append[of "?i (methods @ s)"] by simp
  have 3: "send [byte 5, byte 2] (?i s) = (Inr (), ?o s)" for s using assms(2) by (simp add: send_free)
  have 4: "recv 2 (?o ([a, b] @ s)) = (Inr [a, b], ?o s)" for a b s using recv_append[of "?o ([a, b] @ s)" "[a, b]"] by simp
  have 5: "recv (length v) (?o (v @ s)) = (Inr v, ?o s)" for v s using recv_append[of "?o (v @ s)"] by simp
  have 6: "recv 1 (?o ([a] @ s)) = (Inr [a], ?o s)" for a s using recv_append[of "?o ([a] @ s)" "[a]"] by simp
  have m: "list_ex (\<lambda>m. code m = 2) methods" using assms(3) code_byte[of 2] by (auto simp: list_ex_iff intro!: bexI[of _ "byte 2"])
  have "authenticateSOCKSServer u' p' c = checkCredentials u' p' u p (?o rest)"
    unfolding authenticateSOCKSServer_def 1
    using ne assms(4-8) m by (simp add: 2 3 4[simplified] 5 6[simplified])
  then show ?thesis using assms(2) by (auto simp: checkCredentials_def Let_def send_free fails_def)
qed

lemma clientAuthPayload_greeting:
  "[byte 5, byte 1, byte 2] @ clientAuthPayload u p = handshakeInput [byte 2] u p"
  by (simp add: clientAuthPayload_def handshakeInput_def)

text \<open>Client and server agree. When the client side runs against the replies the server gives, everything it
  writes is read by the server as one handshake; the server accepts exactly when the credentials are equal,
  and the client reports success exactly when the server accepted.\<close>

theorem socks_client_server_agree:
  assumes "0 < length u" "length u < 256" "0 < length p" "length p < 256"
    and "connWrites c = []" "connOut c = []" "connWrites s = []" "connOut s = []"
    and client: "connIn c = connOut (snd (authenticateSOCKSServer u' p' s))"
    and server: "connIn s = connOut (snd (authenticateSOCKSClient u p c)) @ rest"
    and talked: "connIn c = [byte 5, byte 2, byte 1, byte k]" "k < 256"
  shows "(fst (authenticateSOCKSServer u' p' s) = Inr ()) = (u = u' \<and> p = p') \<and>
    (fst (authenticateSOCKSClient u p c) = Inr ()) = (u = u' \<and> p = p') \<and>
    connIn (snd (authenticateSOCKSServer u' p' s)) = rest"
proof -
  let ?c1 = "c\<lparr>connOut := [byte 5, byte 1, byte 2]\<rparr>"
  have lens: "\<not> (u = [] \<or> length u > 255 \<or> p = [] \<or> length p > 255)" using assms(1-4) by auto
  have r1: "recv 2 ?c1 = (Inr [byte 5, byte 2], ?c1\<lparr>connIn := [byte 1, byte k]\<rparr>)"
    using talked by (intro recv_append) simp_all
  let ?c2 = "?c1\<lparr>connIn := [byte 1, byte k], connOut := handshakeInput [byte 2] u p\<rparr>"
  have s2: "send (clientAuthPayload u p) (?c1\<lparr>connIn := [byte 1, byte k]\<rparr>) = (Inr (), ?c2)"
    using assms(5) by (simp add: send_free clientAuthPayload_greeting[simplified])
  have r2: "recv 2 ?c2 = (Inr [byte 1, byte k], ?c2\<lparr>connIn := []\<rparr>)" by (intro recv_append) simp_all
  have run: "authenticateSOCKSClient u p c =
      (if k = 0 then (Inr (), ?c2\<lparr>connIn := []\<rparr>) else (Inl AuthFailed, ?c2\<lparr>connIn := []\<rparr>))"
    using lens assms(5,6) r1 s2 r2 talked(2) by (simp add: authenticateSOCKSClient_def send_free fails_def)
  then have "connIn s = handshakeInput [byte 2] u p @ rest" using server by (simp split: if_splits)
  from auth_accepts[OF this assms(7), of u' p'] have srv: "authenticateSOCKSServer u' p' s =
    (if u = u' \<and> p = p' then (Inr (), s\<lparr>connIn := rest, connOut := [byte 5, byte 2, byte 1, byte 0]\<rparr>)
     else (Inl InvalidCredentials, s\<lparr>connIn := rest, connOut := [byte 5, byte 2, byte 1, byte 1]\<rparr>))"
    using assms(1-4,8) by simp
  have "byte k = byte 0 \<longleftrightarrow> k = 0" using talked(2) code_byte[of k] code_byte[of 0] by (metis zero_less_numeral)
  moreover have "byte k = byte 1 \<longleftrightarrow> k = 1" using talked(2) code_byte[of k] code_byte[of 1] by (metis one_less_numeral_iff semiring_norm(76))
  ultimately have "k = 0 \<longleftrightarrow> u = u' \<and> p = p'" using client talked(1) srv by (auto split: if_splits)
  then show ?thesis using run srv by auto
qed

theorem socks_client_server_agree_witness:
  "(fst (authenticateSOCKSServer ''me'' ''pw'' (exConn (handshakeInput [byte 2] ''me'' ''pw''))) = Inr ()) = (''me'' = ''me'' \<and> ''pw'' = ''pw'') \<and>
   (fst (authenticateSOCKSClient ''me'' ''pw'' (exConn [byte 5, byte 2, byte 1, byte 0])) = Inr ()) = (''me'' = ''me'' \<and> ''pw'' = ''pw'') \<and>
   connIn (snd (authenticateSOCKSServer ''me'' ''pw'' (exConn (handshakeInput [byte 2] ''me'' ''pw'')))) = []"
  by (rule socks_client_server_agree[where k = 0]) code_simp+


section \<open>Reading datagrams\<close>

lemma fixedReadLoop_spec:
  "fixedReadLoop c room n ds = Some (payload, rest) \<Longrightarrow>
     \<exists>skipped d. ds = skipped @ d # rest \<and> fixedAccepts c room n d = Some payload \<and> (\<forall>x\<in>set skipped. fixedAccepts c room n x = None)"
proof (induction ds)
  case (Cons x ds)
  show ?case
  proof (cases "fixedAccepts c room n x")
    case None
    then obtain skipped d where "ds = skipped @ d # rest" "fixedAccepts c room n d = Some payload"
        "\<forall>x\<in>set skipped. fixedAccepts c room n x = None" using Cons by auto
    then show ?thesis using None by (intro exI[of _ "x # skipped"]) auto
  next
    case (Some q)
    then show ?thesis using Cons.prems by (intro exI[of _ "[]"]) auto
  qed
qed simp

text \<open>The upstream packet connection delivers only whole payloads from its relay. What a read returns is the
  complete payload of one arrived datagram that came from the relay's address and port and named the port of
  the target, every datagram skipped before it failed one of these conditions, and the address reported is
  the fixed target.\<close>

theorem fixed_read_delivers_relay_payload:
  assumes "fixedReadFrom n c = (Some (payload, t), c')" and "list_all (\<lambda>d. length (snd d) \<le> maxSOCKSUDPDatagramBytes) (fpArrivals c)"
  shows "t = fpTarget c \<and> length payload \<le> n \<and>
    (\<exists>skipped d. fpArrivals c = skipped @ d # fpArrivals c' \<and> sameIP (fst (fst d)) (fst (fpRelay c)) \<and> snd (fst d) = snd (fpRelay c) \<and>
       (\<exists>source. parseSOCKSUDPDatagram (snd d) = Inr (payload, source) \<and> tgtPort source = tgtPort (fpTarget c)))"
proof -
  define room cap where rc: "room = fst (resizeSOCKSUDPReadBuffer (fpReadCap c) n)" "cap = snd (resizeSOCKSUDPReadBuffer (fpReadCap c) n)"
  let ?c = "c\<lparr>fpReadCap := cap\<rparr>"
  obtain rest where loop: "fixedReadLoop ?c room n (fpArrivals c) = Some (payload, rest)" "t = fpTarget c" "fpArrivals c' = rest"
    using assms(1) by (auto simp: fixedReadFrom_def Let_def rc split: prod.splits option.splits)
  from fixedReadLoop_spec[OF loop(1)] obtain skipped d where d: "fpArrivals c = skipped @ d # rest" "fixedAccepts ?c room n d = Some payload"
    by blast
  from d(2) obtain source where p: "parseSOCKSUDPDatagram (take room (snd d)) = Inr (payload, source)"
      "tgtPort source = tgtPort (fpTarget c)" "length payload \<le> n" "sameIP (fst (fst d)) (fst (fpRelay c))" "snd (fst d) = snd (fpRelay c)"
    by (auto simp: fixedAccepts_def split: if_splits sum.splits prod.splits)
  have "length (snd d) \<le> maxSOCKSUDPDatagramBytes" using assms(2) d(1) by simp
  then have "take room (snd d) = snd d" using whole_datagram p(1,3) unfolding rc by blast
  then show ?thesis using p loop d(1) by auto
qed

theorem fixed_read_delivers_relay_payload_witness:
  "\<exists>t c'. fixedReadFrom 5 \<lparr>fpRelay = (V4 [127, 0, 0, 1], 9), fpTarget = \<lparr>tgtHost = ''10.0.0.7'', tgtPort = 53\<rparr>, fpReadCap = 0, fpWriteCap = 0,
       fpArrivals = [((V4 [127, 0, 0, 1], 9), [byte 0, byte 0, byte 0, byte 1, byte 10, byte 0, byte 0, byte 7, byte 0, byte 53] @ ''query'')], fpSent = []\<rparr>
     = (Some (''query'', t), c') \<and> t = \<lparr>tgtHost = ''10.0.0.7'', tgtPort = 53\<rparr>"
proof -
  let ?d = "[byte 0, byte 0, byte 0, byte 1, byte 10, byte 0, byte 0, byte 7, byte 0, byte 53] @ ''query''"
  let ?c = "\<lparr>fpRelay = (V4 [127, 0, 0, 1], 9), fpTarget = \<lparr>tgtHost = ''10.0.0.7'', tgtPort = 53\<rparr>, fpReadCap = 0, fpWriteCap = 0,
       fpArrivals = [((V4 [127, 0, 0, 1], 9), ?d)], fpSent = []\<rparr>"
  have p: "parseSOCKSUDPDatagram ?d = Inr (''query'', \<lparr>tgtHost = ''10.0.0.7'', tgtPort = 53\<rparr>)" by code_simp
  have "fixedReadFrom 5 ?c = (Some (''query'', \<lparr>tgtHost = ''10.0.0.7'', tgtPort = 53\<rparr>), ?c\<lparr>fpReadCap := 268, fpArrivals := []\<rparr>)"
    using p by (simp add: fixedReadFrom_def resizeSOCKSUDPReadBuffer_def resizeSOCKSUDPBuffer_def maxSOCKSUDPDatagramBytes_def
        maxSOCKSUDPEnvelopeBytes_def fixedAccepts_def sameIP_def)
  moreover from fixed_read_delivers_relay_payload[OF this] have "length ''query'' \<le> (5::nat)"
    by (simp add: maxSOCKSUDPDatagramBytes_def)
  ultimately show ?thesis by blast
qed

lemma serverReadLoop_spec:
  "serverReadLoop room n c ds = (Some (payload, source, target), c') \<Longrightarrow>
     (\<exists>skipped d. ds = skipped @ d # spArrivals c' \<and> source = fst d \<and> fromAllowed c d \<and> fromRelay c' d \<and>
        serverAccepts c room n d = Some (payload, target)) \<and>
     spRelay c' \<noteq> None \<and> (spRelay c = None \<or> spRelay c' = spRelay c) \<and> spAuthorization c' = spAuthorization c"
proof (induction room n c ds arbitrary: payload rule: serverReadLoop.induct)
  case (2 room n c d ds)
  have auth: "spAuthorization (pinRelay d c) = spAuthorization c" by (simp add: pinRelay_def split: option.splits)
  have frame: "fromAllowed (pinRelay d c) = fromAllowed c" "serverAccepts (pinRelay d c) = serverAccepts c"
      "spAuthorization (pinRelay d c) = spAuthorization c" "spRelay (pinRelay d c) \<noteq> None"
      "spRelay c \<noteq> None \<Longrightarrow> spRelay (pinRelay d c) = spRelay c"
  proof -
    show "serverAccepts (pinRelay d c) = serverAccepts c" by (intro ext) (simp only: serverAccepts_def auth)
  qed (auto simp: pinRelay_def fromAllowed_def fun_eq_iff split: option.splits)
  have skip: ?case if "serverReadLoop room n c1 ds = (Some (payload, source, target), c')" "c1 = c \<or> c1 = pinRelay d c"
    "serverReadLoop room n c1 ds = (Some (payload, source, target), c') \<Longrightarrow>
     (\<exists>skipped d. ds = skipped @ d # spArrivals c' \<and> source = fst d \<and> fromAllowed c1 d \<and> fromRelay c' d \<and>
        serverAccepts c1 room n d = Some (payload, target)) \<and>
     spRelay c' \<noteq> None \<and> (spRelay c1 = None \<or> spRelay c' = spRelay c1) \<and> spAuthorization c' = spAuthorization c1" for c1
  proof -
    from that(3)[OF that(1)] obtain skipped e where e: "ds = skipped @ e # spArrivals c'" "source = fst e" "fromAllowed c1 e" "fromRelay c' e"
        "serverAccepts c1 room n e = Some (payload, target)" "spRelay c' \<noteq> None" "spRelay c1 = None \<or> spRelay c' = spRelay c1"
        "spAuthorization c' = spAuthorization c1" by blast
    have "spRelay c = None \<or> spRelay c' = spRelay c" using e(7) that(2) frame(4,5) by (cases "spRelay c") auto
    then show ?thesis using e that(2) frame(1-3) by (intro conjI exI[of _ "d # skipped"] exI[of _ e]) auto
  qed
  show ?case
  proof (cases "fromAllowed c d \<and> fromRelay (pinRelay d c) d \<and> serverAccepts c room n d \<noteq> None")
    case True
    then have "payload = fst (the (serverAccepts c room n d))" "target = snd (the (serverAccepts c room n d))" "source = fst d"
        "c' = (pinRelay d c)\<lparr>spArrivals := ds\<rparr>"
      using 2(4) frame(2) by (auto simp: Let_def)
    moreover then have "spRelay c = None \<or> spRelay c' = spRelay c" using frame(5) by (cases "spRelay c") auto
    ultimately show ?thesis using True frame(1-4) by (intro conjI exI[of _ "[]"] exI[of _ d]) (auto simp: fromRelay_def)
  next
    case False
    consider "\<not> fromAllowed c d" | "fromAllowed c d" "\<not> fromRelay (pinRelay d c) d"
      | "fromAllowed c d" "fromRelay (pinRelay d c) d" "serverAccepts c room n d = None" using False by blast
    then show ?thesis
    proof cases
      case 1
      then show ?thesis using 2(1,4) skip[of c] by simp
    next
      case 2
      then show ?thesis using "2.IH"(2)[OF _ refl] "2.prems" skip[of "pinRelay d c"] by (simp add: Let_def)
    next
      case 3
      then show ?thesis using "2.IH"(3)[OF _ refl] "2.prems" skip[of "pinRelay d c"] frame(2) by (simp add: Let_def)
    qed
  qed
qed simp


text \<open>C7: The server side of a UDP association only accepts what it was authorised for. A read returns the
  complete payload of one arrived datagram that came from the client's address, from the relay endpoint the
  association is pinned to, and whose target the authorisation snapshot allows; and once the association is
  pinned to an endpoint it stays pinned to it.\<close>

theorem server_read_authorised:
  assumes "serverReadFrom n c = (Some (payload, source, target), c')"
    and "list_all (\<lambda>d. length (snd d) \<le> maxSOCKSUDPDatagramBytes) (spArrivals c)"
  shows "allows (spAuthorization c) target \<and> length payload \<le> n \<and>
    (\<exists>skipped d relay. spArrivals c = skipped @ d # spArrivals c' \<and> source = fst d \<and> fromAllowed c d \<and>
       parseSOCKSUDPDatagram (snd d) = Inr (payload, target) \<and>
       spRelay c' = Some relay \<and> sameIP (fst source) (fst relay) \<and> snd source = snd relay) \<and>
    (spRelay c = None \<or> spRelay c' = spRelay c)"
proof -
  let ?room = "fst (resizeSOCKSUDPReadBuffer (spReadCap c) n)"
  let ?c = "c\<lparr>spReadCap := snd (resizeSOCKSUDPReadBuffer (spReadCap c) n)\<rparr>"
  have loop: "serverReadLoop ?room n ?c (spArrivals c) = (Some (payload, source, target), c')"
    using assms(1) by (simp add: serverReadFrom_def split: prod.splits)
  from serverReadLoop_spec[OF loop] obtain skipped d where d: "spArrivals c = skipped @ d # spArrivals c'" "source = fst d"
      "fromAllowed ?c d" "fromRelay c' d" "serverAccepts ?c ?room n d = Some (payload, target)"
      and relay: "spRelay c' \<noteq> None" "spRelay c = None \<or> spRelay c' = spRelay c" by auto
  have acc: "parseSOCKSUDPDatagram (take ?room (snd d)) = Inr (payload, target)" "allows (spAuthorization c) target" "length payload \<le> n"
    using d(5) by (auto simp: serverAccepts_def split: sum.splits prod.splits if_splits)
  have "length (snd d) \<le> maxSOCKSUDPDatagramBytes" using assms(2) d(1) by simp
  then have "take ?room (snd d) = snd d" using whole_datagram acc(1,3) by blast
  then have "parseSOCKSUDPDatagram (snd d) = Inr (payload, target)" using acc(1) by simp
  moreover obtain r where "spRelay c' = Some r" using relay(1) by blast
  moreover then have "sameIP (fst source) (fst r) \<and> snd source = snd r" using d(2,4) by (simp add: fromRelay_def)
  moreover have "fromAllowed c d" using d(3) by (simp add: fromAllowed_def)
  ultimately show ?thesis using acc d(1,2) relay(2) by blast
qed

definition exServer :: socksServerPacketConn where
  "exServer = \<lparr>spAllowedIP = Some (V4 [127, 0, 0, 1]), spAuthorization = \<lparr>udpEnabled = True, udpActiveHosts = None\<rparr>, spRelay = None,
     spReadCap = 0, spWriteCap = 0,
     spArrivals = [((V4 [127, 0, 0, 1], 9), [byte 0, byte 0, byte 0, byte 1, byte 10, byte 0, byte 0, byte 7, byte 1, byte 187] @ ''hi'')], spSent = []\<rparr>"

theorem server_read_authorised_witness:
  "allows (spAuthorization exServer) \<lparr>tgtHost = ''10.0.0.7'', tgtPort = 443\<rparr>"
proof -
  let ?d = "[byte 0, byte 0, byte 0, byte 1, byte 10, byte 0, byte 0, byte 7, byte 1, byte 187] @ ''hi''"
  have p: "parseSOCKSUDPDatagram ?d = Inr (''hi'', \<lparr>tgtHost = ''10.0.0.7'', tgtPort = 443\<rparr>)" by code_simp
  have a: "allows \<lparr>udpEnabled = True, udpActiveHosts = None\<rparr> \<lparr>tgtHost = ''10.0.0.7'', tgtPort = 443\<rparr>" by code_simp
  have "\<exists>c'. serverReadFrom 5 exServer = (Some (''hi'', (V4 [127, 0, 0, 1], 9), \<lparr>tgtHost = ''10.0.0.7'', tgtPort = 443\<rparr>), c')"
    using p a by (simp add: serverReadFrom_def exServer_def resizeSOCKSUDPReadBuffer_def resizeSOCKSUDPBuffer_def maxSOCKSUDPDatagramBytes_def
        maxSOCKSUDPEnvelopeBytes_def fromAllowed_def pinRelay_def fromRelay_def serverAccepts_def sameIP_def)
  then obtain c' where "serverReadFrom 5 exServer = (Some (''hi'', (V4 [127, 0, 0, 1], 9), \<lparr>tgtHost = ''10.0.0.7'', tgtPort = 443\<rparr>), c')" by blast
  from server_read_authorised[OF this] show ?thesis by (simp add: exServer_def maxSOCKSUDPDatagramBytes_def)
qed

end
