(* ===== verification/Log_Hub.thy ===== *)
theory Log_Hub
  imports Prelude "HOL-Library.Word"
begin

text \<open>
  The engine log hub of engine_logs.go: a ring of encoded events, subscriptions with a cursor and a
  one-slot wake channel. Every region the Go code runs under the hub's mutex is one step. A
  publisher checks the hub, encodes the event outside the lock, and appends; a subscriber tries to
  take an event and otherwise waits for its wake channel. Sequence numbers are 64-bit words.

  The specification is the list of everything that was appended: the ring refines it, a subscriber
  gets its events in order and without repetition, and one that waits while events are due has a
  wake-up pending.
\<close>

section \<open>The hub\<close>

definition engineLogRingCapacity :: nat where "engineLogRingCapacity = 1000"

record engineLogSubscription =
  subCursor :: "64 word"
  subWake :: bool
  subClosed :: bool
  subWaiting :: bool

record 'p engineLogHub =
  hubRing :: "'p option list"
  hubNext :: "64 word"
  hubClosed :: bool
  hubSubs :: "engineLogSubscription list"
  hubReaders :: "nat list"
  hubSubscribers :: int
  hubDropped :: "64 word"

definition newEngineLogHub :: "int \<Rightarrow> 'p engineLogHub" where
  "newEngineLogHub capacity =
     (let capacity = (if capacity \<le> 0 \<or> capacity > int engineLogRingCapacity then engineLogRingCapacity else nat capacity)
      in \<lparr>hubRing = replicate capacity None, hubNext = 0, hubClosed = False, hubSubs = [], hubReaders = [],
          hubSubscribers = 0, hubDropped = 0\<rparr>)"

definition HasSubscribers :: "'p engineLogHub \<Rightarrow> bool" where
  "HasSubscribers h \<longleftrightarrow> hubSubscribers h > 0"

definition hubEnabled :: "'p engineLogHub \<Rightarrow> bool" where "hubEnabled h = HasSubscribers h"

text \<open>Waking a reader is a non-blocking send on a channel of capacity one.\<close>

fun wakeReaders :: "nat list \<Rightarrow> engineLogSubscription list \<Rightarrow> engineLogSubscription list" where
  "wakeReaders [] subs = subs"
| "wakeReaders (i # is) subs = wakeReaders is (subs[i := (subs ! i)\<lparr>subWake := True\<rparr>])"

definition publishBegin :: "'p engineLogHub \<Rightarrow> bool" where
  "publishBegin h = (HasSubscribers h \<and> \<not> (hubClosed h \<or> hubSubscribers h = 0))"

definition publishAppend :: "'p \<Rightarrow> 'p engineLogHub \<Rightarrow> 'p engineLogHub" where
  "publishAppend payload h =
     (if hubClosed h then h
      else
        (let sequence = hubNext h
         in h\<lparr>hubRing := (hubRing h)[unat sequence mod length (hubRing h) := Some payload],
              hubNext := sequence + 1, hubSubs := wakeReaders (hubReaders h) (hubSubs h)\<rparr>))"

text \<open>
  \<open>encode\<close> stands for normalisation and JSON encoding: \<open>None\<close> when the event is refused or its
  encoding is longer than the limit.
\<close>

definition Publish :: "('e \<Rightarrow> 'p option) \<Rightarrow> 'e \<Rightarrow> 'p engineLogHub \<Rightarrow> 'p engineLogHub" where
  "Publish encode event h =
     (if \<not> publishBegin h then h
      else (case encode event of
              None \<Rightarrow> h\<lparr>hubDropped := hubDropped h + 1\<rparr>
            | Some payload \<Rightarrow> publishAppend payload h))"

definition Subscribe :: "'p engineLogHub \<Rightarrow> nat option \<times> 'p engineLogHub" where
  "Subscribe h =
     (if hubClosed h then (None, h)
      else (let i = length (hubSubs h)
            in (Some i, h\<lparr>hubSubs := hubSubs h @ [\<lparr>subCursor = hubNext h, subWake = False, subClosed = False, subWaiting = False\<rparr>],
                          hubReaders := hubReaders h @ [i], hubSubscribers := hubSubscribers h + 1\<rparr>)))"

datatype 'p nextResult = Delivered 'p | EndOfStream | MustWait

definition oldest :: "'p engineLogHub \<Rightarrow> 64 word" where
  "oldest h = (if hubNext h > of_nat (length (hubRing h)) then hubNext h - of_nat (length (hubRing h)) else 0)"

text \<open>The part of \<^verbatim>\<open>Next\<close> under the lock; a slot that was never written would be a nil payload.\<close>

definition nextTry :: "nat \<Rightarrow> 'p engineLogHub \<Rightarrow> 'p option nextResult \<times> 'p engineLogHub" where
  "nextTry i h =
     (let s = hubSubs h ! i
      in if subClosed s \<or> hubClosed h then (EndOfStream, h)
         else
           (let cursor = (if subCursor s < oldest h then oldest h else subCursor s)
            in if cursor < hubNext h
               then (Delivered (hubRing h ! (unat cursor mod length (hubRing h))),
                     h\<lparr>hubSubs := (hubSubs h)[i := s\<lparr>subCursor := cursor + 1\<rparr>]\<rparr>)
               else (MustWait, h\<lparr>hubSubs := (hubSubs h)[i := s\<lparr>subCursor := cursor, subWaiting := True\<rparr>]\<rparr>)))"

text \<open>Receiving from the wake channel: possible when a token is there or the channel is closed.\<close>

definition wakeReady :: "nat \<Rightarrow> 'p engineLogHub \<Rightarrow> bool" where
  "wakeReady i h = (subWake (hubSubs h ! i) \<or> subClosed (hubSubs h ! i))"

definition nextWake :: "nat \<Rightarrow> 'p engineLogHub \<Rightarrow> 'p engineLogHub" where
  "nextWake i h = h\<lparr>hubSubs := (hubSubs h)[i := (hubSubs h ! i)\<lparr>subWake := False, subWaiting := False\<rparr>]\<rparr>"

definition closeSubscription :: "nat \<Rightarrow> 'p engineLogHub \<Rightarrow> 'p engineLogHub" where
  "closeSubscription i h =
     (if subClosed (hubSubs h ! i) then h
      else h\<lparr>hubSubs := (hubSubs h)[i := (hubSubs h ! i)\<lparr>subClosed := True\<rparr>],
             hubReaders := removeAll i (hubReaders h), hubSubscribers := hubSubscribers h - 1\<rparr>)"

fun closeReaders :: "nat list \<Rightarrow> engineLogSubscription list \<Rightarrow> engineLogSubscription list" where
  "closeReaders [] subs = subs"
| "closeReaders (i # is) subs = closeReaders is (subs[i := (subs ! i)\<lparr>subClosed := True\<rparr>])"

definition closeHub :: "'p engineLogHub \<Rightarrow> 'p engineLogHub" where
  "closeHub h =
     (if hubClosed h then h
      else h\<lparr>hubClosed := True, hubSubs := closeReaders (hubReaders h) (hubSubs h), hubReaders := [], hubSubscribers := 0\<rparr>)"

section \<open>Steps and the history\<close>

text \<open>A step of the hub, with the history of appended payloads beside it.\<close>

inductive hubStep :: "'p list \<times> 'p engineLogHub \<Rightarrow> 'p list \<times> 'p engineLogHub \<Rightarrow> bool" where
  step_append: "\<not> hubClosed h \<Longrightarrow> Suc (length hist) < 2 ^ 64 \<Longrightarrow> hubStep (hist, h) (hist @ [p], publishAppend p h)"
| step_drop: "hubStep (hist, h) (hist, h\<lparr>hubDropped := d\<rparr>)"
| step_subscribe: "Subscribe h = (x, h') \<Longrightarrow> hubStep (hist, h) (hist, h')"
| step_try: "i < length (hubSubs h) \<Longrightarrow> \<not> subWaiting (hubSubs h ! i) \<Longrightarrow> nextTry i h = (x, h') \<Longrightarrow> hubStep (hist, h) (hist, h')"
| step_wake: "i < length (hubSubs h) \<Longrightarrow> subWaiting (hubSubs h ! i) \<Longrightarrow> wakeReady i h \<Longrightarrow> hubStep (hist, h) (hist, nextWake i h)"
| step_close: "i < length (hubSubs h) \<Longrightarrow> hubStep (hist, h) (hist, closeSubscription i h)"
| step_close_hub: "hubStep (hist, h) (hist, closeHub h)"

inductive hubReachable :: "int \<Rightarrow> 'p list \<times> 'p engineLogHub \<Rightarrow> bool" for capacity :: int where
  hub_start: "hubReachable capacity ([], newEngineLogHub capacity)"
| hub_step: "hubReachable capacity s \<Longrightarrow> hubStep s s' \<Longrightarrow> hubReachable capacity s'"

inductive_cases hubStep_elim: "hubStep (hist, h) (hist', h')"

definition ringHolds :: "'p list \<Rightarrow> 'p option list \<Rightarrow> bool" where
  "ringHolds hist ring \<longleftrightarrow> (\<forall>k < length hist. length hist \<le> k + length ring \<longrightarrow> ring ! (k mod length ring) = Some (hist ! k))"

definition subOK :: "64 word \<Rightarrow> engineLogSubscription \<Rightarrow> bool" where
  "subOK nxt s \<longleftrightarrow> subCursor s \<le> nxt \<and> (subWaiting s \<and> \<not> subClosed s \<and> subCursor s < nxt \<longrightarrow> subWake s)"

definition openSubs :: "engineLogSubscription list \<Rightarrow> nat list" where
  "openSubs subs = filter (\<lambda>i. \<not> subClosed (subs ! i)) [0..<length subs]"

definition hubInv :: "'p list \<times> 'p engineLogHub \<Rightarrow> bool" where
  "hubInv s = (case s of (hist, h) \<Rightarrow>
     length (hubRing h) > 0 \<and> length (hubRing h) \<le> engineLogRingCapacity \<and> unat (hubNext h) = length hist \<and>
     ringHolds hist (hubRing h) \<and> list_all (subOK (hubNext h)) (hubSubs h) \<and>
     hubReaders h = openSubs (hubSubs h) \<and> hubSubscribers h = int (length (hubReaders h)))"

lemma ringHolds_append:
  assumes "ringHolds hist ring" and "ring \<noteq> []"
  shows "ringHolds (hist @ [p]) (ring[length hist mod length ring := Some p])"
  unfolding ringHolds_def
proof (intro allI impI)
  fix k assume k: "k < length (hist @ [p])" "length (hist @ [p]) \<le> k + length (ring[length hist mod length ring := Some p])"
  let ?n = "length ring"
  show "ring[length hist mod ?n := Some p] ! (k mod length (ring[length hist mod ?n := Some p])) = Some ((hist @ [p]) ! k)"
  proof (cases "k = length hist")
    case True
    then show ?thesis using assms(2) by simp
  next
    case False
    then have lt: "k < length hist" "length hist < k + ?n" using k by auto
    have "k mod ?n \<noteq> length hist mod ?n"
    proof
      assume "k mod ?n = length hist mod ?n"
      then have "?n dvd length hist - k" using lt(1) by (metis less_imp_le_nat mod_eq_dvd_iff_nat)
      then show False using lt by (auto dest: dvd_imp_le)
    qed
    moreover have "ring ! (k mod ?n) = Some (hist ! k)" using assms(1) lt by (simp add: ringHolds_def)
    ultimately show ?thesis using lt by (simp add: nth_append)
  qed
qed


subsection \<open>Every step keeps the invariant\<close>

lemma length_wakeReaders [simp]: "length (wakeReaders is subs) = length subs"
  by (induction "is" subs rule: wakeReaders.induct) auto

lemma wakeReaders_nth:
  "k < length subs \<Longrightarrow> wakeReaders is subs ! k = (if k \<in> set is then (subs ! k)\<lparr>subWake := True\<rparr> else subs ! k)"
proof (induction "is" subs rule: wakeReaders.induct)
  case (2 i "is" subs)
  then show ?case by (cases "k = i") auto
qed simp

lemma length_closeReaders [simp]: "length (closeReaders is subs) = length subs"
  by (induction "is" subs rule: closeReaders.induct) auto

lemma closeReaders_nth:
  "k < length subs \<Longrightarrow> closeReaders is subs ! k = (if k \<in> set is then (subs ! k)\<lparr>subClosed := True\<rparr> else subs ! k)"
proof (induction "is" subs rule: closeReaders.induct)
  case (2 i "is" subs)
  then show ?case by (cases "k = i") auto
qed simp

lemma openSubs_cong:
  "length subs' = length subs \<Longrightarrow> (\<And>i. i < length subs \<Longrightarrow> subClosed (subs' ! i) = subClosed (subs ! i)) \<Longrightarrow> openSubs subs' = openSubs subs"
  by (auto simp: openSubs_def intro: filter_cong)

lemma openSubs_update:
  "i < length subs \<Longrightarrow> subClosed s = subClosed (subs ! i) \<Longrightarrow> openSubs (subs[i := s]) = openSubs subs"
  by (rule openSubs_cong) (auto simp: nth_list_update)

lemma subOK_update: "list_all (subOK n) subs \<Longrightarrow> subOK n s \<Longrightarrow> list_all (subOK n) (subs[i := s])"
  using set_update_subset_insert[of subs i s] by (auto simp: list_all_iff)

lemma hubInv_append:
  assumes "hubInv (hist, h)" and "\<not> hubClosed h" and "Suc (length hist) < 2 ^ 64"
  shows "hubInv (hist @ [p], publishAppend p h)"
proof -
  let ?subs = "wakeReaders (hubReaders h) (hubSubs h)"
  from assms(1) have inv: "length (hubRing h) > 0" "length (hubRing h) \<le> engineLogRingCapacity" "unat (hubNext h) = length hist"
      "ringHolds hist (hubRing h)" "list_all (subOK (hubNext h)) (hubSubs h)" "hubReaders h = openSubs (hubSubs h)"
      "hubSubscribers h = int (length (hubReaders h))" by (simp_all add: hubInv_def)
  have nxt: "unat (hubNext h + 1) = Suc (length hist)" using assms(3) inv(3) by (simp add: unat_word_ariths)
  have lt: "hubNext h < hubNext h + 1" using nxt inv(3) by (simp add: word_less_nat_alt)
  have "subOK (hubNext h + 1) (?subs ! k)" if k: "k < length (hubSubs h)" for k
  proof -
    have "subOK (hubNext h) (hubSubs h ! k)" using inv(5) k by (simp add: list_all_length)
    then have "subCursor (hubSubs h ! k) \<le> hubNext h + 1" using lt by (auto simp: subOK_def)
    moreover have "\<not> subClosed (hubSubs h ! k) \<Longrightarrow> subWake (?subs ! k)"
      using k inv(6) by (simp add: wakeReaders_nth openSubs_def)
    ultimately show ?thesis using k by (auto simp: subOK_def wakeReaders_nth)
  qed
  then have "list_all (subOK (hubNext h + 1)) ?subs" by (simp add: list_all_length)
  moreover have "openSubs ?subs = openSubs (hubSubs h)" by (rule openSubs_cong) (auto simp: wakeReaders_nth)
  moreover have "ringHolds (hist @ [p]) ((hubRing h)[length hist mod length (hubRing h) := Some p])"
    using ringHolds_append[OF inv(4)] inv(1) by simp
  ultimately show ?thesis using assms(2) inv nxt by (simp add: hubInv_def publishAppend_def Let_def)
qed


lemma hubInv_subscribe:
  assumes "hubInv (hist, h)" and "Subscribe h = (x, h')"
  shows "hubInv (hist, h')"
proof (cases "hubClosed h")
  case False
  let ?s = "\<lparr>subCursor = hubNext h, subWake = False, subClosed = False, subWaiting = False\<rparr>"
  have "openSubs (hubSubs h @ [?s]) = openSubs (hubSubs h) @ [length (hubSubs h)]"
    by (auto simp: openSubs_def nth_append intro: filter_cong)
  moreover have "subOK (hubNext h) ?s" by (simp add: subOK_def)
  ultimately show ?thesis using assms False by (auto simp: hubInv_def Subscribe_def Let_def)
qed (use assms in \<open>simp add: Subscribe_def\<close>)

lemma oldest_value:
  assumes "unat (hubNext h) = n" and "length (hubRing h) \<le> engineLogRingCapacity"
  shows "unat (oldest h) = n - length (hubRing h)"
proof -
  have r: "unat (of_nat (length (hubRing h)) :: 64 word) = length (hubRing h)"
    using assms(2) by (simp add: unat_of_nat engineLogRingCapacity_def)
  show ?thesis
  proof (cases "hubNext h > of_nat (length (hubRing h))")
    case True
    then show ?thesis using assms(1) r by (simp add: oldest_def unat_sub_if' word_less_nat_alt)
  next
    case False
    then show ?thesis using assms(1) r by (simp add: oldest_def word_less_nat_alt)
  qed
qed

text \<open>A try with events due delivers the right payload of the history and moves the cursor past it.\<close>

lemma nextTry_delivers:
  assumes inv: "hubInv (hist, h)" and i: "i < length (hubSubs h)" and run: "nextTry i h = (Delivered x, h')"
  shows "\<exists>k. unat (subCursor (hubSubs h ! i)) \<le> k \<and> length hist - length (hubRing h) \<le> k \<and> k < length hist \<and> x = Some (hist ! k) \<and>
    unat (subCursor (hubSubs h' ! i)) = Suc k \<and> k = max (unat (subCursor (hubSubs h ! i))) (length hist - length (hubRing h))"
proof -
  let ?s = "hubSubs h ! i"
  define cursor where "cursor = (if subCursor ?s < oldest h then oldest h else subCursor ?s)"
  have n: "unat (hubNext h) = length hist" "length (hubRing h) \<le> engineLogRingCapacity" "ringHolds hist (hubRing h)"
    using inv by (simp_all add: hubInv_def)
  have old: "unat (oldest h) = length hist - length (hubRing h)" using oldest_value n(1,2) by blast
  have c: "cursor < hubNext h" "x = hubRing h ! (unat cursor mod length (hubRing h))"
      "h' = h\<lparr>hubSubs := (hubSubs h)[i := ?s\<lparr>subCursor := cursor + 1\<rparr>]\<rparr>"
    using run by (auto simp: nextTry_def Let_def cursor_def split: if_splits)
  have k: "unat cursor = max (unat (subCursor ?s)) (length hist - length (hubRing h))"
    using old by (auto simp: cursor_def word_less_nat_alt)
  have lt: "unat cursor < length hist" using c(1) n(1) by (simp add: word_less_nat_alt)
  have "x = Some (hist ! unat cursor)" using c(2) n(3) lt k by (simp add: ringHolds_def)
  moreover have "unat (cursor + 1) = Suc (unat cursor)"
    using lt n(1) unsigned_less[of "hubNext h", where ?'a = nat] by (simp add: unat_word_ariths)
  ultimately show ?thesis using k lt c(3) i by (intro exI[of _ "unat cursor"]) auto
qed

lemma hubInv_try:
  assumes inv: "hubInv (hist, h)" and i: "i < length (hubSubs h)" and run: "nextTry i h = (x, h')"
    and idle: "\<not> subWaiting (hubSubs h ! i)"
  shows "hubInv (hist, h')"
proof -
  let ?s = "hubSubs h ! i"
  define cursor where "cursor = (if subCursor ?s < oldest h then oldest h else subCursor ?s)"
  have n: "unat (hubNext h) = length hist" "length (hubRing h) \<le> engineLogRingCapacity" using inv by (simp_all add: hubInv_def)
  have old: "oldest h \<le> hubNext h" using oldest_value[OF n] n(1) by (simp add: word_le_nat_alt)
  have s: "subOK (hubNext h) ?s" using inv i by (simp add: hubInv_def list_all_length)
  have le: "cursor \<le> hubNext h" using old s by (simp add: cursor_def subOK_def)
  consider "h' = h" | "cursor < hubNext h" "h' = h\<lparr>hubSubs := (hubSubs h)[i := ?s\<lparr>subCursor := cursor + 1\<rparr>]\<rparr>"
    | "\<not> cursor < hubNext h" "h' = h\<lparr>hubSubs := (hubSubs h)[i := ?s\<lparr>subCursor := cursor, subWaiting := True\<rparr>]\<rparr>"
    using run by (cases "subClosed ?s \<or> hubClosed h"; cases "cursor < hubNext h") (simp_all add: nextTry_def Let_def cursor_def[symmetric])
  then show ?thesis
  proof cases
    case 2
    have "cursor + 1 \<le> hubNext h" using 2(1) by (simp add: inc_le)
    then have "subOK (hubNext h) (?s\<lparr>subCursor := cursor + 1\<rparr>)" using idle by (simp add: subOK_def)
    then show ?thesis using inv 2(2) i by (simp add: hubInv_def subOK_update openSubs_update)
  next
    case 3
    then have "subOK (hubNext h) (?s\<lparr>subCursor := cursor, subWaiting := True\<rparr>)" using le by (simp add: subOK_def)
    then show ?thesis using inv 3(2) i by (simp add: hubInv_def subOK_update openSubs_update)
  qed (use inv in simp)
qed

lemma hubInv_wake:
  assumes "hubInv (hist, h)" and "i < length (hubSubs h)"
  shows "hubInv (hist, nextWake i h)"
proof -
  have "subOK (hubNext h) (hubSubs h ! i)" using assms by (simp add: hubInv_def list_all_length)
  then have "subOK (hubNext h) ((hubSubs h ! i)\<lparr>subWake := False, subWaiting := False\<rparr>)" by (simp add: subOK_def)
  then show ?thesis using assms by (simp add: hubInv_def nextWake_def subOK_update openSubs_update)
qed

lemma hubInv_close:
  assumes "hubInv (hist, h)" and "i < length (hubSubs h)"
  shows "hubInv (hist, closeSubscription i h)"
proof (cases "subClosed (hubSubs h ! i)")
  case False
  let ?s = "(hubSubs h ! i)\<lparr>subClosed := True\<rparr>"
  have "openSubs ((hubSubs h)[i := ?s]) = removeAll i (openSubs (hubSubs h))"
    using assms(2) by (auto simp: openSubs_def removeAll_filter_not_eq nth_list_update intro!: filter_cong)
  moreover have "length (removeAll i (openSubs (hubSubs h))) = length (openSubs (hubSubs h)) - 1"
    using assms(2) False distinct_remove1_removeAll[of "openSubs (hubSubs h)" i] length_remove1[of i "openSubs (hubSubs h)"]
    by (simp add: openSubs_def)
  moreover have "openSubs (hubSubs h) \<noteq> []" using assms(2) False by (auto simp: openSubs_def filter_empty_conv)
  moreover have "subOK (hubNext h) ?s" using assms by (simp add: hubInv_def list_all_length subOK_def)
  ultimately show ?thesis using assms False
    by (simp add: hubInv_def closeSubscription_def subOK_update Suc_leI of_nat_diff)
qed (use assms in \<open>simp add: closeSubscription_def\<close>)

lemma hubInv_close_hub:
  assumes "hubInv (hist, h)"
  shows "hubInv (hist, closeHub h)"
proof (cases "hubClosed h")
  case False
  let ?subs = "closeReaders (hubReaders h) (hubSubs h)"
  have r: "hubReaders h = openSubs (hubSubs h)" using assms by (simp add: hubInv_def)
  have "subClosed (?subs ! k)" if "k < length (hubSubs h)" for k
    using that by (simp add: closeReaders_nth r openSubs_def)
  then have "openSubs ?subs = []" by (simp add: openSubs_def filter_empty_conv)
  moreover have "list_all (subOK (hubNext h)) ?subs"
    using assms by (auto simp: list_all_length closeReaders_nth hubInv_def subOK_def)
  ultimately show ?thesis using assms False by (simp add: hubInv_def closeHub_def)
qed (use assms in \<open>simp add: closeHub_def\<close>)

lemma hubInv_start: "hubInv ([], newEngineLogHub capacity)"
  by (auto simp: hubInv_def newEngineLogHub_def Let_def ringHolds_def openSubs_def engineLogRingCapacity_def)

lemma hubInv_step: "hubStep s s' \<Longrightarrow> hubInv s \<Longrightarrow> hubInv s'"
proof (induction rule: hubStep.induct)
  case (step_drop hist h d)
  then show ?case by (simp add: hubInv_def)
qed (blast intro: hubInv_append hubInv_subscribe hubInv_try hubInv_wake hubInv_close hubInv_close_hub)+

lemma hubInv_reachable: "hubReachable capacity s \<Longrightarrow> hubInv s"
  by (induction rule: hubReachable.induct) (auto intro: hubInv_start hubInv_step)


section \<open>What subscribers can rely on\<close>

text \<open>A hub of two slots with one subscriber and one event.\<close>

definition exHub :: "string engineLogHub" where
  "exHub = publishAppend ''event'' (snd (Subscribe (newEngineLogHub 2)))"

lemma exHub_reachable: "hubReachable 2 ([''event''], exHub)"
proof -
  have "hubReachable 2 ([], snd (Subscribe (newEngineLogHub 2)) :: string engineLogHub)"
    by (rule hub_step[OF hub_start]) (rule step_subscribe[OF surjective_pairing])
  moreover have "\<not> hubClosed (snd (Subscribe (newEngineLogHub 2)) :: string engineLogHub)"
    by (simp add: Subscribe_def newEngineLogHub_def Let_def)
  ultimately have "hubReachable 2 ([] @ [''event''], exHub)"
    unfolding exHub_def by (intro hub_step[OF _ step_append]) simp_all
  then show ?thesis by simp
qed

text \<open>C9: A subscriber reads the published events in order, none twice and none out of place: a delivery hands
  over the event at the subscriber's cursor, or the oldest one still kept when it has fallen behind, and moves
  the cursor just past it. Only events older than the last ring-full are ever skipped.\<close>

theorem hub_delivers_in_order:
  assumes "hubReachable capacity (hist, h)" and "i < length (hubSubs h)" and "nextTry i h = (Delivered x, h')"
  shows "\<exists>k < length hist. x = Some (hist ! k) \<and> k = max (unat (subCursor (hubSubs h ! i))) (length hist - length (hubRing h)) \<and>
    unat (subCursor (hubSubs h' ! i)) = k + 1"
  using nextTry_delivers[OF hubInv_reachable[OF assms(1)] assms(2,3)] by auto

theorem hub_delivers_in_order_witness:
  "fst (nextTry 0 exHub) = Delivered (Some ''event'') \<and> unat (subCursor (hubSubs (snd (nextTry 0 exHub)) ! 0)) = 1"
proof -
  have len: "0 < length (hubSubs exHub)" by (simp add: exHub_def publishAppend_def Subscribe_def newEngineLogHub_def Let_def)
  have fst: "fst (nextTry 0 exHub) = Delivered (Some ''event'')"
    by (simp add: nextTry_def exHub_def publishAppend_def Subscribe_def newEngineLogHub_def Let_def oldest_def engineLogRingCapacity_def)
  then have "nextTry 0 exHub = (Delivered (Some ''event''), snd (nextTry 0 exHub))" by (simp add: prod_eq_iff)
  from hub_delivers_in_order[OF exHub_reachable len this] fst show ?thesis by auto
qed


definition exWaiting :: "string engineLogHub" where
  "exWaiting = publishAppend ''event'' (snd (nextTry 0 (snd (Subscribe (newEngineLogHub 2)))))"

lemma exWaiting_reachable: "hubReachable 2 ([''event''], exWaiting)"
proof -
  let ?h = "snd (Subscribe (newEngineLogHub 2)) :: string engineLogHub"
  have "hubReachable 2 ([], ?h)" by (rule hub_step[OF hub_start]) (rule step_subscribe[OF surjective_pairing])
  then have "hubReachable 2 ([], snd (nextTry 0 ?h))"
    by (rule hub_step) (rule step_try[OF _ _ surjective_pairing]; simp add: Subscribe_def newEngineLogHub_def Let_def)
  moreover have "\<not> hubClosed (snd (nextTry 0 ?h))"
    by (simp add: nextTry_def Subscribe_def newEngineLogHub_def Let_def oldest_def engineLogRingCapacity_def)
  ultimately have "hubReachable 2 ([] @ [''event''], exWaiting)"
    unfolding exWaiting_def by (intro hub_step[OF _ step_append]) simp_all
  then show ?thesis by simp
qed


text \<open>The subscriber count is exact in every reachable state: it is the number of subscriptions that are still
  open, so producers are switched on exactly while somebody listens, and it never goes below zero.\<close>

theorem hub_counts_subscribers:
  assumes "hubReachable capacity (hist, h)"
  shows "hubSubscribers h = int (length (filter (\<lambda>s. \<not> subClosed s) (hubSubs h))) \<and>
    hubEnabled h = (\<exists>s\<in>set (hubSubs h). \<not> subClosed s)"
proof -
  have "hubReaders h = openSubs (hubSubs h)" "hubSubscribers h = int (length (hubReaders h))"
    using hubInv_reachable[OF assms] by (simp_all add: hubInv_def)
  moreover have "length (openSubs subs) = length (filter (\<lambda>s. \<not> subClosed s) subs)" for subs
  proof -
    have "filter (\<lambda>s. \<not> subClosed s) subs = filter (\<lambda>s. \<not> subClosed s) (map ((!) subs) [0..<length subs])"
      by (simp only: map_nth)
    then show ?thesis by (simp add: filter_map o_def openSubs_def)
  qed
  ultimately show ?thesis
    by (auto simp: hubEnabled_def HasSubscribers_def filter_empty_conv)
qed

theorem hub_counts_subscribers_witness: "hubSubscribers exHub = int (length (filter (\<lambda>s. \<not> subClosed s) (hubSubs exHub)))"
  using hub_counts_subscribers[OF exHub_reachable] by blast

end
