(* ===== verification/Declarative.thy ===== *)
theory Declarative
  imports Config_Types
begin

text \<open>
  The declarative actions of module_mock.go and module_rewrite.go: a fixed reply, header edits, a
  URL rewrite and a body replacement, each with the check its declaration has to pass and the
  function that runs it, and the substitution of setting values into a replacement template.

  Regular expressions, base64 and the text of a decoded number belong to the Go library and are
  arguments, collected in \<open>externs\<close>. A template is expanded the way \<^verbatim>\<open>Regexp.Expand\<close> documents it,
  with the characters of a group name taken from ASCII.
\<close>

section \<open>What the code takes from other packages\<close>

record parsedURL =
  urlScheme :: string
  urlOpaque :: string
  urlUser :: "string option"
  urlHost :: string
  urlPath :: string
  urlRawQuery :: string
  urlForceQuery :: bool
  urlFragment :: string

text \<open>
  \<open>xJSON\<close> reads a text that holds exactly one JSON value; \<open>xNum\<close> is the value of a number literal
  as a \<^verbatim>\<open>float64\<close>, absent when it is out of range; \<open>xText\<close> is the text of a number, array or object; \<open>xFind\<close> gives the leftmost match of a pattern
  as the text of its groups; \<open>xSegments\<close> cuts a body into the matches, each with the text before
  it, and the text after the last one.
\<close>

record externs =
  xSHA :: "string \<Rightarrow> string"
  xJSON :: "string \<Rightarrow> json option"
  xNum :: "string \<Rightarrow> rat option"
  xTime :: "string \<Rightarrow> bool"
  xURL :: "string \<Rightarrow> parsedURL option"
  xEscapedPath :: "parsedURL \<Rightarrow> string"
  xRegexp :: "string \<Rightarrow> bool"
  xMatches :: "string \<Rightarrow> string \<Rightarrow> bool"
  xFind :: "string \<Rightarrow> string \<Rightarrow> (string \<Rightarrow> string) option"
  xSegments :: "string \<Rightarrow> string \<Rightarrow> (string \<times> (string \<Rightarrow> string)) list \<times> string"
  xGoja :: "string \<Rightarrow> string \<Rightarrow> bool"
  xJQ :: "string \<Rightarrow> bool"
  xBase64 :: "string \<Rightarrow> string option"
  xText :: "json \<Rightarrow> string"

section \<open>Header fields (net/http)\<close>

type_synonym headers = "(string \<times> string list) list"

definition isTokenByte :: "char \<Rightarrow> bool" where
  "isTokenByte c \<longleftrightarrow> is_digit c \<or> (65 \<le> code c \<and> code c \<le> 90) \<or> (97 \<le> code c \<and> code c \<le> 122) \<or>
     code c \<in> {33, 35, 36, 37, 38, 39, 42, 43, 45, 46, 94, 95, 96, 124, 126}"

definition upper_char :: "char \<Rightarrow> char" where
  "upper_char c = (if 97 \<le> code c \<and> code c \<le> 122 then char_of (code c - 32) else c)"

fun capitalise :: "bool \<Rightarrow> string \<Rightarrow> string" where
  "capitalise up [] = []"
| "capitalise up (c # cs) = (if up then upper_char c else lower_char c) # capitalise (c = CHR ''-'') cs"

definition canonicalKey :: "string \<Rightarrow> string" where
  "canonicalKey s = (if list_all isTokenByte s then capitalise True s else s)"

definition headerDel :: "string \<Rightarrow> headers \<Rightarrow> headers" where
  "headerDel name h = AList.delete (canonicalKey name) h"

definition headerSet :: "string \<Rightarrow> string \<Rightarrow> headers \<Rightarrow> headers" where
  "headerSet name value h = AList.update (canonicalKey name) [value] h"

definition headerValues :: "string \<Rightarrow> headers \<Rightarrow> string list" where
  "headerValues name h = (case map_of h (canonicalKey name) of None \<Rightarrow> [] | Some vs \<Rightarrow> vs)"

section \<open>Messages and results (module_runtime.go)\<close>

record scriptMessage =
  msgURL :: string
  msgMethod :: string
  msgHeaders :: headers
  msgTrailers :: headers
  msgBody :: string
  msgStatusCode :: int

record scriptResult =
  resURL :: string
  resHeaders :: headers
  resTrailers :: headers
  resBody :: string
  resStatusCode :: int
  resSynthetic :: bool
  resAbort :: bool
  resChangedURL :: bool
  resChangedBody :: bool
  resChangedHeaders :: bool
  resChangedTrailers :: bool
  resChangedStatus :: bool

definition noResult :: scriptResult where
  "noResult = \<lparr>resURL = [], resHeaders = [], resTrailers = [], resBody = [], resStatusCode = 0,
     resSynthetic = False, resAbort = False, resChangedURL = False, resChangedBody = False,
     resChangedHeaders = False, resChangedTrailers = False, resChangedStatus = False\<rparr>"

section \<open>Declarations and their checks\<close>

datatype action_error =
    MockStatusInvalid | MockTwoBodies | MockTooManyHeaders | MockHeaderName | MockHeaderNewline
  | MockNotBase64 | MockBodyTooLong
  | EditsEmpty | EditsTooMany | EditHeaderName | EditHeaderNewline
  | RewriteStatusInvalid | RewriteTargetLength | RewritePatternLength | RewritePatternInvalid
  | ReplacePatternLength | ReplaceTargetLength | ReplacePatternInvalid | ReplaceMatchesEmpty
  | NoResponse | RewrittenURLLength | BodyTooLong | SettingsUndecodable

text \<open>The first error of a sequence of checks, in the order the code runs them.\<close>

fun firstError :: "'e option list \<Rightarrow> 'e option" where
  "firstError [] = None"
| "firstError (c # cs) = (case c of Some e \<Rightarrow> Some e | None \<Rightarrow> firstError cs)"

definition check :: "bool \<Rightarrow> 'e \<Rightarrow> 'e option" where
  "check bad e = (if bad then Some e else None)"

definition httpTokenName :: "string \<Rightarrow> bool" where
  "httpTokenName name =
     list_all (\<lambda>r. \<not> (code r \<le> 32 \<or> code r \<ge> 127 \<or>
       r \<in> set '':()<>@,;/[]?={}'' \<or> code r = 92 \<or> code r = 34)) name"

definition hasNewline :: "string \<Rightarrow> bool" where
  "hasNewline v = list_ex (\<lambda>c. code c = 13 \<or> code c = 10) v"

definition maxMockBodyBytes :: nat where "maxMockBodyBytes = 2 ^ 20"
definition maxMockHeaderFields :: nat where "maxMockHeaderFields = 32"
definition maxHeaderEdits :: nat where "maxHeaderEdits = 32"
definition maxRewriteURLBytes :: nat where "maxRewriteURLBytes = 4096"
definition maxReplaceBodyBytes :: nat where "maxReplaceBodyBytes = 8 * 2 ^ 20"
definition maxReplacePatternLen :: nat where "maxReplacePatternLen = 1024"

definition mockBytes :: "externs \<Rightarrow> MockResponse \<Rightarrow> action_error + string" where
  "mockBytes x m =
     (if mockBase64Body m = [] then Inr (mockBody m)
      else (case xBase64 x (mockBase64Body m) of None \<Rightarrow> Inl MockNotBase64 | Some b \<Rightarrow> Inr b))"

definition validateMock :: "externs \<Rightarrow> MockResponse option \<Rightarrow> action_error option" where
  "validateMock x mo =
     (case mo of
        None \<Rightarrow> None
      | Some m \<Rightarrow> firstError
         ([check (mockStatus m \<noteq> 0 \<and> (mockStatus m < 100 \<or> mockStatus m > 599)) MockStatusInvalid,
           check (mockBody m \<noteq> [] \<and> mockBase64Body m \<noteq> []) MockTwoBodies,
           check (length (mockHeaders m) > maxMockHeaderFields) MockTooManyHeaders] @
          concat (map (\<lambda>(name, value).
            [check (trim_space name = [] \<or> \<not> httpTokenName name) MockHeaderName,
             check (hasNewline value) MockHeaderNewline]) (mockHeaders m)) @
          [case mockBytes x m of
             Inl e \<Rightarrow> Some e
           | Inr body \<Rightarrow> check (length body > maxMockBodyBytes) MockBodyTooLong]))"

definition validateHeaderEdits :: "HeaderEdits option \<Rightarrow> action_error option" where
  "validateHeaderEdits ho =
     (case ho of
        None \<Rightarrow> None
      | Some h \<Rightarrow> firstError
         ([check (length (editSet h) + length (editRemove h) = 0) EditsEmpty,
           check (length (editSet h) + length (editRemove h) > maxHeaderEdits) EditsTooMany] @
          concat (map (\<lambda>(name, value).
            [check (\<not> httpTokenName name) EditHeaderName, check (hasNewline value) EditHeaderNewline]) (editSet h)) @
          map (\<lambda>name. check (\<not> httpTokenName name) EditHeaderName) (editRemove h)))"

text \<open>
  The two checks that compile a pattern leave the compiled pattern in the declaration; they
  return it with that field set.
\<close>

definition validateRewrite :: "externs \<Rightarrow> URLRewrite \<Rightarrow> action_error + URLRewrite" where
  "validateRewrite x r =
     (case firstError
        [check (rwStatus r \<noteq> 0 \<and> rwStatus r \<noteq> 302 \<and> rwStatus r \<noteq> 307) RewriteStatusInvalid,
         check (length (rwTo r) = 0 \<or> length (rwTo r) > maxRewriteURLBytes) RewriteTargetLength,
         check (length (rwPattern r) > maxReplacePatternLen) RewritePatternLength,
         check (\<not> xRegexp x (rwPattern r)) RewritePatternInvalid] of
        Some e \<Rightarrow> Inl e
      | None \<Rightarrow> Inr (r\<lparr>rwCompiled := Some (Regexp (rwPattern r))\<rparr>))"

definition validateBodyReplace :: "externs \<Rightarrow> BodyReplace \<Rightarrow> action_error + BodyReplace" where
  "validateBodyReplace x b =
     (case firstError
        [check (length (brPattern b) = 0 \<or> length (brPattern b) > maxReplacePatternLen) ReplacePatternLength,
         check (length (brTo b) > maxRewriteURLBytes) ReplaceTargetLength,
         check (\<not> xRegexp x (brPattern b)) ReplacePatternInvalid,
         check (xMatches x (brPattern b) []) ReplaceMatchesEmpty] of
        Some e \<Rightarrow> Inl e
      | None \<Rightarrow> Inr (b\<lparr>brCompiled := Some (Regexp (brPattern b))\<rparr>))"

definition errorOf :: "'e + 'a \<Rightarrow> 'e option" where
  "errorOf r = (case r of Inl e \<Rightarrow> Some e | Inr _ \<Rightarrow> None)"

section \<open>Setting values\<close>

type_synonym settings = "(string \<times> json) list"

text \<open>\<^verbatim>\<open>compatArgumentText\<close>.\<close>

definition compatArgumentText :: "externs \<Rightarrow> json \<Rightarrow> string" where
  "compatArgumentText x v =
     (case v of
        JNull \<Rightarrow> []
      | JStr s \<Rightarrow> s
      | JBool b \<Rightarrow> (if b then ''true'' else ''false'')
      | _ \<Rightarrow> xText x v)"

text \<open>The values of a module's settings, keyed by the setting; a later setting overwrites.\<close>

fun settingValues :: "externs \<Rightarrow> ModuleSetting list \<Rightarrow> settings \<Rightarrow> settings option" where
  "settingValues x [] values = Some values"
| "settingValues x (s # ss) values =
     (if setValue s = [] then settingValues x ss values
      else (case xJSON x (setValue s) of
              None \<Rightarrow> None
            | Some v \<Rightarrow> settingValues x ss (AList.update (setKey s) v values)))"

definition moduleSettingValues :: "externs \<Rightarrow> Module \<Rightarrow> settings option" where
  "moduleSettingValues x m = settingValues x (modSettings m) []"

definition scriptSettingValuesReadOnly :: "externs \<Rightarrow> Module \<Rightarrow> ScriptRule \<Rightarrow> settings option" where
  "scriptSettingValuesReadOnly x m rule =
     (case ruleSettings rule of Some s \<Rightarrow> Some s | None \<Rightarrow> moduleSettingValues x m)"

section \<open>Templates\<close>

text \<open>\<^verbatim>\<open>strings.Index\<close>.\<close>

fun index_sub :: "string \<Rightarrow> string \<Rightarrow> nat option" where
  "index_sub [] p = (if p = [] then Some 0 else None)"
| "index_sub (c # cs) p = (if has_prefix (c # cs) p then Some 0 else map_option Suc (index_sub cs p))"

definition settingOpen :: string where "settingOpen = ''{{settings.''"

definition escapeDollars :: "string \<Rightarrow> string" where
  "escapeDollars v = concat (map (\<lambda>c. if c = CHR ''$'' then ''$$'' else [c]) v)"

text \<open>The text a key stands for: the setting's value, through the action's value map if it has one.\<close>

definition substitution :: "externs \<Rightarrow> (string \<times> (string \<times> string) list) list \<Rightarrow> settings \<Rightarrow> string \<Rightarrow> string option" where
  "substitution x valueMap settings key =
     (case map_of settings key of
        None \<Rightarrow> None
      | Some raw \<Rightarrow>
          (let value = compatArgumentText x raw
           in case map_of valueMap key of
                None \<Rightarrow> Some value
              | Some mapping \<Rightarrow> map_of mapping value))"

lemma index_sub_less: "index_sub s p = Some i \<Longrightarrow> p \<noteq> [] \<Longrightarrow> i < length s"
  by (induction s arbitrary: i) (auto split: if_splits)

function expandSettingsTemplate :: "(string \<Rightarrow> string option) \<Rightarrow> string \<Rightarrow> string option" where
  "expandSettingsTemplate subst rest =
     (case index_sub rest settingOpen of
        None \<Rightarrow> Some rest
      | Some start \<Rightarrow>
          (case index_sub (drop start rest) ''}}'' of
             None \<Rightarrow> Some rest
           | Some e \<Rightarrow>
               (case subst (take (e - 11) (drop (start + 11) rest)) of
                  None \<Rightarrow> None
                | Some value \<Rightarrow>
                    map_option (\<lambda>tail. take start rest @ escapeDollars value @ tail)
                      (expandSettingsTemplate subst (drop (start + e + 2) rest)))))"
  by pat_completeness auto
termination
proof (relation "measure (\<lambda>(subst, rest). length rest)")
  fix subst :: "string \<Rightarrow> string option" and rest :: string and start e v
  assume "index_sub rest settingOpen = Some start"
  then have "start < length rest" by (rule index_sub_less) (simp add: settingOpen_def)
  then show "((subst, drop (start + e + 2) rest), subst, rest) \<in> measure (\<lambda>(subst, rest). length rest)"
    by simp
qed simp

declare expandSettingsTemplate.simps [simp del]

section \<open>Expansion of a replacement (regexp.Expand)\<close>

definition nameByte :: "char \<Rightarrow> bool" where
  "nameByte c \<longleftrightarrow> is_digit c \<or> (65 \<le> code c \<and> code c \<le> 90) \<or> (97 \<le> code c \<and> code c \<le> 122) \<or> c = CHR ''_''"

text \<open>The group reference a text after a dollar begins with, and what follows it.\<close>

definition extractName :: "string \<Rightarrow> (string \<times> string) option" where
  "extractName s =
     (let brace = (s \<noteq> [] \<and> hd s = CHR ''{'');
          str = (if brace then tl s else s);
          name = takeWhile nameByte str;
          rest = dropWhile nameByte str
      in if name = [] then None
         else if brace then (case rest of c # rest' \<Rightarrow> if c = CHR ''}'' then Some (name, rest') else None | [] \<Rightarrow> None)
         else Some (name, rest))"

lemma length_dropWhile: "length (dropWhile p xs) \<le> length xs"
  by (rule length_dropWhile_le)

lemma extractName_shorter: "extractName s = Some (name, rest) \<Longrightarrow> length rest < length s"
proof -
  have tw: "length (dropWhile nameByte str) < length str" if "takeWhile nameByte str \<noteq> []" for str
    using that by (cases str) (auto simp: length_dropWhile le_imp_less_Suc split: if_splits)
  assume "extractName s = Some (name, rest)"
  then show ?thesis using tw[of s] tw[of "tl s"]
    by (cases s) (auto simp: extractName_def Let_def split: if_splits list.splits)
qed

function expandTemplate :: "(string \<Rightarrow> string) \<Rightarrow> string \<Rightarrow> string" where
  "expandTemplate grp [] = []"
| "expandTemplate grp (c # cs) =
     (if c \<noteq> CHR ''$'' then c # expandTemplate grp cs
      else if cs \<noteq> [] \<and> hd cs = CHR ''$'' then CHR ''$'' # expandTemplate grp (tl cs)
      else (case extractName cs of
              None \<Rightarrow> CHR ''$'' # expandTemplate grp cs
            | Some (name, rest) \<Rightarrow> grp name @ expandTemplate grp rest))"
  by pat_completeness auto
termination
  by (relation "measure (\<lambda>(grp, s). length s)") (auto dest: extractName_shorter simp: less_Suc_eq)

declare expandTemplate.simps(2) [simp del]

definition replaceAll :: "externs \<Rightarrow> string \<Rightarrow> string \<Rightarrow> string \<Rightarrow> string" where
  "replaceAll x pattern body template =
     (case xSegments x pattern body of
        (segs, tail) \<Rightarrow> concat (map (\<lambda>(before, grp). before @ expandTemplate grp template) segs) @ tail)"

section \<open>Running the actions\<close>

definition executeMock :: "externs \<Rightarrow> MockResponse \<Rightarrow> bool \<Rightarrow> action_error + scriptResult" where
  "executeMock x m responsePhase =
     (case mockBytes x m of
        Inl e \<Rightarrow> Inl e
      | Inr body \<Rightarrow>
          (let hs = fold (\<lambda>(name, value). headerSet name value) (mockHeaders m) []
           in Inr (noResult\<lparr>resBody := body, resStatusCode := (if mockStatus m = 0 then 200 else mockStatus m),
                resHeaders := hs, resSynthetic := \<not> responsePhase, resChangedBody := True,
                resChangedStatus := True, resChangedHeaders := (hs \<noteq> [])\<rparr>)))"

text \<open>\<open>editSet\<close> lists the map in the order it is iterated.\<close>

definition applyHeaderEdits :: "HeaderEdits \<Rightarrow> headers \<Rightarrow> headers" where
  "applyHeaderEdits edits current =
     fold (\<lambda>(name, value). headerSet name value) (editSet edits) (fold headerDel (editRemove edits) current)"

definition executeHeaderEdits :: "ScriptRule \<Rightarrow> HeaderEdits \<Rightarrow> scriptMessage \<Rightarrow> scriptMessage option \<Rightarrow> action_error + scriptResult" where
  "executeHeaderEdits rule edits request response =
     (if rulePhase rule = ''response'' then
        (case response of
           None \<Rightarrow> Inl NoResponse
         | Some r \<Rightarrow> Inr (noResult\<lparr>resHeaders := applyHeaderEdits edits (msgHeaders r), resChangedHeaders := True\<rparr>))
      else Inr (noResult\<lparr>resHeaders := applyHeaderEdits edits (msgHeaders request), resChangedHeaders := True\<rparr>))"

definition compiledRewrite :: "externs \<Rightarrow> URLRewrite \<Rightarrow> action_error + URLRewrite" where
  "compiledRewrite x r = (if rwCompiled r = None then validateRewrite x r else Inr r)"

definition redirectTo :: "int \<Rightarrow> string \<Rightarrow> scriptResult" where
  "redirectTo status target =
     noResult\<lparr>resStatusCode := status, resHeaders := headerSet ''Location'' target [], resSynthetic := True,
       resChangedStatus := True, resChangedHeaders := True, resChangedBody := True\<rparr>"

definition executeRewrite :: "externs \<Rightarrow> ScriptRule \<Rightarrow> Module \<Rightarrow> URLRewrite \<Rightarrow> scriptMessage \<Rightarrow> action_error + scriptResult" where
  "executeRewrite x rule m rw request =
     (case compiledRewrite x rw of
        Inl e \<Rightarrow> Inl e
      | Inr r \<Rightarrow>
          (case xFind x (rwPattern r) (msgURL request) of
             None \<Rightarrow> Inr noResult
           | Some grp \<Rightarrow>
               (case scriptSettingValuesReadOnly x m rule of
                  None \<Rightarrow> Inl SettingsUndecodable
                | Some settings \<Rightarrow>
                    (case expandSettingsTemplate (substitution x [] settings) (rwTo r) of
                       None \<Rightarrow> Inr noResult
                     | Some to \<Rightarrow>
                         (let target = expandTemplate grp to
                          in if length target = 0 \<or> length target > maxRewriteURLBytes then Inl RewrittenURLLength
                             else if rwStatus r = 0 then Inr (noResult\<lparr>resURL := target, resChangedURL := True\<rparr>)
                             else Inr (redirectTo (rwStatus r) target))))))"

definition messageBody :: "ScriptRule \<Rightarrow> scriptMessage \<Rightarrow> scriptMessage option \<Rightarrow> action_error + string" where
  "messageBody rule request response =
     (if rulePhase rule = ''response''
      then (case response of None \<Rightarrow> Inl NoResponse | Some r \<Rightarrow> Inr (msgBody r))
      else Inr (msgBody request))"

definition executeBodyReplace ::
    "externs \<Rightarrow> ScriptRule \<Rightarrow> Module \<Rightarrow> BodyReplace \<Rightarrow> scriptMessage \<Rightarrow> scriptMessage option \<Rightarrow> action_error + scriptResult" where
  "executeBodyReplace x rule m br request response =
     (case (if brCompiled br = None then validateBodyReplace x br else Inr br) of
        Inl e \<Rightarrow> Inl e
      | Inr b \<Rightarrow>
          (case messageBody rule request response of
             Inl e \<Rightarrow> Inl e
           | Inr body \<Rightarrow>
               (if length body > maxReplaceBodyBytes then Inl BodyTooLong
                else (case scriptSettingValuesReadOnly x m rule of
                        None \<Rightarrow> Inl SettingsUndecodable
                      | Some settings \<Rightarrow>
                          (case expandSettingsTemplate (substitution x (brValueMap b) settings) (brTo b) of
                             None \<Rightarrow> Inr noResult
                           | Some template \<Rightarrow>
                               (if \<not> xMatches x (brPattern b) body then Inr noResult
                                else Inr (noResult\<lparr>resBody := replaceAll x (brPattern b) body template,
                                       resChangedBody := True\<rparr>)))))))"

end
