(* ===== verification/Declarative_Properties.thy ===== *)
theory Declarative_Properties
  imports Declarative
begin

text \<open>
  What the declarative actions guarantee: a setting value substituted into a replacement comes out
  as the text the operator wrote, as long as the template does not put it directly behind an
  unfinished group reference, and header edits remove, set and keep exactly the fields they name.
\<close>

section \<open>Occurrences of the placeholder\<close>

lemma length_settingOpen [simp]: "length settingOpen = 11"
  by (simp add: settingOpen_def)

lemma settingOpen_dot: "i < 11 \<Longrightarrow> settingOpen ! i = CHR ''.'' \<longleftrightarrow> i = 10"
  by (auto simp: settingOpen_def nth_Cons split: nat.splits)

lemma index_sub_append_self [simp]: "index_sub (p @ s) p = Some 0"
  by (cases "p @ s") (simp_all add: has_prefix_def, metis append_eq_conv_conj)

lemma settingOpen_no_overlap:
  assumes "has_prefix (p @ settingOpen @ s) settingOpen" "p \<noteq> []"
  shows "has_prefix p settingOpen"
proof (cases "length p \<ge> 11")
  case True
  then show ?thesis using assms by (simp add: has_prefix_def)
next
  case False
  then have n: "0 < length p" "length p < 11" using assms(2) by auto
  have "settingOpen ! 10 = take 11 (p @ settingOpen @ s) ! 10" using assms(1) by (simp add: has_prefix_def)
  moreover have "take 11 (p @ settingOpen @ s) ! 10 = (p @ settingOpen @ s) ! 10" by (rule nth_take) simp
  ultimately have "settingOpen ! 10 = (p @ settingOpen @ s) ! 10" by (rule trans)
  also have "\<dots> = settingOpen ! (10 - length p)" using n by (auto simp: nth_append)
  finally have "settingOpen ! (10 - length p) = CHR ''.''" using settingOpen_dot[of 10] by simp
  then have "10 - length p = 10" using settingOpen_dot[of "10 - length p"] by simp
  then show ?thesis using n by linarith
qed

lemma index_sub_settingOpen:
  "index_sub p settingOpen = None \<Longrightarrow> index_sub (p @ settingOpen @ s) settingOpen = Some (length p)"
proof (induction p)
  case (Cons c cs)
  have "\<not> has_prefix (c # cs) settingOpen" "index_sub cs settingOpen = None"
    using Cons.prems by (auto split: if_splits)
  then have "\<not> has_prefix ((c # cs) @ settingOpen @ s) settingOpen"
    using settingOpen_no_overlap[of "c # cs" s] by blast
  then show ?case using Cons.IH \<open>index_sub cs settingOpen = None\<close> by simp
qed simp

lemma index_sub_close: "CHR ''}'' \<notin> set k \<Longrightarrow> index_sub (k @ ''}}'' @ s) ''}}'' = Some (length k)"
  by (induction k) (auto simp: has_prefix_def)

lemma index_sub_close_open:
  assumes "CHR ''}'' \<notin> set k"
  shows "index_sub (settingOpen @ k @ ''}}'' @ s) ''}}'' = Some (11 + length k)"
  using index_sub_close[of "settingOpen @ k" s] assms by (simp add: settingOpen_def)

section \<open>One placeholder at a time\<close>

lemma expandSettingsTemplate_tail:
  "index_sub s settingOpen = None \<Longrightarrow> expandSettingsTemplate subst s = Some s"
  by (subst expandSettingsTemplate.simps) simp

lemma expandSettingsTemplate_step:
  assumes "index_sub p settingOpen = None" "CHR ''}'' \<notin> set k" "subst k = Some v"
  shows "expandSettingsTemplate subst (p @ settingOpen @ k @ ''}}'' @ s) =
           map_option (\<lambda>tail. p @ escapeDollars v @ tail) (expandSettingsTemplate subst s)"
  using index_sub_settingOpen[OF assms(1), of "k @ ''}}'' @ s"] index_sub_close_open[OF assms(2), of s] assms(3)
  by (subst expandSettingsTemplate.simps) simp

section \<open>Expansion of the parts\<close>

lemma expandTemplate_escape: "expandTemplate g (escapeDollars v @ s) = v @ expandTemplate g s"
  by (induction v) (auto simp: escapeDollars_def expandTemplate.simps(2))

text \<open>A literal that ends inside a group reference, so that text put behind it would extend the name.\<close>

definition openEnd :: "string \<Rightarrow> bool" where
  "openEnd p =
     (let r = dropWhile nameByte (rev p)
      in r \<noteq> [] \<and> (hd r = CHR ''$'' \<or> hd r = CHR ''{'' \<and> tl r \<noteq> [] \<and> hd (tl r) = CHR ''$''))"

lemma openEnd_iff: "openEnd p \<longleftrightarrow> (\<exists>a n. list_all nameByte n \<and> (p = a @ ''$'' @ n \<or> p = a @ ''${'' @ n))"
proof
  define r n where "r = dropWhile nameByte (rev p)" and "n = rev (takeWhile nameByte (rev p))"
  assume "openEnd p"
  then consider y where "r = CHR ''$'' # y" | y where "r = CHR ''{'' # CHR ''$'' # y"
    unfolding openEnd_def Let_def r_def[symmetric] by (metis list.collapse)
  moreover have "p = rev r @ n" unfolding r_def n_def by (metis rev_append rev_rev_ident takeWhile_dropWhile_id)
  moreover have "list_all nameByte n" unfolding n_def list_all_iff by (metis set_rev set_takeWhileD)
  ultimately show "\<exists>a n. list_all nameByte n \<and> (p = a @ ''$'' @ n \<or> p = a @ ''${'' @ n)"
  proof cases
    case (1 y)
    then have "p = rev y @ ''$'' @ n" using \<open>p = rev r @ n\<close> by simp
    then show ?thesis using \<open>list_all nameByte n\<close> by blast
  next
    case (2 y)
    then have "p = rev y @ ''${'' @ n" using \<open>p = rev r @ n\<close> by simp
    then show ?thesis using \<open>list_all nameByte n\<close> by blast
  qed
next
  assume "\<exists>a n. list_all nameByte n \<and> (p = a @ ''$'' @ n \<or> p = a @ ''${'' @ n)"
  then obtain a n where n: "list_all nameByte n" and p: "p = a @ ''$'' @ n \<or> p = a @ ''${'' @ n" by blast
  have "dropWhile nameByte (rev n @ s) = dropWhile nameByte s" for s
    using n by (intro dropWhile_append2) (simp add: list_all_iff)
  then show "openEnd p" using p by (auto simp: openEnd_def nameByte_def is_digit_def code_def)
qed

lemma openEnd_suffix: "openEnd s \<Longrightarrow> openEnd (t @ s)"
  by (metis append.assoc openEnd_iff)

lemma extractName_append:
  assumes "extractName s = r" "\<not> openEnd (CHR ''$'' # s)" "s \<noteq> []"
  shows "extractName (s @ v) = map_option (\<lambda>(name, rest). (name, rest @ v)) r"
proof -
  define str where "str = (if hd s = CHR ''{'' then tl s else s)"
  have ne: "dropWhile nameByte str \<noteq> []"
  proof
    assume "dropWhile nameByte str = []"
    then have "list_all nameByte str" by (simp add: list_all_iff dropWhile_eq_Nil_conv)
    then have "openEnd (''$'' @ str)" "openEnd (''${'' @ str)" by (metis append_Nil openEnd_iff)+
    moreover have "s = str \<or> s = CHR ''{'' # str" using assms(3) by (cases s) (simp_all add: str_def)
    ultimately have "openEnd (CHR ''$'' # s)" by auto
    then show False using assms(2) by simp
  qed
  then obtain y where "y \<in> set str" "\<not> nameByte y" by (auto simp: dropWhile_eq_Nil_conv)
  then have tw: "takeWhile nameByte (str @ v) = takeWhile nameByte str" "dropWhile nameByte (str @ v) = dropWhile nameByte str @ v"
    by (simp_all add: takeWhile_append1 dropWhile_append1)
  obtain c rest where dw: "dropWhile nameByte str = c # rest" using ne by (cases "dropWhile nameByte str") auto
  have "dropWhile nameByte (str @ v) = c # rest @ v" using tw(2) dw by simp
  moreover have "hd (s @ v) = hd s" "tl (s @ v) = tl s @ v" using assms(3) by simp_all
  moreover note facts = tw(1) dw calculation
  show ?thesis
  proof (cases "hd s = CHR ''{''")
    case True
    then have "str = tl s" by (simp add: str_def)
    then show ?thesis using facts True assms(3) unfolding assms(1)[symmetric] extractName_def Let_def by simp
  next
    case False
    then have "str = s" by (simp add: str_def)
    then show ?thesis using facts False assms(3) unfolding assms(1)[symmetric] extractName_def Let_def by simp
  qed
qed

lemma expandTemplate_append: "\<not> openEnd p \<Longrightarrow> expandTemplate g (p @ s) = expandTemplate g p @ expandTemplate g s"
proof (induction g p rule: expandTemplate.induct)
  case (2 g c cs)
  have sub: "\<not> openEnd t" if "c # cs = u @ t" for u t using 2(5) that openEnd_suffix by metis
  consider "c \<noteq> CHR ''$''" | "c = CHR ''$''" "cs \<noteq> []" "hd cs = CHR ''$''"
    | "c = CHR ''$''" "cs \<noteq> []" "hd cs \<noteq> CHR ''$''" | "c = CHR ''$''" "cs = []" by blast
  then show ?case
  proof cases
    case 1
    then show ?thesis using 2(1) sub[of "[c]" cs] by (simp add: expandTemplate.simps(2))
  next
    case 2
    then obtain ds where "cs = CHR ''$'' # ds" by (cases cs) auto
    then show ?thesis using "2.IH"(2) 2 sub[of "[c, CHR ''$'']" ds] by (simp add: expandTemplate.simps(2))
  next
    case 3
    note ext = extractName_append[OF refl, of cs s, OF _ 3(2)]
    show ?thesis
    proof (cases "extractName cs")
      case None
      then show ?thesis using "2.IH"(3) 3 ext 2(5) sub[of "[c]" cs] by (simp add: expandTemplate.simps(2))
    next
      case (Some nr)
      then obtain name rest where nr: "extractName cs = Some (name, rest)" by (cases nr) auto
      obtain u where "cs = u @ rest" using nr
        by (auto simp: extractName_def Let_def split: if_splits list.splits)
           (metis append_Cons append_assoc list.collapse append_Nil takeWhile_dropWhile_id)+
      then have "\<not> openEnd rest" using sub[of "c # u" rest] by simp
      then have "expandTemplate g (rest @ s) = expandTemplate g rest @ expandTemplate g s"
        using "2.IH"(4) 3 nr by blast
      then show ?thesis using 3 ext 2(5) nr by (simp add: expandTemplate.simps(2))
    qed
  next
    case 4
    then show ?thesis using 2(5) openEnd_iff[of "''$''"] by force
  qed
qed simp

section \<open>Setting values come out as text\<close>

text \<open>A template written as literal and key alternately, with a literal at its end.\<close>

definition templateOf :: "(string \<times> string) list \<Rightarrow> string \<Rightarrow> string" where
  "templateOf parts tail = concat (map (\<lambda>(p, k). p @ settingOpen @ k @ ''}}'') parts) @ tail"

definition wellParted :: "(string \<times> string) list \<Rightarrow> string \<Rightarrow> bool" where
  "wellParted parts tail \<longleftrightarrow> index_sub tail settingOpen = None \<and>
     list_all (\<lambda>(p, k). index_sub p settingOpen = None \<and> CHR ''}'' \<notin> set k \<and> \<not> openEnd p) parts"

lemma expandSettingsTemplate_parts:
  assumes "wellParted parts tail" "\<forall>(p, k)\<in>set parts. subst k = Some (value_of k)"
  shows "\<exists>r. expandSettingsTemplate subst (templateOf parts tail) = Some r \<and>
           expandTemplate g r =
             concat (map (\<lambda>(p, k). expandTemplate g p @ value_of k) parts) @ expandTemplate g tail"
  using assms
proof (induction parts)
  case Nil
  then show ?case by (simp add: templateOf_def wellParted_def expandSettingsTemplate_tail)
next
  case (Cons pk parts)
  obtain p k where pk: "pk = (p, k)" by (cases pk)
  obtain r where r: "expandSettingsTemplate subst (templateOf parts tail) = Some r"
      "expandTemplate g r = concat (map (\<lambda>(p, k). expandTemplate g p @ value_of k) parts) @ expandTemplate g tail"
    using Cons by (auto simp: wellParted_def)
  have p: "index_sub p settingOpen = None" "CHR ''}'' \<notin> set k" "\<not> openEnd p" "subst k = Some (value_of k)"
    using Cons.prems by (auto simp: wellParted_def pk)
  show ?case
    using expandSettingsTemplate_step[of p k subst "value_of k" "templateOf parts tail", OF p(1,2,4)] r
    by (simp add: templateOf_def pk expandTemplate_append[OF p(3)] expandTemplate_escape)
qed

text \<open>A setting value substituted into a rewrite target or a replacement is data. For a
  template made of literals and placeholders whose keys all have a value, and in which no literal
  before a placeholder ends in an unfinished group reference, the substitution succeeds, and after
  the regular expression library has expanded the result every value stands there byte for byte,
  dollars included, between the expansions of the author's literals.\<close>

theorem setting_values_are_literal:
  assumes "wellParted parts tail"
    and "\<forall>(p, k)\<in>set parts. substitution x valueMap settings k = Some (value_of k)"
  shows "\<exists>r. expandSettingsTemplate (substitution x valueMap settings) (templateOf parts tail) = Some r \<and>
           expandTemplate grp r =
             concat (map (\<lambda>(p, k). expandTemplate grp p @ value_of k) parts) @ expandTemplate grp tail"
  using assms by (rule expandSettingsTemplate_parts)

definition exExterns :: externs where
  "exExterns = \<lparr>xSHA = (\<lambda>s. s), xJSON = (\<lambda>s. Some (JStr s)), xNum = (\<lambda>s. Some 0), xTime = (\<lambda>s. True), xURL = (\<lambda>s. None),
     xEscapedPath = urlPath, xRegexp = (\<lambda>s. True), xMatches = (\<lambda>p s. p = s), xFind = (\<lambda>p s. None),
     xSegments = (\<lambda>p s. ([], s)), xGoja = (\<lambda>f s. True), xJQ = (\<lambda>s. True), xBase64 = (\<lambda>s. Some s),
     xText = (\<lambda>j. [])\<rparr>"

theorem setting_values_are_literal_witness:
  "\<exists>r. expandSettingsTemplate (substitution exExterns [] [(''pw'', JStr ''p$ss'')])
         (templateOf [(''https://a/'', ''pw'')] ''/v1/$1'') = Some r \<and>
       expandTemplate (\<lambda>n. if n = ''1'' then ''x'' else []) r = ''https://a/p$ss/v1/x''"
proof -
  have "wellParted [(''https://a/'', ''pw'')] ''/v1/$1''" by code_simp
  moreover have "\<forall>(p, k)\<in>set [(''https://a/'', ''pw'')].
      substitution exExterns [] [(''pw'', JStr ''p$ss'')] k = Some ((\<lambda>_. ''p$ss'') k)"
    by (simp add: substitution_def compatArgumentText_def)
  moreover have "expandTemplate (\<lambda>n. if n = ''1'' then ''x'' else []) ''https://a/'' = ''https://a/''"
    "expandTemplate (\<lambda>n. if n = ''1'' then ''x'' else []) ''/v1/$1'' = ''/v1/x''"
    by code_simp+
  ultimately show ?thesis
    using setting_values_are_literal[of "[(''https://a/'', ''pw'')]" "''/v1/$1''" exExterns "[]"
      "[(''pw'', JStr ''p$ss'')]" "\<lambda>_. ''p$ss''" "\<lambda>n. if n = ''1'' then ''x'' else []"] by simp
qed

text \<open>
  The condition on the literals is needed: a value directly behind a group reference is taken for
  more of the group's name, and both the capture and the value are lost.
\<close>

lemma setting_extends_group_reference:
  "expandSettingsTemplate (substitution exExterns [] [(''k'', JStr ''abc'')]) ''/v1/$1{{settings.k}}'' = Some ''/v1/$1abc''"
  "expandTemplate (\<lambda>n. if n = ''1'' then ''x'' else []) ''/v1/$1abc'' = ''/v1/''"
  by code_simp+

section \<open>Header edits\<close>

lemma map_of_headerSet: "map_of (headerSet n v h) = (map_of h)(canonicalKey n \<mapsto> [v])"
  by (simp add: headerSet_def)

lemma map_of_fold_headerDel:
  "map_of (fold headerDel names h) k = (if k \<in> canonicalKey ` set names then None else map_of h k)"
  by (induction names arbitrary: h) (auto simp: headerDel_def)

lemma map_of_fold_headerSet:
  assumes "distinct (map (canonicalKey \<circ> fst) fs)"
  shows "map_of (fold (\<lambda>(name, v). headerSet name v) fs h) k =
           (case map_of (map (\<lambda>(n, v). (canonicalKey n, [v])) fs) k of Some vs \<Rightarrow> Some vs | None \<Rightarrow> map_of h k)"
  using assms
proof (induction fs arbitrary: h)
  case (Cons nv fs)
  obtain n v where nv: "nv = (n, v)" by (cases nv)
  have "map_of (map (\<lambda>(n, v). (canonicalKey n, [v])) fs) (canonicalKey n) = None"
    using Cons.prems by (auto simp: nv map_of_eq_None_iff split_beta image_image)
  then show ?case using Cons.IH[of "headerSet n v h"] Cons.prems
    by (auto simp: nv map_of_headerSet split: option.splits)
qed simp

text \<open>Header edits whose set names are different header fields do exactly what they declare,
  whatever order the map of set fields is iterated in: a set field has the one declared value, a
  field only removed is gone, and every other field keeps all its values.\<close>

theorem header_edits_exact:
  assumes "distinct (map (canonicalKey \<circ> fst) (editSet edits))"
  shows "map_of (applyHeaderEdits edits current) k =
           (case map_of (map (\<lambda>(n, v). (canonicalKey n, [v])) (editSet edits)) k of
              Some vs \<Rightarrow> Some vs
            | None \<Rightarrow> if k \<in> canonicalKey ` set (editRemove edits) then None else map_of current k)"
  unfolding applyHeaderEdits_def map_of_fold_headerSet[OF assms] map_of_fold_headerDel by (rule refl)

theorem header_edits_exact_witness:
  "map_of (applyHeaderEdits \<lparr>editSet = [(''x-a'', ''1'')], editRemove = [''X-A'', ''x-b'']\<rparr>
     [(''X-A'', [''0'']), (''X-B'', [''2'']), (''X-C'', [''3''])]) ''X-A'' = Some [''1'']"
proof -
  have d: "distinct (map (canonicalKey \<circ> fst) (editSet \<lparr>editSet = [(''x-a'', ''1'')], editRemove = [''X-A'', ''x-b'']\<rparr>))"
    by simp
  have "canonicalKey ''x-a'' = ''X-A''" by code_simp
  then show ?thesis unfolding header_edits_exact[OF d] by simp
qed

text \<open>
  The check of a declaration does not ask for that: two spellings of one field pass, and then the
  iteration order of the map decides which value is sent; an empty name passes too.
\<close>

lemma header_edit_order_decides:
  "validateHeaderEdits (Some \<lparr>editSet = [(''x-a'', ''1''), (''X-A'', ''2'')], editRemove = []\<rparr>) = None"
  "map_of (applyHeaderEdits \<lparr>editSet = [(''x-a'', ''1''), (''X-A'', ''2'')], editRemove = []\<rparr> []) ''X-A'' = Some [''2'']"
  "map_of (applyHeaderEdits \<lparr>editSet = [(''X-A'', ''2''), (''x-a'', ''1'')], editRemove = []\<rparr> []) ''X-A'' = Some [''1'']"
  by code_simp+

lemma empty_header_name_accepted:
  "validateHeaderEdits (Some \<lparr>editSet = [([], ''1'')], editRemove = []\<rparr>) = None"
  by code_simp

end
