(* ===== verification/Json_Decode.thy ===== *)
theory Json_Decode
  imports Declarative
begin

text \<open>
  The strict JSON boundary of config.go: no object may repeat a key under another case, unknown
  fields are refused, and the custom decoders of routing rules and locations keep track of which
  fields were present. The decoders work on the value tree; the text before it is the argument
  \<^const>\<open>xJSON\<close>. Go matches a field name without regard to case, here with ASCII case.
\<close>

section \<open>Duplicate keys\<close>

datatype json_error =
    NotJSON | DuplicateKey string | UnknownField string | WrongType string
  | FieldRequired string | FieldNull string | FieldEmpty string | PortZero

text \<open>\<^verbatim>\<open>scanJSONValue\<close>: the keys of the object met so far, the fields still to read.\<close>

fun scanJSONValue :: "json \<Rightarrow> json_error option"
and scanFields :: "string list \<Rightarrow> (string \<times> json) list \<Rightarrow> json_error option"
and scanItems :: "json list \<Rightarrow> json_error option" where
  "scanJSONValue (JObj fs) = scanFields [] fs"
| "scanJSONValue (JArr xs) = scanItems xs"
| "scanJSONValue JNull = None"
| "scanJSONValue (JBool b) = None"
| "scanJSONValue (JNum n) = None"
| "scanJSONValue (JStr s) = None"
| "scanFields keys [] = None"
| "scanFields keys ((k, v) # fs) =
     (if to_lower k \<in> set keys then Some (DuplicateKey k)
      else (case scanJSONValue v of Some e \<Rightarrow> Some e | None \<Rightarrow> scanFields (to_lower k # keys) fs))"
| "scanItems [] = None"
| "scanItems (v # vs) = (case scanJSONValue v of Some e \<Rightarrow> Some e | None \<Rightarrow> scanItems vs)"

definition rejectDuplicateJSONKeys :: "externs \<Rightarrow> string \<Rightarrow> json_error + json" where
  "rejectDuplicateJSONKeys x body =
     (case xJSON x body of
        None \<Rightarrow> Inl NotJSON
      | Some v \<Rightarrow> (case scanJSONValue v of Some e \<Rightarrow> Inl e | None \<Rightarrow> Inr v))"

section \<open>Fields of an object\<close>

fun field :: "string \<Rightarrow> (string \<times> json) list \<Rightarrow> json option" where
  "field name [] = None"
| "field name ((k, v) # fs) = (if to_lower k = name then Some v else field name fs)"

fun unknownField :: "string list \<Rightarrow> (string \<times> json) list \<Rightarrow> json_error option" where
  "unknownField names [] = None"
| "unknownField names ((k, v) # fs) = (if to_lower k \<in> set names then unknownField names fs else Some (UnknownField k))"

text \<open>A value decoded into a struct: \<^verbatim>\<open>null\<close> leaves the zero value, an object gives its fields.\<close>

definition structFields :: "string list \<Rightarrow> json \<Rightarrow> json_error + (string \<times> json) list" where
  "structFields names v =
     (case v of
        JNull \<Rightarrow> Inr []
      | JObj fs \<Rightarrow> (case unknownField names fs of Some e \<Rightarrow> Inl e | None \<Rightarrow> Inr fs)
      | _ \<Rightarrow> Inl (WrongType ''object''))"

definition bindJ :: "'e + 'a \<Rightarrow> ('a \<Rightarrow> 'e + 'b) \<Rightarrow> 'e + 'b" where
  "bindJ r f = (case r of Inl e \<Rightarrow> Inl e | Inr v \<Rightarrow> f v)"

section \<open>Routing rules\<close>

definition decodeRoutingString :: "json option \<Rightarrow> string \<Rightarrow> bool \<Rightarrow> json_error + string" where
  "decodeRoutingString raw name required =
     (case raw of
        None \<Rightarrow> (if required then Inl (FieldRequired name) else Inr [])
      | Some JNull \<Rightarrow> Inl (FieldNull name)
      | Some (JStr s) \<Rightarrow> (if s = [] then Inl (FieldEmpty name) else Inr s)
      | Some _ \<Rightarrow> Inl (WrongType name))"

definition decodeOptionalRoutingString :: "json option \<Rightarrow> string \<Rightarrow> json_error + string option" where
  "decodeOptionalRoutingString raw name =
     bindJ (decodeRoutingString raw name False) (\<lambda>v. Inr (case raw of None \<Rightarrow> None | Some _ \<Rightarrow> Some v))"

text \<open>\<^verbatim>\<open>json.Unmarshal\<close> into a slice of strings; a \<^verbatim>\<open>null\<close> element is the empty string.\<close>

fun stringItems :: "json list \<Rightarrow> string list option" where
  "stringItems [] = Some []"
| "stringItems (v # vs) =
     (case v of
        JStr s \<Rightarrow> map_option ((#) s) (stringItems vs)
      | JNull \<Rightarrow> map_option ((#) []) (stringItems vs)
      | _ \<Rightarrow> None)"

definition decodeOptionalRoutingStrings :: "json option \<Rightarrow> string \<Rightarrow> json_error + string list option" where
  "decodeOptionalRoutingStrings raw name =
     (case raw of
        None \<Rightarrow> Inr None
      | Some JNull \<Rightarrow> Inl (FieldNull name)
      | Some (JArr vs) \<Rightarrow>
          (case stringItems vs of
             None \<Rightarrow> Inl (WrongType name)
           | Some ss \<Rightarrow> if ss = [] then Inl (FieldEmpty name) else Inr (Some ss))
      | Some _ \<Rightarrow> Inl (WrongType name))"

definition decodePort :: "json option \<Rightarrow> json_error + int option" where
  "decodePort raw =
     (case raw of
        None \<Rightarrow> Inr None
      | Some JNull \<Rightarrow> Inl (FieldNull ''destination_port'')
      | Some (JNum lit) \<Rightarrow>
          (case atoi lit of
             None \<Rightarrow> Inl (WrongType ''destination_port'')
           | Some v \<Rightarrow> if v = 0 then Inl PortZero else Inr (Some v))
      | Some _ \<Rightarrow> Inl (WrongType ''destination_port''))"

definition rawRoutingRule :: "string list" where
  "rawRoutingRule = [''action'', ''domain'', ''domain_suffix'', ''domain_keywords'', ''all_domain_keywords'',
     ''ip_cidr'', ''network'', ''destination_port'']"

definition decodeRoutingRule :: "json \<Rightarrow> json_error + RoutingRule" where
  "decodeRoutingRule v =
     (case scanJSONValue v of
        Some e \<Rightarrow> Inl e
      | None \<Rightarrow>
          bindJ (structFields rawRoutingRule v) (\<lambda>fs.
          bindJ (decodeRoutingString (field ''action'' fs) ''action'' True) (\<lambda>action.
          bindJ (decodeOptionalRoutingString (field ''domain'' fs) ''domain'') (\<lambda>domain.
          bindJ (decodeOptionalRoutingString (field ''domain_suffix'' fs) ''domain_suffix'') (\<lambda>domainSuffix.
          bindJ (decodeOptionalRoutingStrings (field ''domain_keywords'' fs) ''domain_keywords'') (\<lambda>keywords.
          bindJ (decodeOptionalRoutingStrings (field ''all_domain_keywords'' fs) ''all_domain_keywords'') (\<lambda>allKeywords.
          bindJ (decodeOptionalRoutingString (field ''ip_cidr'' fs) ''ip_cidr'') (\<lambda>cidr.
          bindJ (decodeOptionalRoutingString (field ''network'' fs) ''network'') (\<lambda>network.
          bindJ (decodePort (field ''destination_port'' fs)) (\<lambda>port.
            Inr \<lparr>rtAction = action, rtDomain = domain, rtDomainSuffix = domainSuffix, rtDomainKeywords = keywords,
                 rtAllDomainKeywords = allKeywords, rtIPCIDR = cidr, rtNetwork = network,
                 rtDestinationPort = port\<rparr>))))))))))"

fun decodeRuleItems :: "json list \<Rightarrow> json_error + RoutingRule list" where
  "decodeRuleItems [] = Inr []"
| "decodeRuleItems (v # vs) = bindJ (decodeRoutingRule v) (\<lambda>r. bindJ (decodeRuleItems vs) (\<lambda>rs. Inr (r # rs)))"

definition decodeRoutingRules :: "json \<Rightarrow> json_error + RoutingRule list" where
  "decodeRoutingRules v =
     (case v of
        JNull \<Rightarrow> Inl (FieldNull ''routing_rules'')
      | JArr vs \<Rightarrow> (case scanJSONValue v of Some e \<Rightarrow> Inl e | None \<Rightarrow> decodeRuleItems vs)
      | _ \<Rightarrow> (case scanJSONValue v of Some e \<Rightarrow> Inl e | None \<Rightarrow> Inl (WrongType ''routing_rules'')))"

section \<open>Locations\<close>

record LocationValue =
  locLongitude :: "rat option"
  locLatitude :: "rat option"
  locAccuracy :: nat

definition decodeFloat :: "externs \<Rightarrow> json option \<Rightarrow> json_error + rat option" where
  "decodeFloat x raw =
     (case raw of
        None \<Rightarrow> Inr None
      | Some JNull \<Rightarrow> Inr None
      | Some (JNum lit) \<Rightarrow> (case xNum x lit of None \<Rightarrow> Inl (WrongType ''number'') | Some v \<Rightarrow> Inr (Some v))
      | Some _ \<Rightarrow> Inl (WrongType ''number''))"

definition decodeUint32 :: "json option \<Rightarrow> json_error + nat" where
  "decodeUint32 raw =
     (case raw of
        None \<Rightarrow> Inr 0
      | Some JNull \<Rightarrow> Inr 0
      | Some (JNum lit) \<Rightarrow>
          (if lit \<noteq> [] \<and> list_all is_digit lit \<and> digits_value lit < 2 ^ 32 then Inr (digits_value lit)
           else Inl (WrongType ''accuracy''))
      | Some _ \<Rightarrow> Inl (WrongType ''accuracy''))"

text \<open>\<^verbatim>\<open>unmarshalStrictRaw\<close> into a location.\<close>

definition decodeLocation :: "externs \<Rightarrow> string \<Rightarrow> json_error + LocationValue" where
  "decodeLocation x raw =
     bindJ (rejectDuplicateJSONKeys x raw) (\<lambda>v.
     bindJ (structFields [''longitude'', ''latitude'', ''accuracy''] v) (\<lambda>fs.
     bindJ (decodeFloat x (field ''longitude'' fs)) (\<lambda>lon.
     bindJ (decodeFloat x (field ''latitude'' fs)) (\<lambda>lat.
     bindJ (decodeUint32 (field ''accuracy'' fs)) (\<lambda>acc.
       Inr \<lparr>locLongitude = lon, locLatitude = lat, locAccuracy = acc\<rparr>)))))"

section \<open>What the scan accepts\<close>

lemma bindJ_Inr [simp]: "bindJ r f = Inr v \<longleftrightarrow> (\<exists>u. r = Inr u \<and> f u = Inr v)"
  by (cases r) (auto simp: bindJ_def)

text \<open>No object at any depth repeats a key, whatever its case.\<close>

fun uniqueKeys :: "json \<Rightarrow> bool" where
  "uniqueKeys (JObj fs) = (distinct (map (to_lower \<circ> fst) fs) \<and> list_all (\<lambda>kv. uniqueKeys (snd kv)) fs)"
| "uniqueKeys (JArr vs) = list_all uniqueKeys vs"
| "uniqueKeys _ = True"

lemma scan_accepts:
  "(scanJSONValue v = None) = uniqueKeys v"
  "(scanFields keys fs = None) =
     (distinct (map (to_lower \<circ> fst) fs) \<and> list_all (\<lambda>kv. uniqueKeys (snd kv)) fs \<and> set keys \<inter> set (map (to_lower \<circ> fst) fs) = {})"
  "(scanItems vs = None) = list_all uniqueKeys vs"
proof (induction v and keys fs and vs rule: scanJSONValue_scanFields_scanItems.induct)
qed (auto simp: comp_def split: option.splits)

end
