(* ===== verification/Utf8.thy ===== *)
theory Utf8
  imports Prelude
begin

text \<open>
  UTF-8 the way Go's \<^verbatim>\<open>unicode/utf8\<close> and \<^verbatim>\<open>strings\<close> read it: decoding of the first rune of a byte
  string, validity, the runes of a string and \<^verbatim>\<open>strings.ToValidUTF8\<close>. An invalid encoding has
  width one and no code point.
\<close>

definition contByte :: "char \<Rightarrow> bool" where
  "contByte c \<longleftrightarrow> 128 \<le> code c \<and> code c < 192"

text \<open>The range the second byte must be in, given the first.\<close>

definition secondOK :: "nat \<Rightarrow> nat \<Rightarrow> bool" where
  "secondOK b0 b1 \<longleftrightarrow>
     (if b0 = 224 then 160 \<le> b1 \<and> b1 < 192
      else if b0 = 237 then 128 \<le> b1 \<and> b1 < 160
      else if b0 = 240 then 144 \<le> b1 \<and> b1 < 192
      else if b0 = 244 then 128 \<le> b1 \<and> b1 < 144
      else 128 \<le> b1 \<and> b1 < 192)"

fun decodeRune :: "string \<Rightarrow> nat option \<times> nat" where
  "decodeRune [] = (None, 0)"
| "decodeRune (c # cs) =
     (let b0 = code c
      in if b0 < 128 then (Some b0, 1)
         else if 194 \<le> b0 \<and> b0 < 224 then
           (case cs of
              c1 # _ \<Rightarrow> if contByte c1 then (Some ((b0 - 192) * 64 + (code c1 - 128)), 2) else (None, 1)
            | [] \<Rightarrow> (None, 1))
         else if 224 \<le> b0 \<and> b0 < 240 then
           (case cs of
              c1 # c2 # _ \<Rightarrow>
                if secondOK b0 (code c1) \<and> contByte c2
                then (Some ((b0 - 224) * 4096 + (code c1 - 128) * 64 + (code c2 - 128)), 3) else (None, 1)
            | _ \<Rightarrow> (None, 1))
         else if 240 \<le> b0 \<and> b0 < 245 then
           (case cs of
              c1 # c2 # c3 # _ \<Rightarrow>
                if secondOK b0 (code c1) \<and> contByte c2 \<and> contByte c3
                then (Some ((b0 - 240) * 262144 + (code c1 - 128) * 4096 + (code c2 - 128) * 64 + (code c3 - 128)), 4)
                else (None, 1)
            | _ \<Rightarrow> (None, 1))
         else (None, 1))"

declare decodeRune.simps(2) [simp del]

definition runeWidth :: "string \<Rightarrow> nat" where
  "runeWidth s = snd (decodeRune s)"

definition runeOK :: "string \<Rightarrow> bool" where
  "runeOK s \<longleftrightarrow> fst (decodeRune s) \<noteq> None"

lemma runeWidth_bounds: "s \<noteq> [] \<Longrightarrow> 1 \<le> runeWidth s \<and> runeWidth s \<le> length s \<and> runeWidth s \<le> 4"
  by (cases s) (auto simp: runeWidth_def decodeRune.simps Let_def split: list.splits)

lemma runeWidth_Cons [simp]: "0 < runeWidth (c # cs)" "runeWidth (c # cs) \<noteq> 0"
  using runeWidth_bounds[of "c # cs"] by auto

lemma drop_runeWidth_less: "s \<noteq> [] \<Longrightarrow> length (drop (runeWidth s) s) < length s"
  using runeWidth_bounds[of s] by simp

lemma runeOK_cases:
  assumes "runeOK s"
  obtains (one) c r where "s = c # r" "code c < 128"
    | (two) c c1 r where "s = c # c1 # r" "194 \<le> code c" "code c < 224" "contByte c1"
    | (three) c c1 c2 r where "s = c # c1 # c2 # r" "224 \<le> code c" "code c < 240" "secondOK (code c) (code c1)" "contByte c2"
    | (four) c c1 c2 c3 r where "s = c # c1 # c2 # c3 # r" "240 \<le> code c" "code c < 245" "secondOK (code c) (code c1)" "contByte c2" "contByte c3"
proof (cases s)
  case Nil
  then show ?thesis using assms by (simp add: runeOK_def)
next
  case (Cons c cs)
  then show ?thesis using assms one two three four
    by (auto simp: runeOK_def decodeRune.simps Let_def split: if_splits list.splits)
qed

text \<open>What a rune is does not depend on what follows it.\<close>

lemma decodeRune_append: "runeOK s \<Longrightarrow> decodeRune (s @ t) = decodeRune s"
  by (erule runeOK_cases) (simp_all add: decodeRune.simps Let_def)

lemma decodeRune_take: "runeOK s \<Longrightarrow> runeWidth s \<le> n \<Longrightarrow> decodeRune (take n s) = decodeRune s"
  by (erule runeOK_cases; cases n; cases "n - 1"; cases "n - 2"; cases "n - 3")
     (simp_all add: decodeRune.simps Let_def runeWidth_def)

text \<open>A prefix of a string whose own encoding is whole is the rune of the string.\<close>

lemma runeOK_take: "runeOK (take n s) \<Longrightarrow> runeOK s \<and> runeWidth (take n s) = runeWidth s"
  using decodeRune_append[of "take n s" "drop n s"] by (simp add: runeOK_def runeWidth_def)

function validUTF8 :: "string \<Rightarrow> bool" where
  "validUTF8 s = (if s = [] then True else if runeOK s then validUTF8 (drop (runeWidth s) s) else False)"
  by pat_completeness auto
termination
  by (relation "measure length") (simp_all only: wf_measure in_measure drop_runeWidth_less not_False_eq_True)

declare validUTF8.simps [simp del]

lemma validUTF8_Nil [simp]: "validUTF8 []"
  by (subst validUTF8.simps) simp

text \<open>The code points a \<^verbatim>\<open>range\<close> over the string yields; an invalid byte yields U+FFFD.\<close>

function runes :: "string \<Rightarrow> nat list" where
  "runes s = (if s = [] then []
     else (case fst (decodeRune s) of None \<Rightarrow> 65533 | Some r \<Rightarrow> r) # runes (drop (runeWidth s) s))"
  by pat_completeness auto
termination
  by (relation "measure length") (simp_all only: wf_measure in_measure drop_runeWidth_less not_False_eq_True)

declare runes.simps [simp del]

text \<open>\<^verbatim>\<open>unicode.IsControl\<close>.\<close>

definition isControl :: "nat \<Rightarrow> bool" where
  "isControl r \<longleftrightarrow> r < 32 \<or> (127 \<le> r \<and> r < 160)"

text \<open>\<^verbatim>\<open>strings.ToValidUTF8\<close>: a run of invalid bytes is replaced once. The flag tells whether the byte
  before was invalid.\<close>

function toValidUTF8 :: "bool \<Rightarrow> string \<Rightarrow> string \<Rightarrow> string" where
  "toValidUTF8 bad rep s =
     (if s = [] then []
      else if runeOK s then take (runeWidth s) s @ toValidUTF8 False rep (drop (runeWidth s) s)
      else (if bad then [] else rep) @ toValidUTF8 True rep (drop 1 s))"
  by pat_completeness auto
termination
  by (relation "measure (\<lambda>(bad, rep, s). length s)")
     (simp_all only: wf_measure in_measure prod.case drop_runeWidth_less not_False_eq_True, simp)

declare toValidUTF8.simps [simp del]

section \<open>Validity\<close>

lemma validUTF8_append: "validUTF8 s \<Longrightarrow> validUTF8 (s @ t) = validUTF8 t"
proof (induction s rule: validUTF8.induct)
  case (1 s)
  show ?case
  proof (cases "s = []")
    case False
    have s: "runeOK s" "validUTF8 (drop (runeWidth s) s)" using 1(2) False by (simp_all add: validUTF8.simps[of s] split: if_splits)
    have "runeOK (s @ t)" "runeWidth (s @ t) = runeWidth s"
      using decodeRune_append[OF s(1), of t] s(1) by (auto simp: runeOK_def runeWidth_def)
    then show ?thesis
      using 1(1)[OF False s] runeWidth_bounds[OF False] by (subst validUTF8.simps) (simp add: False)
  qed simp
qed

lemma validUTF8_rune: "runeOK s \<Longrightarrow> validUTF8 (take (runeWidth s) s)"
proof -
  assume ok: "runeOK s"
  then have "s \<noteq> []" by (auto simp: runeOK_def)
  have d: "decodeRune (take (runeWidth s) s) = decodeRune s" using decodeRune_take[OF ok] by simp
  have "runeOK (take (runeWidth s) s)" "runeWidth (take (runeWidth s) s) = runeWidth s"
    using d ok by (auto simp: runeOK_def runeWidth_def)
  then show ?thesis by (subst validUTF8.simps) simp
qed

lemma toValidUTF8_valid: "validUTF8 rep \<Longrightarrow> validUTF8 (toValidUTF8 bad rep s)"
proof (induction bad rep s rule: toValidUTF8.induct)
  case (1 bad rep s)
  then show ?case
    by (subst toValidUTF8.simps) (auto simp: validUTF8_append validUTF8_rune)
qed

lemma toValidUTF8_id: "validUTF8 s \<Longrightarrow> toValidUTF8 bad rep s = s"
proof (induction bad rep s rule: toValidUTF8.induct)
  case (1 bad rep s)
  then show ?case by (subst toValidUTF8.simps) (simp_all add: validUTF8.simps[of s] split: if_splits)
qed

end
