(* ===== verification/Validation.thy ===== *)
theory Validation
  imports Json_Decode Projection Script_Nesting Utf8
begin

text \<open>
  The validation of a configuration document (config.go): every check of \<^verbatim>\<open>Config.validate\<close>, of the
  certificate helper's \<^verbatim>\<open>ValidateCertificateRequest\<close> and of the functions they call, in the order
  the code runs them and with one error per message. A loop that remembers what it has seen takes
  the memory as an argument; \<^const>\<open>firstError\<close> is a sequence of early returns.
\<close>

datatype route_error =
    TooManyRoutingRules | RouteAction | RouteDomain | RouteDomainSuffix | RouteCIDR
  | RouteKeywordsEmpty | RouteAllKeywordsEmpty | RouteSelectors | RouteKeywordsInvalid | RouteSingleKeyword
  | RouteUnsafeKeyword | RouteDuplicateKeyword | RouteAllKeywordsInvalid | RouteUnsafeAllKeyword
  | RouteRepeatedKeyword | RouteNetwork | RoutePort | RouteDuplicated

datatype value_error =
    ValueRequired | ValueTooLong | ValueNotString | ValueEmpty | ValueNotOption | ValueNotBoolean
  | ValueNotNumber | ValueOutOfBounds | ValueNotLocation | LocationInvalid | LongitudeInvalid | LatitudeInvalid
  | CoordinatesRequired

datatype setting_error =
    TooManySettings | SettingKeyInvalid | SettingDuplicated | SettingMetadata | SettingConstraints
  | SettingOptions | SettingOption | SettingOptionDuplicate | SettingTypeUnknown
  | SettingDefaultInvalid value_error | SettingValueInvalid value_error | SettingNotReady

datatype match_error =
    MatchIncomplete | MatchHost | MatchScheme | MatchMethod | MatchPath | MatchRequestStatus | MatchStatus

datatype gate_error =
    GateKey | GateNoValue | GateOptional | GateBoolean | GateSelect | GateType | GateUndeclared

datatype rule_error =
    ActionIDInvalid | ActionDuplicated | ActionPhase | ActionMatchInvalid match_error | ActionGateInvalid gate_error
  | ActionURL | ActionKinds | EntryWithoutScript | BodyMode | ActionLimits | RewritePhase | ReplaceBodyMode
  | DeclarativeInvalid action_error | JQNeedsText | JQInvalid | ScriptSnapshot | ScriptNesting nesting_error
  | ScriptNotCompiled | EntryMode

datatype module_error =
    InvalidModuleID | DuplicateModuleID | InvalidImportedAt | MetadataBounds
  | ManifestDigest | SourceURLInvalid | CaptureHostsInvalid | CaptureHostInvalid | CaptureHostNotCanonical
  | CaptureDNSInvalid | ActionCountInvalid | IdentityOrHostCount
  | EgressGroupRequired | EgressGroupReserved | EgressGroupBounds | EgressGroupCharacter
  | MappingInvalid | MappingDuplicated | MappingConflict | ScriptTotal | SettingsNotReady
  | TooManyActiveRoutingRules
  | Routing route_error | Setting setting_error | Action rule_error

datatype config_error =
    VersionMismatch | NotHostPort | NotIPv4Loopback | PortMissing | AddressBoundary
  | InboundCredentials | UpstreamCredentials | TLSPathsMissing | TLSPathBoundary | TooManyCertificateHosts
  | TooManyModules | OrderMissing | OrderLength | OrderUnknown | OrderDuplicate
  | Module module_error | Undecodable json_error | RuntimeNotCompiled

section \<open>Addresses\<close>

definition To4 :: "addr \<Rightarrow> nat list option" where
  "To4 a = (case Unmap a of V4 os \<Rightarrow> Some os | V6 _ _ \<Rightarrow> None)"

definition v4or6 :: "(nat list \<Rightarrow> bool) \<Rightarrow> (nat list \<Rightarrow> bool) \<Rightarrow> addr \<Rightarrow> bool" where
  "v4or6 p4 p6 a = (case Unmap a of V4 os \<Rightarrow> p4 os | V6 gs _ \<Rightarrow> p6 gs)"

definition IsLoopback :: "addr \<Rightarrow> bool" where
  "IsLoopback = v4or6 (\<lambda>os. os ! 0 = 127) (\<lambda>gs. gs = [0, 0, 0, 0, 0, 0, 0, 1])"

definition IsUnspecified :: "addr \<Rightarrow> bool" where
  "IsUnspecified = v4or6 (\<lambda>os. os = [0, 0, 0, 0]) (\<lambda>gs. gs = [0, 0, 0, 0, 0, 0, 0, 0])"

definition IsMulticast :: "addr \<Rightarrow> bool" where
  "IsMulticast = v4or6 (\<lambda>os. os ! 0 div 16 = 14) (\<lambda>gs. gs ! 0 div 256 = 255)"

definition IsLinkLocalUnicast :: "addr \<Rightarrow> bool" where
  "IsLinkLocalUnicast = v4or6 (\<lambda>os. os ! 0 = 169 \<and> os ! 1 = 254) (\<lambda>gs. gs ! 0 div 64 = 1018)"

definition IsPrivate :: "addr \<Rightarrow> bool" where
  "IsPrivate = v4or6
     (\<lambda>os. os ! 0 = 10 \<or> os ! 0 = 172 \<and> os ! 1 div 16 = 1 \<or> os ! 0 = 192 \<and> os ! 1 = 168)
     (\<lambda>gs. gs ! 0 div 512 = 126)"

definition IsGlobalUnicast :: "addr \<Rightarrow> bool" where
  "IsGlobalUnicast a \<longleftrightarrow> To4 a \<noteq> Some [255, 255, 255, 255] \<and> \<not> IsUnspecified a \<and> \<not> IsLoopback a \<and>
     \<not> IsMulticast a \<and> \<not> IsLinkLocalUnicast a"

definition hostTargetAddressAllowed :: "addr \<Rightarrow> bool" where
  "hostTargetAddressAllowed ip =
     (if \<not> IsGlobalUnicast ip \<or> IsPrivate ip \<or> IsLoopback ip \<or> IsLinkLocalUnicast ip then False
      else (case To4 ip of Some four \<Rightarrow> \<not> (four ! 0 = 100 \<and> four ! 1 div 64 = 1) | None \<Rightarrow> True))"

definition validateLoopbackAddress :: "string \<Rightarrow> config_error option" where
  "validateLoopbackAddress v =
     (case split_host_port v of
        None \<Rightarrow> Some NotHostPort
      | Some (host, port) \<Rightarrow>
          (case ParseIP host of
             None \<Rightarrow> Some NotIPv4Loopback
           | Some ip \<Rightarrow>
               (if To4 ip = None \<or> \<not> IsLoopback ip then Some NotIPv4Loopback
                else check (port = [] \<or> port = ''0'') PortMissing)))"

text \<open>\<^verbatim>\<open>net.ParseCIDR\<close> and the text of the network it gives.\<close>

definition maskOctets :: "nat \<Rightarrow> nat list \<Rightarrow> nat list" where
  "maskOctets n os =
     map (\<lambda>i. let k = min 8 (n - 8 * i) in os ! i div 2 ^ (8 - k) * 2 ^ (8 - k)) [0..<length os]"

fun groupsFrom :: "nat list \<Rightarrow> nat list" where
  "groupsFrom (a # b # os) = (a * 256 + b) # groupsFrom os"
| "groupsFrom _ = []"

definition networkString :: "string \<Rightarrow> string option" where
  "networkString s =
     (case index_byte s CHR ''/'' of
        None \<Rightarrow> None
      | Some i \<Rightarrow>
          (let mask = drop (i + 1) s
           in case ParseAddr (take i s) of
                None \<Rightarrow> None
              | Some a \<Rightarrow>
                  (if addrZone a \<noteq> [] \<or> mask = [] \<or> \<not> list_all is_digit mask then None
                   else
                     (let n = digits_value mask
                      in case a of
                           V4 os \<Rightarrow>
                             (if n > 32 then None else Some (string4 (maskOctets n os) @ ''/'' @ digits_of n))
                         | V6 gs _ \<Rightarrow>
                             (if n > 128 then None
                              else
                                (let gs' = groupsFrom (maskOctets n (octetsOf gs))
                                 in if is4In6 gs'
                                    then Some (string4 (octetsOf (drop 6 gs')) @ ''/'' @ digits_of (n - 96))
                                    else Some (string6 gs' @ ''/'' @ digits_of n)))))))"

section \<open>Identifiers and names\<close>

definition isLowerAlnum :: "char \<Rightarrow> bool" where
  "isLowerAlnum c \<longleftrightarrow> (97 \<le> code c \<and> code c \<le> 122) \<or> is_digit c"

text \<open>\<^verbatim>\<open>nativeExtensionIDPattern\<close> with the length bounds of \<^verbatim>\<open>validModuleID\<close>.\<close>

definition validModuleID :: "string \<Rightarrow> bool" where
  "validModuleID i \<longleftrightarrow> 3 \<le> length i \<and> length i \<le> 40 \<and> isLowerAlnum (hd i) \<and> isLowerAlnum (last i) \<and>
     list_all (\<lambda>c. isLowerAlnum c \<or> c = CHR ''.'' \<or> c = CHR ''-'') (butlast (tl i))"

definition validSettingKey :: "string \<Rightarrow> bool" where
  "validSettingKey v \<longleftrightarrow> v \<noteq> [] \<and> length v \<le> 64 \<and>
     list_all (\<lambda>r. isLowerAlnum r \<or> (65 \<le> code r \<and> code r \<le> 90) \<or> r = CHR ''_'' \<or> r = CHR ''-'' \<or> r = CHR ''.'') v"

text \<open>\<^verbatim>\<open>canonicalRoutingDomainPattern\<close>: at least two labels, the last one letters only.\<close>

definition routingLabel :: "string \<Rightarrow> bool" where
  "routingLabel l \<longleftrightarrow> l \<noteq> [] \<and> length l \<le> 63 \<and> isLowerAlnum (hd l) \<and> isLowerAlnum (last l) \<and>
     list_all (\<lambda>c. isLowerAlnum c \<or> c = CHR ''-'') l"

definition routingTLD :: "string \<Rightarrow> bool" where
  "routingTLD l \<longleftrightarrow> 2 \<le> length l \<and> length l \<le> 63 \<and> list_all (\<lambda>c. 97 \<le> code c \<and> code c \<le> 122) l"

definition validCanonicalRoutingDomain :: "string \<Rightarrow> bool" where
  "validCanonicalRoutingDomain v \<longleftrightarrow> 1 \<le> length v \<and> length v \<le> 253 \<and> v = trim_space v \<and> v = to_lower v \<and>
     \<not> has_suffix v ''.'' \<and>
     (let ls = split_on CHR ''.'' v in 2 \<le> length ls \<and> list_all routingLabel (butlast ls) \<and> routingTLD (last ls))"

text \<open>\<^verbatim>\<open>URL.Hostname\<close> and \<^verbatim>\<open>URL.Port\<close>.\<close>

definition urlSplit :: "string \<Rightarrow> string \<times> string" where
  "urlSplit hostPort =
     (let (host, port) =
        (case last_index_byte hostPort CHR '':'' of
           None \<Rightarrow> (hostPort, [])
         | Some i \<Rightarrow>
             (if list_all is_digit (drop (i + 1) hostPort) then (take i hostPort, drop (i + 1) hostPort)
              else (hostPort, [])))
      in (if has_prefix host ''['' \<and> has_suffix host '']'' then butlast (tl host) else host, port))"

definition urlHostname :: "parsedURL \<Rightarrow> string" where "urlHostname u = fst (urlSplit (urlHost u))"
definition urlPort :: "parsedURL \<Rightarrow> string" where "urlPort u = snd (urlSplit (urlHost u))"

definition validSnapshotURL :: "externs \<Rightarrow> string \<Rightarrow> bool" where
  "validSnapshotURL x raw =
     (case xURL x raw of
        None \<Rightarrow> False
      | Some u \<Rightarrow> urlScheme u = ''https'' \<and> urlHostname u \<noteq> [] \<and> urlUser u = None \<and> urlFragment u = [])"

section \<open>Upstream mappings\<close>

definition maxHostTargetServers :: nat where "maxHostTargetServers = 4"

definition hostTargetServerDialAddress :: "string \<Rightarrow> string option" where
  "hostTargetServerDialAddress spec =
     (let found = (case last_index_byte spec CHR ''@'' of
                     Some i \<Rightarrow> (if i > 0 then Some (drop (i + 1) spec) else None)
                   | None \<Rightarrow> None);
          dial = (case found of
                    Some d \<Rightarrow> Some d
                  | None \<Rightarrow> if index_sub spec ''://'' \<noteq> None then None else Some spec)
      in case dial of
           None \<Rightarrow> None
         | Some d \<Rightarrow>
             (if d = [] then None
              else Some (case split_host_port d of Some (bare, _) \<Rightarrow> bare | None \<Rightarrow> d)))"

definition validHostTargetServers :: "string \<Rightarrow> bool" where
  "validHostTargetServers rest =
     (let parts = filter (\<lambda>p. p \<noteq> []) (map trim_space (split_on CHR '','' rest))
      in if parts = [] \<or> length parts > maxHostTargetServers then False
         else list_all (\<lambda>p. case hostTargetServerDialAddress p of
                              None \<Rightarrow> False
                            | Some dial \<Rightarrow>
                                (case ParseIP dial of
                                   None \<Rightarrow> False
                                 | Some ip \<Rightarrow> To4 ip \<noteq> None \<and> hostTargetAddressAllowed ip)) parts)"

definition validHostTarget :: "string \<Rightarrow> bool" where
  "validHostTarget v =
     (let t = to_lower (trim_space v)
      in if has_prefix t hostTargetServerPrefix then validHostTargetServers (drop (length hostTargetServerPrefix) t)
         else
           (let h = canonicalHost v
            in case ParseIP h of
                 Some ip \<Rightarrow> To4 ip \<noteq> None \<and> hostTargetAddressAllowed ip
               | None \<Rightarrow> \<not> has_prefix h ''*.'' \<and> h \<noteq> ''localhost'' \<and> \<not> has_suffix h ''.local'' \<and> validHostPattern h))"

fun validateHostMappings :: "string list \<Rightarrow> string list \<Rightarrow> HostMapping list \<Rightarrow> module_error option" where
  "validateHostMappings captureHosts seen [] = None"
| "validateHostMappings captureHosts seen (m # ms) =
     (if \<not> validHostPattern (mapPattern m) \<or> \<not> hostCoveredBy captureHosts (mapPattern m) \<or> \<not> validHostTarget (mapTarget m)
      then Some MappingInvalid
      else if mapPattern m \<in> set seen then Some MappingDuplicated
      else validateHostMappings captureHosts (mapPattern m # seen) ms)"

section \<open>Routing rules\<close>

definition maxModuleRoutingRules :: nat where "maxModuleRoutingRules = 256"
definition maxActiveModuleRoutingRules :: nat where "maxActiveModuleRoutingRules = 2048"
definition maxModuleRouteKeywords :: nat where "maxModuleRouteKeywords = 8"

definition safeKeyword :: "string \<Rightarrow> bool" where
  "safeKeyword k \<longleftrightarrow> k \<noteq> [] \<and> length k \<le> 64 \<and> k = to_lower (trim_space k) \<and>
     list_all (\<lambda>c. isLowerAlnum c \<or> c = CHR ''.'' \<or> c = CHR ''_'' \<or> c = CHR ''-'') k"

fun checkKeywords :: "route_error \<Rightarrow> route_error \<Rightarrow> string list \<Rightarrow> string list \<Rightarrow> route_error option" where
  "checkKeywords unsafe dup seen [] = None"
| "checkKeywords unsafe dup seen (k # ks) =
     (if \<not> safeKeyword k then Some unsafe
      else if k \<in> set seen then Some dup
      else checkKeywords unsafe dup (k # seen) ks)"

definition optionCheck :: "('a \<Rightarrow> bool) \<Rightarrow> 'a option \<Rightarrow> 'e \<Rightarrow> 'e option" where
  "optionCheck ok v e = (case v of None \<Rightarrow> None | Some a \<Rightarrow> check (\<not> ok a) e)"

definition keywordsOf :: "string list option \<Rightarrow> string list" where
  "keywordsOf v = (case v of None \<Rightarrow> [] | Some ks \<Rightarrow> ks)"

definition present :: "'a option \<Rightarrow> nat" where
  "present v = (if v = None then 0 else 1)"

definition validateRoutingRule :: "RoutingRule \<Rightarrow> route_error option" where
  "validateRoutingRule r =
     (let primary = present (rtDomain r) + present (rtDomainSuffix r) + present (rtIPCIDR r);
          ks = keywordsOf (rtDomainKeywords r);
          allKs = keywordsOf (rtAllDomainKeywords r)
      in firstError
        [check (rtAction r \<noteq> ''reject'' \<and> rtAction r \<noteq> ''direct'') RouteAction,
         optionCheck validCanonicalRoutingDomain (rtDomain r) RouteDomain,
         optionCheck validCanonicalRoutingDomain (rtDomainSuffix r) RouteDomainSuffix,
         optionCheck (\<lambda>c. c \<noteq> [] \<and> networkString c = Some c) (rtIPCIDR r) RouteCIDR,
         optionCheck (\<lambda>l. l \<noteq> []) (rtDomainKeywords r) RouteKeywordsEmpty,
         optionCheck (\<lambda>l. l \<noteq> []) (rtAllDomainKeywords r) RouteAllKeywordsEmpty,
         check (primary > 1 \<or> (primary = 0 \<and> ks = [] \<and> allKs = []) \<or>
                (rtIPCIDR r \<noteq> None \<and> (ks \<noteq> [] \<or> allKs \<noteq> []))) RouteSelectors,
         check (length ks > maxModuleRouteKeywords \<or> \<not> sorted ks) RouteKeywordsInvalid,
         check (length ks = 1) RouteSingleKeyword,
         checkKeywords RouteUnsafeKeyword RouteDuplicateKeyword [] ks,
         check (length allKs > maxModuleRouteKeywords \<or> \<not> sorted allKs) RouteAllKeywordsInvalid,
         checkKeywords RouteUnsafeAllKeyword RouteRepeatedKeyword ks allKs,
         optionCheck (\<lambda>n. n = ''tcp'' \<or> n = ''udp'') (rtNetwork r) RouteNetwork,
         optionCheck (\<lambda>p. 1 \<le> p \<and> p \<le> 65535) (rtDestinationPort r) RoutePort])"

text \<open>
  Two rules are duplicates when their JSON text is the same. All strings of a rule that reaches
  the comparison are plain ASCII, so that the text determines the rule.
\<close>

fun routingRulesFrom :: "RoutingRule list \<Rightarrow> RoutingRule list \<Rightarrow> route_error option" where
  "routingRulesFrom seen [] = None"
| "routingRulesFrom seen (r # rs) =
     (case validateRoutingRule r of
        Some e \<Rightarrow> Some e
      | None \<Rightarrow> if r \<in> set seen then Some RouteDuplicated else routingRulesFrom (r # seen) rs)"

definition validateRoutingRules :: "RoutingRule list \<Rightarrow> route_error option" where
  "validateRoutingRules rules =
     firstError [check (length rules > maxModuleRoutingRules) TooManyRoutingRules, routingRulesFrom [] rules]"

section \<open>Execution order and network permissions\<close>

fun orderFrom :: "string list \<Rightarrow> string list \<Rightarrow> string list \<Rightarrow> config_error option" where
  "orderFrom moduleIDs seen [] = None"
| "orderFrom moduleIDs seen (i # is) =
     (if i \<notin> set moduleIDs then Some OrderUnknown
      else if i \<in> set seen then Some OrderDuplicate
      else orderFrom moduleIDs (i # seen) is)"

definition validateExecutionOrder :: "Module list \<Rightarrow> string list option \<Rightarrow> config_error option" where
  "validateExecutionOrder modules order =
     (case order of
        None \<Rightarrow> Some OrderMissing
      | Some ids \<Rightarrow>
          firstError [check (length ids \<noteq> length modules) OrderLength, orderFrom (map modID modules) [] ids])"

definition reservedTerminalMatchEgressGroup :: string where
  "reservedTerminalMatchEgressGroup = ''__5GPN_TERMINAL_MATCH__''"

definition validateModuleNetworkPermissions :: "Module \<Rightarrow> module_error option" where
  "validateModuleNetworkPermissions m =
     (let g = modEgressGroup m
      in firstError
        [check (modEnabled m \<and> modEgressGroupRequired m \<and> trim_space g = []) EgressGroupRequired,
         if g = [] then None
         else firstError
           [check (g = reservedTerminalMatchEgressGroup) EgressGroupReserved,
            check (\<not> validUTF8 g \<or> g \<noteq> trim_space g \<or> length g > 128) EgressGroupBounds,
            check (list_ex (\<lambda>r. r = 44 \<or> isControl r) (runes g)) EgressGroupCharacter]])"

section \<open>Settings\<close>

definition isNullText :: "string \<Rightarrow> bool" where
  "isNullText raw \<longleftrightarrow> trim_space raw = ''null''"

definition decodeText :: "externs \<Rightarrow> string \<Rightarrow> string option" where
  "decodeText x raw = (case xJSON x raw of Some (JStr s) \<Rightarrow> Some s | Some JNull \<Rightarrow> Some [] | _ \<Rightarrow> None)"

definition validateTextValue :: "externs \<Rightarrow> ModuleSetting \<Rightarrow> string \<Rightarrow> bool \<Rightarrow> value_error option" where
  "validateTextValue x s raw full =
     (case decodeText x raw of
        None \<Rightarrow> Some ValueNotString
      | Some v \<Rightarrow> firstError
         [check (length v > 4096) ValueNotString,
          check (full \<and> trim_space v = []) ValueEmpty,
          check (setType s = ''select'' \<and> v \<noteq> [] \<and> \<not> containsString (setOptions s) v) ValueNotOption])"

definition validateNumberValue :: "externs \<Rightarrow> ModuleSetting \<Rightarrow> string \<Rightarrow> value_error option" where
  "validateNumberValue x s raw =
     (case (case xJSON x raw of Some (JNum lit) \<Rightarrow> xNum x lit | Some JNull \<Rightarrow> Some 0 | _ \<Rightarrow> None) of
        None \<Rightarrow> Some ValueNotNumber
      | Some v \<Rightarrow>
          check ((case setMin s of None \<Rightarrow> False | Some lo \<Rightarrow> v < lo) \<or> (case setMax s of None \<Rightarrow> False | Some hi \<Rightarrow> v > hi))
            ValueOutOfBounds)"

definition validateLocationValue :: "externs \<Rightarrow> string \<Rightarrow> bool \<Rightarrow> value_error option" where
  "validateLocationValue x raw full =
     (case decodeLocation x raw of
        Inl _ \<Rightarrow> Some ValueNotLocation
      | Inr v \<Rightarrow> firstError
         [check (locAccuracy v = 0 \<or> locAccuracy v > 100000 \<or> (locLongitude v = None) \<noteq> (locLatitude v = None)) LocationInvalid,
          optionCheck (\<lambda>d. - 180 \<le> d \<and> d \<le> 180) (locLongitude v) LongitudeInvalid,
          optionCheck (\<lambda>d. - 90 \<le> d \<and> d \<le> 90) (locLatitude v) LatitudeInvalid,
          check (full \<and> locLongitude v = None) CoordinatesRequired])"

definition validateSettingValue :: "externs \<Rightarrow> ModuleSetting \<Rightarrow> string \<Rightarrow> bool \<Rightarrow> value_error option" where
  "validateSettingValue x s raw full =
     (if raw = [] \<or> isNullText raw then check full ValueRequired
      else if length raw > 65536 then Some ValueTooLong
      else if setType s = ''text'' \<or> setType s = ''select'' then validateTextValue x s raw full
      else if setType s = ''boolean'' then
        (case xJSON x raw of Some (JBool _) \<Rightarrow> None | Some JNull \<Rightarrow> None | _ \<Rightarrow> Some ValueNotBoolean)
      else if setType s = ''number'' then validateNumberValue x s raw
      else if setType s = ''location'' then validateLocationValue x raw full
      else None)"

definition settingReady :: "externs \<Rightarrow> ModuleSetting \<Rightarrow> bool" where
  "settingReady x s \<longleftrightarrow> validateSettingValue x s (setValue s) True = None"

definition moduleSettingsReady :: "externs \<Rightarrow> ModuleSetting list \<Rightarrow> bool" where
  "moduleSettingsReady x settings \<longleftrightarrow> list_all (\<lambda>s. setRequired s \<longrightarrow> settingReady x s) settings"

fun checkOptions :: "string list \<Rightarrow> string list \<Rightarrow> setting_error option" where
  "checkOptions seen [] = None"
| "checkOptions seen (o1 # os) =
     (if o1 = [] \<or> length o1 > 256 then Some SettingOption
      else if o1 \<in> set seen then Some SettingOptionDuplicate
      else checkOptions (o1 # seen) os)"

definition settingShape :: "ModuleSetting \<Rightarrow> setting_error option" where
  "settingShape s =
     (if setType s = ''text'' \<or> setType s = ''boolean'' \<or> setType s = ''location'' then
        check (setOptions s \<noteq> [] \<or> setMin s \<noteq> None \<or> setMax s \<noteq> None) SettingConstraints
      else if setType s = ''select'' then
        firstError
          [check (setOptions s = [] \<or> length (setOptions s) > 64 \<or> setMin s \<noteq> None \<or> setMax s \<noteq> None) SettingOptions,
           checkOptions [] (setOptions s)]
      else if setType s = ''number'' then
        check (setOptions s \<noteq> [] \<or>
               (case (setMin s, setMax s) of (Some lo, Some hi) \<Rightarrow> lo > hi | _ \<Rightarrow> False)) SettingConstraints
      else Some SettingTypeUnknown)"

definition validateSettingDefinition :: "externs \<Rightarrow> ModuleSetting \<Rightarrow> setting_error option" where
  "validateSettingDefinition x s =
     firstError
       [settingShape s,
        if setDefault s = [] then None
        else map_option SettingDefaultInvalid (validateSettingValue x s (setDefault s) False),
        if setValue s = [] then None
        else map_option SettingValueInvalid (validateSettingValue x s (setValue s) False)]"

fun settingsFrom :: "externs \<Rightarrow> bool \<Rightarrow> string list \<Rightarrow> ModuleSetting list \<Rightarrow> setting_error option" where
  "settingsFrom x requireReady seen [] = None"
| "settingsFrom x requireReady seen (s # ss) =
     (if \<not> validSettingKey (setKey s) then Some SettingKeyInvalid
      else if setKey s \<in> set seen then Some SettingDuplicated
      else if length (setLabel s) > 128 \<or> length (setDescription s) > 512 then Some SettingMetadata
      else (case validateSettingDefinition x s of
              Some e \<Rightarrow> Some e
            | None \<Rightarrow>
                if requireReady \<and> setRequired s \<and> \<not> settingReady x s then Some SettingNotReady
                else settingsFrom x requireReady (setKey s # seen) ss))"

definition validateModuleSettings :: "externs \<Rightarrow> ModuleSetting list \<Rightarrow> bool \<Rightarrow> setting_error option" where
  "validateModuleSettings x settings requireReady =
     firstError [check (length settings > 128) TooManySettings, settingsFrom x requireReady [] settings]"

section \<open>Actions\<close>

definition to_upper :: "string \<Rightarrow> string" where "to_upper s = map upper_char s"

definition validMethod :: "string \<Rightarrow> bool" where
  "validMethod m \<longleftrightarrow> m \<noteq> [] \<and> m = to_upper m \<and> \<not> list_ex (\<lambda>c. code c \<in> {32, 9, 13, 10}) m"

definition maxActionMatchHosts :: nat where "maxActionMatchHosts = 512"

definition validateActionMatch :: "externs \<Rightarrow> string list \<Rightarrow> string \<Rightarrow> ActionMatch \<Rightarrow> match_error option" where
  "validateActionMatch x captureHosts phase m =
     firstError
       ([check (matchHosts m = [] \<or> length (matchHosts m) > maxActionMatchHosts \<or> matchSchemes m = [] \<or> matchPathRegex m = [])
           MatchIncomplete] @
        map (\<lambda>h. check (\<not> validHostPattern h \<or> \<not> hostCoveredBy captureHosts h) MatchHost) (matchHosts m) @
        map (\<lambda>s. check (s \<noteq> ''http'' \<and> s \<noteq> ''https'') MatchScheme) (matchSchemes m) @
        map (\<lambda>v. check (\<not> validMethod v) MatchMethod) (matchMethods m) @
        [check (\<not> xRegexp x (matchPathRegex m)) MatchPath,
         check (phase = ''request'' \<and> matchStatusCodes m \<noteq> []) MatchRequestStatus] @
        map (\<lambda>c. check (c < 100 \<or> c > 599) MatchStatus) (matchStatusCodes m))"

text \<open>The first setting with the gate's key decides.\<close>

definition gateSetting :: "ActionGate \<Rightarrow> ModuleSetting \<Rightarrow> gate_error option" where
  "gateSetting g s =
     (if \<not> setRequired s then Some GateOptional
      else if setType s = ''boolean'' then check (gateEquals g \<noteq> ''true'' \<and> gateEquals g \<noteq> ''false'') GateBoolean
      else if setType s = ''select'' then check (gateEquals g \<notin> set (setOptions s)) GateSelect
      else Some GateType)"

definition validateActionGate :: "ModuleSetting list \<Rightarrow> ActionGate option \<Rightarrow> gate_error option" where
  "validateActionGate settings gate =
     (case gate of
        None \<Rightarrow> None
      | Some g \<Rightarrow> firstError
         [check (\<not> validSettingKey (gateKey g)) GateKey,
          check (gateEquals g = []) GateNoValue,
          case find (\<lambda>s. setKey s = gateKey g) settings of
            None \<Rightarrow> Some GateUndeclared
          | Some s \<Rightarrow> gateSetting g s])"

definition digestText :: "externs \<Rightarrow> string \<Rightarrow> string" where "digestText x v = xSHA x v"

definition declaredKinds :: "ScriptRule \<Rightarrow> nat" where
  "declaredKinds r = length (filter id
     [ruleJQProgram r \<noteq> [], ruleReject r, ruleMock r \<noteq> None, ruleHeaders r \<noteq> None, ruleRewrite r \<noteq> None,
      ruleReplaceBody r \<noteq> None, ruleScriptBody r \<noteq> [] \<or> ruleScriptURL r \<noteq> []])"

definition isDeclarative :: "ScriptRule \<Rightarrow> bool" where
  "isDeclarative r \<longleftrightarrow> ruleReject r \<or> ruleMock r \<noteq> None \<or> ruleJQProgram r \<noteq> [] \<or> ruleHeaders r \<noteq> None \<or>
     ruleRewrite r \<noteq> None \<or> ruleReplaceBody r \<noteq> None"

definition commonActionChecks :: "externs \<Rightarrow> Module \<Rightarrow> string list \<Rightarrow> ScriptRule \<Rightarrow> rule_error option" where
  "commonActionChecks x m seen r =
     firstError
       [check (\<not> validSettingKey (ruleID r)) ActionIDInvalid,
        check (ruleID r \<in> set seen) ActionDuplicated,
        check (rulePhase r \<noteq> ''request'' \<and> rulePhase r \<noteq> ''response'') ActionPhase,
        map_option ActionMatchInvalid (validateActionMatch x (modCaptureHosts m) (rulePhase r) (ruleMatch r)),
        map_option ActionGateInvalid (validateActionGate (modSettings m) (ruleEnabledWhen r)),
        check (length (ruleScriptURL r) > 4096 \<or> (ruleScriptURL r \<noteq> [] \<and> \<not> validSnapshotURL x (ruleScriptURL r))) ActionURL,
        check (declaredKinds r > 1) ActionKinds,
        check (ruleEntry r \<noteq> [] \<and> isDeclarative r) EntryWithoutScript,
        check (ruleBodyMode r \<noteq> ''none'' \<and> ruleBodyMode r \<noteq> ''text'' \<and> ruleBodyMode r \<noteq> ''binary'') BodyMode,
        check (ruleTimeoutMS r < 50 \<or> ruleTimeoutMS r > 30000 \<or> ruleMaxBodyBytes r < 1024 \<or> ruleMaxBodyBytes r > 67108864)
          ActionLimits,
        check (ruleRewrite r \<noteq> None \<and> rulePhase r \<noteq> ''request'') RewritePhase,
        check (ruleReplaceBody r \<noteq> None \<and> ruleBodyMode r = ''none'') ReplaceBodyMode]"

definition declarativeChecks :: "externs \<Rightarrow> ScriptRule \<Rightarrow> action_error option" where
  "declarativeChecks x r =
     firstError
       [validateMock x (ruleMock r), validateHeaderEdits (ruleHeaders r),
        (case ruleRewrite r of None \<Rightarrow> None | Some w \<Rightarrow> errorOf (validateRewrite x w)),
        (case ruleReplaceBody r of None \<Rightarrow> None | Some b \<Rightarrow> errorOf (validateBodyReplace x b))]"

definition maxJQProgramBytes :: nat where "maxJQProgramBytes = 32768"

definition compileJQProgram :: "externs \<Rightarrow> string \<Rightarrow> jq_code option" where
  "compileJQProgram x program =
     (if length program > maxJQProgramBytes then None else if xJQ x program then Some (JQ program) else None)"

definition scriptFile :: "Module \<Rightarrow> ScriptRule \<Rightarrow> string" where
  "scriptFile m r = firstNonEmpty [ruleScriptURL r, ''extension:'' @ modID m @ ''/'' @ ruleID r]"

definition gojaCompile :: "externs \<Rightarrow> string \<Rightarrow> string \<Rightarrow> goja_program option" where
  "gojaCompile x file body = (if xGoja x file body then Some (Program file body) else None)"

type_synonym programs = "((string \<times> string \<times> string) \<times> goja_program) list"

text \<open>
  One action: the common checks, then those of its kind. A script adds its length to the total
  and its program to the map.
\<close>

definition scriptChecks :: "externs \<Rightarrow> Module \<Rightarrow> ScriptRule \<Rightarrow> rule_error + goja_program" where
  "scriptChecks x m r =
     (if ruleScriptBody r = [] \<or> length (ruleScriptBody r) > 1048576 \<or> ruleScriptDigest r \<noteq> digestText x (ruleScriptBody r)
      then Inl ScriptSnapshot
      else (case checkScriptNesting (ruleScriptBody r) of
              Some e \<Rightarrow> Inl (ScriptNesting e)
            | None \<Rightarrow>
                (case gojaCompile x (scriptFile m r) (ruleScriptBody r) of
                   None \<Rightarrow> Inl ScriptNotCompiled
                 | Some p \<Rightarrow>
                     if ruleEntry r \<noteq> [] \<and> ruleEntry r \<noteq> ''proxy-compat'' then Inl EntryMode else Inr p)))"

definition validateAction :: "externs \<Rightarrow> Module \<Rightarrow> string list \<Rightarrow> ScriptRule \<Rightarrow> rule_error + goja_program option" where
  "validateAction x m seen r =
     (case commonActionChecks x m seen r of
        Some e \<Rightarrow> Inl e
      | None \<Rightarrow>
          (if ruleReject r then Inr None
           else (case declarativeChecks x r of
                   Some e \<Rightarrow> Inl (DeclarativeInvalid e)
                 | None \<Rightarrow>
                     (if ruleMock r \<noteq> None \<or> ruleHeaders r \<noteq> None \<or> ruleRewrite r \<noteq> None \<or> ruleReplaceBody r \<noteq> None
                      then Inr None
                      else if ruleJQProgram r \<noteq> [] then
                        (if ruleBodyMode r \<noteq> ''text'' then Inl JQNeedsText
                         else if compileJQProgram x (ruleJQProgram r) = None then Inl JQInvalid
                         else Inr None)
                      else map_sum id Some (scriptChecks x m r)))))"

fun actionsFrom :: "externs \<Rightarrow> Module \<Rightarrow> string list \<Rightarrow> nat \<Rightarrow> programs \<Rightarrow> ScriptRule list \<Rightarrow> rule_error + nat \<times> programs" where
  "actionsFrom x m seen used ps [] = Inr (used, ps)"
| "actionsFrom x m seen used ps (r # rs) =
     (case validateAction x m seen r of
        Inl e \<Rightarrow> Inl e
      | Inr None \<Rightarrow> actionsFrom x m (ruleID r # seen) used ps rs
      | Inr (Some p) \<Rightarrow>
          actionsFrom x m (ruleID r # seen) (used + length (ruleScriptBody r))
            (AList.update (modID m, ruleID r, ruleScriptDigest r) p ps) rs)"

section \<open>Modules\<close>

definition maxModuleCaptureHosts :: nat where "maxModuleCaptureHosts = 512"

definition captureHostChecks :: "string list \<Rightarrow> module_error option" where
  "captureHostChecks hosts =
     firstError (concat (map (\<lambda>h.
       [check (\<not> validHostPattern h) CaptureHostInvalid, check (h \<noteq> canonicalHost h) CaptureHostNotCanonical]) hosts))"

text \<open>The checks of a module that do not depend on the modules before it, up to its routing rules.\<close>

definition moduleChecks :: "externs \<Rightarrow> Module \<Rightarrow> module_error option" where
  "moduleChecks x m =
     firstError
       [check (\<not> xTime x (modImportedAt m)) InvalidImportedAt,
        check (trim_space (modVersion m) = [] \<or> length (modVersion m) > 64 \<or> trim_space (modName m) = [] \<or>
               length (modName m) > 128 \<or> length (modDescription m) > 1024) MetadataBounds,
        check (srcBody (modSource m) = [] \<or> length (srcBody (modSource m)) > 2097152 \<or>
               srcDigest (modSource m) \<noteq> digestText x (srcBody (modSource m))) ManifestDigest,
        check (length (srcURL (modSource m)) > 4096 \<or>
               (srcURL (modSource m) \<noteq> [] \<and> \<not> validSnapshotURL x (srcURL (modSource m)))) SourceURLInvalid,
        check (modCaptureHosts m = [] \<or> length (modCaptureHosts m) > maxModuleCaptureHosts \<or> \<not> sorted (modCaptureHosts m))
          CaptureHostsInvalid,
        captureHostChecks (modCaptureHosts m),
        check (modCaptureDNS m \<noteq> ''trust'' \<and> modCaptureDNS m \<noteq> ''china'') CaptureDNSInvalid,
        check (length (modScripts m) + length (modHostMappings m) = 0 \<or>
               length (modScripts m) + length (modHostMappings m) > 256) ActionCountInvalid,
        map_option Setting (validateModuleSettings x (modSettings m) (modEnabled m)),
        validateHostMappings (modCaptureHosts m) [] (modHostMappings m),
        validateModuleNetworkPermissions m,
        map_option Routing (validateRoutingRules (modRoutingRules m))]"

text \<open>Enabled modules may not send one pattern to two targets.\<close>

fun mappingConflicts :: "(string \<times> string) list \<Rightarrow> HostMapping list \<Rightarrow> module_error + (string \<times> string) list" where
  "mappingConflicts active [] = Inr active"
| "mappingConflicts active (h # hs) =
     (case map_of active (mapPattern h) of
        Some t \<Rightarrow>
          (if t \<noteq> mapTarget h then Inl MappingConflict
           else mappingConflicts (AList.update (mapPattern h) (mapTarget h) active) hs)
      | None \<Rightarrow> mappingConflicts (AList.update (mapPattern h) (mapTarget h) active) hs)"

record moduleScan =
  scanIDs :: "string list"
  scanMappings :: "(string \<times> string) list"
  scanRules :: nat
  scanPrograms :: programs

definition scanRulesAfter :: "Module \<Rightarrow> nat \<Rightarrow> nat" where
  "scanRulesAfter m n = (if modEnabled m then n + length (modRoutingRules m) else n)"

text \<open>The end of the loop body for a module whose actions are valid.\<close>

definition enabledChecks :: "externs \<Rightarrow> Module \<Rightarrow> (string \<times> string) list \<Rightarrow> module_error + (string \<times> string) list" where
  "enabledChecks x m active =
     (if \<not> modEnabled m then Inr active
      else if \<not> moduleSettingsReady x (modSettings m) then Inl SettingsNotReady
      else mappingConflicts active (modHostMappings m))"

definition validateModule :: "externs \<Rightarrow> moduleScan \<Rightarrow> Module \<Rightarrow> module_error + moduleScan" where
  "validateModule x st m =
     (let rules = scanRulesAfter m (scanRules st)
      in case firstError
           [check (\<not> validModuleID (modID m)) InvalidModuleID,
            check (modID m \<in> set (scanIDs st)) DuplicateModuleID,
            moduleChecks x m,
            check (modEnabled m \<and> rules > maxActiveModuleRoutingRules) TooManyActiveRoutingRules] of
           Some e \<Rightarrow> Inl e
         | None \<Rightarrow>
             (case actionsFrom x m [] 0 (scanPrograms st) (modScripts m) of
                Inl e \<Rightarrow> Inl (Action e)
              | Inr (used, ps) \<Rightarrow>
                  (if used > 8388608 then Inl ScriptTotal
                   else map_sum id (\<lambda>active. \<lparr>scanIDs = modID m # scanIDs st, scanMappings = active, scanRules = rules,
                          scanPrograms = ps\<rparr>) (enabledChecks x m (scanMappings st)))))"

fun modulesFrom :: "externs \<Rightarrow> moduleScan \<Rightarrow> Module list \<Rightarrow> module_error + moduleScan" where
  "modulesFrom x st [] = Inr st"
| "modulesFrom x st (m # ms) = bindJ (validateModule x st m) (\<lambda>st. modulesFrom x st ms)"

definition scanStartModules :: moduleScan where
  "scanStartModules = \<lparr>scanIDs = [], scanMappings = [], scanRules = 0, scanPrograms = []\<rparr>"

definition validateModulesWithPrograms :: "externs \<Rightarrow> Module list \<Rightarrow> config_error + programs" where
  "validateModulesWithPrograms x modules =
     (if length modules > 64 then Inl TooManyModules
      else map_sum Module scanPrograms (modulesFrom x scanStartModules modules))"

section \<open>The document\<close>

definition configVersion :: int where "configVersion = 6"
definition maxCertificateHosts :: nat where "maxCertificateHosts = 512"

definition credentialsBad :: "string \<Rightarrow> string \<Rightarrow> bool" where
  "credentialsBad user pass \<longleftrightarrow> length user < 16 \<or> length pass < 24 \<or> length user > 255 \<or> length pass > 255"

definition boundaryChecks :: "Config \<Rightarrow> config_error option" where
  "boundaryChecks c =
     firstError
       [check (cfgVersion c \<noteq> configVersion) VersionMismatch,
        validateLoopbackAddress (cfgListen c),
        validateLoopbackAddress (proxyAddress (cfgUpstreamProxy c)),
        check (cfgListen c \<noteq> ''127.0.0.1:18080'' \<or> proxyAddress (cfgUpstreamProxy c) \<noteq> ''127.0.0.1:17890'') AddressBoundary,
        check (credentialsBad (cfgUsername c) (cfgPassword c)) InboundCredentials,
        check (credentialsBad (proxyUsername (cfgUpstreamProxy c)) (proxyPassword (cfgUpstreamProxy c))) UpstreamCredentials,
        check (trim_space (cfgTLSCert c) = [] \<or> trim_space (cfgTLSKey c) = []) TLSPathsMissing]"

definition validateConfig :: "externs \<Rightarrow> Config \<Rightarrow> config_error + programs" where
  "validateConfig x c =
     (case boundaryChecks c of
        Some e \<Rightarrow> Inl e
      | None \<Rightarrow>
          bindJ (validateModulesWithPrograms x (cfgModules c)) (\<lambda>ps.
            (case firstError
               [validateExecutionOrder (cfgModules c) (cfgExecutionOrder c),
                check (length (certificateHostPatterns c) > maxCertificateHosts) TooManyCertificateHosts] of
               Some e \<Rightarrow> Inl e
             | None \<Rightarrow> Inr ps)))"

definition tlsCertPath :: string where "tlsCertPath = ''/etc/5gpn/intercept/tls/fullchain.pem''"
definition tlsKeyPath :: string where "tlsKeyPath = ''/etc/5gpn/intercept/tls/privkey.pem''"

definition ValidateDeployment :: "Config \<Rightarrow> config_error option" where
  "ValidateDeployment c = check (cfgTLSCert c \<noteq> tlsCertPath \<or> cfgTLSKey c \<noteq> tlsKeyPath) TLSPathBoundary"

fun certificateModules :: "string list \<Rightarrow> nat \<Rightarrow> Module list \<Rightarrow> module_error option" where
  "certificateModules ids active [] = None"
| "certificateModules ids active (m # ms) =
     (let active' = scanRulesAfter m active
      in case firstError
           ([check (modID m \<in> set ids) DuplicateModuleID,
             validateModuleNetworkPermissions m,
             map_option Routing (validateRoutingRules (modRoutingRules m)),
             check (modCaptureDNS m \<noteq> ''trust'' \<and> modCaptureDNS m \<noteq> ''china'') CaptureDNSInvalid] @
            (if \<not> modEnabled m then []
             else
               [check (active' > maxActiveModuleRoutingRules) TooManyActiveRoutingRules,
                check (\<not> validModuleID (modID m) \<or> modCaptureHosts m = [] \<or> length (modCaptureHosts m) > maxModuleCaptureHosts)
                  IdentityOrHostCount] @
               map (\<lambda>h. check (\<not> validHostPattern h) CaptureHostInvalid) (modCaptureHosts m))) of
           Some e \<Rightarrow> Some e
         | None \<Rightarrow> certificateModules (modID m # ids) active' ms)"

definition ValidateCertificateRequest :: "Config \<Rightarrow> config_error option" where
  "ValidateCertificateRequest c =
     firstError
       [check (cfgVersion c \<noteq> configVersion) VersionMismatch,
        ValidateDeployment c,
        check (length (cfgModules c) > 64) TooManyModules,
        validateExecutionOrder (cfgModules c) (cfgExecutionOrder c),
        map_option Module (certificateModules [] 0 (cfgModules c)),
        check (length (certificateHostPatterns c) > maxCertificateHosts) TooManyCertificateHosts]"

section \<open>Origins\<close>

definition canonicalModuleNetworkOrigin :: "externs \<Rightarrow> string \<Rightarrow> string option" where
  "canonicalModuleNetworkOrigin x raw =
     (if raw = [] \<or> length raw > 4096 \<or> raw \<noteq> trim_space raw then None
      else (case xURL x raw of
              None \<Rightarrow> None
            | Some u \<Rightarrow>
                (let scheme = to_lower (urlScheme u);
                     host = canonicalHost (urlHostname u);
                     defaultPort = (if scheme = ''https'' then ''443'' else ''80'');
                     port = (if urlPort u = [] then defaultPort else urlPort u)
                 in if urlOpaque u \<noteq> [] \<or> urlUser u \<noteq> None \<or> urlRawQuery u \<noteq> [] \<or> urlForceQuery u \<or> urlFragment u \<noteq> [] then None
                    else if urlPath u \<noteq> [] \<and> urlPath u \<noteq> ''/'' then None
                    else if scheme \<noteq> ''http'' \<and> scheme \<noteq> ''https'' then None
                    else if host = [] \<or> ParseIP host \<noteq> None \<or> \<not> validHostTarget host \<or> CHR '':'' \<in> set host then None
                    else if has_suffix (urlHost u) '':'' then None
                    else (case atoi port of
                            None \<Rightarrow> None
                          | Some n \<Rightarrow>
                              (if n < 1 \<or> n > 65535 then None
                               else if itoa n = defaultPort then Some (scheme @ ''://'' @ host)
                               else Some (scheme @ ''://'' @ joinHostPort host (itoa n)))))))"

end
