(* ===== verification/Rule_Matching.thy ===== *)
theory Rule_Matching
  imports Validation
begin

text \<open>
  From a validated document to the actions that apply to a message (config.go \<^verbatim>\<open>decodeConfig\<close>,
  module_runtime.go \<^verbatim>\<open>compileScriptConfigWithPrograms\<close> and \<^verbatim>\<open>matchingScriptRules\<close>): compilation turns
  the enabled modules, in execution order, into host matchers, patterns and programs, leaving out
  actions whose gate is closed; matching walks the compiled snapshot.

  \<open>unmarshal\<close> is the strict decoding of the text into the \<^verbatim>\<open>Config\<close> struct by \<^verbatim>\<open>encoding/json\<close>.
\<close>

section \<open>Compilation\<close>

datatype compile_error =
    SettingsNotDecoded string | PathNotCompiled string | ProgramNotCompiled string | JQNotCompiled string

definition actionGateOpen :: "externs \<Rightarrow> ScriptRule \<Rightarrow> settings \<Rightarrow> bool" where
  "actionGateOpen x rule settings =
     (case ruleEnabledWhen rule of
        None \<Rightarrow> True
      | Some g \<Rightarrow>
          (case map_of settings (gateKey g) of
             None \<Rightarrow> True
           | Some v \<Rightarrow> compatArgumentText x v = gateEquals g))"

definition scriptProgram :: "externs \<Rightarrow> Module \<Rightarrow> ScriptRule \<Rightarrow> goja_program option" where
  "scriptProgram x m rule =
     (case ruleProgram rule of Some p \<Rightarrow> Some p | None \<Rightarrow> gojaCompile x (scriptFile m rule) (ruleScriptBody rule))"

definition ruleProgramFor :: "externs \<Rightarrow> programs \<Rightarrow> Module \<Rightarrow> ScriptRule \<Rightarrow> goja_program option" where
  "ruleProgramFor x ps m rule =
     (case map_of ps (modID m, ruleID rule, ruleScriptDigest rule) of
        Some p \<Rightarrow> Some p
      | None \<Rightarrow> scriptProgram x m rule)"

text \<open>The compiled jq program of an action that has one; \<open>None\<close> on the outside is a failure.\<close>

definition ruleJQFor :: "externs \<Rightarrow> ScriptRule \<Rightarrow> jq_code option option" where
  "ruleJQFor x rule =
     (if ruleJQProgram rule = [] then Some (ruleJQ rule)
      else map_option Some (compileJQProgram x (ruleJQProgram rule)))"

definition compileRule :: "externs \<Rightarrow> programs \<Rightarrow> Module \<Rightarrow> settings \<Rightarrow> ScriptRule \<Rightarrow> compile_error + compiledScriptRule" where
  "compileRule x ps m settings rule =
     (if \<not> xRegexp x (matchPathRegex (ruleMatch rule)) then Inl (PathNotCompiled (ruleID rule))
      else (case ruleProgramFor x ps m rule of
              None \<Rightarrow> Inl (ProgramNotCompiled (ruleID rule))
            | Some p \<Rightarrow>
                (case ruleJQFor x rule of
                   None \<Rightarrow> Inl (JQNotCompiled (ruleID rule))
                 | Some jq \<Rightarrow>
                     Inr \<lparr>crRule = rule\<lparr>ruleProgram := Some p, ruleJQ := jq, ruleSettings := Some settings\<rparr>,
                          crPath = Regexp (matchPathRegex (ruleMatch rule)),
                          crHosts = newCompiledHostMatcher (matchHosts (ruleMatch rule))\<rparr>)))"

fun compileRules :: "externs \<Rightarrow> programs \<Rightarrow> Module \<Rightarrow> settings \<Rightarrow> ScriptRule list \<Rightarrow> compile_error + compiledScriptRule list" where
  "compileRules x ps m settings [] = Inr []"
| "compileRules x ps m settings (r # rs) =
     (if \<not> actionGateOpen x r settings then compileRules x ps m settings rs
      else bindJ (compileRule x ps m settings r) (\<lambda>c. bindJ (compileRules x ps m settings rs) (\<lambda>cs. Inr (c # cs))))"

definition compileModule :: "externs \<Rightarrow> programs \<Rightarrow> (string \<times> compiledHostMatcher) list \<Rightarrow> Module \<Rightarrow> compile_error + compiledScriptModule" where
  "compileModule x ps hosts m =
     (case moduleSettingValues x m of
        None \<Rightarrow> Inl (SettingsNotDecoded (modID m))
      | Some settings \<Rightarrow>
          bindJ (compileRules x ps m settings (modScripts m)) (\<lambda>rules.
            Inr \<lparr>cmModule = m, cmRules = rules, cmHosts = map_of hosts (modID m)\<rparr>))"

text \<open>The execution order; unknown identifiers and disabled modules are skipped.\<close>

fun compileOrder :: "externs \<Rightarrow> programs \<Rightarrow> (string \<times> compiledHostMatcher) list \<Rightarrow> (string \<times> Module) list \<Rightarrow> string list \<Rightarrow>
    compile_error + compiledScriptModule list" where
  "compileOrder x ps hosts byID [] = Inr []"
| "compileOrder x ps hosts byID (i # is) =
     (case map_of byID i of
        None \<Rightarrow> compileOrder x ps hosts byID is
      | Some m \<Rightarrow>
          (if \<not> modEnabled m then compileOrder x ps hosts byID is
           else bindJ (compileModule x ps hosts m) (\<lambda>c. bindJ (compileOrder x ps hosts byID is) (\<lambda>cs. Inr (c # cs)))))"

definition modulesByID :: "Module list \<Rightarrow> (string \<times> Module) list" where
  "modulesByID ms = fold (\<lambda>m byID. AList.update (modID m) m byID) ms []"

definition hostsByID :: "Module list \<Rightarrow> (string \<times> compiledHostMatcher) list" where
  "hostsByID ms = fold (\<lambda>m hosts. AList.update (modID m) (newCompiledHostMatcher (modCaptureHosts m)) hosts) (filter modEnabled ms) []"

definition compileScriptConfigWithPrograms :: "externs \<Rightarrow> Config \<Rightarrow> programs \<Rightarrow> compile_error + compiledScriptConfig" where
  "compileScriptConfigWithPrograms x cfg ps =
     (let hosts = hostsByID (cfgModules cfg);
          patterns = uniqueSorted (if mitmEnabled (cfgMITM cfg)
                       then concat (map modCaptureHosts (filter modEnabled (cfgModules cfg))) else [])
      in bindJ (compileOrder x ps hosts (modulesByID (cfgModules cfg)) (case cfgExecutionOrder cfg of None \<Rightarrow> [] | Some ids \<Rightarrow> ids))
           (\<lambda>modules. Inr \<lparr>rtModules = modules, rtModuleHosts = hosts,
              rtActiveHosts = Some (newCompiledHostMatcher patterns), rtActivePatterns = patterns\<rparr>))"

section \<open>Decoding\<close>

text \<open>Validation leaves the compiled patterns of rewrites and replacements in the document.\<close>

definition keepPatterns :: "externs \<Rightarrow> ScriptRule \<Rightarrow> ScriptRule" where
  "keepPatterns x r =
     (if ruleReject r then r
      else r\<lparr>ruleRewrite := map_option (\<lambda>w. case validateRewrite x w of Inr w' \<Rightarrow> w' | Inl _ \<Rightarrow> w) (ruleRewrite r),
             ruleReplaceBody := map_option (\<lambda>b. case validateBodyReplace x b of Inr b' \<Rightarrow> b' | Inl _ \<Rightarrow> b) (ruleReplaceBody r)\<rparr>)"

definition withPatterns :: "externs \<Rightarrow> Config \<Rightarrow> Config" where
  "withPatterns x c = c\<lparr>cfgModules := map (\<lambda>m. m\<lparr>modScripts := map (keepPatterns x) (modScripts m)\<rparr>) (cfgModules c)\<rparr>"

definition decodeConfig :: "externs \<Rightarrow> (string \<Rightarrow> Config option) \<Rightarrow> string \<Rightarrow> config_error + Config" where
  "decodeConfig x unmarshal body =
     (case rejectDuplicateJSONKeys x body of
        Inl e \<Rightarrow> Inl (Undecodable e)
      | Inr _ \<Rightarrow>
          (case unmarshal body of
             None \<Rightarrow> Inl (Undecodable NotJSON)
           | Some cfg \<Rightarrow>
               bindJ (validateConfig x cfg) (\<lambda>ps.
                 let cfg = withPatterns x cfg
                 in case compileScriptConfigWithPrograms x cfg ps of
                      Inl _ \<Rightarrow> Inl RuntimeNotCompiled
                    | Inr rt \<Rightarrow> Inr (cfg\<lparr>cfgRuntime := Some rt\<rparr>))))"

definition loadCertificateConfig :: "externs \<Rightarrow> (string \<Rightarrow> Config option) \<Rightarrow> string \<Rightarrow> config_error + Config" where
  "loadCertificateConfig x unmarshal body =
     (case rejectDuplicateJSONKeys x body of
        Inl e \<Rightarrow> Inl (Undecodable e)
      | Inr _ \<Rightarrow>
          (case unmarshal body of
             None \<Rightarrow> Inl (Undecodable NotJSON)
           | Some cfg \<Rightarrow> (case ValidateCertificateRequest cfg of Some e \<Rightarrow> Inl e | None \<Rightarrow> Inr cfg)))"

section \<open>Matching\<close>

fun containsInt :: "int list \<Rightarrow> int \<Rightarrow> bool" where
  "containsInt [] want = False"
| "containsInt (v # vs) want = (if v = want then True else containsInt vs want)"

definition messagePath :: "externs \<Rightarrow> parsedURL \<Rightarrow> string" where
  "messagePath x u =
     (let path = xEscapedPath x u;
          path = (if path = [] then ''/'' else path)
      in if urlRawQuery u \<noteq> [] then path @ ''?'' @ urlRawQuery u else path)"

definition ruleMatches :: "externs \<Rightarrow> string \<Rightarrow> scriptMessage \<Rightarrow> bool \<Rightarrow> parsedURL \<Rightarrow> compiledScriptRule \<Rightarrow> bool" where
  "ruleMatches x phase msg matchStatus u cr =
     (let rule = crRule cr; host = canonicalHost (urlHostname u)
      in if rulePhase rule \<noteq> phase \<or> \<not> matchCanonical (Some (crHosts cr)) host \<or>
            \<not> containsString (matchSchemes (ruleMatch rule)) (to_lower (urlScheme u)) then False
         else if matchMethods (ruleMatch rule) \<noteq> [] \<and> \<not> containsString (matchMethods (ruleMatch rule)) (msgMethod msg) then False
         else if matchStatus \<and> matchStatusCodes (ruleMatch rule) \<noteq> [] \<and>
                 \<not> containsInt (matchStatusCodes (ruleMatch rule)) (msgStatusCode msg) then False
         else xMatches x (reText (crPath cr)) (messagePath x u))"

definition matchModule :: "externs \<Rightarrow> string \<Rightarrow> scriptMessage \<Rightarrow> bool \<Rightarrow> parsedURL \<Rightarrow> compiledScriptModule \<Rightarrow> (Module \<times> ScriptRule) list" where
  "matchModule x phase msg matchStatus u cm =
     (if \<not> matchCanonical (cmHosts cm) (canonicalHost (urlHostname u)) then []
      else map (\<lambda>cr. (cmModule cm, crRule cr)) (filter (ruleMatches x phase msg matchStatus u) (cmRules cm)))"

definition matchingScriptRulesParsed :: "externs \<Rightarrow> Config \<Rightarrow> string \<Rightarrow> scriptMessage \<Rightarrow> bool \<Rightarrow> parsedURL \<Rightarrow> (Module \<times> ScriptRule) list" where
  "matchingScriptRulesParsed x cfg phase msg matchStatus u =
     (case (case cfgRuntime cfg of Some rt \<Rightarrow> Inr rt | None \<Rightarrow> compileScriptConfigWithPrograms x cfg []) of
        Inl _ \<Rightarrow> []
      | Inr rt \<Rightarrow> concat (map (matchModule x phase msg matchStatus u) (rtModules rt)))"

definition matchingScriptRulesWithStatus :: "externs \<Rightarrow> Config \<Rightarrow> string \<Rightarrow> scriptMessage \<Rightarrow> bool \<Rightarrow> (Module \<times> ScriptRule) list" where
  "matchingScriptRulesWithStatus x cfg phase msg matchStatus =
     (case xURL x (msgURL msg) of
        None \<Rightarrow> []
      | Some u \<Rightarrow> matchingScriptRulesParsed x cfg phase msg matchStatus u)"

definition matchingScriptRules :: "externs \<Rightarrow> Config \<Rightarrow> string \<Rightarrow> scriptMessage \<Rightarrow> (Module \<times> ScriptRule) list" where
  "matchingScriptRules x cfg phase msg = matchingScriptRulesWithStatus x cfg phase msg True"

end
