(* ===== verification/Validation_Properties.thy ===== *)
theory Validation_Properties
  imports Rule_Matching Projection_Properties "HOL-Library.Multiset"
begin

text \<open>
  What an accepted document satisfies. The loops of the validator are characterised one by one (a
  loop with a memory accepts exactly the lists whose items pass and are pairwise different), and
  from these follows that validation accepts exactly the documents whose parts are locally valid
  and which meet the conditions between parts: distinct identifiers, an execution order that is a
  permutation of them, one target per mapped pattern, and the bounds over all modules.
\<close>

section \<open>Sequences of checks\<close>

lemma firstError_None [simp]: "firstError cs = None \<longleftrightarrow> (\<forall>c\<in>set cs. c = None)"
  by (induction cs) (auto split: option.splits)

declare firstError.simps [simp del]

lemma check_None [simp]: "check b e = None \<longleftrightarrow> \<not> b"
  by (simp add: check_def)

lemma optionCheck_None [simp]: "optionCheck p v e = None \<longleftrightarrow> (\<forall>a. v = Some a \<longrightarrow> p a)"
  by (cases v) (auto simp: optionCheck_def)

lemma errorOf_None [simp]: "errorOf r = None \<longleftrightarrow> (\<exists>v. r = Inr v)"
  by (cases r) (auto simp: errorOf_def)

lemma map_sum_Inr [simp]: "map_sum f g r = Inr v \<longleftrightarrow> (\<exists>u. r = Inr u \<and> v = g u)"
  by (cases r) auto

section \<open>Loops with a memory\<close>

lemma checkKeywords_None:
  "checkKeywords e d seen ks = None \<longleftrightarrow> list_all safeKeyword ks \<and> distinct ks \<and> set seen \<inter> set ks = {}"
  by (induction ks arbitrary: seen) auto

lemma routingRulesFrom_None:
  "routingRulesFrom seen rs = None \<longleftrightarrow>
     (\<forall>r\<in>set rs. validateRoutingRule r = None) \<and> distinct rs \<and> set seen \<inter> set rs = {}"
  by (induction rs arbitrary: seen) (auto split: option.splits)

lemma orderFrom_None:
  "orderFrom ids seen os = None \<longleftrightarrow> set os \<subseteq> set ids \<and> distinct os \<and> set seen \<inter> set os = {}"
  by (induction os arbitrary: seen) auto

lemma checkOptions_None:
  "checkOptions seen os = None \<longleftrightarrow>
     (\<forall>p\<in>set os. p \<noteq> [] \<and> length p \<le> 256) \<and> distinct os \<and> set seen \<inter> set os = {}"
  by (induction os arbitrary: seen) auto

lemma validateHostMappings_None:
  "validateHostMappings hosts seen ms = None \<longleftrightarrow>
     (\<forall>m\<in>set ms. validHostPattern (mapPattern m) \<and> hostCoveredBy hosts (mapPattern m) \<and> validHostTarget (mapTarget m)) \<and>
     distinct (map mapPattern ms) \<and> set seen \<inter> set (map mapPattern ms) = {}"
  by (induction ms arbitrary: seen) auto

definition settingOK :: "externs \<Rightarrow> bool \<Rightarrow> ModuleSetting \<Rightarrow> bool" where
  "settingOK x requireReady s \<longleftrightarrow> validSettingKey (setKey s) \<and> length (setLabel s) \<le> 128 \<and> length (setDescription s) \<le> 512 \<and>
     validateSettingDefinition x s = None \<and> (requireReady \<and> setRequired s \<longrightarrow> settingReady x s)"

lemma settingsFrom_None:
  "settingsFrom x ready seen ss = None \<longleftrightarrow>
     (\<forall>s\<in>set ss. settingOK x ready s) \<and> distinct (map setKey ss) \<and> set seen \<inter> set (map setKey ss) = {}"
  by (induction ss arbitrary: seen) (auto simp: settingOK_def split: option.splits)

section \<open>Actions\<close>

text \<open>The memory of identifiers enters an action's checks in one place only.\<close>

definition actionOK :: "externs \<Rightarrow> Module \<Rightarrow> ScriptRule \<Rightarrow> bool" where
  "actionOK x m r \<longleftrightarrow> (\<exists>p. validateAction x m [] r = Inr p)"

text \<open>The program a valid action contributes, and the bytes it counts for.\<close>

definition actionProgram :: "externs \<Rightarrow> Module \<Rightarrow> ScriptRule \<Rightarrow> goja_program option" where
  "actionProgram x m r = (case validateAction x m [] r of Inr p \<Rightarrow> p | Inl _ \<Rightarrow> None)"

definition actionBytes :: "externs \<Rightarrow> Module \<Rightarrow> ScriptRule \<Rightarrow> nat" where
  "actionBytes x m r = (if actionProgram x m r = None then 0 else length (ruleScriptBody r))"

lemma commonActionChecks_seen:
  "commonActionChecks x m seen r = None \<longleftrightarrow> commonActionChecks x m [] r = None \<and> ruleID r \<notin> set seen"
  unfolding commonActionChecks_def firstError_None by auto

lemma validateAction_seen:
  "validateAction x m seen r = Inr p \<longleftrightarrow> validateAction x m [] r = Inr p \<and> ruleID r \<notin> set seen"
proof (cases "commonActionChecks x m [] r")
  case None
  show ?thesis
  proof (cases "ruleID r \<in> set seen")
    case True
    then obtain e where "commonActionChecks x m seen r = Some e"
      using commonActionChecks_seen[of x m seen r] by fastforce
    then show ?thesis using True by (simp add: validateAction_def)
  next
    case False
    then have "commonActionChecks x m seen r = None" using None commonActionChecks_seen by blast
    then show ?thesis using False None by (simp only: validateAction_def option.case simp_thms)
  qed
next
  case (Some e)
  then obtain e' where "commonActionChecks x m seen r = Some e'"
    using commonActionChecks_seen[of x m seen r] by fastforce
  then show ?thesis using Some by (simp add: validateAction_def)
qed

lemma actionsFrom_Inr:
  "(\<exists>ps'. actionsFrom x m seen n ps rs = Inr (n', ps')) \<longleftrightarrow>
     (\<forall>r\<in>set rs. actionOK x m r) \<and> distinct (map ruleID rs) \<and> set seen \<inter> set (map ruleID rs) = {} \<and>
     n' = n + sum_list (map (actionBytes x m) rs)"
proof (induction rs arbitrary: seen n ps)
  case (Cons r rs)
  show ?case
  proof (cases "actionOK x m r \<and> ruleID r \<notin> set seen")
    case False
    then have "\<exists>e. validateAction x m seen r = Inl e"
      using validateAction_seen[of x m seen r] by (cases "validateAction x m seen r") (auto simp: actionOK_def)
    then show ?thesis using False by auto
  next
    case True
    then obtain p where p: "validateAction x m [] r = Inr p" "validateAction x m seen r = Inr p"
      using validateAction_seen[of x m seen r] by (auto simp: actionOK_def)
    have ap: "actionProgram x m r = p" using p(1) by (simp add: actionProgram_def)
    show ?thesis
      using Cons.IH[of "ruleID r # seen" "n + actionBytes x m r"] True p(2) ap
      by (cases p) (auto simp: actionBytes_def)
  qed
qed auto

section \<open>Mappings of enabled modules\<close>

definition mappingPair :: "HostMapping \<Rightarrow> string \<times> string" where
  "mappingPair h = (mapPattern h, mapTarget h)"

lemma graph_upd_same: "f k = Some v \<Longrightarrow> Map.graph (f(k \<mapsto> v)) = Map.graph f"
  by (simp add: fun_upd_idem)

lemma graph_upd_new: "f k = None \<Longrightarrow> Map.graph (f(k \<mapsto> v)) = Map.graph f \<union> {(k, v)}"
  by (auto simp: Map.graph_def split: if_splits)

lemma single_valued_graph: "single_valued (Map.graph f)"
  by (auto simp: Map.graph_def intro!: single_valuedI)

lemma mappingConflicts_graph:
  "mappingConflicts active hs = Inr active' \<Longrightarrow> Map.graph (map_of active') = Map.graph (map_of active) \<union> mappingPair ` set hs"
proof (induction hs arbitrary: active)
  case (Cons h hs)
  define upd where "upd = AList.update (mapPattern h) (mapTarget h) active"
  have "Map.graph (map_of upd) = Map.graph (map_of active) \<union> {mappingPair h} \<and> mappingConflicts upd hs = Inr active'"
    using Cons.prems graph_upd_same[of "map_of active" "mapPattern h"] graph_upd_new[of "map_of active" "mapPattern h"]
    by (cases "map_of active (mapPattern h)")
       (auto simp: upd_def mappingPair_def split: if_splits intro: in_graphI)
  then show ?case using Cons.IH[of upd] by auto
qed simp

lemma mappingConflicts_Inr:
  "(\<exists>active'. mappingConflicts active hs = Inr active') \<longleftrightarrow> single_valued (Map.graph (map_of active) \<union> mappingPair ` set hs)"
proof (induction hs arbitrary: active)
  case Nil
  then show ?case by (simp add: single_valued_graph)
next
  case (Cons h hs)
  define upd where "upd = AList.update (mapPattern h) (mapTarget h) active"
  show ?case
  proof (cases "\<exists>t. map_of active (mapPattern h) = Some t \<and> t \<noteq> mapTarget h")
    case True
    then obtain t where t: "map_of active (mapPattern h) = Some t" "t \<noteq> mapTarget h" by blast
    have "(mapPattern h, t) \<in> Map.graph (map_of active)" using t(1) by (rule in_graphI)
    then have "\<not> single_valued (Map.graph (map_of active) \<union> mappingPair ` set (h # hs))"
      using t(2) unfolding single_valued_def by (auto simp: mappingPair_def)
    then show ?thesis using t by simp
  next
    case False
    then have "mappingConflicts active (h # hs) = mappingConflicts upd hs"
      by (auto simp: upd_def split: option.splits)
    moreover have "Map.graph (map_of upd) = Map.graph (map_of active) \<union> {mappingPair h}"
      using False graph_upd_same[of "map_of active" "mapPattern h"] graph_upd_new[of "map_of active" "mapPattern h"]
      by (cases "map_of active (mapPattern h)") (auto simp: upd_def mappingPair_def intro: in_graphI)
    ultimately show ?thesis using Cons.IH[of upd] by (simp add: Un_assoc)
  qed
qed

section \<open>Modules\<close>

definition moduleOK :: "externs \<Rightarrow> Module \<Rightarrow> bool" where
  "moduleOK x m \<longleftrightarrow> validModuleID (modID m) \<and> moduleChecks x m = None \<and>
     (\<forall>r\<in>set (modScripts m). actionOK x m r) \<and> distinct (map ruleID (modScripts m)) \<and>
     sum_list (map (actionBytes x m) (modScripts m)) \<le> 8388608 \<and> (modEnabled m \<longrightarrow> moduleSettingsReady x (modSettings m))"

definition enabledMappings :: "Module list \<Rightarrow> (string \<times> string) set" where
  "enabledMappings ms = (\<Union>m\<in>{m\<in>set ms. modEnabled m}. mappingPair ` set (modHostMappings m))"

definition enabledRules :: "Module list \<Rightarrow> nat" where
  "enabledRules ms = sum_list (map (\<lambda>m. length (modRoutingRules m)) (filter modEnabled ms))"

lemma enabledMappings_single: "enabledMappings [m] = (if modEnabled m then mappingPair ` set (modHostMappings m) else {})"
  by (auto simp: enabledMappings_def)

lemma enabledChecks_Inr:
  "(\<exists>active'. enabledChecks x m active = Inr active') \<longleftrightarrow>
     (modEnabled m \<longrightarrow> moduleSettingsReady x (modSettings m)) \<and>
     single_valued (Map.graph (map_of active) \<union> enabledMappings [m])"
  using mappingConflicts_Inr[of active "modHostMappings m"]
  by (cases "modEnabled m") (auto simp: enabledChecks_def enabledMappings_single single_valued_graph)

lemma enabledChecks_graph:
  "enabledChecks x m active = Inr active' \<Longrightarrow> Map.graph (map_of active') = Map.graph (map_of active) \<union> enabledMappings [m]"
  using mappingConflicts_graph[of active "modHostMappings m"]
  by (auto simp: enabledChecks_def enabledMappings_single split: if_splits)

lemma validateModule_Inr:
  assumes "validateModule x st m = Inr st'"
  shows "moduleOK x m" "modID m \<notin> set (scanIDs st)" "scanIDs st' = modID m # scanIDs st"
    "scanRules st' = scanRules st + enabledRules [m]" "modEnabled m \<Longrightarrow> scanRules st' \<le> maxActiveModuleRoutingRules"
    "Map.graph (map_of (scanMappings st')) = Map.graph (map_of (scanMappings st)) \<union> enabledMappings [m]"
proof -
  obtain n ps active where a: "actionsFrom x m [] 0 (scanPrograms st) (modScripts m) = Inr (n, ps)" "n \<le> 8388608"
      "enabledChecks x m (scanMappings st) = Inr active"
      "st' = \<lparr>scanIDs = modID m # scanIDs st, scanMappings = active, scanRules = scanRulesAfter m (scanRules st), scanPrograms = ps\<rparr>"
    and c: "validModuleID (modID m)" "modID m \<notin> set (scanIDs st)" "moduleChecks x m = None"
      "\<not> (modEnabled m \<and> scanRulesAfter m (scanRules st) > maxActiveModuleRoutingRules)"
    using assms by (auto simp: validateModule_def Let_def split: option.splits sum.splits if_splits)
  show "moduleOK x m"
    using a(1,2) c enabledChecks_Inr[of x m "scanMappings st"] a(3) actionsFrom_Inr[of x m "[]" 0 "scanPrograms st" "modScripts m" n]
    by (auto simp: moduleOK_def)
  show "modID m \<notin> set (scanIDs st)" "scanIDs st' = modID m # scanIDs st" using c a(4) by simp_all
  show "scanRules st' = scanRules st + enabledRules [m]"
    using a(4) by (simp add: scanRulesAfter_def enabledRules_def)
  show "modEnabled m \<Longrightarrow> scanRules st' \<le> maxActiveModuleRoutingRules" using a(4) c(4) by simp
  show "Map.graph (map_of (scanMappings st')) = Map.graph (map_of (scanMappings st)) \<union> enabledMappings [m]"
    using enabledChecks_graph[OF a(3)] a(4) by simp
qed

lemma validateModule_accepts:
  assumes "moduleOK x m" "modID m \<notin> set (scanIDs st)" "scanRules st + enabledRules [m] \<le> maxActiveModuleRoutingRules"
    and "single_valued (Map.graph (map_of (scanMappings st)) \<union> enabledMappings [m])"
  shows "\<exists>st'. validateModule x st m = Inr st'"
proof -
  obtain ps where "actionsFrom x m [] 0 (scanPrograms st) (modScripts m) = Inr (sum_list (map (actionBytes x m) (modScripts m)), ps)"
    using assms(1) actionsFrom_Inr[of x m "[]" 0 "scanPrograms st" "modScripts m"] by (auto simp: moduleOK_def)
  moreover obtain active where "enabledChecks x m (scanMappings st) = Inr active"
    using assms(1,4) enabledChecks_Inr[of x m "scanMappings st"] by (auto simp: moduleOK_def)
  moreover have "\<not> (modEnabled m \<and> scanRulesAfter m (scanRules st) > maxActiveModuleRoutingRules)"
    using assms(3) by (auto simp: scanRulesAfter_def enabledRules_def)
  then have "firstError
       [check (\<not> validModuleID (modID m)) InvalidModuleID, check (modID m \<in> set (scanIDs st)) DuplicateModuleID,
        moduleChecks x m,
        check (modEnabled m \<and> scanRulesAfter m (scanRules st) > maxActiveModuleRoutingRules) TooManyActiveRoutingRules] = None"
    unfolding firstError_None using assms(1,2) by (simp add: moduleOK_def)
  ultimately show ?thesis using assms(1) by (simp only: validateModule_def Let_def) (simp add: moduleOK_def)
qed

lemma enabledMappings_Cons: "enabledMappings (m # ms) = enabledMappings [m] \<union> enabledMappings ms"
  by (auto simp: enabledMappings_def)

lemma enabledRules_Cons: "enabledRules (m # ms) = enabledRules [m] + enabledRules ms"
  by (simp add: enabledRules_def)

lemma modulesFrom_Inr:
  assumes "scanRules st \<le> maxActiveModuleRoutingRules"
  shows "(\<exists>st'. modulesFrom x st ms = Inr st') \<longleftrightarrow>
     (\<forall>m\<in>set ms. moduleOK x m) \<and> distinct (map modID ms) \<and> set (scanIDs st) \<inter> set (map modID ms) = {} \<and>
     single_valued (Map.graph (map_of (scanMappings st)) \<union> enabledMappings ms) \<and>
     scanRules st + enabledRules ms \<le> maxActiveModuleRoutingRules"
  using assms
proof (induction ms arbitrary: st)
  case Nil
  then show ?case by (simp add: enabledMappings_def enabledRules_def single_valued_graph)
next
  case (Cons m ms)
  show ?case
  proof (cases "\<exists>st'. validateModule x st m = Inr st'")
    case True
    then obtain st' where st': "validateModule x st m = Inr st'" by blast
    note v = validateModule_Inr[OF st']
    have "scanRules st' \<le> maxActiveModuleRoutingRules"
      using v(4,5) Cons.prems by (cases "modEnabled m") (auto simp: enabledRules_def)
    from Cons.IH[OF this] show ?thesis
      using v(1-4,6) by (auto simp: st' enabledMappings_Cons[of m ms] enabledRules_Cons[of m ms] Un_assoc)
  next
    case False
    have "\<not> (moduleOK x m \<and> modID m \<notin> set (scanIDs st) \<and> scanRules st + enabledRules [m] \<le> maxActiveModuleRoutingRules \<and>
        single_valued (Map.graph (map_of (scanMappings st)) \<union> enabledMappings [m]))"
      using False validateModule_accepts by blast
    moreover have "single_valued (Map.graph (map_of (scanMappings st)) \<union> enabledMappings (m # ms)) \<Longrightarrow>
        single_valued (Map.graph (map_of (scanMappings st)) \<union> enabledMappings [m])"
      by (rule single_valued_subset) (auto simp: enabledMappings_Cons[of m ms])
    ultimately show ?thesis using False by (auto simp: enabledRules_Cons[of m ms])
  qed
qed

section \<open>The document\<close>

definition boundaryOK :: "Config \<Rightarrow> bool" where
  "boundaryOK c \<longleftrightarrow> cfgVersion c = 6 \<and> cfgListen c = ''127.0.0.1:18080'' \<and>
     proxyAddress (cfgUpstreamProxy c) = ''127.0.0.1:17890'' \<and>
     length (cfgUsername c) \<in> {16..255} \<and> length (cfgPassword c) \<in> {24..255} \<and>
     length (proxyUsername (cfgUpstreamProxy c)) \<in> {16..255} \<and> length (proxyPassword (cfgUpstreamProxy c)) \<in> {24..255} \<and>
     trim_space (cfgTLSCert c) \<noteq> [] \<and> trim_space (cfgTLSKey c) \<noteq> []"

definition configOK :: "externs \<Rightarrow> Config \<Rightarrow> bool" where
  "configOK x c \<longleftrightarrow> boundaryOK c \<and> length (cfgModules c) \<le> 64 \<and>
     (\<forall>m\<in>set (cfgModules c). moduleOK x m) \<and> distinct (map modID (cfgModules c)) \<and>
     (\<exists>ids. cfgExecutionOrder c = Some ids \<and> mset ids = mset (map modID (cfgModules c))) \<and>
     single_valued (enabledMappings (cfgModules c)) \<and> enabledRules (cfgModules c) \<le> 2048 \<and>
     length (certificateHostPatterns c) \<le> 512"

lemma fixed_addresses_loopback:
  "validateLoopbackAddress ''127.0.0.1:18080'' = None" "validateLoopbackAddress ''127.0.0.1:17890'' = None"
  by code_simp+

lemma credentialsBad_iff: "credentialsBad u p \<longleftrightarrow> \<not> (length u \<in> {16..255} \<and> length p \<in> {24..255})"
  by (auto simp: credentialsBad_def)

lemma boundaryChecks_None: "boundaryChecks c = None \<longleftrightarrow> boundaryOK c"
proof -
  have "boundaryChecks c = None \<longleftrightarrow>
     cfgVersion c = configVersion \<and> validateLoopbackAddress (cfgListen c) = None \<and>
     validateLoopbackAddress (proxyAddress (cfgUpstreamProxy c)) = None \<and>
     cfgListen c = ''127.0.0.1:18080'' \<and> proxyAddress (cfgUpstreamProxy c) = ''127.0.0.1:17890'' \<and>
     \<not> credentialsBad (cfgUsername c) (cfgPassword c) \<and>
     \<not> credentialsBad (proxyUsername (cfgUpstreamProxy c)) (proxyPassword (cfgUpstreamProxy c)) \<and>
     trim_space (cfgTLSCert c) \<noteq> [] \<and> trim_space (cfgTLSKey c) \<noteq> []"
    unfolding boundaryChecks_def firstError_None by auto
  then show ?thesis
    by (auto simp only: boundaryOK_def configVersion_def credentialsBad_iff fixed_addresses_loopback)
qed

lemma validateExecutionOrder_None:
  assumes "distinct (map modID ms)"
  shows "validateExecutionOrder ms order = None \<longleftrightarrow> (\<exists>ids. order = Some ids \<and> mset ids = mset (map modID ms))"
proof (cases order)
  case (Some ids)
  have "length ids = length ms \<and> set ids \<subseteq> set (map modID ms) \<and> distinct ids \<longleftrightarrow> mset ids = mset (map modID ms)"
  proof
    assume l: "length ids = length ms \<and> set ids \<subseteq> set (map modID ms) \<and> distinct ids"
    then have "set ids = set (map modID ms)"
      using assms by (intro card_subset_eq) (auto simp: distinct_card simp del: set_map)
    then show "mset ids = mset (map modID ms)" using l assms set_eq_iff_mset_eq_distinct by blast
  next
    assume e: "mset ids = mset (map modID ms)"
    then show "length ids = length ms \<and> set ids \<subseteq> set (map modID ms) \<and> distinct ids"
      using mset_eq_length[OF e] mset_eq_setD[OF e] mset_eq_imp_distinct_iff[OF e] assms by simp
  qed
  then show ?thesis by (auto simp: Some validateExecutionOrder_def orderFrom_None)
qed (simp add: validateExecutionOrder_def)

lemma validateModules_Inr:
  "(\<exists>ps. validateModulesWithPrograms x ms = Inr ps) \<longleftrightarrow>
     length ms \<le> 64 \<and> (\<forall>m\<in>set ms. moduleOK x m) \<and> distinct (map modID ms) \<and> single_valued (enabledMappings ms) \<and>
     enabledRules ms \<le> 2048"
  using modulesFrom_Inr[of scanStartModules x ms]
  by (auto simp: validateModulesWithPrograms_def scanStartModules_def maxActiveModuleRoutingRules_def)

lemma validateConfig_Inr:
  "validateConfig x c = Inr ps \<longleftrightarrow> configOK x c \<and> validateModulesWithPrograms x (cfgModules c) = Inr ps"
proof -
  have "validateConfig x c = Inr ps \<longleftrightarrow> boundaryOK c \<and> validateModulesWithPrograms x (cfgModules c) = Inr ps \<and>
      validateExecutionOrder (cfgModules c) (cfgExecutionOrder c) = None \<and> length (certificateHostPatterns c) \<le> 512"
    using boundaryChecks_None[of c]
    by (auto simp: validateConfig_def maxCertificateHosts_def check_def split: option.splits if_splits)
  then show ?thesis
    using validateModules_Inr[of x "cfgModules c"] validateExecutionOrder_None[of "cfgModules c"]
    by (auto simp: configOK_def)
qed


end
