(* ===== verification/Config_Example.thy ===== *)
theory Config_Example
  imports Validation_Properties
begin

text \<open>
  A small accepted document, for the theorems about accepted documents: one enabled module that
  captures a wildcard, maps one host below it, and rejects requests behind a gate.
\<close>

definition docExterns :: externs where
  "docExterns = \<lparr>xSHA = (\<lambda>s. s),
     xJSON = (\<lambda>s. if isNullText s then Some JNull else if s = ''true'' then Some (JBool True) else Some (JStr s)),
     xNum = (\<lambda>s. Some 0), xTime = (\<lambda>s. True), xURL = (\<lambda>s. None), xEscapedPath = urlPath, xRegexp = (\<lambda>s. True),
     xMatches = (\<lambda>p s. p = s), xFind = (\<lambda>p s. None), xSegments = (\<lambda>p s. ([], s)), xGoja = (\<lambda>f s. True),
     xJQ = (\<lambda>s. True), xBase64 = (\<lambda>s. Some s), xText = (\<lambda>j. [])\<rparr>"

definition docRule :: ScriptRule where
  "docRule = \<lparr>ruleID = ''block'', rulePhase = ''request'',
     ruleMatch = \<lparr>matchHosts = [''a.example.com''], matchSchemes = [''https''], matchMethods = [], matchPathRegex = ''/ads'',
       matchStatusCodes = []\<rparr>,
     ruleEnabledWhen = Some \<lparr>gateKey = ''on'', gateEquals = ''true''\<rparr>, ruleScriptURL = [], ruleScriptDigest = [],
     ruleScriptBody = [], ruleBodyMode = ''none'', ruleEntry = [], ruleJQProgram = [], ruleReject = True, ruleMock = None,
     ruleHeaders = None, ruleRewrite = None, ruleReplaceBody = None, ruleTimeoutMS = 1000, ruleMaxBodyBytes = 4096,
     ruleProgram = None, ruleJQ = None, ruleSettings = None\<rparr>"

definition docSetting :: ModuleSetting where
  "docSetting = \<lparr>setKey = ''on'', setType = ''boolean'', setLabel = [], setDescription = [], setRequired = True,
     setOptions = [], setMin = None, setMax = None, setDefault = [], setValue = ''true''\<rparr>"

definition docMapping :: HostMapping where
  "docMapping = \<lparr>mapPattern = ''a.example.com'', mapTarget = ''8.8.4.4''\<rparr>"

definition docModule :: Module where
  "docModule = \<lparr>modID = ''abc'', modVersion = ''1'', modName = ''n'', modDescription = [], modEnabled = True,
     modImportedAt = [], modSource = \<lparr>srcURL = [], srcDigest = ''m'', srcBody = ''m''\<rparr>,
     modCaptureHosts = [''*.example.com''], modCaptureDNS = ''trust'', modHostMappings = [docMapping],
     modRoutingRules = [], modSettings = [docSetting], modScripts = [docRule], modPersistentStorage = False,
     modNetwork = False, modEgressGroupRequired = False, modEgressGroup = []\<rparr>"

definition document :: Config where
  "document = \<lparr>cfgVersion = 6, cfgExecutionOrder = Some [''abc''], cfgListen = ''127.0.0.1:18080'',
     cfgUsername = replicate 16 CHR ''u'', cfgPassword = replicate 24 CHR ''p'', cfgTLSCert = ''c'', cfgTLSKey = ''k'',
     cfgUpstreamProxy = \<lparr>proxyAddress = ''127.0.0.1:17890'', proxyUsername = replicate 16 CHR ''v'', proxyPassword = replicate 24 CHR ''q''\<rparr>,
     cfgMITM = \<lparr>mitmEnabled = True, mitmHTTP2 = True, mitmQUICFallbackProtection = False\<rparr>,
     cfgModules = [docModule], cfgRuntime = None, cfgGeneration = 0\<rparr>"

definition docUnmarshal :: "string \<Rightarrow> Config option" where
  "docUnmarshal body = (if body = ''doc'' then Some document else None)"

lemmas doc_defs = docRule_def docSetting_def docMapping_def docModule_def document_def docExterns_def

section \<open>It is accepted\<close>

lemma doc_hosts: "validHostPattern ''a.example.com''" "validHostPattern ''*.example.com''" "canonicalHost ''*.example.com'' = ''*.example.com''"
  "hostPatternCovers ''*.example.com'' ''a.example.com''" "validHostTarget ''8.8.4.4''" "validModuleID ''abc''"
  "validSettingKey ''block''" "validSettingKey ''on''" "trim_space ''1'' = ''1''" "trim_space ''n'' = ''n''"
  "trim_space ''c'' = ''c''" "trim_space ''k'' = ''k''" "trim_space ''true'' = ''true''" "trim_space [] = []"
  by code_simp+

lemma docSetting_ready: "validateSettingValue docExterns docSetting ''true'' full = None"
  by (simp add: validateSettingValue_def docSetting_def docExterns_def isNullText_def doc_hosts)

lemma docSetting_OK: "settingOK docExterns b docSetting" "settingReady docExterns docSetting"
  using docSetting_ready
  by (simp_all add: settingOK_def validateSettingDefinition_def settingReady_def settingShape_def docSetting_def doc_hosts)

lemma docAction_common: "commonActionChecks docExterns docModule [] docRule = None"
  unfolding commonActionChecks_def firstError_None
  by (simp add: doc_defs doc_hosts validateActionMatch_def maxActionMatchHosts_def validateActionGate_def gateSetting_def
      declaredKinds_def isDeclarative_def)

lemma docAction_OK: "validateAction docExterns docModule [] docRule = Inr None"
  using docAction_common by (simp add: validateAction_def docRule_def)

lemma docSettings_OK: "validateModuleSettings docExterns [docSetting] True = None"
  using docSetting_OK(1)[of True] by (simp add: validateModuleSettings_def settingsFrom_None del: settingsFrom.simps)

lemma docModule_OK: "moduleOK docExterns docModule"
proof -
  have "xTime docExterns s" "digestText docExterns s = s" for s by (simp_all add: docExterns_def digestText_def)
  then have "moduleChecks docExterns docModule = None"
    unfolding moduleChecks_def firstError_None
    using docSettings_OK
    by (simp add: validateHostMappings_None captureHostChecks_def validateModuleNetworkPermissions_def
        validateRoutingRules_def routingRulesFrom_None maxModuleCaptureHosts_def docModule_def docMapping_def doc_hosts)
  moreover have "modScripts docModule = [docRule]" "modSettings docModule = [docSetting]" "validModuleID (modID docModule)"
    by (simp_all add: docModule_def doc_hosts)
  moreover have "actionBytes docExterns docModule docRule = 0" using docAction_OK by (simp add: actionBytes_def actionProgram_def)
  ultimately show ?thesis
    using docAction_OK docSetting_OK(2) by (simp add: moduleOK_def actionOK_def moduleSettingsReady_def)
qed

lemma document_OK: "configOK docExterns document"
proof -
  have "certificateHostPatterns document = [''*.example.com'']" by code_simp
  then show ?thesis
    using docModule_OK
    by (simp add: configOK_def boundaryOK_def enabledMappings_single enabledRules_def document_def doc_hosts)
       (simp add: docModule_def single_valued_def mappingPair_def docMapping_def)
qed

end
