(* ===== verification/Compile_Properties.thy ===== *)
theory Compile_Properties
  imports Config_Example
begin

text \<open>
  An accepted document does not get stuck later: its settings decode, its patterns and programs
  compile, the compiled snapshot answers host questions like the document, and matching over the
  snapshot selects exactly the actions a direct reading of the document selects.

  Two facts about other packages are needed and are named hypotheses: \<open>rawNulls\<close>, that the raw
  message of a setting's value in a decoded document is the text \<^verbatim>\<open>null\<close> exactly when it decodes to
  null, and \<open>gojaReadsEmpty\<close>, that the empty script compiles.
\<close>

definition nullRead :: "externs \<Rightarrow> ModuleSetting \<Rightarrow> bool" where
  "nullRead x s \<longleftrightarrow> (isNullText (setValue s) \<longleftrightarrow> xJSON x (setValue s) = Some JNull)"

definition rawNulls :: "externs \<Rightarrow> Config \<Rightarrow> bool" where
  "rawNulls x c \<longleftrightarrow> (\<forall>m\<in>set (cfgModules c). \<forall>s\<in>set (modSettings m). nullRead x s)"

definition gojaReadsEmpty :: "externs \<Rightarrow> bool" where
  "gojaReadsEmpty x \<longleftrightarrow> (\<forall>file. xGoja x file [])"

section \<open>Settings\<close>

lemma settingShape_types:
  "settingShape s = None \<Longrightarrow> setType s \<in> {''text'', ''select'', ''boolean'', ''number'', ''location''}"
  by (auto simp: settingShape_def split: if_splits)

lemma settingOK_value:
  assumes "settingOK x ready s" "setValue s \<noteq> []"
  shows "settingShape s = None" "validateSettingValue x s (setValue s) False = None"
  using assms by (auto simp: settingOK_def validateSettingDefinition_def)

lemma settingOK_decodes:
  assumes "nullRead x s" "settingOK x ready s" "setValue s \<noteq> []"
  shows "\<exists>v. xJSON x (setValue s) = Some v"
proof (cases "isNullText (setValue s)")
  case True
  then show ?thesis using assms(1) by (auto simp: nullRead_def)
next
  case False
  note v = settingOK_value[OF assms(2,3)]
  show ?thesis
    using settingShape_types[OF v(1)] v(2) assms(3) False
    by (auto simp: validateSettingValue_def validateTextValue_def decodeText_def validateNumberValue_def
        validateLocationValue_def decodeLocation_def rejectDuplicateJSONKeys_def
        split: if_splits option.splits json.splits sum.splits)
qed

lemma settingValues_total:
  "\<forall>s\<in>set ss. setValue s \<noteq> [] \<longrightarrow> (\<exists>v. xJSON x (setValue s) = Some v) \<Longrightarrow> \<exists>vs. settingValues x ss acc = Some vs"
  by (induction ss arbitrary: acc) auto

lemma settingValues_lookup:
  assumes "settingValues x ss acc = Some vs" "distinct (map setKey ss)"
  shows "map_of vs k =
     (case find (\<lambda>s. setKey s = k) ss of
        Some s \<Rightarrow> (if setValue s = [] then map_of acc k else xJSON x (setValue s))
      | None \<Rightarrow> map_of acc k)"
  using assms
proof (induction ss arbitrary: acc)
  case (Cons s ss)
  have "find (\<lambda>s. setKey s = k) ss = None" if "setKey s = k"
    using Cons.prems(2) that unfolding find_None_iff by (metis distinct.simps(2) list.simps(9) list.set_map image_eqI)
  then show ?case
    using Cons.IH[of acc] Cons.IH Cons.prems
    by (auto split: if_splits option.splits)
qed simp

section \<open>Actions\<close>

lemma kinds_at_most_one:
  assumes "declaredKinds r \<le> 1"
  shows "isDeclarative r \<Longrightarrow> ruleScriptBody r = []"
    and "ruleReject r \<or> ruleMock r \<noteq> None \<or> ruleHeaders r \<noteq> None \<or> ruleRewrite r \<noteq> None \<or> ruleReplaceBody r \<noteq> None \<Longrightarrow>
      ruleJQProgram r = []"
  using assms by (auto simp: declaredKinds_def isDeclarative_def split: if_splits)

lemma commonActionChecks_None:
  assumes "commonActionChecks x m seen r = None"
  shows "validateActionMatch x (modCaptureHosts m) (rulePhase r) (ruleMatch r) = None"
    "validateActionGate (modSettings m) (ruleEnabledWhen r) = None" "declaredKinds r \<le> 1"
  using assms unfolding commonActionChecks_def firstError_None by auto

lemma actionOK_facts:
  assumes "actionOK x m r"
  shows "xRegexp x (matchPathRegex (ruleMatch r))"
    and "ruleScriptBody r = [] \<or> xGoja x (scriptFile m r) (ruleScriptBody r)"
    and "ruleJQProgram r \<noteq> [] \<longrightarrow> (\<exists>c. compileJQProgram x (ruleJQProgram r) = Some c)"
    and "validateActionGate (modSettings m) (ruleEnabledWhen r) = None"
proof -
  obtain p where p: "validateAction x m [] r = Inr p" using assms by (auto simp: actionOK_def)
  then have c: "commonActionChecks x m [] r = None" by (auto simp: validateAction_def split: option.splits)
  note cc = commonActionChecks_None[OF c]
  show "xRegexp x (matchPathRegex (ruleMatch r))" using cc(1) by (auto simp: validateActionMatch_def)
  show "validateActionGate (modSettings m) (ruleEnabledWhen r) = None" by (rule cc(2))
  note k = kinds_at_most_one[OF cc(3)]
  show "ruleScriptBody r = [] \<or> xGoja x (scriptFile m r) (ruleScriptBody r)"
  proof (cases "isDeclarative r")
    case False
    then show ?thesis using p c
      by (auto simp: validateAction_def isDeclarative_def scriptChecks_def gojaCompile_def
          split: option.splits if_splits sum.splits)
  qed (use k in simp)
  show "ruleJQProgram r \<noteq> [] \<longrightarrow> (\<exists>c. compileJQProgram x (ruleJQProgram r) = Some c)"
  proof
    assume j: "ruleJQProgram r \<noteq> []"
    then have "\<not> (ruleReject r \<or> ruleMock r \<noteq> None \<or> ruleHeaders r \<noteq> None \<or> ruleRewrite r \<noteq> None \<or> ruleReplaceBody r \<noteq> None)"
      using k(2) by blast
    then show "\<exists>c. compileJQProgram x (ruleJQProgram r) = Some c"
      using p c j by (auto simp: validateAction_def split: option.splits if_splits)
  qed
qed

text \<open>Leaving the patterns in a rule changes nothing the compiler and the matcher read.\<close>

lemma keepPatterns_simps [simp]:
  "ruleID (keepPatterns x r) = ruleID r" "ruleMatch (keepPatterns x r) = ruleMatch r"
  "rulePhase (keepPatterns x r) = rulePhase r" "ruleEnabledWhen (keepPatterns x r) = ruleEnabledWhen r"
  "ruleScriptBody (keepPatterns x r) = ruleScriptBody r" "ruleScriptURL (keepPatterns x r) = ruleScriptURL r"
  "ruleScriptDigest (keepPatterns x r) = ruleScriptDigest r" "ruleJQProgram (keepPatterns x r) = ruleJQProgram r"
  "ruleProgram (keepPatterns x r) = ruleProgram r" "ruleJQ (keepPatterns x r) = ruleJQ r"
  by (simp_all add: keepPatterns_def)

lemma compileRule_total:
  assumes "gojaReadsEmpty x" "actionOK x m r" "modID m' = modID m"
  shows "\<exists>c. compileRule x ps m' settings (keepPatterns x r) = Inr c"
proof -
  note f = actionOK_facts[OF assms(2)]
  have "scriptFile m' (keepPatterns x r) = scriptFile m r" using assms(3) by (simp add: scriptFile_def)
  then have "\<exists>p. ruleProgramFor x ps m' (keepPatterns x r) = Some p"
    using f(2) assms(1) by (auto simp: ruleProgramFor_def scriptProgram_def gojaCompile_def gojaReadsEmpty_def split: option.splits)
  then show ?thesis using f(1,3) by (auto simp: compileRule_def ruleJQFor_def)
qed

lemma compileRules_total:
  assumes "gojaReadsEmpty x" "modID m' = modID m" "\<forall>r\<in>set rs. actionOK x m r"
  shows "\<exists>cs. compileRules x ps m' settings (map (keepPatterns x) rs) = Inr cs"
  using assms(3)
proof (induction rs)
  case (Cons r rs)
  moreover obtain c where "compileRule x ps m' settings (keepPatterns x r) = Inr c"
    using compileRule_total[OF assms(1) _ assms(2), of r ps settings] Cons.prems by auto
  ultimately show ?case by (auto simp: bindJ_def)
qed simp

section \<open>Modules\<close>

lemma moduleOK_settings:
  assumes "moduleOK x m"
  shows "\<forall>s\<in>set (modSettings m). settingOK x (modEnabled m) s" "distinct (map setKey (modSettings m))"
  using assms by (auto simp: moduleOK_def moduleChecks_def validateModuleSettings_def settingsFrom_None)

definition patternsKept :: "externs \<Rightarrow> Module \<Rightarrow> Module" where
  "patternsKept x m = m\<lparr>modScripts := map (keepPatterns x) (modScripts m)\<rparr>"

lemma patternsKept_simps [simp]:
  "modID (patternsKept x m) = modID m" "modEnabled (patternsKept x m) = modEnabled m"
  "modSettings (patternsKept x m) = modSettings m" "modCaptureHosts (patternsKept x m) = modCaptureHosts m"
  "modScripts (patternsKept x m) = map (keepPatterns x) (modScripts m)"
  "modHostMappings (patternsKept x m) = modHostMappings m"
  by (simp_all add: patternsKept_def)

lemma withPatterns_simps [simp]:
  "cfgModules (withPatterns x c) = map (patternsKept x) (cfgModules c)"
  "cfgMITM (withPatterns x c) = cfgMITM c" "cfgExecutionOrder (withPatterns x c) = cfgExecutionOrder c"
  by (simp_all add: withPatterns_def patternsKept_def)

lemma filter_enabled_kept: "filter modEnabled (map (patternsKept x) ms) = map (patternsKept x) (filter modEnabled ms)"
  by (simp add: filter_map comp_def)

lemma compileModule_total:
  assumes "\<forall>s\<in>set (modSettings m). nullRead x s" "gojaReadsEmpty x" "moduleOK x m"
  shows "\<exists>c. compileModule x ps hosts (patternsKept x m) = Inr c"
proof -
  have "\<forall>s\<in>set (modSettings m). setValue s \<noteq> [] \<longrightarrow> (\<exists>v. xJSON x (setValue s) = Some v)"
    using moduleOK_settings(1)[OF assms(3)] settingOK_decodes assms(1) by blast
  then obtain vs where vs: "settingValues x (modSettings m) [] = Some vs"
    using settingValues_total[of "modSettings m" x "[]"] by blast
  obtain cs where "compileRules x ps (patternsKept x m) vs (map (keepPatterns x) (modScripts m)) = Inr cs"
    using compileRules_total[OF assms(2), of "patternsKept x m" m "modScripts m" ps vs] assms(3) by (auto simp: moduleOK_def)
  with vs show ?thesis by (auto simp: compileModule_def moduleSettingValues_def)
qed

lemma map_of_fold_update:
  "map_of (fold (\<lambda>m a. AList.update (f m) (g m) a) ms acc) = map_of acc ++ map_of (rev (map (\<lambda>m. (f m, g m)) ms))"
  by (induction ms arbitrary: acc) (auto simp: map_add_def fun_eq_iff split: option.splits)

lemma modulesByID_lookup:
  assumes "distinct (map modID ms)" "m \<in> set ms"
  shows "map_of (modulesByID ms) (modID m) = Some m"
proof -
  have "map_of (rev (map (\<lambda>m. (modID m, m)) ms)) (modID m) = Some m"
    using assms by (intro map_of_is_SomeI) (auto simp: rev_map[symmetric] comp_def)
  then show ?thesis unfolding modulesByID_def map_of_fold_update by (simp add: map_add_def)
qed

lemma modulesByID_members: "map_of (modulesByID ms) i = Some m \<Longrightarrow> m \<in> set ms \<and> modID m = i"
  unfolding modulesByID_def map_of_fold_update by (auto simp: map_add_def split: option.splits dest: map_of_SomeD)

lemma hostsByID_lookup:
  assumes "distinct (map modID ms)" "m \<in> set ms" "modEnabled m"
  shows "map_of (hostsByID ms) (modID m) = Some (newCompiledHostMatcher (modCaptureHosts m))"
proof -
  have "distinct (map modID (filter modEnabled ms))" using assms(1) by (rule distinct_map_filter)
  then have "map_of (rev (map (\<lambda>m. (modID m, newCompiledHostMatcher (modCaptureHosts m))) (filter modEnabled ms))) (modID m) =
      Some (newCompiledHostMatcher (modCaptureHosts m))"
    using assms by (intro map_of_is_SomeI) (auto simp: rev_map[symmetric] comp_def)
  then show ?thesis unfolding hostsByID_def map_of_fold_update by (simp add: map_add_def)
qed

lemma compileOrder_total:
  assumes "\<And>i m. map_of byID i = Some m \<Longrightarrow> modEnabled m \<Longrightarrow> \<exists>c. compileModule x ps hosts m = Inr c"
  shows "\<exists>cs. compileOrder x ps hosts byID is = Inr cs"
proof (induction "is")
  case (Cons i js)
  then obtain cs where cs: "compileOrder x ps hosts byID js = Inr cs" by blast
  show ?case
  proof (cases "\<exists>m. map_of byID i = Some m \<and> modEnabled m")
    case True
    then obtain m c where "map_of byID i = Some m" "modEnabled m" "compileModule x ps hosts m = Inr c" using assms by blast
    then show ?thesis using cs by simp
  qed (use cs in \<open>auto split: option.splits\<close>)
qed simp

lemma compile_total:
  assumes "rawNulls x c" "gojaReadsEmpty x" "configOK x c"
  shows "\<exists>rt. compileScriptConfigWithPrograms x (withPatterns x c) ps = Inr rt"
proof -
  have "\<exists>cm. compileModule x ps hosts m = Inr cm" if "map_of (modulesByID (map (patternsKept x) (cfgModules c))) i = Some m" for hosts i m
  proof -
    have "m \<in> set (map (patternsKept x) (cfgModules c))" using modulesByID_members that by blast
    then obtain m0 where "m0 \<in> set (cfgModules c)" "m = patternsKept x m0" by auto
    then show ?thesis using compileModule_total[OF _ assms(2)] assms(1,3) by (auto simp: configOK_def rawNulls_def)
  qed
  then obtain cs where "compileOrder x ps (hostsByID (map (patternsKept x) (cfgModules c))) (modulesByID (map (patternsKept x) (cfgModules c)))
      (case cfgExecutionOrder c of None \<Rightarrow> [] | Some ids \<Rightarrow> ids) = Inr cs"
    using compileOrder_total by metis
  then show ?thesis by (simp add: compileScriptConfigWithPrograms_def Let_def)
qed

lemma firstError_Some: "firstError cs = Some e \<Longrightarrow> \<exists>c\<in>set cs. c = Some e"
  by (induction cs) (auto simp: firstError.simps split: option.splits)

lemma check_Some [simp]: "check b e = Some e' \<longleftrightarrow> b \<and> e' = e" "Some e' = check b e \<longleftrightarrow> b \<and> e' = e"
  by (auto simp: check_def)

lemma validateLoopbackAddress_errors: "validateLoopbackAddress v = Some e \<Longrightarrow> e \<in> {NotHostPort, NotIPv4Loopback, PortMissing}"
  by (auto simp: validateLoopbackAddress_def split: option.splits if_splits)

lemma orderFrom_errors: "orderFrom ids seen os = Some e \<Longrightarrow> e \<in> {OrderUnknown, OrderDuplicate}"
  by (induction os arbitrary: seen) (auto split: if_splits)

lemma validateConfig_errors: "validateConfig x c = Inl e \<Longrightarrow> e \<noteq> RuntimeNotCompiled"
proof (cases "boundaryChecks c")
  case (Some e')
  then have "e' \<noteq> RuntimeNotCompiled" unfolding boundaryChecks_def
    by (auto dest!: firstError_Some validateLoopbackAddress_errors[OF sym] simp del: firstError_None)
  moreover assume "validateConfig x c = Inl e"
  ultimately show ?thesis using Some by (simp add: validateConfig_def)
next
  case None
  assume v: "validateConfig x c = Inl e"
  show ?thesis
  proof (cases "validateModulesWithPrograms x (cfgModules c)")
    case (Inl e')
    then have "e' \<noteq> RuntimeNotCompiled"
      by (cases "modulesFrom x scanStartModules (cfgModules c)")
         (auto simp: validateModulesWithPrograms_def split: if_splits)
    then show ?thesis using v None Inl by (simp add: validateConfig_def bindJ_def)
  next
    case (Inr ps)
    then have "firstError [validateExecutionOrder (cfgModules c) (cfgExecutionOrder c),
        check (length (certificateHostPatterns c) > maxCertificateHosts) TooManyCertificateHosts] = Some e"
      using v None by (auto simp: validateConfig_def bindJ_def split: option.splits)
    then have "validateExecutionOrder (cfgModules c) (cfgExecutionOrder c) = Some e \<or> e = TooManyCertificateHosts"
      by (auto dest!: firstError_Some simp del: firstError_None)
    moreover have "e' \<in> {OrderMissing, OrderLength, OrderUnknown, OrderDuplicate}"
      if "validateExecutionOrder (cfgModules c) (cfgExecutionOrder c) = Some e'" for e'
      using that unfolding validateExecutionOrder_def
      by (auto dest!: firstError_Some orderFrom_errors[OF sym] simp del: firstError_None split: option.splits)
    ultimately show ?thesis by auto
  qed
qed

lemma decodeConfig_accepts:
  assumes "rawNulls x c" "gojaReadsEmpty x" "rejectDuplicateJSONKeys x body = Inr v" "unmarshal body = Some c" "configOK x c"
  shows "\<exists>cfg. decodeConfig x unmarshal body = Inr cfg"
proof -
  obtain ps where ps: "validateConfig x c = Inr ps"
    using assms(5) validateConfig_Inr[of x c] validateModules_Inr[of x "cfgModules c"] by (auto simp: configOK_def)
  obtain rt where "compileScriptConfigWithPrograms x (withPatterns x c) ps = Inr rt"
    using compile_total[OF assms(1,2,5)] by blast
  then show ?thesis using ps assms(3,4) by (simp add: decodeConfig_def)
qed

text \<open>C20: An accepted document never fails later. Decoding succeeds exactly for the documents
  validation accepts, and compiling the snapshot of an accepted document never fails.\<close>

theorem accepted_document_decodes:
  assumes "rawNulls x c" and "gojaReadsEmpty x"
    and "rejectDuplicateJSONKeys x body = Inr v" and "unmarshal body = Some c"
  shows "((\<exists>cfg. decodeConfig x unmarshal body = Inr cfg) \<longleftrightarrow> configOK x c) \<and>
    decodeConfig x unmarshal body \<noteq> Inl RuntimeNotCompiled"
proof (cases "validateConfig x c")
  case (Inl e)
  then have "decodeConfig x unmarshal body = Inl e" using assms(3,4) by (simp add: decodeConfig_def bindJ_def)
  moreover have "\<not> configOK x c" using Inl validateConfig_Inr[of x c] validateModules_Inr[of x "cfgModules c"]
    by (auto simp: configOK_def)
  ultimately show ?thesis using validateConfig_errors[OF Inl] by simp
next
  case (Inr ps)
  then have ok: "configOK x c" using validateConfig_Inr by blast
  then obtain cfg where "decodeConfig x unmarshal body = Inr cfg" using decodeConfig_accepts assms by blast
  then show ?thesis using ok by simp
qed

lemma document_rawNulls: "rawNulls docExterns document" "gojaReadsEmpty docExterns"
  by (simp_all add: rawNulls_def nullRead_def gojaReadsEmpty_def doc_defs isNullText_def doc_hosts)

lemma document_unmarshalled: "docUnmarshal ''doc'' = Some document" "rejectDuplicateJSONKeys docExterns ''doc'' = Inr (JStr ''doc'')"
proof -
  have "trim_space ''doc'' = ''doc''" by code_simp
  then show "rejectDuplicateJSONKeys docExterns ''doc'' = Inr (JStr ''doc'')"
    by (simp add: rejectDuplicateJSONKeys_def docExterns_def isNullText_def)
qed (simp add: docUnmarshal_def)

theorem accepted_document_decodes_witness: "\<exists>cfg. decodeConfig docExterns docUnmarshal ''doc'' = Inr cfg"
  using accepted_document_decodes[of docExterns document "''doc''" "JStr ''doc''" docUnmarshal]
    document_rawNulls document_unmarshalled document_OK by simp

section \<open>The snapshot agrees with the document\<close>

lemma decodeConfig_Inr:
  assumes "decodeConfig x unmarshal body = Inr cfg"
  obtains c ps rt where "unmarshal body = Some c" "configOK x c" "validateConfig x c = Inr ps"
    "compileScriptConfigWithPrograms x (withPatterns x c) ps = Inr rt" "cfg = (withPatterns x c)\<lparr>cfgRuntime := Some rt\<rparr>"
proof -
  obtain c ps where c: "unmarshal body = Some c" "validateConfig x c = Inr ps"
      "(case compileScriptConfigWithPrograms x (withPatterns x c) ps of
          Inl _ \<Rightarrow> Inl RuntimeNotCompiled | Inr rt \<Rightarrow> Inr ((withPatterns x c)\<lparr>cfgRuntime := Some rt\<rparr>)) = Inr cfg"
    using assms by (cases "rejectDuplicateJSONKeys x body"; cases "unmarshal body") (auto simp: decodeConfig_def Let_def)
  obtain rt where "compileScriptConfigWithPrograms x (withPatterns x c) ps = Inr rt" "cfg = (withPatterns x c)\<lparr>cfgRuntime := Some rt\<rparr>"
    using c(3) by (cases "compileScriptConfigWithPrograms x (withPatterns x c) ps") auto
  moreover have "configOK x c" using c(2) by (simp add: validateConfig_Inr)
  ultimately show thesis using that c(1,2) by blast
qed

lemma compile_fields:
  assumes "compileScriptConfigWithPrograms x c ps = Inr rt"
  shows "rtModuleHosts rt = hostsByID (cfgModules c)"
    "rtActivePatterns rt = uniqueSorted (if mitmEnabled (cfgMITM c) then concat (map modCaptureHosts (filter modEnabled (cfgModules c))) else [])"
    "rtActiveHosts rt = Some (newCompiledHostMatcher (rtActivePatterns rt))"
    "compileOrder x ps (hostsByID (cfgModules c)) (modulesByID (cfgModules c))
       (case cfgExecutionOrder c of None \<Rightarrow> [] | Some ids \<Rightarrow> ids) = Inr (rtModules rt)"
  using assms by (auto simp: compileScriptConfigWithPrograms_def Let_def)

lemma decoded_runtimeFits:
  assumes "decodeConfig x unmarshal body = Inr cfg"
  shows "runtimeFits cfg"
proof -
  obtain c ps rt where d: "configOK x c" "compileScriptConfigWithPrograms x (withPatterns x c) ps = Inr rt"
      "cfg = (withPatterns x c)\<lparr>cfgRuntime := Some rt\<rparr>"
    using decodeConfig_Inr[OF assms] by metis
  note f = compile_fields[OF d(2)]
  have "distinct (map modID (map (patternsKept x) (cfgModules c)))" using d(1) by (simp add: configOK_def comp_def)
  then have "map_of (rtModuleHosts rt) (modID m) = Some (newCompiledHostMatcher (modCaptureHosts m))"
    if "m \<in> set (map (patternsKept x) (cfgModules c))" "modEnabled m" for m
    using hostsByID_lookup[OF _ that] f(1) by simp
  then show ?thesis using d(3) f(2,3) by (auto simp: runtimeFits_def list_all_iff uniqueSorted_def)
qed

section \<open>Matching\<close>

text \<open>A direct reading of an action's match, with the linear pattern matcher.\<close>

definition selects :: "externs \<Rightarrow> string \<Rightarrow> scriptMessage \<Rightarrow> bool \<Rightarrow> parsedURL \<Rightarrow> ScriptRule \<Rightarrow> bool" where
  "selects x phase msg matchStatus u r \<longleftrightarrow>
     rulePhase r = phase \<and> (\<exists>p\<in>set (matchHosts (ruleMatch r)). matchHostPattern p (canonicalHost (urlHostname u))) \<and>
     to_lower (urlScheme u) \<in> set (matchSchemes (ruleMatch r)) \<and>
     (matchMethods (ruleMatch r) = [] \<or> msgMethod msg \<in> set (matchMethods (ruleMatch r))) \<and>
     (matchStatus \<longrightarrow> matchStatusCodes (ruleMatch r) = [] \<or> msgStatusCode msg \<in> set (matchStatusCodes (ruleMatch r))) \<and>
     xMatches x (matchPathRegex (ruleMatch r)) (messagePath x u)"

definition gateOpen :: "externs \<Rightarrow> Module \<Rightarrow> ScriptRule \<Rightarrow> bool" where
  "gateOpen x m r = actionGateOpen x r (case moduleSettingValues x m of None \<Rightarrow> [] | Some vs \<Rightarrow> vs)"

definition moduleSelects :: "externs \<Rightarrow> string \<Rightarrow> scriptMessage \<Rightarrow> bool \<Rightarrow> parsedURL \<Rightarrow> Module \<Rightarrow> (string \<times> string) list" where
  "moduleSelects x phase msg matchStatus u m =
     (if modEnabled m \<and> (\<exists>p\<in>set (modCaptureHosts m). matchHostPattern p (canonicalHost (urlHostname u)))
      then map (\<lambda>r. (modID m, ruleID r)) (filter (\<lambda>r. gateOpen x m r \<and> selects x phase msg matchStatus u r) (modScripts m))
      else [])"

text \<open>The actions of a document that apply to a message, in execution order, as identifiers.\<close>

definition selectedActions :: "externs \<Rightarrow> Config \<Rightarrow> string \<Rightarrow> scriptMessage \<Rightarrow> bool \<Rightarrow> parsedURL \<Rightarrow> (string \<times> string) list" where
  "selectedActions x c phase msg matchStatus u =
     concat (map (\<lambda>i. concat (map (moduleSelects x phase msg matchStatus u) (filter (\<lambda>m. modID m = i) (cfgModules c))))
       (case cfgExecutionOrder c of None \<Rightarrow> [] | Some ids \<Rightarrow> ids))"

lemma containsInt_iff [simp]: "containsInt vs v \<longleftrightarrow> v \<in> set vs"
  by (induction vs) auto

lemma compileRule_selects:
  assumes "compileRule x ps m settings r = Inr c"
  shows "ruleMatches x phase msg st u c = selects x phase msg st u r" "ruleID (crRule c) = ruleID r"
proof -
  obtain p jq where c: "c = \<lparr>crRule = r\<lparr>ruleProgram := Some p, ruleJQ := jq, ruleSettings := Some settings\<rparr>,
      crPath = Regexp (matchPathRegex (ruleMatch r)), crHosts = newCompiledHostMatcher (matchHosts (ruleMatch r))\<rparr>"
    using assms by (auto simp: compileRule_def split: if_splits option.splits)
  then have fs: "rulePhase (crRule c) = rulePhase r" "ruleMatch (crRule c) = ruleMatch r"
      "crHosts c = newCompiledHostMatcher (matchHosts (ruleMatch r))" "reText (crPath c) = matchPathRegex (ruleMatch r)"
    by simp_all
  show "ruleMatches x phase msg st u c = selects x phase msg st u r"
    using fs unfolding ruleMatches_def selects_def Let_def fs matchCanonical_compiled containsString_iff containsInt_iff by auto
  show "ruleID (crRule c) = ruleID r" by (simp add: c)
qed

lemma selects_kept [simp]: "selects x phase msg st u (keepPatterns x' r) = selects x phase msg st u r"
  by (simp add: selects_def)

lemma actionGateOpen_kept [simp]: "actionGateOpen x (keepPatterns x' r) vs = actionGateOpen x r vs"
  by (simp add: actionGateOpen_def)

lemma compileRules_selects:
  assumes "compileRules x ps m settings rs = Inr cs"
  shows "map (\<lambda>c. ruleID (crRule c)) (filter (ruleMatches x phase msg st u) cs) =
         map ruleID (filter (\<lambda>r. actionGateOpen x r settings \<and> selects x phase msg st u r) rs)"
  using assms
proof (induction rs arbitrary: cs)
  case (Cons r rs)
  show ?case
  proof (cases "actionGateOpen x r settings")
    case True
    then obtain c cs' where "compileRule x ps m settings r = Inr c" "compileRules x ps m settings rs = Inr cs'" "cs = c # cs'"
      using Cons.prems by auto
    then show ?thesis using Cons.IH[of cs'] compileRule_selects True by simp
  qed (use Cons in auto)
qed simp

definition pairIDs :: "(Module \<times> ScriptRule) list \<Rightarrow> (string \<times> string) list" where
  "pairIDs ms = map (\<lambda>(m, r). (modID m, ruleID r)) ms"

lemma matchModule_selects:
  assumes "compileModule x ps hosts (patternsKept x m) = Inr cm" "modEnabled m"
    and "map_of hosts (modID m) = Some (newCompiledHostMatcher (modCaptureHosts m))"
  shows "pairIDs (matchModule x phase msg st u cm) = moduleSelects x phase msg st u m"
proof -
  obtain vs rules where cm: "moduleSettingValues x m = Some vs" "compileRules x ps (patternsKept x m) vs (map (keepPatterns x) (modScripts m)) = Inr rules"
      "cm = \<lparr>cmModule = patternsKept x m, cmRules = rules, cmHosts = map_of hosts (modID m)\<rparr>"
    using assms(1) by (auto simp: compileModule_def moduleSettingValues_def split: option.splits)
  have "map (\<lambda>c. (modID m, ruleID (crRule c))) (filter (ruleMatches x phase msg st u) rules) =
      map (Pair (modID m)) (map (\<lambda>c. ruleID (crRule c)) (filter (ruleMatches x phase msg st u) rules))" by simp
  also have "\<dots> = map (Pair (modID m)) (map ruleID (filter (\<lambda>r. actionGateOpen x r vs \<and> selects x phase msg st u r) (map (keepPatterns x) (modScripts m))))"
    using compileRules_selects[OF cm(2)] by simp
  also have "\<dots> = map (\<lambda>r. (modID m, ruleID r)) (filter (\<lambda>r. gateOpen x m r \<and> selects x phase msg st u r) (modScripts m))"
    by (simp add: filter_map comp_def gateOpen_def cm(1))
  finally show ?thesis
    using assms(2,3) by (simp add: pairIDs_def matchModule_def cm(3) moduleSelects_def matchCanonical_compiled comp_def)
qed

lemma filter_by_id: "distinct (map modID ms) \<Longrightarrow> m \<in> set ms \<Longrightarrow> filter (\<lambda>n. modID n = modID m) ms = [m]"
  by (induction ms) (auto simp: filter_empty_conv rev_image_eqI)

lemma pairIDs_append: "pairIDs (a @ b) = pairIDs a @ pairIDs b" by (simp add: pairIDs_def)

lemma compileOrder_selects:
  assumes "distinct (map modID ms)" "set ids \<subseteq> set (map modID ms)"
    and "compileOrder x ps (hostsByID (map (patternsKept x) ms)) (modulesByID (map (patternsKept x) ms)) ids = Inr cms"
  shows "pairIDs (concat (map (matchModule x phase msg st u) cms)) =
    concat (map (\<lambda>i. concat (map (moduleSelects x phase msg st u) (filter (\<lambda>m. modID m = i) ms))) ids)"
  using assms(2,3)
proof (induction ids arbitrary: cms)
  case Nil
  then show ?case by (simp add: pairIDs_def)
next
  case (Cons i ids)
  obtain m where m: "m \<in> set ms" "modID m = i" using Cons.prems(1) by auto
  have d: "distinct (map modID (map (patternsKept x) ms))" using assms(1) by (simp add: comp_def)
  have mk: "patternsKept x m \<in> set (map (patternsKept x) ms)" using m by simp
  have lk: "map_of (modulesByID (map (patternsKept x) ms)) i = Some (patternsKept x m)"
    using modulesByID_lookup[OF d mk] m(2) by simp
  note flt = filter_by_id[OF assms(1) m(1), unfolded m(2)]
  show ?case
  proof (cases "modEnabled m")
    case True
    then obtain cm cms' where cm: "compileModule x ps (hostsByID (map (patternsKept x) ms)) (patternsKept x m) = Inr cm" "cms = cm # cms'"
        "compileOrder x ps (hostsByID (map (patternsKept x) ms)) (modulesByID (map (patternsKept x) ms)) ids = Inr cms'"
      using Cons.prems(2) lk by auto
    have "pairIDs (matchModule x phase msg st u cm) = moduleSelects x phase msg st u m"
      using matchModule_selects[OF cm(1) True] hostsByID_lookup[OF d mk] True by simp
    then show ?thesis using Cons.IH[OF _ cm(3)] Cons.prems(1) by (simp add: cm(2) flt pairIDs_append)
  next
    case False
    then have "moduleSelects x phase msg st u m = []" by (simp add: moduleSelects_def)
    then show ?thesis using Cons False lk by (simp add: flt)
  qed
qed

lemma matching_selected:
  assumes "decodeConfig x unmarshal body = Inr cfg" and "unmarshal body = Some c"
  shows "pairIDs (matchingScriptRulesParsed x cfg phase msg matchStatus u) = selectedActions x c phase msg matchStatus u"
proof -
  obtain ps rt where d: "configOK x c" "compileScriptConfigWithPrograms x (withPatterns x c) ps = Inr rt"
      "cfg = (withPatterns x c)\<lparr>cfgRuntime := Some rt\<rparr>"
    using decodeConfig_Inr[OF assms(1)] assms(2) by (metis option.inject)
  obtain ids where ids: "cfgExecutionOrder c = Some ids" "mset ids = mset (map modID (cfgModules c))"
    using d(1) by (auto simp: configOK_def)
  have "set ids \<subseteq> set (map modID (cfgModules c))" using mset_eq_setD[OF ids(2)] by simp
  then show ?thesis
    using compileOrder_selects[of "cfgModules c" ids x ps "rtModules rt" phase msg matchStatus u] d(1) compile_fields(4)[OF d(2)]
    by (simp add: d(3) matchingScriptRulesParsed_def selectedActions_def ids(1) configOK_def)
qed

text \<open>C21: Matching over the compiled snapshot selects, for every message, exactly the actions a
  direct reading of the accepted document selects and in the same order: modules in execution
  order, enabled, owning the host by one of their capture patterns; actions in declaration order
  whose gate is open and whose phase, host patterns, schemes, methods, status codes and path
  pattern all admit the message.\<close>

theorem matching_exact:
  assumes "decodeConfig x unmarshal body = Inr cfg" and "unmarshal body = Some c"
  shows "pairIDs (matchingScriptRulesParsed x cfg phase msg matchStatus u) = selectedActions x c phase msg matchStatus u"
  using assms by (rule matching_selected)

lemma document_selected:
  "selectedActions docExterns document ''request''
     \<lparr>msgURL = [], msgMethod = ''GET'', msgHeaders = [], msgTrailers = [], msgBody = [], msgStatusCode = 0\<rparr> True
     \<lparr>urlScheme = ''https'', urlOpaque = [], urlUser = None, urlHost = ''A.example.com:443'', urlPath = ''/ads'', urlRawQuery = [],
      urlForceQuery = False, urlFragment = []\<rparr> = [(''abc'', ''block'')]"
  by code_simp

theorem matching_exact_witness:
  "\<exists>cfg. decodeConfig docExterns docUnmarshal ''doc'' = Inr cfg \<and>
     pairIDs (matchingScriptRulesParsed docExterns cfg ''request''
       \<lparr>msgURL = [], msgMethod = ''GET'', msgHeaders = [], msgTrailers = [], msgBody = [], msgStatusCode = 0\<rparr> True
       \<lparr>urlScheme = ''https'', urlOpaque = [], urlUser = None, urlHost = ''A.example.com:443'', urlPath = ''/ads'', urlRawQuery = [],
        urlForceQuery = False, urlFragment = []\<rparr>) = [(''abc'', ''block'')]"
proof -
  obtain cfg where cfg: "decodeConfig docExterns docUnmarshal ''doc'' = Inr cfg"
    using decodeConfig_accepts[of docExterns document "''doc''" "JStr ''doc''" docUnmarshal]
      document_rawNulls document_unmarshalled document_OK by blast
  then show ?thesis using matching_exact[OF cfg document_unmarshalled(1)] document_selected by simp
qed

section \<open>Gates\<close>

text \<open>The texts a gate's setting can have.\<close>

definition gateTexts :: "ModuleSetting \<Rightarrow> string set" where
  "gateTexts s = (if setType s = ''boolean'' then {''true'', ''false''} else set (setOptions s))"

lemma ready_gate_setting:
  assumes "settingReady x s" "nullRead x s" "setType s = ''boolean'' \<or> setType s = ''select''"
  shows "setValue s \<noteq> [] \<and> (\<exists>v. xJSON x (setValue s) = Some v \<and> compatArgumentText x v \<in> gateTexts s)"
proof -
  have r: "validateSettingValue x s (setValue s) True = None" using assms(1) by (simp add: settingReady_def)
  then have v: "setValue s \<noteq> []" "\<not> isNullText (setValue s)" by (auto simp: validateSettingValue_def split: if_splits)
  then have nn: "xJSON x (setValue s) \<noteq> Some JNull" using assms(2) by (simp add: nullRead_def)
  from assms(3) show ?thesis
  proof
    assume t: "setType s = ''boolean''"
    then obtain b where "xJSON x (setValue s) = Some (JBool b)"
      using r v nn by (auto simp: validateSettingValue_def split: if_splits option.splits json.splits)
    then show ?thesis using v t by (simp add: gateTexts_def compatArgumentText_def)
  next
    assume t: "setType s = ''select''"
    then obtain w where "xJSON x (setValue s) = Some (JStr w)" "trim_space w \<noteq> []" "w \<noteq> [] \<longrightarrow> w \<in> set (setOptions s)"
      using r v nn
      by (auto simp: validateSettingValue_def validateTextValue_def decodeText_def split: if_splits option.splits json.splits)
    then show ?thesis using v t by (auto simp: gateTexts_def compatArgumentText_def trim_space_def)
  qed
qed

text \<open>The gate of an action of an enabled module always has a decidable state. The setting it
  names is declared, required and a boolean or a select, its decoded value is present, the text it
  is compared with is one of the texts the setting can have, and so is the value: the action is
  compiled exactly when the two are equal, never because a value is missing.\<close>

theorem gate_always_decided:
  assumes "configOK x c" and "rawNulls x c" and "m \<in> set (cfgModules c)" and "modEnabled m"
    and "r \<in> set (modScripts m)" and "ruleEnabledWhen r = Some g" and "moduleSettingValues x m = Some vs"
  shows "\<exists>s\<in>set (modSettings m). \<exists>v. setKey s = gateKey g \<and> map_of vs (gateKey g) = Some v \<and>
     gateEquals g \<in> gateTexts s \<and> compatArgumentText x v \<in> gateTexts s \<and>
     actionGateOpen x r vs = (compatArgumentText x v = gateEquals g)"
proof -
  have m: "moduleOK x m" "actionOK x m r" using assms by (auto simp: configOK_def moduleOK_def)
  obtain s where s: "find (\<lambda>s. setKey s = gateKey g) (modSettings m) = Some s" "gateSetting g s = None"
    using actionOK_facts(4)[OF m(2)] assms(6) by (auto simp: validateActionGate_def split: option.splits)
  then have in_m: "s \<in> set (modSettings m)" "setKey s = gateKey g" by (auto simp: find_Some_iff)
  have g: "setRequired s" "setType s = ''boolean'' \<or> setType s = ''select''" "gateEquals g \<in> gateTexts s"
    using s(2) by (auto simp: gateSetting_def gateTexts_def split: if_splits)
  have "settingReady x s" using m(1) assms(4) g(1) in_m(1) by (auto simp: moduleOK_def moduleSettingsReady_def list_all_iff)
  moreover have "nullRead x s" using assms(2,3) in_m(1) by (auto simp: rawNulls_def)
  ultimately obtain v where v: "setValue s \<noteq> []" "xJSON x (setValue s) = Some v" "compatArgumentText x v \<in> gateTexts s"
    using ready_gate_setting g(2) by blast
  have "map_of vs (gateKey g) = Some v"
    using settingValues_lookup[OF assms(7)[unfolded moduleSettingValues_def] moduleOK_settings(2)[OF m(1)], of "gateKey g"] s(1) v
    by simp
  then show ?thesis using in_m g(3) v(3) assms(6) by (auto simp: actionGateOpen_def)
qed

theorem gate_always_decided_witness:
  "actionGateOpen docExterns docRule [(''on'', JBool True)] \<and> gateTexts docSetting = {''true'', ''false''}"
proof -
  have v: "moduleSettingValues docExterns docModule = Some [(''on'', JBool True)]" by code_simp
  have "docModule \<in> set (cfgModules document)" "modEnabled docModule" "docRule \<in> set (modScripts docModule)"
      "ruleEnabledWhen docRule = Some \<lparr>gateKey = ''on'', gateEquals = ''true''\<rparr>" "modSettings docModule = [docSetting]"
    by (simp_all add: document_def docModule_def docRule_def)
  then show ?thesis
    using gate_always_decided[OF document_OK document_rawNulls(1) _ _ _ _ v, of docRule "\<lparr>gateKey = ''on'', gateEquals = ''true''\<rparr>"]
    by (auto simp: gateTexts_def docSetting_def compatArgumentText_def)
qed

section \<open>Upstream mappings\<close>

lemma div_range: "0 < k \<Longrightarrow> (n::nat) div k = q \<longleftrightarrow> k * q \<le> n \<and> n < k * Suc q"
  by (metis div_nat_eqI dividend_less_times_div times_div_less_eq_dividend mult_Suc_right add.commute)

lemma range_div: "(n::nat) div 16 = Suc 0 \<longleftrightarrow> 16 \<le> n \<and> n < 32" "n div 64 = Suc 0 \<longleftrightarrow> 64 \<le> n \<and> n < 128"
  "n div 16 = 14 \<longleftrightarrow> 224 \<le> n \<and> n < 240"
  by (simp_all add: div_range)

lemma ranges_IPv4:
  "IsPrivate (V4 [a, b, c, d]) \<longleftrightarrow> a = 10 \<or> a = 172 \<and> 16 \<le> b \<and> b < 32 \<or> a = 192 \<and> b = 168"
  "IsLoopback (V4 [a, b, c, d]) \<longleftrightarrow> a = 127" "IsLinkLocalUnicast (V4 [a, b, c, d]) \<longleftrightarrow> a = 169 \<and> b = 254"
  "IsMulticast (V4 [a, b, c, d]) \<longleftrightarrow> 224 \<le> a \<and> a < 240" "IsUnspecified (V4 [a, b, c, d]) \<longleftrightarrow> [a, b, c, d] = [0, 0, 0, 0]"
  by (simp_all add: IsPrivate_def IsLoopback_def IsLinkLocalUnicast_def IsMulticast_def IsUnspecified_def v4or6_def range_div)

lemma allowed_IPv4:
  "hostTargetAddressAllowed (V4 [a, b, c, d]) \<Longrightarrow> a \<noteq> 10 \<and> a \<noteq> 127 \<and> \<not> (a = 172 \<and> 16 \<le> b \<and> b < 32) \<and> \<not> (a = 192 \<and> b = 168) \<and>
     \<not> (a = 169 \<and> b = 254) \<and> \<not> (a = 100 \<and> 64 \<le> b \<and> b < 128) \<and> \<not> (224 \<le> a \<and> a < 240) \<and>
     [a, b, c, d] \<noteq> [255, 255, 255, 255] \<and> [a, b, c, d] \<noteq> [0, 0, 0, 0]"
proof -
  assume al: "hostTargetAddressAllowed (V4 [a, b, c, d])"
  have t: "To4 (V4 [a, b, c, d]) = Some [a, b, c, d]" by (simp add: To4_def)
  have "\<not> (a = 100 \<and> b div 64 = Suc 0)" using al by (simp add: hostTargetAddressAllowed_def t split: if_splits)
  moreover have "IsGlobalUnicast (V4 [a, b, c, d]) \<and> \<not> IsPrivate (V4 [a, b, c, d])"
    using al unfolding hostTargetAddressAllowed_def by (metis (full_types))
  ultimately show ?thesis unfolding IsGlobalUnicast_def t option.inject ranges_IPv4 range_div by blast
qed

text \<open>No upstream mapping of an accepted document, of an enabled or a disabled module, aims at
  an address the gateway must not be pointed at: a target in address form is an IPv4 address
  outside the loopback, private, link-local, carrier-grade NAT, multicast and broadcast ranges.\<close>

theorem mapping_targets_public:
  assumes "configOK x c" and "m \<in> set (cfgModules c)" and "h \<in> set (modHostMappings m)" and "\<not> resolverForm h"
    and "ParseIP (canonicalHost (mapTarget h)) = Some ip"
  shows "\<exists>a b c d. ip = V4 [a, b, c, d] \<and> a \<noteq> 10 \<and> a \<noteq> 127 \<and> \<not> (a = 172 \<and> 16 \<le> b \<and> b < 32) \<and> \<not> (a = 192 \<and> b = 168) \<and>
     \<not> (a = 169 \<and> b = 254) \<and> \<not> (a = 100 \<and> 64 \<le> b \<and> b < 128) \<and> \<not> (224 \<le> a \<and> a < 240) \<and>
     [a, b, c, d] \<noteq> [255, 255, 255, 255] \<and> [a, b, c, d] \<noteq> [0, 0, 0, 0]"
proof -
  have "validHostTarget (mapTarget h)"
    using assms(1-3) by (auto simp: configOK_def moduleOK_def moduleChecks_def validateHostMappings_None)
  then have ip: "To4 ip \<noteq> None" "hostTargetAddressAllowed ip"
    using assms(4,5) by (auto simp: validHostTarget_def resolverForm_def Let_def)
  obtain a0 where a0: "ParseAddr (canonicalHost (mapTarget h)) = Some a0" "ip = Unmap a0"
    using assms(5) by (auto simp: ParseIP_def split: option.splits if_splits)
  then have "validAddr ip" using ParseAddr_valid Unmap_valid by blast
  moreover have "Unmap ip = ip" using a0(2) by (simp add: Unmap_idem)
  ultimately obtain os where os: "ip = V4 os" "length os = 4" using ip(1) by (cases ip) (auto simp: To4_def)
  then obtain a b c d where "os = [a, b, c, d]" by (auto simp: length_Suc_conv numeral_eq_Suc)
  then show ?thesis using ip(2) os(1) allowed_IPv4[of a b c d] by blast
qed

theorem mapping_targets_public_witness:
  "\<exists>a b c d. V4 [8, 8, 4, 4] = V4 [a, b, c, d] \<and> a \<noteq> (127::nat)"
proof -
  have "ParseIP (canonicalHost (mapTarget docMapping)) = Some (V4 [8, 8, 4, 4])" "\<not> resolverForm docMapping" by code_simp+
  moreover have "docModule \<in> set (cfgModules document)" "docMapping \<in> set (modHostMappings docModule)"
    by (simp_all add: document_def docModule_def)
  ultimately show ?thesis
    using mapping_targets_public[of docExterns document docModule docMapping "V4 [8, 8, 4, 4]"] document_OK by auto
qed

section \<open>What validation lets through\<close>

lemma lower_no_upper: "CHR ''A'' \<notin> set (to_lower s)"
proof -
  have "code (lower_char c) \<noteq> 65" for c by (auto simp: lower_char_def code_char_of)
  moreover have "code CHR ''A'' = 65" by (simp add: code_def)
  ultimately have "lower_char c \<noteq> CHR ''A''" for c by metis
  then show ?thesis unfolding to_lower_def by (metis imageE set_map)
qed

lemma split_host_port_subset: "split_host_port h = Some (a, b) \<Longrightarrow> set a \<subseteq> set h"
  by (auto simp: split_host_port_def split: option.splits if_splits dest: in_set_takeD in_set_dropD)

lemma canonicalHost_subset: "set (canonicalHost v) \<subseteq> set (to_lower (trim_space v))"
proof -
  have t: "set (trim_suffix s p) \<subseteq> set s" for s p by (auto simp: trim_suffix_def dest: in_set_takeD)
  show ?thesis
    using split_host_port_subset[of "to_lower (trim_space v)"] t
    by (fastforce simp: canonicalHost_def Let_def split: option.splits if_splits)
qed

text \<open>
  Capture hosts have to be canonical, but the hosts of an action do not: an action for a host in
  mixed case passes its checks and then matches no host at all.
\<close>

lemma action_host_never_matches:
  "validateActionMatch docExterns [''*.example.com''] ''request''
     \<lparr>matchHosts = [''A.example.com''], matchSchemes = [''https''], matchMethods = [], matchPathRegex = ''/'', matchStatusCodes = []\<rparr> = None"
  "\<not> matchCanonical (Some (newCompiledHostMatcher [''A.example.com''])) (canonicalHost v)"
proof -
  have "validHostPattern ''A.example.com''" "hostCoveredBy [''*.example.com''] ''A.example.com''" by code_simp+
  then show "validateActionMatch docExterns [''*.example.com''] ''request''
     \<lparr>matchHosts = [''A.example.com''], matchSchemes = [''https''], matchMethods = [], matchPathRegex = ''/'', matchStatusCodes = []\<rparr> = None"
    by (simp add: validateActionMatch_def maxActionMatchHosts_def docExterns_def)
  have "canonicalHost v \<noteq> ''A.example.com''" using canonicalHost_subset[of v] lower_no_upper[of "trim_space v"] by auto
  then show "\<not> matchCanonical (Some (newCompiledHostMatcher [''A.example.com''])) (canonicalHost v)"
    by (simp add: matchCanonical_compiled matchHostPattern_def has_prefix_def)
qed

text \<open>
  A mapping target is validated in its canonical form and dialled as it is written: a target with
  a port passes and cannot be encoded as a SOCKS address.
\<close>

lemma mapping_target_not_dialled:
  "validHostTarget ''8.8.8.8:99''" "encodeSOCKSAddress \<lparr>tgtHost = ''8.8.8.8:99'', tgtPort = 443\<rparr> = Inl DomainHasColon"
  by code_simp+

end
