(* ===== verification/Config_Store.thy ===== *)
theory Config_Store
  imports Rule_Matching Projection Bundle_System
begin

text \<open>
  The configuration store of config.go, which every request asks for its snapshot: the private
  file with its identity caches and the retention of the last valid document, and the one-way
  handover to the pushed bundle. The loop of main.go that stops the service is a client of it.

  What the file system answers during one call is the record \<open>configFile\<close>. A bundle is a
  pointer, as in the manager: the number of its allocation with the configuration. The digest
  function and the decoder are arguments. The process log and the engine log are lists.
\<close>

section \<open>Reading the file\<close>

record fileInfo =
  fiSize :: int
  fiModTime :: int
  fiRegular :: bool
  fiIdentity :: "nat option"

text \<open>\<^verbatim>\<open>os.SameFile\<close>: false for a missing \<^verbatim>\<open>FileInfo\<close> and for one whose identity cannot be resolved.\<close>

definition SameFile :: "fileInfo option \<Rightarrow> fileInfo option \<Rightarrow> bool" where
  "SameFile a b =
     (case (a, b) of
        (Some i, Some j) \<Rightarrow> fiIdentity i \<noteq> None \<and> fiIdentity i = fiIdentity j
      | _ \<Rightarrow> False)"

datatype read_error =
  OSError string | PathNotRegular | NoIdentity | OpenedNotRegular | PathChanged | ConfigTooLarge

text \<open>The answers of \<^verbatim>\<open>os.Stat\<close>, \<^verbatim>\<open>os.Lstat\<close>, the open call, \<^verbatim>\<open>file.Stat\<close> and the contents.\<close>

record configFile =
  cfStat :: "string + fileInfo"
  cfLstat :: "string + fileInfo"
  cfOpen :: "string + unit"
  cfOpened :: "string + fileInfo"
  cfContents :: "string + string"

definition maxConfigBytes :: nat where "maxConfigBytes = 16 * 2 ^ 20"

definition osCall :: "string + 'a \<Rightarrow> read_error + 'a" where
  "osCall r = map_sum OSError id r"

definition readConfigBoundedWithOpenInfo :: "configFile \<Rightarrow> read_error + string \<times> fileInfo" where
  "readConfigBoundedWithOpenInfo f =
     bindJ (osCall (cfLstat f)) (\<lambda>pathInfo.
       if \<not> fiRegular pathInfo then Inl PathNotRegular
       else if \<not> SameFile (Some pathInfo) (Some pathInfo) then Inl NoIdentity
       else bindJ (osCall (cfOpen f)) (\<lambda>_.
         bindJ (osCall (cfOpened f)) (\<lambda>openedInfo.
           if \<not> fiRegular openedInfo then Inl OpenedNotRegular
           else if \<not> SameFile (Some pathInfo) (Some openedInfo) then Inl PathChanged
           else bindJ (osCall (cfContents f)) (\<lambda>contents.
             let body = take (maxConfigBytes + 1) contents
             in if length body > maxConfigBytes then Inl ConfigTooLarge else Inr (body, openedInfo)))))"

definition readConfigDocumentWithInfo :: "configFile \<Rightarrow> read_error + string \<times> fileInfo option" where
  "readConfigDocumentWithInfo f = map_sum id (\<lambda>(body, info). (body, Some info)) (readConfigBoundedWithOpenInfo f)"

section \<open>The store\<close>

datatype store_event = ReadFailed read_error | ReplacementRejected config_error | Reloaded

record configStore =
  csModTime :: int
  csGoodSize :: int
  csGoodFile :: "fileInfo option"
  csBadModTime :: int
  csBadSize :: int
  csBadFile :: "fileInfo option"
  csReadErrorModTime :: int
  csReadErrorSize :: int
  csReadErrorFile :: "fileInfo option"
  csReadErrorUnstatable :: bool
  csContentDigest :: string
  csCfg :: Config
  csLogs :: bool
  csBundleSource :: bool
  csBundle :: "nat option"
  csGeneration :: "64 word"
  csPrinted :: "string list"
  csPublished :: "store_event list"

definition matchesGoodFile :: "configStore \<Rightarrow> fileInfo \<Rightarrow> bool" where
  "matchesGoodFile s info \<longleftrightarrow>
     csGoodFile s \<noteq> None \<and> fiSize info = csGoodSize s \<and> fiModTime info = csModTime s \<and> SameFile (Some info) (csGoodFile s)"

definition matchesBadFile :: "configStore \<Rightarrow> fileInfo \<Rightarrow> bool" where
  "matchesBadFile s info \<longleftrightarrow>
     csBadFile s \<noteq> None \<and> fiSize info = csBadSize s \<and> fiModTime info = csBadModTime s \<and> SameFile (Some info) (csBadFile s)"

definition matchesReadErrorFile :: "configStore \<Rightarrow> fileInfo \<Rightarrow> bool" where
  "matchesReadErrorFile s info \<longleftrightarrow>
     csReadErrorFile s \<noteq> None \<and> fiSize info = csReadErrorSize s \<and> fiModTime info = csReadErrorModTime s \<and>
     SameFile (Some info) (csReadErrorFile s)"

text \<open>A field of a missing \<^verbatim>\<open>FileInfo\<close> is never read: its identity test fails first.\<close>

definition infoOf :: "(fileInfo \<Rightarrow> int) \<Rightarrow> fileInfo option \<Rightarrow> int" where
  "infoOf f info = (case info of None \<Rightarrow> 0 | Some i \<Rightarrow> f i)"

definition rememberGoodFile :: "fileInfo option \<Rightarrow> configStore \<Rightarrow> configStore" where
  "rememberGoodFile info s =
     (if \<not> SameFile info info then s\<lparr>csModTime := 0, csGoodSize := 0, csGoodFile := None\<rparr>
      else s\<lparr>csModTime := infoOf fiModTime info, csGoodSize := infoOf fiSize info, csGoodFile := info\<rparr>)"

definition clearBadFile :: "configStore \<Rightarrow> configStore" where
  "clearBadFile s = s\<lparr>csBadModTime := 0, csBadSize := 0, csBadFile := None\<rparr>"

definition rememberBadFile :: "fileInfo option \<Rightarrow> configStore \<Rightarrow> configStore" where
  "rememberBadFile info s =
     (if \<not> SameFile info info then clearBadFile s
      else s\<lparr>csBadModTime := infoOf fiModTime info, csBadSize := infoOf fiSize info, csBadFile := info\<rparr>)"

definition clearReadErrorFile :: "configStore \<Rightarrow> configStore" where
  "clearReadErrorFile s = s\<lparr>csReadErrorModTime := 0, csReadErrorSize := 0, csReadErrorFile := None\<rparr>"

definition rememberReadErrorFile :: "fileInfo option \<Rightarrow> configStore \<Rightarrow> configStore" where
  "rememberReadErrorFile info s =
     (if \<not> SameFile info info then clearReadErrorFile s
      else s\<lparr>csReadErrorModTime := infoOf fiModTime info, csReadErrorSize := infoOf fiSize info, csReadErrorFile := info\<rparr>)"

definition publishStore :: "store_event \<Rightarrow> configStore \<Rightarrow> configStore" where
  "publishStore e s = (if csLogs s then s\<lparr>csPublished := csPublished s @ [e]\<rparr> else s)"

definition printStore :: "string \<Rightarrow> configStore \<Rightarrow> configStore" where
  "printStore line s = s\<lparr>csPrinted := csPrinted s @ [line]\<rparr>"

definition reportConfigReadFailure :: "read_error \<Rightarrow> configStore \<Rightarrow> configStore" where
  "reportConfigReadFailure e s =
     publishStore (ReadFailed e) (printStore ''intercept: could not read replacement config; retaining the last valid snapshot'' s)"

definition setBundleSource :: "configStore \<Rightarrow> configStore" where
  "setBundleSource s = s\<lparr>csBundleSource := True\<rparr>"

definition setEngineLogPublisher :: "bool \<Rightarrow> configStore \<Rightarrow> configStore" where
  "setEngineLogPublisher enabled s = s\<lparr>csLogs := enabled\<rparr>"

datatype store_error = Unreadable read_error | Undecoded config_error | NoActiveBundle

definition newConfigStore :: "(string \<Rightarrow> string) \<Rightarrow> (string \<Rightarrow> config_error + Config) \<Rightarrow> configFile \<Rightarrow> store_error + configStore" where
  "newConfigStore sha decode f =
     (case readConfigDocumentWithInfo f of
        Inl e \<Rightarrow> Inl (Unreadable e)
      | Inr (body, info) \<Rightarrow>
          (case decode body of
             Inl e \<Rightarrow> Inl (Undecoded e)
           | Inr cfg \<Rightarrow>
               Inr (rememberGoodFile info
                 \<lparr>csModTime = 0, csGoodSize = 0, csGoodFile = None, csBadModTime = 0, csBadSize = 0, csBadFile = None,
                  csReadErrorModTime = 0, csReadErrorSize = 0, csReadErrorFile = None, csReadErrorUnstatable = False,
                  csContentDigest = sha body, csCfg = cfg\<lparr>cfgGeneration := 1\<rparr>, csLogs = False,
                  csBundleSource = False, csBundle = None, csGeneration = 1, csPrinted = [], csPublished = []\<rparr>)))"

section \<open>The current snapshot\<close>

text \<open>What the bundle source answers: the live pointer, and whether one was ever live.\<close>

type_synonym bundle_view = "(nat \<times> Config) option \<times> bool"

definition readFailed :: "read_error \<Rightarrow> fileInfo option \<Rightarrow> configStore \<Rightarrow> configStore" where
  "readFailed e info s =
     (case info of
        Some i \<Rightarrow>
          (if \<not> matchesReadErrorFile s i then rememberReadErrorFile info (reportConfigReadFailure e s) else s)
      | None \<Rightarrow>
          (if \<not> csReadErrorUnstatable s
           then (clearReadErrorFile (reportConfigReadFailure e s))\<lparr>csReadErrorUnstatable := True\<rparr> else s))"

definition replaceDocument :: "(string \<Rightarrow> string) \<Rightarrow> (string \<Rightarrow> config_error + Config) \<Rightarrow> string \<Rightarrow> fileInfo option \<Rightarrow> configStore \<Rightarrow>
    (store_error + Config) \<times> configStore" where
  "replaceDocument sha decode body readInfo s =
     (if sha body = csContentDigest s then (Inr (csCfg s), clearBadFile (rememberGoodFile readInfo s))
      else case decode body of
        Inl e \<Rightarrow>
          (Inr (csCfg s),
           rememberBadFile readInfo (publishStore (ReplacementRejected e)
             (printStore ''intercept: ignoring invalid replacement config; retaining the last valid snapshot'' s)))
      | Inr cfg \<Rightarrow>
          (let g = csGeneration s + 1;
               cfg = cfg\<lparr>cfgGeneration := g\<rparr>;
               s = rememberGoodFile readInfo (s\<lparr>csGeneration := g, csCfg := cfg\<rparr>)
           in (Inr cfg, publishStore Reloaded (clearBadFile (s\<lparr>csContentDigest := sha body\<rparr>)))))"

definition currentFile :: "(string \<Rightarrow> string) \<Rightarrow> (string \<Rightarrow> config_error + Config) \<Rightarrow> configFile \<Rightarrow> configStore \<Rightarrow>
    (store_error + Config) \<times> configStore" where
  "currentFile sha decode f s =
     (let info = (case cfStat f of Inl _ \<Rightarrow> None | Inr i \<Rightarrow> Some i)
      in if (case info of None \<Rightarrow> False | Some i \<Rightarrow> matchesGoodFile s i \<or> matchesBadFile s i) then (Inr (csCfg s), s)
         else case readConfigDocumentWithInfo f of
           Inl e \<Rightarrow> (Inr (csCfg s), readFailed e info s)
         | Inr (body, readInfo) \<Rightarrow>
             replaceDocument sha decode body (if readInfo = None then info else readInfo)
               ((clearReadErrorFile s)\<lparr>csReadErrorUnstatable := False\<rparr>))"

definition Current :: "(string \<Rightarrow> string) \<Rightarrow> (string \<Rightarrow> config_error + Config) \<Rightarrow> bundle_view \<Rightarrow> configFile \<Rightarrow> configStore \<Rightarrow>
    (store_error + Config) \<times> configStore" where
  "Current sha decode seen f s =
     (if csBundleSource s then
        (case seen of
           (Some (n, cfg), _) \<Rightarrow>
             (let s = (if csBundle s \<noteq> Some n then s\<lparr>csBundle := Some n, csGeneration := csGeneration s + 1\<rparr> else s)
              in (Inr (cfg\<lparr>cfgGeneration := csGeneration s\<rparr>), s))
         | (None, True) \<Rightarrow> (Inl NoActiveBundle, s\<lparr>csBundle := None\<rparr>)
         | (None, False) \<Rightarrow> currentFile sha decode f s)
      else currentFile sha decode f s)"

section \<open>Stopping the service\<close>

text \<open>
  The loop of \<^verbatim>\<open>stopWhenMITMDisabled\<close>: each tick is the clock's reading and the store's answer;
  the list ends when the context is cancelled. The result is what was printed, and whether the
  service was stopped.
\<close>

fun stopWhenMITMDisabled :: "int \<Rightarrow> bool \<Rightarrow> bool \<Rightarrow> (int \<times> (store_error + Config)) list \<Rightarrow> string list \<times> bool" where
  "stopWhenMITMDisabled deadline reported observedActive [] = ([], False)"
| "stopWhenMITMDisabled deadline reported observedActive ((now, Inl e) # ticks) =
     (if reported then stopWhenMITMDisabled deadline reported observedActive ticks
      else apfst (Cons ''intercept: could not refresh MITM state'') (stopWhenMITMDisabled deadline True observedActive ticks))"
| "stopWhenMITMDisabled deadline reported observedActive ((now, Inr cfg) # ticks) =
     (if \<not> mitmEnabled (cfgMITM cfg) \<or> \<not> hasActiveExtensions cfg then
        (if \<not> observedActive \<and> now < deadline then stopWhenMITMDisabled deadline False observedActive ticks
         else ([''intercept: no active interception extension; stopping service''], True))
      else stopWhenMITMDisabled deadline False True ticks)"

definition startupPublishGrace :: int where "startupPublishGrace = 15"

end
