(* ===== verification/Config_Store_Properties.thy ===== *)
theory Config_Store_Properties
  imports Config_Store Bundle_Properties Compile_Properties
begin

text \<open>
  What the configuration store promises its callers. A generation names one snapshot, which is
  what the transport pool compares; a bundle once served ends the reign of the file; and the loop
  that stops the service does so on exactly the snapshots it should. The store reads its bundle
  source through the interface \<open>bundle_source\<close>, which the manager implements.
\<close>

section \<open>Frames of the store's helpers\<close>

lemma remember_frame [simp]:
  "csCfg (rememberGoodFile i s) = csCfg s" "csGeneration (rememberGoodFile i s) = csGeneration s"
  "csBundle (rememberGoodFile i s) = csBundle s" "csBundleSource (rememberGoodFile i s) = csBundleSource s"
  "csContentDigest (rememberGoodFile i s) = csContentDigest s"
  "csCfg (rememberBadFile i s) = csCfg s" "csGeneration (rememberBadFile i s) = csGeneration s"
  "csBundle (rememberBadFile i s) = csBundle s" "csBundleSource (rememberBadFile i s) = csBundleSource s"
  "csContentDigest (rememberBadFile i s) = csContentDigest s"
  "csCfg (clearBadFile s) = csCfg s" "csGeneration (clearBadFile s) = csGeneration s"
  "csBundle (clearBadFile s) = csBundle s" "csBundleSource (clearBadFile s) = csBundleSource s"
  "csContentDigest (clearBadFile s) = csContentDigest s"
  by (simp_all add: rememberGoodFile_def rememberBadFile_def clearBadFile_def)

lemma report_frame [simp]:
  "csCfg (publishStore e s) = csCfg s" "csGeneration (publishStore e s) = csGeneration s"
  "csBundle (publishStore e s) = csBundle s" "csBundleSource (publishStore e s) = csBundleSource s"
  "csContentDigest (publishStore e s) = csContentDigest s"
  "csCfg (printStore l s) = csCfg s" "csGeneration (printStore l s) = csGeneration s"
  "csBundle (printStore l s) = csBundle s" "csBundleSource (printStore l s) = csBundleSource s"
  "csContentDigest (printStore l s) = csContentDigest s"
  by (simp_all add: publishStore_def printStore_def)

lemma readError_frame [simp]:
  "csCfg (clearReadErrorFile s) = csCfg s" "csGeneration (clearReadErrorFile s) = csGeneration s"
  "csBundle (clearReadErrorFile s) = csBundle s" "csBundleSource (clearReadErrorFile s) = csBundleSource s"
  "csContentDigest (clearReadErrorFile s) = csContentDigest s"
  "csCfg (readFailed e i s) = csCfg s" "csGeneration (readFailed e i s) = csGeneration s"
  "csBundle (readFailed e i s) = csBundle s" "csBundleSource (readFailed e i s) = csBundleSource s"
  "csContentDigest (readFailed e i s) = csContentDigest s"
  by (simp_all add: clearReadErrorFile_def readFailed_def rememberReadErrorFile_def reportConfigReadFailure_def split: option.splits)

text \<open>One look at the file either keeps the snapshot or replaces it by a newly decoded one, under the next generation.\<close>

lemma currentFile_cases:
  assumes "currentFile sha decode f s = (r, s')"
  shows "csBundle s' = csBundle s" "csBundleSource s' = csBundleSource s" "r = Inr (csCfg s')"
    "csCfg s' = csCfg s \<and> csGeneration s' = csGeneration s \<or>
     (\<exists>body cfg info. readConfigDocumentWithInfo f = Inr (body, info) \<and> decode body = Inr cfg \<and> sha body \<noteq> csContentDigest s \<and>
        csContentDigest s' = sha body \<and> csGeneration s' = csGeneration s + 1 \<and> csCfg s' = cfg\<lparr>cfgGeneration := csGeneration s + 1\<rparr>)"
  using assms
  by (auto simp: currentFile_def replaceDocument_def Let_def split: if_splits sum.splits option.splits)

section \<open>The bundle source\<close>

text \<open>
  What the store may assume of the source: having been live latches, a live pointer was issued and
  makes the source migrated, and a pointer that appears is new.
\<close>

locale bundle_source =
  fixes ok :: "'s \<Rightarrow> bool" and step :: "'s \<Rightarrow> 's \<Rightarrow> bool"
    and active :: "'s \<Rightarrow> (nat \<times> Config) option" and migrated :: "'s \<Rightarrow> bool" and issued :: "'s \<Rightarrow> nat"
  assumes ok_step: "ok b \<Longrightarrow> step b b' \<Longrightarrow> ok b'"
    and latch: "step b b' \<Longrightarrow> migrated b \<Longrightarrow> migrated b'"
    and live_issued: "ok b \<Longrightarrow> active b = Some (n, cfg) \<Longrightarrow> migrated b \<and> n < issued b"
    and fresh: "ok b \<Longrightarrow> step b b' \<Longrightarrow> issued b \<le> issued b' \<and>
      (active b' = Some (n, cfg) \<longrightarrow> active b = Some (n, cfg) \<or> issued b \<le> n)"

text \<open>
  The store beside its source: the source moves on its own, and a call reads the live pointer first
  and whether one was ever live after it, with the source free to move in between. The last
  argument collects the answers.
\<close>

inductive storeRun :: "('s \<Rightarrow> 's \<Rightarrow> bool) \<Rightarrow> ('s \<Rightarrow> (nat \<times> Config) option) \<Rightarrow> ('s \<Rightarrow> bool) \<Rightarrow> (string \<Rightarrow> string) \<Rightarrow>
    (string \<Rightarrow> config_error + Config) \<Rightarrow> 's \<Rightarrow> configStore \<Rightarrow> 's \<Rightarrow> configStore \<Rightarrow> (store_error + Config) list \<Rightarrow> bool"
  for step active migrated sha decode b0 s0 where
  run_start: "storeRun step active migrated sha decode b0 s0 b0 s0 []"
| run_source: "storeRun step active migrated sha decode b0 s0 b s outs \<Longrightarrow> step b b' \<Longrightarrow>
    storeRun step active migrated sha decode b0 s0 b' s outs"
| run_current: "storeRun step active migrated sha decode b0 s0 b s outs \<Longrightarrow> step\<^sup>*\<^sup>* b b' \<Longrightarrow>
    Current sha decode (active b, migrated b') f s = (r, s') \<Longrightarrow>
    storeRun step active migrated sha decode b0 s0 b' s' (outs @ [r])"

text \<open>The answers so far determine a snapshot per generation; the current generation is the file's or the bundle's.\<close>

definition snapshots :: "(store_error + Config) list \<Rightarrow> Config set" where
  "snapshots outs = {c. Inr c \<in> set outs}"

definition named :: "64 word \<Rightarrow> Config \<Rightarrow> Config set \<Rightarrow> bool" where
  "named g c C \<longleftrightarrow> (\<forall>d\<in>C. cfgGeneration d = g \<longrightarrow> d = c)"

definition numbered :: "configStore \<Rightarrow> (store_error + Config) list \<Rightarrow> bool" where
  "numbered s outs \<longleftrightarrow>
     unat (csGeneration s) \<le> Suc (length outs) \<and>
     (\<forall>c\<in>snapshots outs. cfgGeneration c \<le> csGeneration s \<and> named (cfgGeneration c) c (snapshots outs))"

definition filePhase :: "configStore \<Rightarrow> (store_error + Config) list \<Rightarrow> bool" where
  "filePhase s outs \<longleftrightarrow>
     csBundle s = None \<and> cfgGeneration (csCfg s) = csGeneration s \<and> named (csGeneration s) (csCfg s) (snapshots outs)"

definition bundlePhase :: "('s \<Rightarrow> (nat \<times> Config) option) \<Rightarrow> ('s \<Rightarrow> bool) \<Rightarrow> ('s \<Rightarrow> nat) \<Rightarrow> 's \<Rightarrow> configStore \<Rightarrow> (store_error + Config) list \<Rightarrow> bool" where
  "bundlePhase active migrated issued b s outs \<longleftrightarrow>
     migrated b \<and> csBundleSource s \<and>
     (\<forall>n. csBundle s = Some n \<longrightarrow> n < issued b \<and>
        (\<exists>cfg. (\<forall>c. active b = Some (n, c) \<longrightarrow> c = cfg) \<and>
           named (csGeneration s) (cfg\<lparr>cfgGeneration := csGeneration s\<rparr>) (snapshots outs)))"

lemma snapshots_snoc [simp]:
  "snapshots (outs @ [Inl e]) = snapshots outs" "snapshots (outs @ [Inr c]) = insert c (snapshots outs)" "snapshots [] = {}"
  by (auto simp: snapshots_def)

lemma named_insert: "named g c (insert d C) \<longleftrightarrow> (cfgGeneration d = g \<longrightarrow> d = c) \<and> named g c C"
  by (auto simp: named_def)

text \<open>An answer under the current generation that names the snapshot of that generation keeps the numbering.\<close>

lemma numbered_same:
  assumes "numbered s outs" "csGeneration s' = csGeneration s" "cfgGeneration c = csGeneration s"
    "named (csGeneration s) c (snapshots outs)"
  shows "numbered s' (outs @ [Inr c])" "named (csGeneration s') c (snapshots (outs @ [Inr c]))"
  using assms by (auto simp: numbered_def named_def)

text \<open>An answer under the next generation is new.\<close>

lemma numbered_next:
  assumes n: "numbered s outs" and short: "Suc (Suc (length outs)) < 2 ^ 64"
    and g: "csGeneration s' = csGeneration s + 1" "cfgGeneration c = csGeneration s + 1"
  shows "numbered s' (outs @ [Inr c])" "named (csGeneration s') c (snapshots (outs @ [Inr c]))"
proof -
  have u: "unat (csGeneration s + 1) = Suc (unat (csGeneration s))"
    using n short by (simp add: numbered_def unat_word_ariths)
  have less: "csGeneration s < csGeneration s + 1" using u by (simp add: word_less_nat_alt)
  have old: "\<forall>d\<in>snapshots outs. cfgGeneration d < csGeneration s + 1"
    using n less by (auto simp: numbered_def intro: order.strict_trans1)
  show "named (csGeneration s') c (snapshots (outs @ [Inr c]))" using old g by (auto simp: named_def)
  show "numbered s' (outs @ [Inr c])" using n old g u
    by (fastforce simp: numbered_def named_def intro: less_imp_le)
qed

text \<open>The three ways a call is answered.\<close>

lemma Current_live:
  assumes "Current sha decode (Some (n, cfg), m) f s = (r, s')" "csBundleSource s"
  shows "r = Inr (cfg\<lparr>cfgGeneration := csGeneration s'\<rparr>)" "csBundle s' = Some n" "csBundleSource s'" "csCfg s' = csCfg s"
    "csGeneration s' = (if csBundle s = Some n then csGeneration s else csGeneration s + 1)"
  using assms by (auto simp: Current_def Let_def split: if_splits)

lemma Current_withdrawn:
  assumes "Current sha decode (None, True) f s = (r, s')" "csBundleSource s"
  shows "r = Inl NoActiveBundle" "s' = s\<lparr>csBundle := None\<rparr>"
  using assms by (auto simp: Current_def)

lemma Current_file:
  assumes "Current sha decode (a, m) f s = (r, s')" "\<not> csBundleSource s \<or> a = None \<and> \<not> m"
  shows "currentFile sha decode f s = (r, s')"
  using assms by (cases "csBundleSource s") (auto simp: Current_def)

lemma Current_cases:
  assumes "Current sha decode (a, m) f s = (r, s')"
  obtains (live) n cfg where "csBundleSource s" "a = Some (n, cfg)"
    | (withdrawn) "csBundleSource s" "a = None" "m"
    | (fromFile) "\<not> csBundleSource s \<or> a = None \<and> \<not> m" "currentFile sha decode f s = (r, s')"
proof (cases "\<not> csBundleSource s \<or> a = None \<and> \<not> m")
  case True
  then show thesis using fromFile Current_file[OF assms] by blast
next
  case False
  then show thesis using live withdrawn by (cases a) auto
qed

text \<open>A snapshot that some document decodes to, under any number.\<close>

definition fromDocument :: "(string \<Rightarrow> config_error + Config) \<Rightarrow> Config \<Rightarrow> bool" where
  "fromDocument decode c \<longleftrightarrow> (\<exists>body cfg g. decode body = Inr cfg \<and> c = cfg\<lparr>cfgGeneration := g\<rparr>)"

lemma fromDocumentI: "decode body = Inr cfg \<Longrightarrow> fromDocument decode (cfg\<lparr>cfgGeneration := g\<rparr>)"
  unfolding fromDocument_def by blast

text \<open>A snapshot the source was serving at some point from \<open>b0\<close> on.\<close>

definition pushed :: "('s \<Rightarrow> 's \<Rightarrow> bool) \<Rightarrow> ('s \<Rightarrow> (nat \<times> Config) option) \<Rightarrow> 's \<Rightarrow> Config \<Rightarrow> bool" where
  "pushed step active b0 c \<longleftrightarrow>
     (\<exists>b1 n cfg g. step\<^sup>*\<^sup>* b0 b1 \<and> active b1 = Some (n, cfg) \<and> c = cfg\<lparr>cfgGeneration := g\<rparr>)"

context bundle_source
begin

lemma ok_steps: "step\<^sup>*\<^sup>* b b' \<Longrightarrow> ok b \<Longrightarrow> ok b'"
  by (induction rule: rtranclp_induct) (auto intro: ok_step)

lemma latch_steps: "step\<^sup>*\<^sup>* b b' \<Longrightarrow> migrated b \<Longrightarrow> migrated b'"
  by (induction rule: rtranclp_induct) (auto intro: latch)

lemma fresh_steps:
  assumes "step\<^sup>*\<^sup>* b b'" "ok b"
  shows "issued b \<le> issued b' \<and> (active b' = Some (n, cfg) \<longrightarrow> active b = Some (n, cfg) \<or> issued b \<le> n)"
  using assms(1)
proof (induction rule: rtranclp_induct)
  case (step y z)
  then show ?case using fresh[of y z n cfg] ok_steps[OF step.hyps(1) assms(2)] by auto
qed simp

lemma bundlePhase_steps:
  assumes "bundlePhase active migrated issued b s outs" "step\<^sup>*\<^sup>* b b'" "ok b"
  shows "bundlePhase active migrated issued b' s outs"
proof -
  have "n < issued b' \<and> (\<exists>cfg. (\<forall>c. active b' = Some (n, c) \<longrightarrow> c = cfg) \<and>
      named (csGeneration s) (cfg\<lparr>cfgGeneration := csGeneration s\<rparr>) (snapshots outs))" if b: "csBundle s = Some n" for n
  proof -
    obtain cfg where c: "n < issued b" "\<forall>c. active b = Some (n, c) \<longrightarrow> c = cfg"
      "named (csGeneration s) (cfg\<lparr>cfgGeneration := csGeneration s\<rparr>) (snapshots outs)"
      using assms(1) b unfolding bundlePhase_def by blast
    then show ?thesis using fresh_steps[OF assms(2,3), of n] by force
  qed
  then show ?thesis using assms(1) latch_steps[OF assms(2)] unfolding bundlePhase_def by blast
qed

lemma current_bundle:
  assumes n: "numbered s outs" and short: "Suc (Suc (length outs)) < 2 ^ 64" and "ok b" "step\<^sup>*\<^sup>* b b'" "csBundleSource s"
    and phase: "filePhase s outs \<or> bundlePhase active migrated issued b s outs"
    and seen: "active b = Some (n, cfg)" and run: "Current sha decode (active b, m) f s = (r, s')"
  shows "numbered s' (outs @ [r]) \<and> bundlePhase active migrated issued b' s' (outs @ [r])"
proof -
  note issued = live_issued[OF \<open>ok b\<close> seen] latch_steps[OF assms(4)] fresh_steps[OF assms(4,3), of n]
  define c where "c = cfg\<lparr>cfgGeneration := csGeneration s'\<rparr>"
  note r = Current_live[OF run[unfolded seen] \<open>csBundleSource s\<close>, folded c_def]
  have "numbered s' (outs @ [r]) \<and> named (csGeneration s') c (snapshots (outs @ [r]))"
  proof (cases "csBundle s = Some n")
    case True
    then have "named (csGeneration s) (cfg\<lparr>cfgGeneration := csGeneration s\<rparr>) (snapshots outs)"
      using phase seen by (auto simp: filePhase_def bundlePhase_def)
    then show ?thesis using numbered_same[OF n, of s' c] r True by (auto simp: c_def)
  next
    case False
    then show ?thesis using numbered_next[OF n short, of s' c] r by (auto simp: c_def)
  qed
  moreover have "n < issued b'" "\<forall>d. active b' = Some (n, d) \<longrightarrow> d = cfg"
    using issued seen by (fastforce, fastforce)
  ultimately show ?thesis using r issued by (auto simp: bundlePhase_def c_def)
qed

lemma current_file:
  assumes n: "numbered s outs" and short: "Suc (Suc (length outs)) < 2 ^ 64" and phase: "filePhase s outs"
    and run: "currentFile sha decode f s = (r, s')"
  shows "numbered s' (outs @ [r]) \<and> filePhase s' (outs @ [r])"
proof -
  note cur = currentFile_cases[OF run]
  have "numbered s' (outs @ [r]) \<and> named (csGeneration s') (csCfg s') (snapshots (outs @ [r])) \<and>
      cfgGeneration (csCfg s') = csGeneration s'"
    using cur(4)
  proof
    assume "csCfg s' = csCfg s \<and> csGeneration s' = csGeneration s"
    then show ?thesis using numbered_same[OF n, of s' "csCfg s"] phase cur(3) by (auto simp: filePhase_def)
  next
    assume "\<exists>body cfg info. readConfigDocumentWithInfo f = Inr (body, info) \<and> decode body = Inr cfg \<and> sha body \<noteq> csContentDigest s \<and>
        csContentDigest s' = sha body \<and> csGeneration s' = csGeneration s + 1 \<and> csCfg s' = cfg\<lparr>cfgGeneration := csGeneration s + 1\<rparr>"
    then have "csGeneration s' = csGeneration s + 1" "cfgGeneration (csCfg s') = csGeneration s + 1" by auto
    then show ?thesis using numbered_next[OF n short, of s' "csCfg s'"] cur(3) by auto
  qed
  then show ?thesis using cur(1) phase by (simp add: filePhase_def)
qed

lemma current_numbered:
  assumes n: "numbered s outs" and short: "Suc (Suc (length outs)) < 2 ^ 64" and ok: "ok b" "step\<^sup>*\<^sup>* b b'"
    and phase: "filePhase s outs \<or> bundlePhase active migrated issued b s outs"
    and run: "Current sha decode (active b, migrated b') f s = (r, s')"
  shows "numbered s' (outs @ [r]) \<and> (filePhase s' (outs @ [r]) \<or> bundlePhase active migrated issued b' s' (outs @ [r]))"
proof -
  from run show ?thesis
  proof (cases rule: Current_cases)
    case live
    then show ?thesis using current_bundle[OF n short ok _ phase _ run] by blast
  next
    case withdrawn
    then have "s' = s\<lparr>csBundle := None\<rparr>" "r = Inl NoActiveBundle"
      using run Current_withdrawn[of sha decode f s r s'] by simp_all
    then show ?thesis using n withdrawn by (auto simp: numbered_def bundlePhase_def)
  next
    case fromFile
    have "filePhase s outs" using phase fromFile(1) bundlePhase_steps[OF _ ok(2,1)] live_issued[OF ok(1)]
      by (auto simp: bundlePhase_def)
    then show ?thesis using current_file[OF n short _ fromFile(2)] by blast
  qed
qed

lemma storeRun_numbered:
  assumes "storeRun step active migrated sha decode b0 s0 b s outs" and "ok b0" "filePhase s0 []" "csGeneration s0 = 1"
    and "Suc (length outs) < 2 ^ 64"
  shows "ok b \<and> numbered s outs \<and> (filePhase s outs \<or> bundlePhase active migrated issued b s outs)"
  using assms
proof (induction rule: storeRun.induct)
  case run_start
  then show ?case by (simp add: numbered_def)
next
  case (run_source b s outs b')
  then show ?case using ok_step bundlePhase_steps[of b s outs b'] by blast
next
  case (run_current b s outs b' f r s')
  then show ?case using current_numbered[of s outs b b'] ok_steps by auto
qed

lemma storeRun_source:
  "storeRun step active migrated sha decode b0 s0 b s outs \<Longrightarrow> step\<^sup>*\<^sup>* b0 b"
  by (induction rule: storeRun.induct) (auto intro: rtranclp.rtrancl_into_rtrancl)

text \<open>Every answer of a run is withdrawn, live in the source at some point of it, or the file's.\<close>

lemma pushedI: "step\<^sup>*\<^sup>* b0 b1 \<Longrightarrow> active b1 = Some (n, cfg) \<Longrightarrow> pushed step active b0 (cfg\<lparr>cfgGeneration := g\<rparr>)"
  unfolding pushed_def by blast

lemma storeRun_answers:
  assumes "storeRun step active migrated sha decode b0 s0 b s outs"
    and "fromDocument decode (csCfg s0)"
  shows "fromDocument decode (csCfg s) \<and>
    (\<forall>r\<in>set outs. case r of
        Inl e \<Rightarrow> e = NoActiveBundle \<and> migrated b
      | Inr c \<Rightarrow> pushed step active b0 c \<or> fromDocument decode c)"
  using assms
proof (induction rule: storeRun.induct)
  case run_start
  then show ?case by simp
next
  case (run_source b s outs b')
  then show ?case using latch[of b b'] by (auto split: sum.splits)
next
  case (run_current b s outs b' f r s')
  note IH = run_current.IH[OF run_current.prems]
  have old: "\<forall>r\<in>set outs. case r of Inl e \<Rightarrow> e = NoActiveBundle \<and> migrated b'
      | Inr c \<Rightarrow> pushed step active b0 c \<or> fromDocument decode c"
    using IH latch_steps[OF run_current.hyps(2)] by (auto split: sum.splits)
  from run_current.hyps(3) show ?case
  proof (cases rule: Current_cases)
    case (live n cfg)
    note ans = Current_live[OF run_current.hyps(3)[unfolded live(2)] live(1)]
    show ?thesis using old IH ans(1,4) pushedI[OF storeRun_source[OF run_current.hyps(1)] live(2)] by auto
  next
    case withdrawn
    then have "r = Inl NoActiveBundle" "s' = s\<lparr>csBundle := None\<rparr>"
      using Current_withdrawn[of sha decode f s r s'] run_current.hyps(3) by simp_all
    then show ?thesis using old IH withdrawn by auto
  next
    case fromFile
    note cur = currentFile_cases[OF fromFile(2)]
    have "fromDocument decode (csCfg s')" using cur(4) IH fromDocumentI[of decode] by auto
    then show ?thesis using old cur(3) by auto
  qed
qed

text \<open>Once one has been live, the file is out of the picture.\<close>

lemma storeRun_handed_over:
  assumes "storeRun step active migrated sha decode b0 s0 b s outs" and "migrated b0" "csBundleSource s0"
  shows "csBundleSource s \<and> csCfg s = csCfg s0 \<and> (\<forall>r\<in>set outs. r = Inl NoActiveBundle \<or> (\<exists>c. r = Inr c \<and> pushed step active b0 c))"
  using assms
proof (induction rule: storeRun.induct)
  case (run_current b s outs b' f r s')
  note IH = run_current.IH[OF run_current.prems]
  have m: "migrated b'" using latch_steps storeRun_source[OF run_current.hyps(1)] run_current.hyps(2) run_current.prems(1) by blast
  from run_current.hyps(3) show ?case
  proof (cases rule: Current_cases)
    case (live n cfg)
    note ans = Current_live[OF run_current.hyps(3)[unfolded live(2)] live(1)]
    show ?thesis using IH ans(1,3,4) pushedI[OF storeRun_source[OF run_current.hyps(1)] live(2)] by auto
  next
    case withdrawn
    then have "r = Inl NoActiveBundle" "s' = s\<lparr>csBundle := None\<rparr>"
      using Current_withdrawn[of sha decode f s r s'] run_current.hyps(3) by simp_all
    then show ?thesis using IH by auto
  qed (use IH m in auto)
qed auto

end

section \<open>The manager is a bundle source\<close>

definition managerStep :: "(string \<Rightarrow> string) \<Rightarrow> (string \<Rightarrow> Config option) \<Rightarrow> manager \<Rightarrow> manager \<Rightarrow> bool" where
  "managerStep sha decode m m' \<longleftrightarrow> (\<exists>op xs ts x. runOp sha decode op (mgrWithIO xs ts m) = (x, m') \<and> x \<noteq> Crashed)"

definition managerOK :: "(string \<Rightarrow> Config option) \<Rightarrow> manager \<Rightarrow> bool" where
  "managerOK decode m \<longleftrightarrow>
     (\<forall>n cfg. mgrActive m = Some (n, cfg) \<longrightarrow> mgrMigrated m \<and> n < mgrAllocs m \<and> (\<exists>body. decode body = Some cfg))"

lemma Commit_live:
  assumes "Commit sha decode i e m = (x, m')" "x \<noteq> Crashed"
  shows "live m' = live m \<or> (\<exists>body cfg d g. decode body = Some cfg \<and> live m' = (Some (mgrAllocs m, cfg), i, d, True, g, Suc (mgrAllocs m)))"
proof (cases x)
  case (Ret d)
  show ?thesis
  proof (cases "mgrActiveID m = i")
    case False
    show ?thesis using Commit_Ret[OF assms(1)[unfolded Ret] False] by metis
  qed (use assms in \<open>auto simp: Commit_def\<close>)
next
  case (Err er)
  then show ?thesis using Commit_not_Ret_live(1) assms(1) by blast
qed (use assms in simp)

lemma runOp_live:
  assumes "runOp sha decode op m = (x, m')" "x \<noteq> Crashed"
  shows "live m' = live m \<or> live m' = (None, [], [], mgrMigrated m, 0, mgrAllocs m) \<or>
    (\<exists>body cfg i d g. decode body = Some cfg \<and> live m' = (Some (mgrAllocs m, cfg), i, d, True, g, Suc (mgrAllocs m)))"
proof (cases op)
  case OpRecover
  then show ?thesis using Recover_spec(4) assms by (fastforce simp: runOp_def)
next
  case (OpStage i doc)
  then have "\<exists>y. Stage sha decode i doc m = (y, m')" using assms
    by (cases "Stage sha decode i doc m" rule: outcome_cases3) (auto simp: runOp_def)
  then show ?thesis using Stage_spec(2) by blast
next
  case (OpCommit i e)
  then have "\<exists>y. Commit sha decode i e m = (y, m') \<and> y \<noteq> Crashed" using assms
    by (cases "Commit sha decode i e m" rule: outcome_cases3) (auto simp: runOp_def)
  then show ?thesis using Commit_live by metis
next
  case (OpAbort i)
  then show ?thesis using Abort_spec(2) assms by (auto simp: runOp_def)
next
  case OpPurge
  then show ?thesis using Purge_spec(1) assms by (auto simp: runOp_def)
qed

lemma managerStep_live:
  assumes "managerStep sha decode m m'"
  shows "live m' = live m \<or> live m' = (None, [], [], mgrMigrated m, 0, mgrAllocs m) \<or>
    (\<exists>body cfg i d g. decode body = Some cfg \<and> live m' = (Some (mgrAllocs m, cfg), i, d, True, g, Suc (mgrAllocs m)))"
proof -
  obtain op xs ts x where "runOp sha decode op (mgrWithIO xs ts m) = (x, m')" "x \<noteq> Crashed"
    using assms by (auto simp: managerStep_def)
  from runOp_live[OF this] show ?thesis by (simp add: mgrWithIO_def)
qed

interpretation src: bundle_source "managerOK decode" "managerStep sha decode" mgrActive mgrMigrated mgrAllocs for sha decode
proof
  fix m m' :: manager and n cfg
  show "mgrActive m = Some (n, cfg) \<Longrightarrow> mgrMigrated m \<and> n < mgrAllocs m" if "managerOK decode m"
    using that by (auto simp: managerOK_def)
  assume "managerStep sha decode m m'"
  note cases = managerStep_live[OF this, unfolded live_def]
  show "managerOK decode m'" if "managerOK decode m" using that cases by (auto simp: managerOK_def)
  show "mgrMigrated m'" if "mgrMigrated m" using that cases by auto
  show "mgrAllocs m \<le> mgrAllocs m' \<and>
    (mgrActive m' = Some (n, cfg) \<longrightarrow> mgrActive m = Some (n, cfg) \<or> mgrAllocs m \<le> n)"  using cases by auto
qed

lemma reachable_managerOK: "reachable sha decode (Running m) \<Longrightarrow> managerOK decode m"
proof -
  assume r: "reachable sha decode (Running m)"
  have s: "servedFrom sha decode (mrecs m) (live m)" using sysInv_reachable[OF r] by (simp add: sysInv_def managerInv_def)
  have "mgrMigrated m \<and> n < mgrAllocs m \<and> (\<exists>body. decode body = Some cfg)" if a: "mgrActive m = Some (n, cfg)" for n cfg
  proof (cases "mrecs m (mgrActiveID m)")
    case (Some c)
    then show ?thesis using s a by (cases "checkRecord sha (mgrActiveID m) c") (auto simp: servedFrom_def live_def)
  qed (use s a in \<open>auto simp: servedFrom_def live_def\<close>)
  then show ?thesis by (auto simp: managerOK_def)
qed

lemma newConfigStore_start:
  assumes "newConfigStore hash decode f0 = Inr s0"
  shows "filePhase (setBundleSource s0) []" "csGeneration (setBundleSource s0) = 1" "csBundleSource (setBundleSource s0)"
    "fromDocument decode (csCfg (setBundleSource s0))"
  using assms fromDocumentI[of decode]
  by (auto simp: newConfigStore_def filePhase_def named_def setBundleSource_def split: sum.splits)

section \<open>Properties\<close>

text \<open>C17: A generation names one snapshot. Through any interleaving of requests for the current
  configuration, changes of the private file, and manager operations with faults, two answers
  with the same generation are the same configuration, as long as fewer than 2^64 requests were
  answered.\<close>

theorem generation_identifies_snapshot:
  assumes "reachable sha decodeBundle (Running m0)" and "newConfigStore hash decode f0 = Inr s0"
    and "storeRun (managerStep sha decodeBundle) mgrActive mgrMigrated hash decode m0 (setBundleSource s0) m s outs"
    and "Suc (length outs) < 2 ^ 64"
    and "Inr c \<in> set outs" "Inr d \<in> set outs" "cfgGeneration c = cfgGeneration d"
  shows "c = d"
proof -
  have "numbered s outs"
    using src.storeRun_numbered[OF assms(3) reachable_managerOK[OF assms(1)] newConfigStore_start(1,2)[OF assms(2)] assms(4)] by blast
  then show ?thesis using assms(5-7) by (auto simp: numbered_def named_def snapshots_def)
qed

definition exInfo :: fileInfo where
  "exInfo = \<lparr>fiSize = 3, fiModTime = 7, fiRegular = True, fiIdentity = Some 1\<rparr>"

definition exFile :: configFile where
  "exFile = \<lparr>cfStat = Inr exInfo, cfLstat = Inr exInfo, cfOpen = Inr (), cfOpened = Inr exInfo, cfContents = Inr ''doc''\<rparr>"

definition exStoreDecode :: "string \<Rightarrow> config_error + Config" where
  "exStoreDecode body = (if body = ''doc'' then Inr (zeroConfig\<lparr>cfgListen := ''file''\<rparr>) else Inl RuntimeNotCompiled)"

definition exFileAnswer :: Config where "exFileAnswer = zeroConfig\<lparr>cfgListen := ''file'', cfgGeneration := 1\<rparr>"
definition exBundleAnswer :: Config where "exBundleAnswer = zeroConfig\<lparr>cfgListen := ''one'', cfgGeneration := 2\<rparr>"

definition exStore :: configStore where
  "exStore = \<lparr>csModTime = 7, csGoodSize = 3, csGoodFile = Some exInfo, csBadModTime = 0, csBadSize = 0, csBadFile = None,
     csReadErrorModTime = 0, csReadErrorSize = 0, csReadErrorFile = None, csReadErrorUnstatable = False,
     csContentDigest = ''doc'', csCfg = exFileAnswer, csLogs = False, csBundleSource = False, csBundle = None,
     csGeneration = 1, csPrinted = [], csPublished = []\<rparr>"

lemma exInfo_same: "SameFile (Some exInfo) (Some exInfo)" by (simp add: SameFile_def exInfo_def)

lemma exFile_read: "readConfigDocumentWithInfo exFile = Inr (''doc'', Some exInfo)"
  by (simp add: readConfigDocumentWithInfo_def readConfigBoundedWithOpenInfo_def exFile_def osCall_def bindJ_def exInfo_same
      maxConfigBytes_def Let_def) (simp add: exInfo_def)

lemma exStore_new: "newConfigStore id exStoreDecode exFile = Inr exStore"
  by (simp add: newConfigStore_def exFile_read exStoreDecode_def rememberGoodFile_def exInfo_same exStore_def exFileAnswer_def infoOf_def)
    (simp add: exInfo_def)

text \<open>The file is read once, then a bundle goes live and is asked for twice.\<close>

lemma exStore_file:
  "Current hash decode (None, False) exFile (setBundleSource exStore) = (Inr exFileAnswer, setBundleSource exStore)"
  by (simp add: exStore_def Current_def currentFile_def setBundleSource_def exFile_def exInfo_same matchesGoodFile_def Let_def)
    (simp add: exInfo_def)

lemma exLive_active: "mgrActive exLive = Some (0, zeroConfig\<lparr>cfgListen := ''one''\<rparr>)" "mgrMigrated exLive"
  by code_simp+

lemma exStaged_active: "mgrActive exStaged = None" "\<not> mgrMigrated exStaged"
  by code_simp+

lemma exStore_bundle:
  "Current hash decode (mgrActive exLive, mgrMigrated exLive) f ((setBundleSource exStore)) =
     (Inr exBundleAnswer, (setBundleSource exStore)\<lparr>csBundle := Some 0, csGeneration := 2\<rparr>)"
  "Current hash decode (mgrActive exLive, mgrMigrated exLive) f ((setBundleSource exStore)\<lparr>csBundle := Some 0, csGeneration := 2\<rparr>) =
     (Inr exBundleAnswer, (setBundleSource exStore)\<lparr>csBundle := Some 0, csGeneration := 2\<rparr>)"
  by (simp_all add: exStore_def Current_def exLive_active setBundleSource_def exBundleAnswer_def)

lemma exCommit_step: "managerStep exSha exDecode exStaged exLive"
proof -
  have "fst (runOp exSha exDecode (OpCommit ''a'' []) (mgrWithIO [] [9, 9] exStaged)) = Ret ()" by code_simp
  then show ?thesis unfolding managerStep_def exLive_def by (metis outcome.distinct(3) prod.collapse)
qed

lemma exRun:
  "storeRun (managerStep exSha exDecode) mgrActive mgrMigrated id exStoreDecode exStaged (setBundleSource exStore)
     exLive ((setBundleSource exStore)\<lparr>csBundle := Some 0, csGeneration := 2\<rparr>) [Inr exFileAnswer, Inr exBundleAnswer, Inr exBundleAnswer]"
proof -
  let ?run = "storeRun (managerStep exSha exDecode) mgrActive mgrMigrated id exStoreDecode exStaged (setBundleSource exStore)"
  let ?s = "(setBundleSource exStore)\<lparr>csBundle := Some 0, csGeneration := 2\<rparr>"
  have "?run exStaged (setBundleSource exStore) ([] @ [Inr exFileAnswer])"
    by (rule run_current[where b = exStaged and s = "setBundleSource exStore" and f = exFile])
      (simp_all add: run_start exStaged_active exStore_file)
  then have "?run exLive (setBundleSource exStore) ([] @ [Inr exFileAnswer])" by (rule run_source) (rule exCommit_step)
  then have "?run exLive ?s (([] @ [Inr exFileAnswer]) @ [Inr exBundleAnswer])"
    by (rule run_current) (rule rtranclp.rtrancl_refl, rule exStore_bundle(1)[where f = exFile])
  then have "?run exLive ?s ((([] @ [Inr exFileAnswer]) @ [Inr exBundleAnswer]) @ [Inr exBundleAnswer])"
    by (rule run_current) (rule rtranclp.rtrancl_refl, rule exStore_bundle(2)[where f = exFile])
  then show ?thesis by simp
qed

theorem generation_identifies_snapshot_witness:
  "exFileAnswer \<noteq> exBundleAnswer \<and> cfgGeneration exFileAnswer \<noteq> cfgGeneration exBundleAnswer"
proof -
  have "cfgListen exFileAnswer \<noteq> cfgListen exBundleAnswer" by (simp add: exFileAnswer_def exBundleAnswer_def)
  then have ne: "exFileAnswer \<noteq> exBundleAnswer" by metis
  then show ?thesis
    using generation_identifies_snapshot[OF exStaged_reachable exStore_new exRun, of exFileAnswer exBundleAnswer] by auto
qed

text \<open>C18: The handover from the private file to pushed bundles is final. From the moment a bundle
  has been live, every answer is a configuration the manager was serving, or the report that
  nothing is active; no later state of the file is read, whatever is purged.\<close>

theorem handover_is_final:
  assumes "mgrMigrated m1" "csBundleSource s1"
    and "storeRun (managerStep sha decodeBundle) mgrActive mgrMigrated hash decode m1 s1 m s outs"
  shows "csCfg s = csCfg s1 \<and>
    (\<forall>r\<in>set outs. r = Inl NoActiveBundle \<or> (\<exists>c. r = Inr c \<and> pushed (managerStep sha decodeBundle) mgrActive m1 c))"
  using src.storeRun_handed_over[OF assms(3,1,2)] by blast

definition exPurged :: manager where "exPurged = snd (runOp exSha exDecode OpPurge (mgrWithIO [] [] exLive))"

lemma exPurge_step: "managerStep exSha exDecode exLive exPurged"
proof -
  have "fst (runOp exSha exDecode OpPurge (mgrWithIO [] [] exLive)) = Ret ()" by code_simp
  then show ?thesis unfolding managerStep_def exPurged_def by (metis outcome.distinct(3) prod.collapse)
qed

theorem handover_is_final_witness:
  "\<exists>s outs. storeRun (managerStep exSha exDecode) mgrActive mgrMigrated id exStoreDecode exLive (setBundleSource exStore) exPurged s outs \<and>
     Inl NoActiveBundle \<in> set outs \<and> csCfg s = csCfg (setBundleSource exStore)"
proof -
  have src: "csBundleSource (setBundleSource exStore)" by (simp add: setBundleSource_def)
  let ?run = "storeRun (managerStep exSha exDecode) mgrActive mgrMigrated id exStoreDecode exLive (setBundleSource exStore)"
  have "mgrActive exPurged = None \<and> mgrMigrated exPurged" by code_simp
  then have cur: "Current id exStoreDecode (mgrActive exPurged, mgrMigrated exPurged) exFile (setBundleSource exStore) =
      (Inl NoActiveBundle, (setBundleSource exStore)\<lparr>csBundle := None\<rparr>)" using src by (simp add: Current_def)
  have "?run exPurged (setBundleSource exStore) []" by (rule run_source[where b = exLive]) (simp_all add: run_start exPurge_step)
  then have "?run exPurged ((setBundleSource exStore)\<lparr>csBundle := None\<rparr>) ([] @ [Inl NoActiveBundle])"
    by (rule run_current) (rule rtranclp.rtrancl_refl, rule cur)
  then have run: "?run exPurged ((setBundleSource exStore)\<lparr>csBundle := None\<rparr>) [Inl NoActiveBundle]" by simp
  from handover_is_final[OF exLive_active(2) src run] show ?thesis using run by force
qed

text \<open>An answer that keeps the service up, and one that asks it to stop.\<close>

definition keepsUp :: "store_error + Config \<Rightarrow> bool" where
  "keepsUp r = (case r of Inl _ \<Rightarrow> False | Inr cfg \<Rightarrow> mitmEnabled (cfgMITM cfg) \<and> hasActiveExtensions cfg)"

definition asksToStop :: "store_error + Config \<Rightarrow> bool" where
  "asksToStop r = (case r of Inl _ \<Rightarrow> False | Inr cfg \<Rightarrow> \<not> (mitmEnabled (cfgMITM cfg) \<and> hasActiveExtensions cfg))"

lemma ex_less_Suc_split: "(\<exists>k<Suc n. P k) \<longleftrightarrow> P 0 \<or> (\<exists>k<n. P (Suc k))"
  using less_Suc_eq_0_disj by auto

lemma stops_generalised:
  "snd (stopWhenMITMDisabled deadline reported observed ticks) \<longleftrightarrow>
     (\<exists>k<length ticks. asksToStop (snd (ticks ! k)) \<and>
        (observed \<or> deadline \<le> fst (ticks ! k) \<or> (\<exists>j<k. keepsUp (snd (ticks ! j)))))"
  by (induction deadline reported observed ticks rule: stopWhenMITMDisabled.induct)
    (auto simp: ex_less_Suc_split keepsUp_def asksToStop_def)

text \<open>The service stops itself on exactly the right answers: at a tick whose configuration has
  nothing active, and only once the startup grace is over or an earlier tick saw an active
  configuration. Failing to get a configuration, a withdrawn bundle included, never stops it.\<close>

theorem stops_exactly_when_inactive:
  "snd (stopWhenMITMDisabled deadline False False ticks) \<longleftrightarrow>
     (\<exists>k<length ticks. asksToStop (snd (ticks ! k)) \<and>
        (deadline \<le> fst (ticks ! k) \<or> (\<exists>j<k. keepsUp (snd (ticks ! j)))))"
  using stops_generalised[of deadline False False ticks] by simp

end
