(* ===== verification/Log_Fields.thy ===== *)
theory Log_Fields
  imports Validation_Properties Utf8 Log_Hub
begin

text \<open>
  What an engine log event may carry (engine_logs.go): the checks and bounds a publisher's event
  goes through before it is encoded and stored in the hub's ring. The text of a URL and the JSON
  encoding of an event are arguments, and so is the time stamp.
\<close>

section \<open>Bounded text\<close>

definition maxEngineLogMessageBytes :: nat where "maxEngineLogMessageBytes = 2048"
definition maxEngineLogURLBytes :: nat where "maxEngineLogURLBytes = 4096"
definition maxEngineLogJSONBytes :: nat where "maxEngineLogJSONBytes = 8 * 2 ^ 10"

text \<open>The encoding of U+FFFD.\<close>

definition replacementRune :: string where
  "replacementRune = map char_of [239, 191, 189 :: nat]"

text \<open>The loop that drops bytes until the prefix is valid.\<close>

function validPrefix :: "string \<Rightarrow> string" where
  "validPrefix s = (if s \<noteq> [] \<and> \<not> validUTF8 s then validPrefix (butlast s) else s)"
  by pat_completeness auto
termination
  by (relation "measure length") auto

declare validPrefix.simps [simp del]

definition truncateEngineLogField :: "string \<Rightarrow> int \<Rightarrow> string" where
  "truncateEngineLogField s limit =
     (if limit \<le> 0 then []
      else
        (let truncated = (int (length s) > limit)
         in if truncated \<and> limit \<le> 3 then replicate (nat limit) CHR ''.''
            else
              (let budget = nat (if truncated then limit - 3 else limit);
                   s = take budget s;
                   s = toValidUTF8 False replacementRune s;
                   s = take budget s;
                   p = validPrefix s
               in if truncated then p @ ''...'' else p)))"

section \<open>Events\<close>

text \<open>A \<^verbatim>\<open>float64\<close> as far as the checks look at it.\<close>

datatype float64 = NaN | Infinite | Finite rat

record EngineLog =
  logTime :: string
  logLevel :: string
  logSource :: string
  logExtension :: string
  logAction :: string
  logPhase :: string
  logDurationMS :: float64
  logURL :: string
  logScriptDigest :: string
  logMessage :: string

datatype log_error =
    InvalidLevel | InvalidSource | InvalidExtension | InvalidAction | MissingOrigin | InvalidPhase
  | InvalidDigest | InvalidDuration

definition isLowerHex :: "nat \<Rightarrow> bool" where
  "isLowerHex r \<longleftrightarrow> (48 \<le> r \<and> r \<le> 57) \<or> (97 \<le> r \<and> r \<le> 102)"

definition validEngineLogDigest :: "string \<Rightarrow> bool" where
  "validEngineLogDigest s \<longleftrightarrow> length s = 64 \<and> list_all isLowerHex (runes s)"

definition sanitizeEngineLogURL :: "externs \<Rightarrow> (parsedURL \<Rightarrow> string) \<Rightarrow> string \<Rightarrow> string" where
  "sanitizeEngineLogURL x urlString raw =
     (if raw = [] then []
      else case xURL x (truncateEngineLogField raw (int maxEngineLogURLBytes)) of
        None \<Rightarrow> []
      | Some parsed \<Rightarrow>
          (if urlScheme parsed = [] \<or> urlHost parsed = [] then []
           else truncateEngineLogField
             (urlString (parsed\<lparr>urlUser := None, urlRawQuery := [], urlForceQuery := False, urlFragment := []\<rparr>))
             (int maxEngineLogURLBytes)))"

definition durationInvalid :: "float64 \<Rightarrow> bool" where
  "durationInvalid d = (case d of Finite q \<Rightarrow> q < 0 | _ \<Rightarrow> True)"

definition clampDuration :: "float64 \<Rightarrow> float64" where
  "clampDuration d = (case d of Finite q \<Rightarrow> if q > 300000 then Finite 300000 else d | _ \<Rightarrow> d)"

definition eventChecks :: "EngineLog \<Rightarrow> log_error option list" where
  "eventChecks event =
        [check (logLevel event \<notin> set [''info'', ''warn'', ''error'']) InvalidLevel,
         check (logSource event \<notin> set [''script'', ''engine'']) InvalidSource,
         check (logExtension event \<noteq> [] \<and> \<not> validModuleID (logExtension event)) InvalidExtension,
         check (logAction event \<noteq> [] \<and> \<not> validSettingKey (logAction event)) InvalidAction,
         check (logSource event = ''script'' \<and> (logExtension event = [] \<or> logAction event = [])) MissingOrigin,
         check (logPhase event \<noteq> [] \<and> logPhase event \<noteq> ''request'' \<and> logPhase event \<noteq> ''response'') InvalidPhase,
         check (logScriptDigest event \<noteq> [] \<and> \<not> validEngineLogDigest (logScriptDigest event)) InvalidDigest,
         check (durationInvalid (logDurationMS event)) InvalidDuration]"

definition normalizeEngineLog :: "externs \<Rightarrow> (parsedURL \<Rightarrow> string) \<Rightarrow> EngineLog \<Rightarrow> string \<Rightarrow> log_error + EngineLog" where
  "normalizeEngineLog x urlString event now =
     (case firstError (eventChecks event) of
        Some e \<Rightarrow> Inl e
      | None \<Rightarrow>
          Inr (event\<lparr>logDurationMS := clampDuration (logDurationMS event), logTime := now,
                     logURL := sanitizeEngineLogURL x urlString (logURL event),
                     logMessage := truncateEngineLogField (logMessage event) (int maxEngineLogMessageBytes)\<rparr>))"

text \<open>The encoding step between the two locked parts of \<^verbatim>\<open>Publish\<close>.\<close>

definition encodeEngineLog :: "externs \<Rightarrow> (parsedURL \<Rightarrow> string) \<Rightarrow> (EngineLog \<Rightarrow> string option) \<Rightarrow> string \<Rightarrow> EngineLog \<Rightarrow> string option" where
  "encodeEngineLog x urlString marshal now event =
     (case normalizeEngineLog x urlString event now of
        Inl _ \<Rightarrow> None
      | Inr normalized \<Rightarrow>
          (case marshal normalized of
             None \<Rightarrow> None
           | Some payload \<Rightarrow> if length payload > maxEngineLogJSONBytes then None else Some payload))"

definition publishEngineLog :: "externs \<Rightarrow> (parsedURL \<Rightarrow> string) \<Rightarrow> (EngineLog \<Rightarrow> string option) \<Rightarrow> string \<Rightarrow> EngineLog \<Rightarrow>
    string engineLogHub \<Rightarrow> string engineLogHub" where
  "publishEngineLog x urlString marshal now event h = Publish (encodeEngineLog x urlString marshal now) event h"

section \<open>Bounds and validity of the text\<close>

lemma validPrefix_props:
  "validUTF8 (validPrefix s)" "prefix (validPrefix s) s" "validUTF8 s \<Longrightarrow> validPrefix s = s"
proof -
  have "validUTF8 (validPrefix s) \<and> prefix (validPrefix s) s"
  proof (induction s rule: validPrefix.induct)
    case (1 s)
    then show ?case
      by (subst (1 2) validPrefix.simps) (auto intro: prefix_order.trans[OF _ prefixeq_butlast])
  qed
  then show "validUTF8 (validPrefix s)" "prefix (validPrefix s) s" by auto
  show "validUTF8 s \<Longrightarrow> validPrefix s = s" by (subst validPrefix.simps) simp
qed

lemma ascii_validUTF8: "list_all (\<lambda>c. code c < 128) s \<Longrightarrow> validUTF8 s"
proof (induction s)
  case (Cons c s)
  then have "runeOK (c # s)" "runeWidth (c # s) = 1" by (simp_all add: runeOK_def runeWidth_def decodeRune.simps Let_def)
  then show ?case using Cons by (subst validUTF8.simps) simp
qed simp

lemma dots_valid: "validUTF8 (replicate n CHR ''.'')" "validUTF8 ''...''"
  by (auto intro!: ascii_validUTF8 simp: list_all_iff code_def)

lemma truncate_length: "int (length (truncateEngineLogField s limit)) \<le> max 0 limit"
proof -
  have "length (validPrefix (take b t)) \<le> b" for b t
    using validPrefix_props(2)[of "take b t"] prefix_length_le by fastforce
  then have "int (length (validPrefix (take (nat k) t))) \<le> k" if "0 \<le> k" for k t
    using that by (metis int_nat_eq of_nat_le_iff)
  note a = this
  have "3 + int (length (validPrefix (take (nat (k - 3)) t))) \<le> k" if "\<not> k \<le> 3" for k t
    using a[of "k - 3" t] that by linarith
  with a show ?thesis by (auto simp: truncateEngineLogField_def Let_def)
qed

lemma truncate_valid: "validUTF8 (truncateEngineLogField s limit)"
  by (auto simp: truncateEngineLogField_def Let_def dots_valid validUTF8_append validPrefix_props)

lemma truncate_short: "int (length s) \<le> limit \<Longrightarrow> validUTF8 s \<Longrightarrow> truncateEngineLogField s limit = s"
  by (cases s) (auto simp: truncateEngineLogField_def Let_def toValidUTF8_id validPrefix_props(3))

text \<open>An accepted event keeps its identity fields, and what is published of it is bounded valid text.\<close>

definition eventWithin :: "EngineLog \<Rightarrow> bool" where
  "eventWithin e \<longleftrightarrow>
     logLevel e \<in> {''info'', ''warn'', ''error''} \<and> logSource e \<in> {''script'', ''engine''} \<and>
     (logExtension e = [] \<or> validModuleID (logExtension e)) \<and> (logAction e = [] \<or> validSettingKey (logAction e)) \<and>
     (logSource e = ''script'' \<longrightarrow> logExtension e \<noteq> [] \<and> logAction e \<noteq> []) \<and>
     logPhase e \<in> {[], ''request'', ''response''} \<and>
     (logScriptDigest e = [] \<or> validEngineLogDigest (logScriptDigest e)) \<and>
     (\<exists>q. logDurationMS e = Finite q \<and> 0 \<le> q \<and> q \<le> 300000) \<and>
     length (logURL e) \<le> maxEngineLogURLBytes \<and> validUTF8 (logURL e) \<and>
     length (logMessage e) \<le> maxEngineLogMessageBytes \<and> validUTF8 (logMessage e)"

lemma sanitize_within: "length (sanitizeEngineLogURL x u raw) \<le> maxEngineLogURLBytes" "validUTF8 (sanitizeEngineLogURL x u raw)"
proof -
  have "length (truncateEngineLogField s (int n)) \<le> n" for s n using truncate_length[of s "int n"] by simp
  then show "length (sanitizeEngineLogURL x u raw) \<le> maxEngineLogURLBytes" "validUTF8 (sanitizeEngineLogURL x u raw)"
    by (auto simp: sanitizeEngineLogURL_def truncate_valid split: option.splits)
qed

text \<open>The fields a publisher has to get right.\<close>

definition eventWellFormed :: "EngineLog \<Rightarrow> bool" where
  "eventWellFormed e \<longleftrightarrow>
     logLevel e \<in> {''info'', ''warn'', ''error''} \<and> logSource e \<in> {''script'', ''engine''} \<and>
     (logExtension e = [] \<or> validModuleID (logExtension e)) \<and> (logAction e = [] \<or> validSettingKey (logAction e)) \<and>
     (logSource e = ''script'' \<longrightarrow> logExtension e \<noteq> [] \<and> logAction e \<noteq> []) \<and>
     logPhase e \<in> {[], ''request'', ''response''} \<and>
     (logScriptDigest e = [] \<or> validEngineLogDigest (logScriptDigest e)) \<and> \<not> durationInvalid (logDurationMS e)"

lemma eventChecks_None: "firstError (eventChecks e) = None \<longleftrightarrow> eventWellFormed e"
  unfolding eventChecks_def eventWellFormed_def firstError_None by simp

lemma normalize_Inr:
  "normalizeEngineLog x u event now = Inr e \<longleftrightarrow>
     eventWellFormed event \<and>
     e = event\<lparr>logDurationMS := clampDuration (logDurationMS event), logTime := now,
       logURL := sanitizeEngineLogURL x u (logURL event),
       logMessage := truncateEngineLogField (logMessage event) (int maxEngineLogMessageBytes)\<rparr>"
  unfolding eventChecks_None[symmetric] by (auto simp: normalizeEngineLog_def simp del: firstError_None split: option.splits)

lemma normalize_within:
  assumes "eventWellFormed event"
  shows "eventWithin (event\<lparr>logDurationMS := clampDuration (logDurationMS event), logTime := now,
       logURL := sanitizeEngineLogURL x u (logURL event),
       logMessage := truncateEngineLogField (logMessage event) (int maxEngineLogMessageBytes)\<rparr>)"
proof -
  have len: "length (truncateEngineLogField s (int n)) \<le> n" for s n using truncate_length[of s "int n"] by simp
  obtain q where q: "logDurationMS event = Finite q" "0 \<le> q"
    using assms by (cases "logDurationMS event") (auto simp: eventWellFormed_def durationInvalid_def)
  show ?thesis using assms
    unfolding eventWithin_def eventWellFormed_def by (simp add: q sanitize_within truncate_valid len clampDuration_def)
qed


definition exEvent :: EngineLog where
  "exEvent = \<lparr>logTime = [], logLevel = ''info'', logSource = ''engine'', logExtension = [], logAction = [], logPhase = [],
     logDurationMS = Finite 400000, logURL = [], logScriptDigest = [], logMessage = ''started''\<rparr>"


end
