(* ===== verification/Base64.thy ===== *)
theory Base64
  imports Prelude
begin

text \<open>
  Go's \<^verbatim>\<open>base64.StdEncoding\<close>: the padded standard alphabet. Decoding skips carriage returns and
  newlines and does not look at the unused bits of the last group.
\<close>

definition b64char :: "nat \<Rightarrow> char" where
  "b64char n =
     (if n < 26 then char_of (65 + n) else if n < 52 then char_of (97 + (n - 26))
      else if n < 62 then char_of (48 + (n - 52)) else if n = 62 then CHR ''+'' else CHR ''/'')"

definition b64value :: "char \<Rightarrow> nat option" where
  "b64value c =
     (let k = code c
      in if 65 \<le> k \<and> k \<le> 90 then Some (k - 65) else if 97 \<le> k \<and> k \<le> 122 then Some (k - 97 + 26)
         else if 48 \<le> k \<and> k \<le> 57 then Some (k - 48 + 52)
         else if k = 43 then Some 62 else if k = 47 then Some 63 else None)"

fun base64Encode :: "string \<Rightarrow> string" where
  "base64Encode [] = []"
| "base64Encode [a] = [b64char (code a div 4), b64char (code a mod 4 * 16), CHR ''='', CHR ''='']"
| "base64Encode [a, b] =
     [b64char (code a div 4), b64char (code a mod 4 * 16 + code b div 16), b64char (code b mod 16 * 4), CHR ''='']"
| "base64Encode (a # b # c # r) =
     b64char (code a div 4) # b64char (code a mod 4 * 16 + code b div 16) #
     b64char (code b mod 16 * 4 + code c div 64) # b64char (code c mod 64) # base64Encode r"

definition b64group :: "char \<Rightarrow> char \<Rightarrow> char \<Rightarrow> char \<Rightarrow> string option" where
  "b64group p q r s =
     (case (b64value p, b64value q, b64value r, b64value s) of
        (Some w, Some x, Some y, Some z) \<Rightarrow>
          Some [char_of (w * 4 + x div 16), char_of (x mod 16 * 16 + y div 4), char_of (y mod 4 * 64 + z)]
      | _ \<Rightarrow> None)"

definition b64last :: "char \<Rightarrow> char \<Rightarrow> char \<Rightarrow> string option" where
  "b64last p q r =
     (case (b64value p, b64value q) of
        (Some w, Some x) \<Rightarrow>
          (if r = CHR ''='' then Some [char_of (w * 4 + x div 16)]
           else map_option (\<lambda>y. [char_of (w * 4 + x div 16), char_of (x mod 16 * 16 + y div 4)]) (b64value r))
      | _ \<Rightarrow> None)"

fun base64Groups :: "string \<Rightarrow> string option" where
  "base64Groups [] = Some []"
| "base64Groups (p # q # r # s # rest) =
     (if s = CHR ''='' then (if rest = [] then b64last p q r else None)
      else case b64group p q r s of
        None \<Rightarrow> None
      | Some g \<Rightarrow> map_option (\<lambda>t. g @ t) (base64Groups rest))"
| "base64Groups _ = None"

definition base64Decode :: "string \<Rightarrow> string option" where
  "base64Decode s = base64Groups (filter (\<lambda>c. code c \<noteq> 10 \<and> code c \<noteq> 13) s)"

section \<open>Decoding what was encoded\<close>

lemma code_b64char:
  "n < 64 \<Longrightarrow> code (b64char n) =
     (if n < 26 then 65 + n else if n < 52 then 71 + n else if n < 62 then n - 4 else if n = 62 then 43 else 47)"
  unfolding b64char_def by (simp add: code_char_of) (simp add: code_def)

lemma b64value_char [simp]: "n < 64 \<Longrightarrow> b64value (b64char n) = Some n"
  unfolding b64value_def Let_def by (simp only: code_b64char) (simp, linarith)

lemma b64char_not_newline: "n < 64 \<Longrightarrow> code (b64char n) \<noteq> 10 \<and> code (b64char n) \<noteq> 13"
  by (simp only: code_b64char) (simp, linarith)

lemma b64char_not_pad: "n < 64 \<Longrightarrow> b64char n \<noteq> CHR ''=''"
proof
  assume "n < 64" "b64char n = CHR ''=''"
  then have "b64value (CHR ''='') = Some n" using b64value_char[of n] by simp
  then show False by (simp add: b64value_def code_def Let_def)
qed

lemma b64_pieces [simp]:
  "code a div 4 < 64" "code a mod 4 * 16 < 64" "code a mod 4 * 16 + code b div 16 < 64"
  "code b mod 16 * 4 < 64" "code b mod 16 * 4 + code c div 64 < 64" "code c mod 64 < 64"
  using code_less[of a] code_less[of b] code_less[of c] by auto

lemma base64Encode_chars: "filter (\<lambda>c. code c \<noteq> 10 \<and> code c \<noteq> 13) (base64Encode s) = base64Encode s"
  by (induction s rule: base64Encode.induct) (simp_all add: b64char_not_newline, simp_all add: code_def)

lemma char_of_code [simp]: "char_of (code c) = c"
  by (simp add: code_def)

lemma byte_halves [simp]:
  "code b div 16 div 16 = 0" "code b div 16 mod 16 = code b div 16"
  "code c div 64 div 4 = 0" "code c div 64 mod 4 = code c div 64"
  using code_less[of b] code_less[of c] by auto

lemma base64Groups_encode: "base64Groups (base64Encode s) = Some s"
proof (induction s rule: base64Encode.induct)
  case (2 a)
  show ?case by (simp add: b64last_def)
next
  case (3 a b)
  show ?case by (simp add: b64last_def b64char_not_pad)
next
  case (4 a b c r)
  then show ?case by (simp add: b64group_def b64char_not_pad)
qed simp

lemma base64_roundtrip: "base64Decode (base64Encode s) = Some s"
  by (simp add: base64Decode_def base64Encode_chars base64Groups_encode)

lemma base64Encode_length: "length (base64Encode s) = (length s + 2) div 3 * 4"
proof (induction s rule: base64Encode.induct)
  case (4 a b c r)
  have "(length (a # b # c # r) + 2) div 3 = Suc ((length r + 2) div 3)" using div_add_self2[of 3 "length r + 2"] by simp
  then show ?case using 4 by simp
qed simp_all

end
