(* ===== verification/Web_Socket.thy ===== *)
theory Web_Socket
  imports Log_Fields Base64 Config_Store
begin

text \<open>
  The stream of engine logs to the console (engine_logs.go): the service's requests, the WebSocket
  frames it reads and writes, and the three goroutines of a session that share one writer.

  A byte is read as a number: \<^verbatim>\<open>b&0x80\<close> asks whether it is at least 128, \<^verbatim>\<open>b&0x70\<close> for the three bits
  below, \<^verbatim>\<open>b&0x0f\<close> and \<^verbatim>\<open>b&0x7f\<close> are remainders. SHA-1 is an argument.
\<close>

unbundle bit_operations_syntax

section \<open>Frames\<close>

datatype ws_error =
  WsEOF | WsFlags | WsOpcode | WsNonCanonical | WsControlTooLong | WsTooLong | WsClosePayload | WsCloseCode

definition maxWebSocketClientFrameBytes :: nat where "maxWebSocketClientFrameBytes = 4 * 2 ^ 10"
definition maxWebSocketServerFrameBytes :: nat where "maxWebSocketServerFrameBytes = 16 * 2 ^ 10"

definition bigEndianValue :: "string \<Rightarrow> nat" where
  "bigEndianValue s = foldl (\<lambda>n c. 256 * n + code c) 0 s"

text \<open>\<^verbatim>\<open>io.ReadFull\<close> on what is left of the connection.\<close>

definition wsRead :: "nat \<Rightarrow> string \<Rightarrow> (string \<Rightarrow> string \<Rightarrow> ws_error + 'a) \<Rightarrow> ws_error + 'a" where
  "wsRead n s f = (if length s < n then Inl WsEOF else f (take n s) (drop n s))"

definition wsLength :: "nat \<Rightarrow> string \<Rightarrow> ws_error + nat \<times> string" where
  "wsLength short s =
     (if short = 126 then
        wsRead 2 s (\<lambda>encoded s. if bigEndianValue encoded < 126 then Inl WsNonCanonical else Inr (bigEndianValue encoded, s))
      else if short = 127 then
        wsRead 8 s (\<lambda>encoded s.
          if bigEndianValue encoded \<le> 65535 \<or> bigEndianValue encoded div 2 ^ 63 \<noteq> 0 then Inl WsNonCanonical
          else Inr (bigEndianValue encoded, s))
      else Inr (short, s))"

definition xorByte :: "char \<Rightarrow> char \<Rightarrow> char" where
  "xorByte c m = char_of (code c XOR code m)"

definition unmask :: "string \<Rightarrow> string \<Rightarrow> string" where
  "unmask key payload = map (\<lambda>i. xorByte (payload ! i) (key ! (i mod 4))) [0..<length payload]"

definition validWebSocketCloseCode :: "nat \<Rightarrow> bool" where
  "validWebSocketCloseCode c =
     (if c \<ge> 3000 \<and> c \<le> 4999 then True
      else if c < 1000 \<or> c > 1014 then False
      else c \<noteq> 1004 \<and> c \<noteq> 1005 \<and> c \<noteq> 1006)"

definition checkClosePayload :: "string \<Rightarrow> ws_error option" where
  "checkClosePayload payload =
     (if length payload = 1 \<or> length payload > 2 \<and> \<not> validUTF8 (drop 2 payload) then Some WsClosePayload
      else if length payload \<ge> 2 \<and> \<not> validWebSocketCloseCode (bigEndianValue (take 2 payload)) then Some WsCloseCode
      else None)"

definition readWebSocketClientFrame :: "string \<Rightarrow> ws_error + nat \<times> string \<times> string" where
  "readWebSocketClientFrame s =
     wsRead 1 s (\<lambda>first s. wsRead 1 s (\<lambda>second s.
       if code (hd first) div 16 mod 8 \<noteq> 0 \<or> code (hd first) < 128 \<or> code (hd second) < 128 then Inl WsFlags
       else
         (let opcode = code (hd first) mod 16
          in if opcode \<noteq> 1 \<and> opcode \<noteq> 2 \<and> opcode \<noteq> 8 \<and> opcode \<noteq> 9 \<and> opcode \<noteq> 10 then Inl WsOpcode
             else bindJ (wsLength (code (hd second) mod 128) s) (\<lambda>(length, s).
               if opcode \<ge> 8 \<and> length > 125 then Inl WsControlTooLong
               else if length > maxWebSocketClientFrameBytes then Inl WsTooLong
               else wsRead 4 s (\<lambda>key s. wsRead length s (\<lambda>payload s.
                 let payload = unmask key payload
                 in case (if opcode = 8 then checkClosePayload payload else None) of
                      Some e \<Rightarrow> Inl e
                    | None \<Rightarrow> Inr (opcode, payload, s)))))))"

text \<open>What \<^verbatim>\<open>writeWebSocketFrame\<close> puts on the wire.\<close>

definition writeWebSocketFrame :: "nat \<Rightarrow> string \<Rightarrow> ws_error + string" where
  "writeWebSocketFrame opcode payload =
     (if opcode \<ge> 8 \<and> length payload > 125 then Inl WsControlTooLong
      else if length payload > maxWebSocketServerFrameBytes then Inl WsTooLong
      else Inr (byte (128 OR opcode) #
        (if length payload < 126 then [byte (length payload)]
         else if length payload \<le> 65535 then byte 126 # bigEndian 2 (length payload)
         else byte 127 # bigEndian 8 (length payload)) @ payload))"

definition webSocketClosePayload :: "nat \<Rightarrow> string \<Rightarrow> string" where
  "webSocketClosePayload c reason = bigEndian 2 c @ truncateEngineLogField reason 123"

section \<open>A session\<close>

text \<open>
  The three goroutines of \<^verbatim>\<open>serveEngineLogWebSocket\<close> share \<^verbatim>\<open>writeFrame\<close>. A call first looks at the closing
  flag, which a close frame sets; then, under the writer's mutex, it looks again and writes. The
  calls in between are pending, in any number and order.
\<close>

record wsSession =
  wsClosing :: bool
  wsPending :: "(nat \<times> string) list"
  wsWritten :: "(nat \<times> string) list"

definition newSession :: wsSession where
  "newSession = \<lparr>wsClosing = False, wsPending = [], wsWritten = []\<rparr>"

definition writeBegin :: "nat \<times> string \<Rightarrow> wsSession \<Rightarrow> wsSession option" where
  "writeBegin f s =
     (if wsClosing s then None
      else Some (s\<lparr>wsClosing := (fst f = 8), wsPending := wsPending s @ [f]\<rparr>))"

definition writeLocked :: "nat \<Rightarrow> wsSession \<Rightarrow> wsSession" where
  "writeLocked i s =
     (let f = wsPending s ! i;
          s = s\<lparr>wsPending := take i (wsPending s) @ drop (Suc i) (wsPending s)\<rparr>
      in if fst f \<noteq> 8 \<and> wsClosing s then s else s\<lparr>wsWritten := wsWritten s @ [f]\<rparr>)"

text \<open>The reader: the frame it answers with, and whether it ends the session.\<close>

definition clientReply :: "ws_error + nat \<times> string \<times> string \<Rightarrow> (nat \<times> string) option \<times> bool" where
  "clientReply r =
     (case r of
        Inl _ \<Rightarrow> (Some (8, webSocketClosePayload 1002 ''protocol error''), True)
      | Inr (opcode, payload, _) \<Rightarrow>
          (if opcode = 8 then (Some (8, payload), True)
           else if opcode = 9 then (Some (10, payload), False)
           else if opcode = 10 then (None, False)
           else (Some (8, webSocketClosePayload 1003 ''read-only stream''), True)))"

definition pingFrame :: "nat \<times> string" where "pingFrame = (9, [])"

text \<open>The writer of events gives up on one that is too long.\<close>

definition eventFrame :: "string \<Rightarrow> (nat \<times> string) option" where
  "eventFrame payload = (if length payload > maxWebSocketServerFrameBytes then None else Some (1, payload))"

section \<open>The service\<close>

record logRequest =
  lrPath :: string
  lrMethod :: string
  lrProtoMajor :: int
  lrProtoMinor :: int
  lrRawQuery :: string
  lrContentLength :: int
  lrTransferEncoding :: "string list"
  lrHasBody :: bool
  lrHeaders :: headers

definition headerContainsToken :: "string list \<Rightarrow> string \<Rightarrow> bool" where
  "headerContainsToken values want =
     list_ex (\<lambda>v. list_ex (\<lambda>token. to_lower (trim_space token) = to_lower want) (split_on CHR '','' v)) values"

datatype upgrade_error = NotHTTP11Get | QueryOrBody | NoConnectionUpgrade | BadUpgrade | BadVersion | BadKey

definition upgradeChecks :: "logRequest \<Rightarrow> upgrade_error option list" where
  "upgradeChecks r =
     [check (lrMethod r \<noteq> ''GET'' \<or> lrProtoMajor r \<noteq> 1 \<or> lrProtoMinor r < 1) NotHTTP11Get,
      check (lrRawQuery r \<noteq> [] \<or> lrContentLength r \<noteq> 0 \<or> lrTransferEncoding r \<noteq> [] \<or> lrHasBody r) QueryOrBody,
      check (\<not> headerContainsToken (headerValues ''Connection'' (lrHeaders r)) ''upgrade'') NoConnectionUpgrade,
      (let upgrades = headerValues ''Upgrade'' (lrHeaders r)
       in check (length upgrades \<noteq> 1 \<or> to_lower (trim_space (upgrades ! 0)) \<noteq> ''websocket'') BadUpgrade),
      (let versions = headerValues ''Sec-WebSocket-Version'' (lrHeaders r)
       in check (length versions \<noteq> 1 \<or> trim_space (versions ! 0) \<noteq> ''13'') BadVersion),
      (let keys = headerValues ''Sec-WebSocket-Key'' (lrHeaders r)
       in check (length keys \<noteq> 1) BadKey)]"

definition validateEngineLogWebSocketRequest :: "logRequest \<Rightarrow> upgrade_error + string" where
  "validateEngineLogWebSocketRequest r =
     (case firstError (upgradeChecks r) of
        Some e \<Rightarrow> Inl e
      | None \<Rightarrow>
          (let key = trim_space (headerValues ''Sec-WebSocket-Key'' (lrHeaders r) ! 0)
           in case base64Decode key of
                None \<Rightarrow> Inl BadKey
              | Some decoded \<Rightarrow> if length decoded \<noteq> 16 \<or> base64Encode decoded \<noteq> key then Inl BadKey else Inr key))"

definition webSocketAccept :: "(string \<Rightarrow> string) \<Rightarrow> string \<Rightarrow> string" where
  "webSocketAccept sha1 key = base64Encode (sha1 (key @ ''258EAFA5-E914-47DA-95CA-C5AB0DC85B11''))"

definition activeExtensionCount :: "Config \<Rightarrow> nat" where
  "activeExtensionCount cfg = (if \<not> mitmEnabled (cfgMITM cfg) then 0 else length (filter modEnabled (cfgModules cfg)))"

record engineLogHealth =
  hlRunning :: bool
  hlActiveExtensions :: nat
  hlVersion :: string

datatype service_reply =
    NotFound | Refused int | Health int engineLogHealth | VersionRequired | Switching string nat

text \<open>The health answer: \<open>current\<close> is what the configuration store says, absent without a store.\<close>

definition serveHealth :: "string \<Rightarrow> (store_error + Config) option \<Rightarrow> logRequest \<Rightarrow> service_reply" where
  "serveHealth version current r =
     (if lrMethod r \<noteq> ''GET'' \<or> lrRawQuery r \<noteq> [] then Refused 405
      else
        (let health = \<lparr>hlRunning = True, hlActiveExtensions = 0, hlVersion = version\<rparr>
         in case current of
              None \<Rightarrow> Health 503 health
            | Some (Inl _) \<Rightarrow> Health 503 health
            | Some (Inr cfg) \<Rightarrow> Health 200 (health\<lparr>hlActiveExtensions := activeExtensionCount cfg\<rparr>)))"

definition maxEngineLogWebSockets :: nat where "maxEngineLogWebSockets = 8"

text \<open>
  The log request up to the switch of protocols: \<open>busy\<close> is the number of taken slots. The slot and
  the subscription are held until the session ends, and given back on the earlier returns.
\<close>

definition serveLogs :: "(string \<Rightarrow> string) \<Rightarrow> logRequest \<Rightarrow> nat \<Rightarrow> 'p engineLogHub \<Rightarrow> service_reply \<times> nat \<times> 'p engineLogHub" where
  "serveLogs sha1 r busy h =
     (case validateEngineLogWebSocketRequest r of
        Inl e \<Rightarrow> (if e = BadVersion then VersionRequired else Refused 400, busy, h)
      | Inr key \<Rightarrow>
          (if busy \<ge> maxEngineLogWebSockets then (Refused 503, busy, h)
           else case Subscribe h of
             (None, h) \<Rightarrow> (Refused 503, busy, h)
           | (Some i, h) \<Rightarrow> (Switching (webSocketAccept sha1 key) i, Suc busy, h)))"

definition endLogSession :: "nat \<Rightarrow> nat \<times> 'p engineLogHub \<Rightarrow> nat \<times> 'p engineLogHub" where
  "endLogSession i s = (case s of (busy, h) \<Rightarrow> (busy - 1, closeSubscription i h))"

definition serveEngineLog :: "(string \<Rightarrow> string) \<Rightarrow> string \<Rightarrow> (store_error + Config) option \<Rightarrow> logRequest \<Rightarrow> nat \<Rightarrow> 'p engineLogHub \<Rightarrow>
    service_reply \<times> nat \<times> 'p engineLogHub" where
  "serveEngineLog sha1 version current r busy h =
     (if lrPath r = ''/health'' then (serveHealth version current r, busy, h)
      else if lrPath r = ''/logs'' then serveLogs sha1 r busy h
      else (NotFound, busy, h))"

end
