(* ===== verification/Web_Socket_Properties.thy ===== *)
theory Web_Socket_Properties
  imports Web_Socket Projection_Properties
begin

text \<open>
  The log stream keeps to the protocol: the reader accepts exactly the frames RFC 6455 allows a
  client, and a session writes a stream a client can parse, ended by at most one close frame.
\<close>

unbundle bit_operations_syntax

section \<open>Bytes\<close>

lemma xor_byte_less: "code c XOR code d < 256"
proof -
  have "take_bit 8 (code c XOR code d) = code c XOR code d"
    using code_less[of c] code_less[of d] by (simp add: take_bit_xor take_bit_nat_eq_self)
  moreover have "take_bit 8 (code c XOR code d) < 2 ^ 8" by (rule take_bit_nat_less_exp)
  ultimately show ?thesis by simp
qed

lemma xorByte_twice [simp]: "xorByte (xorByte c m) m = c"
  using xor_byte_less[of c m] by (simp add: xorByte_def code_char_of xor.assoc)

lemma length_unmask [simp]: "length (unmask key p) = length p"
  by (simp add: unmask_def)

lemma unmask_twice [simp]: "unmask key (unmask key p) = p"
  by (rule nth_equalityI) (simp_all add: unmask_def)

lemma bigEndianValue_snoc [simp]: "bigEndianValue (s @ [c]) = 256 * bigEndianValue s + code c" "bigEndianValue [] = 0"
  by (simp_all add: bigEndianValue_def)

lemma bigEndianValue_bigEndian [simp]: "n < 256 ^ k \<Longrightarrow> bigEndianValue (bigEndian k n) = n"
proof (induction k arbitrary: n)
  case (Suc k)
  have "n div 256 < 256 ^ k" using Suc.prems by (simp add: less_mult_imp_div_less mult.commute)
  then show ?case using Suc.IH by simp
qed simp

lemma bigEndian_bigEndianValue: "bigEndian (length s) (bigEndianValue s) = s"
proof (induction s rule: rev_induct)
  case (snoc c s)
  have "(256 * bigEndianValue s + code c) div 256 = bigEndianValue s" "(256 * bigEndianValue s + code c) mod 256 = code c"
    using code_less[of c] by simp_all
  then show ?case using snoc by simp
qed simp

lemma bigEndianValue_less: "bigEndianValue s < 256 ^ length s"
proof (induction s rule: rev_induct)
  case (snoc c s)
  then show ?case using code_less[of c] by simp
qed simp

section \<open>Frames from the client\<close>

text \<open>A final, masked frame as RFC 6455 lays it out, with the shortest length field.\<close>

definition clientFrame :: "nat \<Rightarrow> string \<Rightarrow> string \<Rightarrow> string" where
  "clientFrame opcode key payload =
     byte (128 + opcode) #
     (if length payload < 126 then [byte (128 + length payload)] else byte 254 # bigEndian 2 (length payload)) @
     key @ unmask key payload"

text \<open>The payload of a close frame: empty, or a code that may appear on the wire and a reason in UTF-8.\<close>

definition closePayloadOK :: "string \<Rightarrow> bool" where
  "closePayloadOK payload \<longleftrightarrow>
     payload = [] \<or>
     (\<exists>c reason. payload = bigEndian 2 c @ reason \<and> c \<in> {1000..1003} \<union> {1007..1014} \<union> {3000..4999} \<and> validUTF8 reason)"

lemma closeCode_iff: "validWebSocketCloseCode c \<longleftrightarrow> c \<in> {1000..1003} \<union> {1007..1014} \<union> {3000..4999}"
  by (auto simp: validWebSocketCloseCode_def)

lemma checkClosePayload_iff: "checkClosePayload payload = None \<longleftrightarrow> closePayloadOK payload"
proof (cases "length payload < 2")
  case True
  have "payload \<noteq> bigEndian 2 c @ reason" for c reason
  proof
    assume "payload = bigEndian 2 c @ reason"
    then have "length payload \<ge> 2" by simp
    then show False using True by simp
  qed
  then show ?thesis using True by (cases payload) (auto simp: checkClosePayload_def closePayloadOK_def)
next
  case False
  define c where "c = bigEndianValue (take 2 payload)"
  have p: "payload = bigEndian 2 c @ drop 2 payload"
  proof -
    have "length (take 2 payload) = 2" using False by simp
    then have "bigEndian 2 c = take 2 payload" using bigEndian_bigEndianValue[of "take 2 payload"] by (simp only: c_def)
    then show ?thesis by simp
  qed
  have "closePayloadOK payload \<longleftrightarrow> validWebSocketCloseCode c \<and> validUTF8 (drop 2 payload)"
  proof
    assume "closePayloadOK payload"
    then obtain d reason where d: "payload = bigEndian 2 d @ reason" "validWebSocketCloseCode d" "validUTF8 reason"
      using False unfolding closePayloadOK_def closeCode_iff[symmetric] by auto
    then have "d < 65536" by (auto simp: closeCode_iff)
    then show "validWebSocketCloseCode c \<and> validUTF8 (drop 2 payload)" using d by (simp add: c_def)
  next
    assume "validWebSocketCloseCode c \<and> validUTF8 (drop 2 payload)"
    then show "closePayloadOK payload" using p unfolding closePayloadOK_def closeCode_iff[symmetric] by blast
  qed
  also have "\<dots> \<longleftrightarrow> checkClosePayload payload = None"
    using False by (auto simp: checkClosePayload_def c_def not_less dest: le_neq_implies_less)
  finally show ?thesis by blast
qed

definition clientFrameOK :: "nat \<Rightarrow> string \<Rightarrow> bool" where
  "clientFrameOK opcode payload \<longleftrightarrow>
     opcode \<in> {1, 2, 8, 9, 10} \<and> length payload \<le> 4096 \<and> (opcode \<ge> 8 \<longrightarrow> length payload \<le> 125) \<and>
     (opcode = 8 \<longrightarrow> closePayloadOK payload)"

lemma wsRead_Inr: "wsRead n s f = Inr r \<longleftrightarrow> (\<exists>a b. s = a @ b \<and> length a = n \<and> f a b = Inr r)"
  unfolding wsRead_def by (auto simp: not_less) (metis append_take_drop_id length_take min.absorb2)

lemma if_Inr [simp]: "(if c then Inl e else r) = Inr v \<longleftrightarrow> \<not> c \<and> r = Inr v"
  by simp

lemma length_one: "length a = Suc 0 \<longleftrightarrow> (\<exists>c. a = [c])"
  by (cases a) auto

lemma wsLength_Inr:
  assumes "short < 128"
  shows "wsLength short s = Inr (n, t) \<and> n \<le> 4096 \<longleftrightarrow>
    n \<le> 4096 \<and> (if short < 126 then n = short \<and> s = t else short = 126 \<and> 126 \<le> n \<and> s = bigEndian 2 n @ t)"
proof -
  have v: "s = bigEndian 2 (bigEndianValue a) @ b" if "s = a @ b" "length a = 2" for a b
    using that bigEndian_bigEndianValue[of a] by simp
  consider "short < 126" | "short = 126" | "short = 127" using assms by linarith
  then show ?thesis
  proof cases
    case 2
    have "wsLength short s = Inr (n, t) \<longleftrightarrow> (\<exists>a. s = a @ t \<and> length a = 2 \<and> 126 \<le> bigEndianValue a \<and> n = bigEndianValue a)"
      by (auto simp: wsLength_def 2 wsRead_Inr)
    also have "\<dots> \<longleftrightarrow> s = bigEndian 2 n @ t \<and> 126 \<le> n \<and> n < 65536"
    proof
      assume "\<exists>a. s = a @ t \<and> length a = 2 \<and> 126 \<le> bigEndianValue a \<and> n = bigEndianValue a"
      then obtain a where a: "s = a @ t" "length a = 2" "126 \<le> bigEndianValue a" "n = bigEndianValue a" by blast
      then show "s = bigEndian 2 n @ t \<and> 126 \<le> n \<and> n < 65536"
        using bigEndian_bigEndianValue[of a] bigEndianValue_less[of a] by simp
    next
      assume "s = bigEndian 2 n @ t \<and> 126 \<le> n \<and> n < 65536"
      then show "\<exists>a. s = a @ t \<and> length a = 2 \<and> 126 \<le> bigEndianValue a \<and> n = bigEndianValue a"
        by (intro exI[of _ "bigEndian 2 n"]) simp
    qed
    finally show ?thesis using 2 by auto
  next
    case 3
    then show ?thesis by (auto simp: wsLength_def wsRead_Inr split: if_splits)
  qed (auto simp: wsLength_def)
qed

text \<open>The part behind the two leading bytes: key, payload and the check of a close frame.\<close>

lemma read_payload:
  assumes "n \<le> 4096"
  shows "wsRead 4 s (\<lambda>key s. wsRead n s (\<lambda>payload s.
      let payload = unmask key payload
      in case (if opcode = 8 then checkClosePayload payload else None) of Some e \<Rightarrow> Inl e | None \<Rightarrow> Inr (opcode, payload, s))) =
      Inr (op', payload, rest) \<longleftrightarrow>
    op' = opcode \<and> length payload = n \<and> (opcode = 8 \<longrightarrow> checkClosePayload payload = None) \<and>
    (\<exists>key. length key = 4 \<and> s = key @ unmask key payload @ rest)"
    (is "?lhs \<longleftrightarrow> ?rhs")
proof
  assume ?lhs
  then obtain key enc where k: "s = key @ enc @ rest" "length key = 4" "length enc = n" "payload = unmask key enc" "op' = opcode"
    "opcode = 8 \<longrightarrow> checkClosePayload payload = None"
    by (auto simp: wsRead_Inr Let_def split: option.splits if_splits)
  then show ?rhs by auto
next
  assume ?rhs
  then show ?lhs by (auto simp: wsRead_def Let_def)
qed

lemma header_byte: "code f div 16 mod 8 = 0 \<and> 128 \<le> code f \<and> code f mod 16 = opcode \<longleftrightarrow> opcode < 16 \<and> f = byte (128 + opcode)"
proof
  assume f: "code f div 16 mod 8 = 0 \<and> 128 \<le> code f \<and> code f mod 16 = opcode"
  have d: "code f div 16 < 16" "8 \<le> code f div 16"
    using code_less[of f] div_le_mono[of 128 "code f" 16] f by auto
  have "code f div 16 - 8 = 0" using f d le_mod_geq[of 8 "code f div 16"] by simp
  then have "code f div 16 = 8" using d by simp
  then have "code f = 128 + opcode" using f div_mult_mod_eq[of "code f" 16] by simp
  moreover have "opcode < 16" using f by auto
  ultimately show "opcode < 16 \<and> f = byte (128 + opcode)" using byte_code[of f] by simp
next
  assume f: "opcode < 16 \<and> f = byte (128 + opcode)"
  have d: "(128 + opcode) div 16 = 8" by (rule div_nat_eqI) (use f in auto)
  have "(128 + opcode) mod 16 = opcode" using div_mult_mod_eq[of "128 + opcode" 16] d by simp
  with d show "code f div 16 mod 8 = 0 \<and> 128 \<le> code f \<and> code f mod 16 = opcode" using f by simp
qed

lemma length_byte: "128 \<le> code b \<and> code b mod 128 = n \<longleftrightarrow> n < 128 \<and> b = byte (128 + n)"
proof
  assume b: "128 \<le> code b \<and> code b mod 128 = n"
  then have "code b - 128 = n" using code_less[of b] le_mod_geq[of 128 "code b"] by simp
  then have "code b = 128 + n" "n < 128" using b by auto
  then show "n < 128 \<and> b = byte (128 + n)" using byte_code[of b] by simp
qed auto

text \<open>Reading in terms of the leading bytes and what is behind them.\<close>

definition afterHeader :: "nat \<Rightarrow> nat \<Rightarrow> string \<Rightarrow> ws_error + nat \<times> string \<times> string" where
  "afterHeader opcode n s =
     wsRead 4 s (\<lambda>key s. wsRead n s (\<lambda>payload s.
      let payload = unmask key payload
      in case (if opcode = 8 then checkClosePayload payload else None) of Some e \<Rightarrow> Inl e | None \<Rightarrow> Inr (opcode, payload, s)))"

lemma read_frame_eq:
  "readWebSocketClientFrame s = wsRead 1 s (\<lambda>first s. wsRead 1 s (\<lambda>second s.
     if code (hd first) div 16 mod 8 \<noteq> 0 \<or> code (hd first) < 128 \<or> code (hd second) < 128 then Inl WsFlags
     else if code (hd first) mod 16 \<notin> {1, 2, 8, 9, 10} then Inl WsOpcode
     else bindJ (wsLength (code (hd second) mod 128) s) (\<lambda>(n, s).
       if code (hd first) mod 16 \<ge> 8 \<and> n > 125 then Inl WsControlTooLong
       else if n > 4096 then Inl WsTooLong else afterHeader (code (hd first) mod 16) n s)))"
  unfolding readWebSocketClientFrame_def Let_def afterHeader_def maxWebSocketClientFrameBytes_def by (simp cong: if_cong)

lemma read_header:
  "readWebSocketClientFrame s = Inr r \<longleftrightarrow>
     (\<exists>opcode short n t u. opcode \<in> {1, 2, 8, 9, 10} \<and> short < 128 \<and> s = byte (128 + opcode) # byte (128 + short) # t \<and>
        wsLength short t = Inr (n, u) \<and> n \<le> 4096 \<and> (opcode \<ge> 8 \<longrightarrow> n \<le> 125) \<and> afterHeader opcode n u = Inr r)"
  (is "?lhs \<longleftrightarrow> ?rhs")
proof
  assume ?lhs
  then obtain f b t n u where r: "s = f # b # t" "code f div 16 mod 8 = 0" "128 \<le> code f" "128 \<le> code b"
    "code f mod 16 \<in> {1, 2, 8, 9, 10}" "wsLength (code b mod 128) t = Inr (n, u)"
    "n \<le> 4096" "code f mod 16 \<ge> 8 \<longrightarrow> n \<le> 125" "afterHeader (code f mod 16) n u = Inr r"
    unfolding read_frame_eq wsRead_Inr[of 1] bindJ_Inr if_Inr
    by (auto simp: length_one not_le not_less split: prod.splits)
  then have "f = byte (128 + code f mod 16)" "b = byte (128 + code b mod 128)"
    using header_byte[of f "code f mod 16"] length_byte[of b "code b mod 128"] by auto
  moreover have "code b mod 128 < 128" by simp
  ultimately show ?rhs using r by blast
next
  assume ?rhs
  then obtain opcode short n t u where r: "opcode \<in> {1, 2, 8, 9, 10}" "short < 128" "s = byte (128 + opcode) # byte (128 + short) # t"
    "wsLength short t = Inr (n, u)" "n \<le> 4096" "opcode \<ge> 8 \<longrightarrow> n \<le> 125" "afterHeader opcode n u = Inr r" by blast
  have f: "code (byte (128 + opcode)) div 16 mod 8 = 0" "128 \<le> code (byte (128 + opcode))" "code (byte (128 + opcode)) mod 16 = opcode"
    using header_byte[of "byte (128 + opcode)" opcode] r(1) by auto
  have b: "128 \<le> code (byte (128 + short))" "code (byte (128 + short)) mod 128 = short"
    using length_byte[of "byte (128 + short)" short] r(2) by auto
  show ?lhs unfolding read_frame_eq r(3) wsRead_def[of 1] using r(1,4-7) f b by (auto simp: bindJ_def)
qed

lemma read_exact:
  "readWebSocketClientFrame s = Inr (opcode, payload, rest) \<longleftrightarrow>
     clientFrameOK opcode payload \<and> (\<exists>key. length key = 4 \<and> s = clientFrame opcode key payload @ rest)"
  (is "?lhs \<longleftrightarrow> ?rhs")
proof
  assume ?lhs
  then obtain op short n t u where r: "op \<in> {1, 2, 8, 9, 10}" "short < 128" "s = byte (128 + op) # byte (128 + short) # t"
    "wsLength short t = Inr (n, u)" "n \<le> 4096" "op \<ge> 8 \<longrightarrow> n \<le> 125" "afterHeader op n u = Inr (opcode, payload, rest)"
    unfolding read_header by blast
  from r(7) obtain key where k: "opcode = op" "length payload = n" "op = 8 \<longrightarrow> checkClosePayload payload = None" "length key = 4"
    "u = key @ unmask key payload @ rest" unfolding afterHeader_def using read_payload[OF r(5)] by blast
  have "if short < 126 then n = short \<and> t = u else short = 126 \<and> 126 \<le> n \<and> t = bigEndian 2 n @ u"
    using wsLength_Inr[OF r(2), of t n u] r(4,5) by blast
  then have "s = clientFrame opcode key payload @ rest" using r(3) k by (auto simp: clientFrame_def split: if_splits)
  then show ?rhs using r(1,5,6) k by (auto simp: clientFrameOK_def checkClosePayload_iff)
next
  assume ?rhs
  then obtain key where k: "length key = 4" "s = clientFrame opcode key payload @ rest" and ok: "clientFrameOK opcode payload" by blast
  define short where "short = (if length payload < 126 then length payload else 126)"
  define t where "t = (if length payload < 126 then [] else bigEndian 2 (length payload)) @ key @ unmask key payload @ rest"
  have s: "s = byte (128 + opcode) # byte (128 + short) # t" using k by (simp add: clientFrame_def short_def t_def)
  have n: "length payload \<le> 4096" "opcode \<ge> 8 \<longrightarrow> length payload \<le> 125" "opcode \<in> {1, 2, 8, 9, 10}"
    using ok by (auto simp: clientFrameOK_def)
  have "wsLength short t = Inr (length payload, key @ unmask key payload @ rest)"
    using wsLength_Inr[of short t "length payload" "key @ unmask key payload @ rest"] n(1)
    by (auto simp: short_def t_def split: if_splits)
  moreover have "afterHeader opcode (length payload) (key @ unmask key payload @ rest) = Inr (opcode, payload, rest)"
    unfolding afterHeader_def read_payload[OF n(1)] using ok k(1) by (auto simp: clientFrameOK_def checkClosePayload_iff)
  moreover have "short < 128" by (simp add: short_def)
  ultimately show ?lhs unfolding read_header using s n by blast
qed

section \<open>Frames from the server\<close>

text \<open>How a client reads an unmasked frame (RFC 6455).\<close>

definition serverLength :: "nat \<Rightarrow> string \<Rightarrow> nat \<times> string" where
  "serverLength short s =
     (if short = 126 then (bigEndianValue (take 2 s), drop 2 s)
      else if short = 127 then (bigEndianValue (take 8 s), drop 8 s) else (short, s))"

definition parseServerFrame :: "string \<Rightarrow> (nat \<times> string \<times> string) option" where
  "parseServerFrame s =
     (case s of
        f # b # s \<Rightarrow>
          (case serverLength (code b) s of
             (n, s) \<Rightarrow> if length s < n then None else Some (code f - 128, take n s, drop n s))
      | _ \<Rightarrow> None)"

primrec parseServerFrames :: "nat \<Rightarrow> string \<Rightarrow> ((nat \<times> string) list \<times> string) option" where
  "parseServerFrames 0 s = Some ([], s)"
| "parseServerFrames (Suc k) s =
     (case parseServerFrame s of
        None \<Rightarrow> None
      | Some (opcode, payload, s) \<Rightarrow> map_option (\<lambda>(fs, s). ((opcode, payload) # fs, s)) (parseServerFrames k s))"

fun wire :: "(nat \<times> string) list \<Rightarrow> ws_error + string" where
  "wire [] = Inr []"
| "wire (f # fs) = bindJ (writeWebSocketFrame (fst f) (snd f)) (\<lambda>b. map_sum id (\<lambda>bs. b @ bs) (wire fs))"

definition encodable :: "nat \<times> string \<Rightarrow> bool" where
  "encodable f \<longleftrightarrow> fst f \<in> {1, 8, 9, 10} \<and> length (snd f) \<le> 16384 \<and> (fst f \<ge> 8 \<longrightarrow> length (snd f) \<le> 125)"

lemma opcode_or: "opcode \<in> {1, 8, 9, 10} \<Longrightarrow> 128 OR opcode = 128 + (opcode::nat)"
  by auto

lemma frame_parses:
  assumes "encodable f"
  shows "\<exists>b. writeWebSocketFrame (fst f) (snd f) = Inr b \<and> (\<forall>rest. parseServerFrame (b @ rest) = Some (fst f, snd f, rest))"
proof -
  have op: "128 OR fst f = 128 + fst f" "fst f < 128" using assms opcode_or[of "fst f"] by (auto simp: encodable_def)
  show ?thesis using assms op
    by (cases "length (snd f) < 126")
      (auto simp: writeWebSocketFrame_def encodable_def maxWebSocketServerFrameBytes_def parseServerFrame_def serverLength_def)
qed

lemma wire_parses:
  "list_all encodable fs \<Longrightarrow> \<exists>b. wire fs = Inr b \<and> (\<forall>rest. parseServerFrames (length fs) (b @ rest) = Some (fs, rest))"
proof (induction fs)
  case (Cons f fs)
  then obtain b bs where b: "writeWebSocketFrame (fst f) (snd f) = Inr b" "\<forall>rest. parseServerFrame (b @ rest) = Some (fst f, snd f, rest)"
    and bs: "wire fs = Inr bs" "\<forall>rest. parseServerFrames (length fs) (bs @ rest) = Some (fs, rest)"
    using frame_parses[of f] by auto
  then show ?case by (simp add: bindJ_def)
qed simp

section \<open>The session\<close>

definition sendable :: "nat \<times> string \<Rightarrow> bool" where
  "sendable f \<longleftrightarrow> f = pingFrame \<or> (\<exists>p. eventFrame p = Some f) \<or>
     (\<exists>bytes stop. clientReply (readWebSocketClientFrame bytes) = (Some f, stop))"

inductive session :: "wsSession \<Rightarrow> bool" where
  session_new: "session newSession"
| session_begin: "session s \<Longrightarrow> sendable f \<Longrightarrow> writeBegin f s = Some s' \<Longrightarrow> session s'"
| session_locked: "session s \<Longrightarrow> i < length (wsPending s) \<Longrightarrow> session (writeLocked i s)"

lemma closePayload_short: "length (webSocketClosePayload c reason) \<le> 125"
  using truncate_length[of reason 123] by (simp add: webSocketClosePayload_def)

lemma sendable_encodable:
  assumes "sendable f"
  shows "encodable f"
  using assms unfolding sendable_def
proof (elim disjE exE)
  fix bytes stop assume r: "clientReply (readWebSocketClientFrame bytes) = (Some f, stop)"
  show "encodable f"
  proof (cases "readWebSocketClientFrame bytes")
    case (Inl e)
    then show ?thesis using r closePayload_short[of 1002 "''protocol error''"] by (auto simp: clientReply_def encodable_def)
  next
    case (Inr v)
    obtain opcode payload rest where v: "v = (opcode, payload, rest)" by (cases v)
    have "clientFrameOK opcode payload" using Inr v by (simp add: read_exact)
    then show ?thesis using r Inr v closePayload_short[of 1003 "''read-only stream''"]
      by (auto simp: clientReply_def encodable_def clientFrameOK_def split: if_splits)
  qed
qed (auto simp: pingFrame_def eventFrame_def encodable_def maxWebSocketServerFrameBytes_def split: if_splits)

definition closes :: "(nat \<times> string) list \<Rightarrow> nat" where
  "closes fs = length (filter (\<lambda>f. fst f = 8) fs)"

definition sessionInv :: "wsSession \<Rightarrow> bool" where
  "sessionInv s \<longleftrightarrow>
     list_all encodable (wsPending s) \<and> list_all encodable (wsWritten s) \<and>
     closes (wsPending s) + closes (wsWritten s) = (if wsClosing s then 1 else 0) \<and>
     (closes (wsWritten s) \<noteq> 0 \<longrightarrow> closes (butlast (wsWritten s)) = 0)"

lemma closes_simps [simp]: "closes [] = 0" "closes (f # fs) = (if fst f = 8 then Suc (closes fs) else closes fs)"
  "closes (fs @ gs) = closes fs + closes gs"
  by (simp_all add: closes_def)

lemma session_sessionInv: "session s \<Longrightarrow> sessionInv s"
proof (induction rule: session.induct)
  case session_new
  then show ?case by (simp add: sessionInv_def newSession_def)
next
  case (session_begin s f s')
  then show ?case using sendable_encodable[of f] by (auto simp: sessionInv_def writeBegin_def split: if_splits)
next
  case (session_locked s i)
  define f where "f = wsPending s ! i"
  have p: "wsPending s = take i (wsPending s) @ f # drop (Suc i) (wsPending s)"
    using session_locked.hyps(2) by (simp add: f_def id_take_nth_drop)
  define xs ys where "xs = take i (wsPending s)" and "ys = drop (Suc i) (wsPending s)"
  have p: "wsPending s = xs @ f # ys" using p by (simp add: xs_def ys_def)
  show ?case using session_locked.IH unfolding sessionInv_def writeLocked_def Let_def f_def[symmetric] xs_def[symmetric] ys_def[symmetric]
    by (auto simp: p split: if_splits)
qed

lemma closes_last: "closes fs \<noteq> 0 \<longrightarrow> closes (butlast fs) = 0 \<Longrightarrow> k < length fs \<Longrightarrow> fst (fs ! k) = 8 \<Longrightarrow> Suc k = length fs"
proof (rule ccontr)
  assume a: "closes fs \<noteq> 0 \<longrightarrow> closes (butlast fs) = 0" "k < length fs" "fst (fs ! k) = 8" "Suc k \<noteq> length fs"
  then have k: "k < length (butlast fs)" by auto
  then have "fs ! k \<in> set (butlast fs)" using nth_mem[OF k] by (simp add: nth_butlast)
  then have "closes (butlast fs) \<noteq> 0" "closes fs \<noteq> 0" using a(2,3) nth_mem[OF a(2)] by (auto simp: closes_def filter_empty_conv)
  then show False using a(1) by simp
qed

section \<open>The upgrade\<close>

text \<open>The key is accepted exactly when it is the encoding of a nonce of sixteen bytes.\<close>

lemma upgrade_key:
  "validateEngineLogWebSocketRequest r = Inr key \<longleftrightarrow>
     firstError (upgradeChecks r) = None \<and> key = trim_space (headerValues ''Sec-WebSocket-Key'' (lrHeaders r) ! 0) \<and>
     (\<exists>nonce. length nonce = 16 \<and> key = base64Encode nonce)"
  by (auto simp: validateEngineLogWebSocketRequest_def base64_roundtrip Let_def simp del: firstError_None split: option.splits)

lemma logs_capacity: "serveLogs sha1 r busy h = (reply, busy', h') \<Longrightarrow> busy \<le> maxEngineLogWebSockets \<Longrightarrow> busy' \<le> maxEngineLogWebSockets"
  by (auto simp: serveLogs_def split: sum.splits if_splits prod.splits option.splits)

section \<open>Properties\<close>

text \<open>C14: The frame reader accepts exactly the final, masked frames of RFC 6455 in their shortest
  encoding, with a known opcode, at most 4096 bytes, at most 125 in a control frame and a sound
  close payload; it returns the payload the client masked and leaves the bytes behind the frame.\<close>

theorem client_frames_exact:
  "readWebSocketClientFrame s = Inr (opcode, payload, rest) \<longleftrightarrow>
     clientFrameOK opcode payload \<and> (\<exists>key. length key = 4 \<and> s = clientFrame opcode key payload @ rest)"
  by (rule read_exact)

text \<open>C15: Whatever the client sends and however the three writers of a session interleave, what goes
  out is a well-formed sequence of frames: every frame handed to the writer can be encoded, a
  client that parses the stream gets exactly those frames, and a close frame is the last one.\<close>

theorem session_stream_wellformed:
  assumes "session s"
  shows "\<exists>bytes. wire (wsWritten s) = Inr bytes \<and>
      parseServerFrames (length (wsWritten s)) bytes = Some (wsWritten s, []) \<and>
      (\<forall>k<length (wsWritten s). fst (wsWritten s ! k) = 8 \<longrightarrow> Suc k = length (wsWritten s))"
proof -
  have inv: "sessionInv s" by (rule session_sessionInv[OF assms])
  then obtain bytes where b: "wire (wsWritten s) = Inr bytes"
    "\<forall>rest. parseServerFrames (length (wsWritten s)) (bytes @ rest) = Some (wsWritten s, rest)"
    using wire_parses[of "wsWritten s"] by (auto simp: sessionInv_def)
  then have "parseServerFrames (length (wsWritten s)) bytes = Some (wsWritten s, [])" by (metis append_Nil2)
  then show ?thesis using b(1) inv closes_last[of "wsWritten s"] by (auto simp: sessionInv_def)
qed

text \<open>An event and a protocol error race: the event's call is pending when the close begins.\<close>

definition exSession :: wsSession where
  "exSession = writeLocked 0 (writeLocked 1
     (the (writeBegin (8, webSocketClosePayload 1002 ''protocol error'') (the (writeBegin (1, ''event'') newSession)))))"

lemma exSession_session: "session exSession"
proof -
  have f: "sendable (1, ''event'')" by (auto simp: sendable_def eventFrame_def maxWebSocketServerFrameBytes_def intro!: exI[of _ "''event''"])
  have g: "sendable (8, webSocketClosePayload 1002 ''protocol error'')"
    unfolding sendable_def by (rule disjI2, rule disjI2, rule exI[of _ "[]"], rule exI[of _ True]) (simp add: clientReply_def readWebSocketClientFrame_def wsRead_def)
  have "session (newSession\<lparr>wsPending := [(1, ''event'')]\<rparr>)"
    by (rule session_begin[OF session_new f]) (simp add: writeBegin_def newSession_def)
  then have "session (newSession\<lparr>wsClosing := True, wsPending := [(1, ''event''), (8, webSocketClosePayload 1002 ''protocol error'')]\<rparr>)"
    by (rule session_begin[OF _ g]) (simp add: writeBegin_def newSession_def)
  then have "session (writeLocked 1 (newSession\<lparr>wsClosing := True, wsPending := [(1, ''event''), (8, webSocketClosePayload 1002 ''protocol error'')]\<rparr>))"
    by (rule session_locked) simp
  then have "session (writeLocked 0 (writeLocked 1 (newSession\<lparr>wsClosing := True, wsPending := [(1, ''event''), (8, webSocketClosePayload 1002 ''protocol error'')]\<rparr>)))"
    by (rule session_locked) (simp add: writeLocked_def newSession_def Let_def)
  then show ?thesis by (simp add: exSession_def writeBegin_def newSession_def)
qed

theorem session_stream_wellformed_witness:
  "length (wsWritten exSession) = 1 \<and> (\<exists>bytes. parseServerFrames 1 bytes = Some (wsWritten exSession, []))"
proof -
  have "length (wsWritten exSession) = 1" by (simp add: exSession_def writeBegin_def newSession_def writeLocked_def Let_def)
  then show ?thesis using session_stream_wellformed[OF exSession_session] by auto
qed

end
