(* ===== verification/Control_Api.thy ===== *)
theory Control_Api
  imports Config_Store_Properties
begin

text \<open>
  The machine-only control API (control_api.go, control_peer_identity.go): the routes and their
  handlers over the bundle manager, the mapping of errors to codes and statuses, and the check of
  the connecting process on every accept. JSON is written from values; the decoder of a commit
  request, the account database and the kernel's answer about a peer are arguments.
\<close>

section \<open>Replies\<close>

definition controlAPISchema :: int where "controlAPISchema = 3"
definition controlMaxRequestBytes :: nat where "controlMaxRequestBytes = 32 * 2 ^ 20"

record capabilitiesResponse =
  capSchema :: int
  capVersion :: string
  capInstance :: string
  capFeatures :: "(string \<times> nat) list"
  capLimits :: "(string \<times> nat) list"
  capPaths :: "(string \<times> string) list"

datatype control_reply =
    Capabilities capabilitiesResponse | State bundleReadback | PluginList string "pluginStatus list"
  | Staged string string | Committed string string "64 word" | NoContent
  | Failed int string | RouteNotFound | MethodNotAllowed | Died

definition errorCode :: "bundle_error \<Rightarrow> string \<times> int" where
  "errorCode e =
     (if e = errBundleNotFound then (''not_found'', 404)
      else if e = errBundleConflict then (''cas_conflict'', 409)
      else if e = errBundleWrongState then (''wrong_state'', 409)
      else if e = errBundleSchema then (''unsupported_schema'', 400)
      else if e = errBundleInvalidDocument then (''invalid_document'', 400)
      else if e = errBundleCorrupt then (''store_corrupt'', 500)
      else (''internal'', 500))"

definition writeError :: "bundle_error \<Rightarrow> control_reply" where
  "writeError e = (case errorCode e of (c, status) \<Rightarrow> Failed status c)"

definition replyWith :: "('a \<Rightarrow> manager \<Rightarrow> control_reply) \<Rightarrow> 'a outcome \<times> manager \<Rightarrow> control_reply \<times> manager" where
  "replyWith f r =
     (case r of (Ret v, m) \<Rightarrow> (f v m, m) | (Err e, m) \<Rightarrow> (writeError e, m) | (Crashed, m) \<Rightarrow> (Died, m))"

section \<open>Handlers\<close>

definition handleCapabilities :: "string \<Rightarrow> string \<Rightarrow> manager \<Rightarrow> control_reply" where
  "handleCapabilities version dir m =
     Capabilities \<lparr>capSchema = controlAPISchema, capVersion = version, capInstance = mgrInstanceID m,
       capFeatures = [(''bundles'', 1), (''plugins'', 1), (''engine-logs'', 1)],
       capLimits = [(''maxBundleBytes'', controlMaxRequestBytes)], capPaths = [(''store'', dir)]\<rparr>"

definition handleState :: "string \<Rightarrow> 64 word \<Rightarrow> manager \<Rightarrow> control_reply \<times> manager" where
  "handleState version dropped m = replyWith (\<lambda>rb _. State rb) (Readback version dropped m)"

definition handlePlugins :: "manager \<Rightarrow> control_reply" where
  "handlePlugins m = (case Plugins m of (active, ps) \<Rightarrow> PluginList active ps)"

text \<open>The body of a request: \<open>None\<close> when reading it fails.\<close>

definition handleStage :: "(string \<Rightarrow> string) \<Rightarrow> (string \<Rightarrow> Config option) \<Rightarrow> string \<Rightarrow> string option \<Rightarrow> manager \<Rightarrow> control_reply \<times> manager" where
  "handleStage sha decode i body m =
     (case body of
        None \<Rightarrow> (writeError errUnclassified, m)
      | Some b \<Rightarrow> replyWith (\<lambda>digest _. Staged i digest) (Stage sha decode i (take controlMaxRequestBytes b) m))"

text \<open>
  The request of a commit is read only when its length was declared; \<open>decodeCommit\<close> gives the
  field \<^verbatim>\<open>expectedActiveBundle\<close> of the first JSON value of the body.
\<close>

definition commitExpectation :: "(string \<Rightarrow> string option) \<Rightarrow> int \<Rightarrow> string \<Rightarrow> string option" where
  "commitExpectation decodeCommit contentLength body =
     (if contentLength > 0 then decodeCommit (take (2 ^ 20) body) else Some [])"

definition handleCommit :: "(string \<Rightarrow> string) \<Rightarrow> (string \<Rightarrow> Config option) \<Rightarrow> (string \<Rightarrow> string option) \<Rightarrow>
    string \<Rightarrow> int \<Rightarrow> string \<Rightarrow> manager \<Rightarrow> control_reply \<times> manager" where
  "handleCommit sha decode decodeCommit i contentLength body m =
     (case commitExpectation decodeCommit contentLength body of
        None \<Rightarrow> (writeError errUnclassified, m)
      | Some expected \<Rightarrow>
          replyWith (\<lambda>digest m. Committed i digest (mgrGeneration m)) (Commit sha decode i expected m))"

definition handleAbort :: "(string \<Rightarrow> string) \<Rightarrow> string \<Rightarrow> manager \<Rightarrow> control_reply \<times> manager" where
  "handleAbort sha i m = replyWith (\<lambda>_ _. NoContent) (Abort sha i m)"

definition handlePurge :: "manager \<Rightarrow> control_reply \<times> manager" where
  "handlePurge m = replyWith (\<lambda>_ _. NoContent) (Purge m)"

section \<open>Routes\<close>

record controlRequest =
  rqMethod :: string
  rqSegments :: "string list"
  rqContentLength :: int
  rqBody :: "string option"

datatype control_endpoint =
  EpCapabilities | EpState | EpPlugins | EpStage string | EpCommit string | EpAbort string | EpPurge

text \<open>
  The patterns of the mux with their methods, by the unescaped segments of a clean path; a \<^verbatim>\<open>GET\<close>
  pattern also serves \<^verbatim>\<open>HEAD\<close>.
\<close>

definition endpointsAt :: "string list \<Rightarrow> (string list \<times> control_endpoint) list" where
  "endpointsAt segments =
     (case segments of
        [a] \<Rightarrow>
          (if a = ''capabilities'' then [([''GET'', ''HEAD''], EpCapabilities)]
           else if a = ''state'' then [([''GET'', ''HEAD''], EpState)]
           else if a = ''plugins'' then [([''GET'', ''HEAD''], EpPlugins)]
           else if a = ''bundles'' then [([''DELETE''], EpPurge)] else [])
      | [a, i] \<Rightarrow> (if a = ''bundles'' \<and> i \<noteq> [] then [([''PUT''], EpStage i)] else [])
      | [a, i, b] \<Rightarrow>
          (if a = ''bundles'' \<and> i \<noteq> [] \<and> b = ''commit'' then [([''POST''], EpCommit i)]
           else if a = ''bundles'' \<and> i \<noteq> [] \<and> b = ''abort'' then [([''POST''], EpAbort i)] else [])
      | _ \<Rightarrow> [])"

definition routeOf :: "controlRequest \<Rightarrow> control_reply + control_endpoint" where
  "routeOf r =
     (case endpointsAt (rqSegments r) of
        [] \<Rightarrow> Inl RouteNotFound
      | es \<Rightarrow> (case filter (\<lambda>(ms, _). rqMethod r \<in> set ms) es of
                 [] \<Rightarrow> Inl MethodNotAllowed
               | (_, e) # _ \<Rightarrow> Inr e))"

record controlServer =
  csvSHA :: "string \<Rightarrow> string"
  csvDecode :: "string \<Rightarrow> Config option"
  csvDecodeCommit :: "string \<Rightarrow> string option"
  csvVersion :: string
  csvDir :: string

definition serveControl :: "controlServer \<Rightarrow> 64 word \<Rightarrow> controlRequest \<Rightarrow> manager \<Rightarrow> control_reply \<times> manager" where
  "serveControl c dropped r m =
     (case routeOf r of
        Inl reply \<Rightarrow> (reply, m)
      | Inr e \<Rightarrow>
          (case e of
             EpCapabilities \<Rightarrow> (handleCapabilities (csvVersion c) (csvDir c) m, m)
           | EpState \<Rightarrow> handleState (csvVersion c) dropped m
           | EpPlugins \<Rightarrow> (handlePlugins m, m)
           | EpStage i \<Rightarrow> handleStage (csvSHA c) (csvDecode c) i (rqBody r) m
           | EpCommit i \<Rightarrow> handleCommit (csvSHA c) (csvDecode c) (csvDecodeCommit c) i (rqContentLength r)
               (case rqBody r of None \<Rightarrow> [] | Some b \<Rightarrow> b) m
           | EpAbort i \<Rightarrow> handleAbort (csvSHA c) i m
           | EpPurge \<Rightarrow> handlePurge m))"

section \<open>The peer\<close>

datatype peer_error = UserAndUID | UnknownUser | UserNotNumeric | GroupAndGID | UnknownGroup | GroupNotNumeric

text \<open>One name against one number; the lookup gives the identifier as text.\<close>

definition resolveName :: "(string \<Rightarrow> string option) \<Rightarrow> peer_error \<times> peer_error \<times> peer_error \<Rightarrow> string \<Rightarrow> int \<Rightarrow> peer_error + int" where
  "resolveName lookup errs name number =
     (case errs of (both, unknown, nonNumeric) \<Rightarrow>
        if trim_space name = [] then Inr number
        else if number \<ge> 0 then Inl both
        else case lookup (trim_space name) of
          None \<Rightarrow> Inl unknown
        | Some text \<Rightarrow> (case atoi text of None \<Rightarrow> Inl nonNumeric | Some n \<Rightarrow> Inr n))"

definition resolvePeerIdentity :: "(string \<Rightarrow> string option) \<Rightarrow> (string \<Rightarrow> string option) \<Rightarrow> string \<Rightarrow> string \<Rightarrow> int \<Rightarrow> int \<Rightarrow> peer_error + int \<times> int" where
  "resolvePeerIdentity lookupUser lookupGroup userName groupName uid gid =
     bindJ (resolveName lookupUser (UserAndUID, UnknownUser, UserNotNumeric) userName uid) (\<lambda>uid.
     bindJ (resolveName lookupGroup (GroupAndGID, UnknownGroup, GroupNotNumeric) groupName gid) (\<lambda>gid. Inr (uid, gid)))"

text \<open>
  \<^verbatim>\<open>Accept\<close> on the connections that arrive, each with what the kernel says of its peer. The result is
  the connection that is handed on with the number of those closed before it, or \<open>None\<close> when the
  listener ends first.
\<close>

fun acceptPeer :: "int \<Rightarrow> int \<Rightarrow> (nat \<times> (int \<times> int) option) list \<Rightarrow> (nat \<times> nat) option" where
  "acceptPeer uid gid [] = None"
| "acceptPeer uid gid ((conn, cred) # rest) =
     (if uid < 0 \<and> gid < 0 then Some (conn, 0)
      else case cred of
        None \<Rightarrow> map_option (apsnd Suc) (acceptPeer uid gid rest)
      | Some (u, g) \<Rightarrow>
          (if uid \<ge> 0 \<and> u \<noteq> uid then map_option (apsnd Suc) (acceptPeer uid gid rest)
           else if gid \<ge> 0 \<and> g \<noteq> gid then map_option (apsnd Suc) (acceptPeer uid gid rest)
           else Some (conn, 0)))"

end
