(* ===== verification/Control_Properties.thy ===== *)
theory Control_Properties
  imports Control_Api
begin

text \<open>
  What the control API tells its coordinator holds of the process it talks to, and the peer a
  deployment names is the only one it talks to.
\<close>

section \<open>Routes and replies\<close>

lemma routeOf_commit_id: "routeOf r = Inr (EpCommit i) \<Longrightarrow> i \<noteq> []"
  by (auto simp: routeOf_def endpointsAt_def split: list.splits if_splits)

lemma replyWith_cases:
  assumes "replyWith f r = (reply, m')"
  obtains (ret) v where "r = (Ret v, m')" "reply = f v m'"
    | (err) e where "r = (Err e, m')" "reply = writeError e"
    | (dead) "r = (Crashed, m')" "reply = Died"
  using assms by (cases r rule: outcome_cases3) (auto simp: replyWith_def)

lemma writeError_Failed: "\<exists>s c. writeError e = Failed s c"
  by (auto simp: writeError_def split: prod.splits)

text \<open>What a reply may say, given the endpoint it answers.\<close>

definition replyHolds :: "(string \<Rightarrow> string) \<Rightarrow> (string \<Rightarrow> Config option) \<Rightarrow> bool \<Rightarrow> manager \<Rightarrow> control_reply \<Rightarrow> manager \<Rightarrow> bool" where
  "replyHolds sha decode purging m reply m' =
     (case reply of
        Committed i d g \<Rightarrow> mgrActiveID m' = i \<and> mgrActiveDigest m' = d \<and> mgrGeneration m' = g \<and> mgrActive m' \<noteq> None
      | Staged i d \<Rightarrow> live m' = live m \<and> (\<exists>doc. d = sha doc \<and> decode doc \<noteq> None) \<and>
          (\<exists>c r. mrecs m' i = Some c \<and> checkRecord sha i c = Inr r \<and> recDigest r = d)
      | NoContent \<Rightarrow> if purging then mgrActive m' = None \<and> mrecs m' = Map.empty \<and> mptr m' = None else live m' = live m
      | Failed s c \<Rightarrow> if purging then mgrActive m' = None else live m' = live m
      | Died \<Rightarrow> True
      | _ \<Rightarrow> live m' = live m)"

lemma stage_reply:
  assumes "handleStage sha decode i body m = (reply, m')"
  shows "replyHolds sha decode False m reply m'"
proof (cases body)
  case None
  then show ?thesis using assms writeError_Failed[of errUnclassified] by (auto simp: handleStage_def replyHolds_def)
next
  case (Some b)
  define doc where "doc = take controlMaxRequestBytes b"
  have "replyWith (\<lambda>digest _. Staged i digest) (Stage sha decode i doc m) = (reply, m')"
    using assms Some by (simp add: handleStage_def doc_def)
  then show ?thesis
  proof (cases rule: replyWith_cases)
    case (ret d)
    then show ?thesis using Stage_spec(2,5)[OF ret(1)] by (auto simp: replyHolds_def)
  next
    case (err e)
    then show ?thesis using Stage_spec(2)[OF err(1)] writeError_Failed[of e] by (auto simp: replyHolds_def)
  qed (simp add: replyHolds_def)
qed

lemma commit_reply:
  assumes inv: "managerInv sha decode m" and i: "i \<noteq> []"
    and run: "handleCommit sha decode decodeCommit i n body m = (reply, m')"
  shows "replyHolds sha decode False m reply m'"
proof (cases "commitExpectation decodeCommit n body")
  case None
  then show ?thesis using run writeError_Failed[of errUnclassified] by (auto simp: handleCommit_def replyHolds_def)
next
  case (Some e)
  then have "replyWith (\<lambda>digest m. Committed i digest (mgrGeneration m)) (Commit sha decode i e m) = (reply, m')"
    using run by (simp add: handleCommit_def)
  then show ?thesis
  proof (cases rule: replyWith_cases)
    case (ret d)
    show ?thesis
    proof (cases "mgrActiveID m = i")
      case True
      then have "m' = m" "d = mgrActiveDigest m" using ret(1) by (auto simp: Commit_def)
      moreover have "mgrActive m \<noteq> None" using inv True i by (auto simp: managerInv_def servedFrom_def live_def split: option.splits)
      ultimately show ?thesis using ret(2) True by (simp add: replyHolds_def)
    next
      case False
      obtain cfg where "live m' = (Some (mgrAllocs m, cfg), i, d, True, mgrGeneration m + 1, Suc (mgrAllocs m))"
        using Commit_Ret[OF ret(1) False] by metis
      then show ?thesis using ret(2) by (auto simp: replyHolds_def live_def)
    qed
  next
    case (err er)
    then show ?thesis using Commit_not_Ret_live(1)[OF err(1)] writeError_Failed[of er] by (auto simp: replyHolds_def)
  qed (simp add: replyHolds_def)
qed

lemma abort_reply:
  assumes "handleAbort sha i m = (reply, m')"
  shows "replyHolds sha decode False m reply m'"
  using assms unfolding handleAbort_def
proof (cases rule: replyWith_cases)
  case (ret v)
  then show ?thesis using Abort_spec(2)[of sha i m] by (auto simp: replyHolds_def)
next
  case (err e)
  then show ?thesis using Abort_spec(2)[of sha i m] writeError_Failed[of e] by (auto simp: replyHolds_def)
qed (simp_all add: replyHolds_def)

lemma purge_reply:
  assumes "handlePurge m = (reply, m')"
  shows "replyHolds sha decode True m reply m'"
  using assms unfolding handlePurge_def
proof (cases rule: replyWith_cases)
  case (ret v)
  then show ?thesis using Purge_spec[of m] by (auto simp: replyHolds_def live_def)
next
  case (err e)
  then show ?thesis using Purge_spec(1)[of m] writeError_Failed[of e] by (auto simp: replyHolds_def live_def)
qed (simp_all add: replyHolds_def)

lemma state_reply:
  assumes "handleState version dropped m = (reply, m')"
  shows "replyHolds sha decode False m reply m'"
proof -
  have l: "live m' = live m" if "Readback version dropped m = (x, m')" for x
    using that List_sameStore[of m] by (auto simp: Readback_def Let_def sameStore_def sameExcept_def split: prod.splits outcome.splits)
  show ?thesis using assms unfolding handleState_def
  proof (cases rule: replyWith_cases)
    case (err e)
    then show ?thesis using l writeError_Failed[of e] by (auto simp: replyHolds_def)
  qed (auto simp: replyHolds_def l)
qed

lemma read_replies: "replyHolds sha decode p m (handleCapabilities version dir m') m" "replyHolds sha decode p m (handlePlugins m') m"
  by (simp_all add: replyHolds_def handleCapabilities_def handlePlugins_def split: prod.splits)

lemma live_mgrWithIO_reply: "replyHolds sha decode p (mgrWithIO xs ts m) reply m' = replyHolds sha decode p m reply m'"
  by (simp add: replyHolds_def split: control_reply.splits)

section \<open>Properties\<close>


definition exServer :: controlServer where
  "exServer = \<lparr>csvSHA = exSha, csvDecode = exDecode, csvDecodeCommit = (\<lambda>_. None), csvVersion = ''v'', csvDir = ''store''\<rparr>"

definition exCommitRequest :: controlRequest where
  "exCommitRequest = \<lparr>rqMethod = ''POST'', rqSegments = [''bundles'', ''a'', ''commit''], rqContentLength = 0, rqBody = None\<rparr>"


text \<open>C13: A named peer is enforced. When the service was started with a user name, a connection it
  accepts belongs to that user, and likewise for a group; nothing in the resolution of the name
  can turn the restriction off, provided the account database gives non-negative numbers.\<close>

theorem named_peer_enforced:
  assumes "resolvePeerIdentity lookupUser lookupGroup userName groupName uid gid = Inr (u, g)"
    and "\<forall>name text n. lookupUser name = Some text \<and> atoi text = Some n \<longrightarrow> 0 \<le> n"
    and "\<forall>name text n. lookupGroup name = Some text \<and> atoi text = Some n \<longrightarrow> 0 \<le> n"
    and "acceptPeer u g arriving = Some (conn, k)"
  shows "\<exists>cred. (conn, cred) \<in> set arriving \<and>
    (trim_space userName \<noteq> [] \<longrightarrow> (\<exists>cu cg text. cred = Some (cu, cg) \<and> lookupUser (trim_space userName) = Some text \<and> atoi text = Some cu)) \<and>
    (trim_space groupName \<noteq> [] \<longrightarrow> (\<exists>cu cg text. cred = Some (cu, cg) \<and> lookupGroup (trim_space groupName) = Some text \<and> atoi text = Some cg))"
proof -
  have accepted: "\<exists>cred. (conn, cred) \<in> set arriving \<and> (0 \<le> u \<longrightarrow> (\<exists>cg. cred = Some (u, cg))) \<and> (0 \<le> g \<longrightarrow> (\<exists>cu. cred = Some (cu, g)))"
    using assms(4)
  proof (induction arriving arbitrary: k)
    case (Cons a arriving)
    obtain c cred where a: "a = (c, cred)" by force
    show ?case using Cons.prems Cons.IH by (auto simp: a split: if_splits option.splits prod.splits)
  qed simp
  have user: "0 \<le> u \<and> (\<exists>text. lookupUser (trim_space userName) = Some text \<and> atoi text = Some u)" if "trim_space userName \<noteq> []"
    using assms(1,2) that by (auto simp: resolvePeerIdentity_def resolveName_def bindJ_def split: sum.splits if_splits option.splits)
  have grp: "0 \<le> g \<and> (\<exists>text. lookupGroup (trim_space groupName) = Some text \<and> atoi text = Some g)" if "trim_space groupName \<noteq> []"
    using assms(1,3) that by (auto simp: resolvePeerIdentity_def resolveName_def bindJ_def split: sum.splits if_splits option.splits)
  from accepted show ?thesis using user grp by blast
qed

definition exAccounts :: "string \<Rightarrow> string option" where
  "exAccounts name = (if name = ''gateway'' then Some ''998'' else None)"

theorem named_peer_enforced_witness:
  "\<exists>cred. (2 :: nat, cred) \<in> set [(1, Some (0, 0)), (2, Some (998, 5 :: int))] \<and>
     (\<exists>cu cg text. cred = Some (cu, cg) \<and> exAccounts ''gateway'' = Some text \<and> atoi text = Some cu)"
proof -
  have a: "atoi ''998'' = Some 998" by code_simp
  have t: "trim_space '' gateway'' = ''gateway''" "trim_space [] = []" by code_simp+
  have r: "resolvePeerIdentity exAccounts exAccounts '' gateway'' [] (- 1) (- 1) = Inr (998, - 1)"
    by (simp add: resolvePeerIdentity_def resolveName_def bindJ_def exAccounts_def t a)
  have n: "\<forall>name text n. exAccounts name = Some text \<and> atoi text = Some n \<longrightarrow> 0 \<le> n"
    using a by (auto simp: exAccounts_def split: if_splits)
  have "acceptPeer 998 (- 1) [(1, Some (0, 0)), (2, Some (998, 5))] = Some (2, 1)" by simp
  from named_peer_enforced[OF r n n this] show ?thesis unfolding t by blast
qed

section \<open>What a request can lose\<close>

text \<open>Without a declared length the body of a commit is not read: the expectation it carries is lost.\<close>

lemma undeclared_commit_expects_nothing:
  assumes "n \<le> 0"
  shows "handleCommit sha decode decodeCommit i n body m = handleCommit sha decode decodeCommit i 0 [] m"
  using assms by (simp add: handleCommit_def commitExpectation_def)

text \<open>A bundle over the limit is staged as its first 32 MiB.\<close>

lemma oversized_bundle_truncated:
  assumes "length doc = controlMaxRequestBytes"
  shows "handleStage sha decode i (Some (doc @ excess)) m = handleStage sha decode i (Some doc) m"
  using assms by (simp add: handleStage_def)

end
