(* ===== verification/Http_Headers.thy ===== *)
theory Http_Headers
  imports Json_Decode
begin

text \<open>
  Header and trailer fields on their way through the proxy (proxy.go, module_runtime.go,
  module_network.go, content_encoding.go): the hop-by-hop fields that end here, the TE field, what
  a script or an origin may put into a block, the declared trailers and the content coding.

  A header is an association list with one entry per key; a loop over its keys is a fold over
  them. Where the loop deletes while it iterates, the deletions commute.
\<close>

section \<open>Names and values\<close>

definition maxModuleNetworkHeaderBytes :: nat where "maxModuleNetworkHeaderBytes = 64 * 2 ^ 10"
definition maxScriptHeaderFields :: nat where "maxScriptHeaderFields = 256"
definition maxScriptHeaderValues :: nat where "maxScriptHeaderValues = 512"
definition maxScriptHeaderValueBytes :: nat where "maxScriptHeaderValueBytes = 16 * 2 ^ 10"

definition validModuleNetworkHeaderName :: "string \<Rightarrow> bool" where
  "validModuleNetworkHeaderName name \<longleftrightarrow> name \<noteq> [] \<and> list_all isTokenByte name"

definition validModuleNetworkMethod :: "string \<Rightarrow> bool" where
  "validModuleNetworkMethod m \<longleftrightarrow> m \<noteq> [] \<and> list_all isTokenByte m"

definition validHTTPHeaderValue :: "string \<Rightarrow> bool" where
  "validHTTPHeaderValue v = list_all (\<lambda>c. \<not> (code c = 127 \<or> code c < 32 \<and> code c \<noteq> 9)) v"

definition equalFold :: "string \<Rightarrow> string \<Rightarrow> bool" where
  "equalFold a b \<longleftrightarrow> to_lower a = to_lower b"

section \<open>Hop-by-hop fields\<close>

definition isHopByHopHeader :: "string \<Rightarrow> bool" where
  "isHopByHopHeader name \<longleftrightarrow>
     to_lower name \<in> set [''connection'', ''proxy-connection'', ''keep-alive'', ''proxy-authenticate'', ''proxy-authorization'',
       ''te'', ''trailer'', ''transfer-encoding'', ''upgrade'']"

text \<open>The names the \<^verbatim>\<open>Connection\<close> field lists.\<close>

definition connectionNames :: "headers \<Rightarrow> string list" where
  "connectionNames h = concat (map (\<lambda>v. map trim_space (split_on CHR '','' v)) (headerValues ''Connection'' h))"

definition connectionListsHeader :: "headers \<Rightarrow> string \<Rightarrow> bool" where
  "connectionListsHeader h want = list_ex (\<lambda>name. equalFold name want) (connectionNames h)"

definition cloneProxyHeaders :: "headers \<Rightarrow> headers" where
  "cloneProxyHeaders source = source"

definition copyResponseHeaders :: "headers \<Rightarrow> headers \<Rightarrow> headers" where
  "copyResponseHeaders destination source =
     fold (\<lambda>(name, values) d. if isHopByHopHeader name \<or> connectionListsHeader source name then d else AList.update name values d)
       source destination"

definition removeHopByHopHeaders :: "headers \<Rightarrow> headers" where
  "removeHopByHopHeaders h =
     (let h = fold (\<lambda>name h. if validModuleNetworkHeaderName name then headerDel name h else h) (connectionNames h) h
      in fold (\<lambda>name h. if isHopByHopHeader name then headerDel name h else h) (map fst h) h)"

definition requestTEIsTrailers :: "headers \<Rightarrow> bool" where
  "requestTEIsTrailers h =
     (let fields = filter (\<lambda>(name, _). equalFold name ''Te'') h; values = concat (map snd fields)
      in length fields = 1 \<and> length values = 1 \<and> equalFold (trim_space (values ! 0)) ''trailers'')"

definition sanitizeForwardRequestHeaders :: "headers \<Rightarrow> headers" where
  "sanitizeForwardRequestHeaders h =
     (let preserveTrailers = requestTEIsTrailers h; h = removeHopByHopHeaders h
      in if preserveTrailers then headerSet ''Te'' ''trailers'' h else h)"

datatype header_error =
    DuplicateTE | BadTE | HopByHop string | TooManyFields | InvalidName string | DuplicateName string string
  | HeadersTooLong | InvalidValue string | ValueTooLong string | TooManyValues | NotScalar string | NotAnObject
  | InvalidTrailer string | NotPermitted string | Managed string | LineBreak string

definition normalizeRequestTEHeader :: "headers \<Rightarrow> header_error + headers" where
  "normalizeRequestTEHeader h =
     (case filter (\<lambda>(name, _). equalFold name ''Te'') h of
        [] \<Rightarrow> Inr h
      | [(name, values)] \<Rightarrow>
          (if length values \<noteq> 1 \<or> \<not> equalFold (trim_space (values ! 0)) ''trailers'' then Inl BadTE
           else Inr (headerSet ''Te'' ''trailers'' (AList.delete name h)))
      | _ \<Rightarrow> Inl DuplicateTE)"

definition validateNativePatchHeaders :: "bool \<Rightarrow> headers \<Rightarrow> header_error + headers" where
  "validateNativePatchHeaders response h =
     bindJ (if response then Inr h else normalizeRequestTEHeader h) (\<lambda>h.
       case filter (\<lambda>name. isHopByHopHeader name \<and> \<not> (\<not> response \<and> equalFold name ''Te'')) (sort (map fst h)) of
         [] \<Rightarrow> Inr h
       | name # _ \<Rightarrow> Inl (HopByHop name))"

text \<open>The fields of a request an extension sends on its own.\<close>

definition managedHeader :: "string \<Rightarrow> bool" where
  "managedHeader name \<longleftrightarrow> to_lower name \<in> set [''host'', ''content-length'', ''proxy-authorization'']"

fun networkHeaderSize :: "headers \<Rightarrow> header_error + nat" where
  "networkHeaderSize [] = Inr 0"
| "networkHeaderSize ((name, values) # h) =
     (if \<not> validModuleNetworkHeaderName name \<or> isHopByHopHeader name \<and> \<not> equalFold name ''Te'' then Inl (NotPermitted name)
      else if managedHeader name then Inl (Managed name)
      else if list_ex hasNewline values then Inl (LineBreak name)
      else map_sum id (\<lambda>n. length name + sum_list (map length values) + n) (networkHeaderSize h))"

definition validateModuleNetworkHeaders :: "headers \<Rightarrow> header_error + headers" where
  "validateModuleNetworkHeaders h =
     bindJ (normalizeRequestTEHeader h) (\<lambda>h. bindJ (networkHeaderSize h) (\<lambda>size.
       if size > maxModuleNetworkHeaderBytes then Inl HeadersTooLong else Inr h))"

section \<open>What a script exports\<close>

text \<open>
  A value that came out of the script engine, by its Go type: a number that is not whole carries its
  value and the text \<^verbatim>\<open>fmt.Sprint\<close> gives it, \<open>ExBytes\<close> is a byte slice or an array buffer, the last
  three maps are the ones with one value type, and \<open>ExWrapped\<close> is a value the host had put in and
  that was handed back without being exported.
\<close>

datatype exported =
    ExNil | ExString string | ExBool bool | ExInt int | ExFloat rat string | ExNumber string | ExBytes string
  | ExList "exported list" | ExStrings "string list" | ExMap "(string \<times> exported) list"
  | ExStringMap "(string \<times> string) list" | ExHeader "(string \<times> string list) list" | ExWrapped exported | ExOther

record scriptHeaderBudget =
  budgetValues :: nat
  budgetBytes :: nat

definition addField :: "string \<Rightarrow> scriptHeaderBudget \<Rightarrow> header_error + scriptHeaderBudget" where
  "addField name b =
     (let b = b\<lparr>budgetBytes := budgetBytes b + length name\<rparr>
      in if budgetBytes b > maxModuleNetworkHeaderBytes then Inl HeadersTooLong else Inr b)"

definition addValue :: "string \<Rightarrow> string \<Rightarrow> scriptHeaderBudget \<Rightarrow> header_error + scriptHeaderBudget" where
  "addValue name v b =
     (if \<not> validHTTPHeaderValue v then Inl (InvalidValue name)
      else if length v > maxScriptHeaderValueBytes then Inl (ValueTooLong name)
      else
        (let b = b\<lparr>budgetValues := Suc (budgetValues b)\<rparr>
         in if budgetValues b > maxScriptHeaderValues then Inl TooManyValues
            else
              (let b = b\<lparr>budgetBytes := budgetBytes b + length v\<rparr>
               in if budgetBytes b > maxModuleNetworkHeaderBytes then Inl HeadersTooLong else Inr b)))"

definition exportedHeaderScalar :: "exported \<Rightarrow> string option" where
  "exportedHeaderScalar v =
     (case v of
        ExString s \<Rightarrow> Some s
      | ExBool b \<Rightarrow> Some (if b then ''true'' else ''false'')
      | ExInt i \<Rightarrow> Some (itoa i)
      | ExFloat _ s \<Rightarrow> Some s
      | ExNumber s \<Rightarrow> Some s
      | _ \<Rightarrow> None)"

fun addValues :: "string \<Rightarrow> exported list \<Rightarrow> scriptHeaderBudget \<Rightarrow> header_error + string list \<times> scriptHeaderBudget" where
  "addValues name [] b = Inr ([], b)"
| "addValues name (v # vs) b =
     (case exportedHeaderScalar v of
        None \<Rightarrow> Inl (NotScalar name)
      | Some s \<Rightarrow> bindJ (addValue name s b) (\<lambda>b. map_sum id (apfst (Cons s)) (addValues name vs b)))"

definition exportedHeaderValues :: "string \<Rightarrow> exported \<Rightarrow> scriptHeaderBudget \<Rightarrow> header_error + string list \<times> scriptHeaderBudget" where
  "exportedHeaderValues name raw b =
     (case raw of
        ExStrings ss \<Rightarrow>
          (if int (length ss) > int maxScriptHeaderValues - int (budgetValues b) then Inl TooManyValues
           else addValues name (map ExString ss) b)
      | ExList vs \<Rightarrow>
          (if int (length vs) > int maxScriptHeaderValues - int (budgetValues b) then Inl TooManyValues
           else addValues name vs b)
      | _ \<Rightarrow> addValues name [raw] b)"

fun checkNames :: "(string \<times> string) list \<Rightarrow> string list \<Rightarrow> header_error option" where
  "checkNames seen [] = None"
| "checkNames seen (name # names) =
     (if \<not> validModuleNetworkHeaderName name then Some (InvalidName name)
      else (case map_of seen (to_lower name) of
              Some previous \<Rightarrow> Some (DuplicateName previous name)
            | None \<Rightarrow> checkNames ((to_lower name, name) # seen) names))"

definition validatedScriptHeaderNames :: "string list \<Rightarrow> header_error + string list" where
  "validatedScriptHeaderNames names =
     (if length names > maxScriptHeaderFields then Inl TooManyFields
      else (case checkNames [] (sort names) of Some e \<Rightarrow> Inl e | None \<Rightarrow> Inr (sort names)))"

fun exportFields :: "(string \<Rightarrow> exported) \<Rightarrow> string list \<Rightarrow> scriptHeaderBudget \<Rightarrow> headers \<Rightarrow> header_error + headers" where
  "exportFields value_of [] b h = Inr h"
| "exportFields value_of (name # names) b h =
     bindJ (addField name b) (\<lambda>b. bindJ (exportedHeaderValues name (value_of name) b) (\<lambda>(values, b).
       exportFields value_of names b (AList.update (canonicalKey name) values h)))"

definition exportedHeaders :: "exported \<Rightarrow> header_error + headers" where
  "exportedHeaders block =
     (case (case block of
              ExStringMap m \<Rightarrow> Some (map (apsnd ExString) m)
            | ExHeader m \<Rightarrow> Some (map (apsnd ExStrings) m)
            | ExMap m \<Rightarrow> Some m
            | _ \<Rightarrow> None) of
        None \<Rightarrow> Inl NotAnObject
      | Some m \<Rightarrow>
          bindJ (validatedScriptHeaderNames (map fst m)) (\<lambda>names.
            exportFields (\<lambda>name. case map_of m name of Some v \<Rightarrow> v | None \<Rightarrow> ExOther) names
              \<lparr>budgetValues = 0, budgetBytes = 0\<rparr> []))"

section \<open>Trailers\<close>

definition forbiddenTrailers :: "string list" where
  "forbiddenTrailers =
     [''Authorization'', ''Cache-Control'', ''Connection'', ''Content-Encoding'', ''Content-Length'', ''Content-Range'', ''Content-Type'',
      ''Expect'', ''Host'', ''Keep-Alive'', ''Max-Forwards'', ''Pragma'', ''Proxy-Authenticate'', ''Proxy-Authorization'',
      ''Proxy-Connection'', ''Range'', ''Realm'', ''Te'', ''Trailer'', ''Transfer-Encoding'', ''Www-Authenticate'']"

definition validResponseTrailerName :: "string \<Rightarrow> bool" where
  "validResponseTrailerName name \<longleftrightarrow>
     validModuleNetworkHeaderName name \<and> \<not> has_prefix (canonicalKey name) ''If-'' \<and> canonicalKey name \<notin> set forbiddenTrailers"

definition wireTrailers :: "headers \<Rightarrow> header_error + headers" where
  "wireTrailers source =
     map_sum id (filter (\<lambda>(name, _). validResponseTrailerName name)) (exportedHeaders (ExHeader source))"

definition exportedTrailers :: "exported \<Rightarrow> header_error + headers" where
  "exportedTrailers block =
     bindJ (exportedHeaders block) (\<lambda>trailers.
       case filter (\<lambda>name. \<not> validResponseTrailerName name) (map fst trailers) of
         [] \<Rightarrow> Inr trailers
       | name # _ \<Rightarrow> Inl (InvalidTrailer name))"

definition responseTrailerNames :: "headers \<Rightarrow> string list" where
  "responseTrailerNames trailers =
     sort (remdups (filter validResponseTrailerName (map (\<lambda>(name, _). canonicalKey name) trailers)))"

definition joinNames :: "string list \<Rightarrow> string" where
  "joinNames names = (case names of [] \<Rightarrow> [] | n # ns \<Rightarrow> n @ concat (map (\<lambda>m. '', '' @ m) ns))"

definition declareResponseTrailers :: "headers \<Rightarrow> headers \<Rightarrow> string list \<times> headers" where
  "declareResponseTrailers h trailers =
     (let h = headerDel ''Trailer'' h; names = responseTrailerNames trailers
      in if names = [] then ([], h)
         else (names, headerSet ''Trailer'' (joinNames names) (headerDel ''Content-Length'' h)))"

definition responseTrailerValues :: "headers \<Rightarrow> string \<Rightarrow> string list" where
  "responseTrailerValues trailers name = concat (map snd (filter (\<lambda>(candidate, _). equalFold candidate name) trailers))"

text \<open>The trailers that were not declared go out under the prefix \<^verbatim>\<open>http.TrailerPrefix\<close>.\<close>

definition publishResponseTrailers :: "headers \<Rightarrow> headers \<Rightarrow> string list \<Rightarrow> headers" where
  "publishResponseTrailers h trailers declared =
     fold (\<lambda>name h. AList.update (if name \<in> set declared then name else ''Trailer:'' @ name) (responseTrailerValues trailers name) h)
       (responseTrailerNames trailers) h"

definition responseCanHaveBody :: "string \<Rightarrow> int \<Rightarrow> bool" where
  "responseCanHaveBody m status =
     (if m = ''HEAD'' \<or> 100 \<le> status \<and> status \<le> 199 then False else status \<noteq> 204 \<and> status \<noteq> 304)"

section \<open>The status a script exports\<close>

text \<open>The conversion of a \<^verbatim>\<open>float64\<close> to an integer drops the fraction.\<close>

definition truncateRat :: "rat \<Rightarrow> int" where
  "truncateRat q = (if q < 0 then - \<lfloor>- q\<rfloor> else \<lfloor>q\<rfloor>)"

definition exportedStatus :: "exported \<Rightarrow> int option" where
  "exportedStatus v =
     (case (case v of ExInt i \<Rightarrow> Some i | ExFloat q _ \<Rightarrow> Some (truncateRat q) | ExNumber s \<Rightarrow> atoi s | _ \<Rightarrow> None) of
        None \<Rightarrow> None
      | Some status \<Rightarrow> if status < 100 \<or> status > 599 then None else Some status)"

section \<open>Content codings\<close>

definition isGzip :: "string \<Rightarrow> bool" where
  "isGzip body \<longleftrightarrow> length body \<ge> 2 \<and> code (body ! 0) = 31 \<and> code (body ! 1) = 139"

datatype coding_error = CodingValues | CodingEmpty | CodingUnsupported | CodingOpen | CodingTooLong | CodingBroken

definition normalizedContentEncoding :: "headers \<Rightarrow> coding_error + string" where
  "normalizedContentEncoding h =
     (case headerValues ''Content-Encoding'' h of
        [] \<Rightarrow> Inr []
      | [v] \<Rightarrow>
          (let encoding = to_lower (trim_space v)
           in if encoding = [] \<or> CHR '','' \<in> set encoding then Inl CodingEmpty else Inr encoding)
      | _ \<Rightarrow> Inl CodingValues)"

text \<open>
  A decompressor gives, when it opens, everything it can produce of the body and whether it ended
  cleanly; \<open>zlib\<close>, when it does not open, leaves the body to \<open>flate\<close>.
\<close>

record codecs =
  cxGzip :: "string \<Rightarrow> (string \<times> bool) option"
  cxZlib :: "string \<Rightarrow> (string \<times> bool) option"
  cxFlate :: "string \<Rightarrow> string \<times> bool"
  cxBrotli :: "string \<Rightarrow> string \<times> bool"

definition readBounded :: "string \<times> bool \<Rightarrow> nat \<Rightarrow> coding_error + string" where
  "readBounded reader limit =
     (case reader of (out, clean) \<Rightarrow>
        if length out > limit then Inl CodingTooLong else if \<not> clean then Inl CodingBroken else Inr out)"

definition decodeContentBody :: "codecs \<Rightarrow> string \<Rightarrow> string \<Rightarrow> nat \<Rightarrow> coding_error + string" where
  "decodeContentBody cx body encoding limit =
     (let encoding = to_lower (trim_space encoding)
      in if encoding = [] \<or> encoding = ''identity'' then Inr body
         else if encoding = ''gzip'' then (case cxGzip cx body of None \<Rightarrow> Inl CodingOpen | Some r \<Rightarrow> readBounded r limit)
         else if encoding = ''deflate'' then
           readBounded (case cxZlib cx body of None \<Rightarrow> cxFlate cx body | Some r \<Rightarrow> r) limit
         else if encoding = ''br'' then readBounded (cxBrotli cx body) limit
         else Inl CodingUnsupported)"

end
