(* ===== verification/Http_Headers_Properties.thy ===== *)
theory Http_Headers_Properties
  imports Http_Headers
begin

text \<open>
  What reaches the other side of the proxy: hop-by-hop fields, the fields \<^verbatim>\<open>Connection\<close> lists and
  nothing else end here, and a block of fields a script hands over is accepted only within its
  bounds.
\<close>

section \<open>Canonical names\<close>

lemma lower_char_token [simp]: "isTokenByte (lower_char c) = isTokenByte c"
  unfolding isTokenByte_def is_digit_def lower_char_def
  by (auto simp: code_char_of code_less)

lemma upper_char_token [simp]: "isTokenByte (upper_char c) = isTokenByte c"
proof (cases "97 \<le> code c \<and> code c \<le> 122")
  case True
  then have "code (upper_char c) = code c - 32" by (simp add: upper_char_def) (rule code_char_of, linarith)
  with True show ?thesis by (simp add: isTokenByte_def) arith
qed (auto simp: upper_char_def)

lemma lower_upper_char [simp]: "lower_char (upper_char c) = lower_char c" "upper_char (lower_char c) = upper_char c"
  using code_less[of c] unfolding code_eq_iff[symmetric]
  by (auto simp: lower_char_def upper_char_def code_char_of)

lemma lower_char_dash [simp]: "lower_char c = CHR ''-'' \<longleftrightarrow> c = CHR ''-''"
  unfolding lower_char_def
  by (auto simp: code_char_of code_less code_eq_iff[symmetric]) (auto simp: code_def)

lemma to_lower_Cons: "to_lower (c # cs) = lower_char c # to_lower cs"
  by (simp add: to_lower_def)

lemma to_lower_capitalise: "to_lower (capitalise up s) = to_lower s"
  by (induction up s rule: capitalise.induct) (simp_all add: to_lower_Cons)

lemma capitalise_to_lower: "capitalise up (to_lower s) = capitalise up s"
  by (induction up s rule: capitalise.induct) (simp_all add: to_lower_Cons)

lemma to_lower_canonicalKey [simp]: "to_lower (canonicalKey s) = to_lower s"
  by (simp add: canonicalKey_def to_lower_capitalise)

lemma length_capitalise [simp]: "length (capitalise up s) = length s"
  by (induction up s rule: capitalise.induct) simp_all

lemma length_canonicalKey [simp]: "length (canonicalKey s) = length s"
  by (simp add: canonicalKey_def)

lemma token_to_lower [simp]: "list_all isTokenByte (to_lower s) = list_all isTokenByte s"
  by (simp add: to_lower_def list.pred_map comp_def)

lemma token_capitalise [simp]: "list_all isTokenByte (capitalise up s) = list_all isTokenByte s"
  by (induction up s rule: capitalise.induct) simp_all

lemma canonicalKey_idem [simp]: "canonicalKey (canonicalKey s) = canonicalKey s"
  unfolding canonicalKey_def
  by (simp add: capitalise_to_lower[symmetric, of True "capitalise True s"] to_lower_capitalise capitalise_to_lower)

lemma canonicalKey_eq_iff:
  "validModuleNetworkHeaderName a \<Longrightarrow> validModuleNetworkHeaderName b \<Longrightarrow>
   canonicalKey a = canonicalKey b \<longleftrightarrow> equalFold a b"
  unfolding validModuleNetworkHeaderName_def equalFold_def canonicalKey_def
  by (metis capitalise_to_lower to_lower_capitalise)

lemma validName_fold:
  "equalFold a b \<Longrightarrow> validModuleNetworkHeaderName a = validModuleNetworkHeaderName b"
  unfolding validModuleNetworkHeaderName_def equalFold_def by (metis token_to_lower to_lower_Nil(2))

lemma validName_canonicalKey [simp]:
  "validModuleNetworkHeaderName (canonicalKey a) = validModuleNetworkHeaderName a"
  by (rule validName_fold) (simp add: equalFold_def)

lemma hop_fold: "equalFold a b \<Longrightarrow> isHopByHopHeader a = isHopByHopHeader b"
  by (simp add: isHopByHopHeader_def equalFold_def)

section \<open>Fields that end here\<close>

text \<open>The header of a message the HTTP servers and transports of the Go library read: one entry per field, under its canonical name.\<close>

definition canonicalHeader :: "headers \<Rightarrow> bool" where
  "canonicalHeader h \<longleftrightarrow>
     distinct (map fst h) \<and> list_all (\<lambda>(k, _). validModuleNetworkHeaderName k \<and> canonicalKey k = k) h"

lemma canonicalHeader_lookup:
  assumes "canonicalHeader h" "map_of h k = Some v"
  shows "validModuleNetworkHeaderName k" "canonicalKey k = k"
  using assms map_of_SomeD[OF assms(2)] by (auto simp: canonicalHeader_def list_all_iff)

lemma map_of_fold_headerDel_if:
  "map_of (fold (\<lambda>name h. if P name then headerDel name h else h) names h) k =
   (if \<exists>n\<in>set names. P n \<and> canonicalKey n = k then None else map_of h k)"
  by (induction names arbitrary: h) (auto simp: headerDel_def)

lemma connection_lists_iff:
  assumes "validModuleNetworkHeaderName k" "canonicalKey k = k"
  shows "(\<exists>n\<in>set (connectionNames h). validModuleNetworkHeaderName n \<and> canonicalKey n = k) \<longleftrightarrow> connectionListsHeader h k"
  unfolding connectionListsHeader_def list_ex_iff
  by (metis assms canonicalKey_eq_iff validName_fold)

lemma map_of_removeHopByHopHeaders:
  assumes h: "canonicalHeader h"
  shows "map_of (removeHopByHopHeaders h) k =
     (if isHopByHopHeader k \<or> connectionListsHeader h k then None else map_of h k)"
proof (cases "map_of h k")
  case None
  then show ?thesis by (simp add: removeHopByHopHeaders_def Let_def map_of_fold_headerDel_if)
next
  case (Some v)
  note k = canonicalHeader_lookup[OF h Some]
  define g where "g = fold (\<lambda>name h. if validModuleNetworkHeaderName name then headerDel name h else h) (connectionNames h) h"
  have g: "map_of g j = (if \<exists>n\<in>set (connectionNames h). validModuleNetworkHeaderName n \<and> canonicalKey n = j then None else map_of h j)" for j
    unfolding g_def by (rule map_of_fold_headerDel_if)
  show ?thesis
  proof (cases "connectionListsHeader h k")
    case True
    then show ?thesis using g[of k] connection_lists_iff[OF k, of h]
      by (simp add: removeHopByHopHeaders_def Let_def g_def[symmetric] map_of_fold_headerDel_if)
  next
    case False
    then have gk: "map_of g k = Some v" using g[of k] connection_lists_iff[OF k, of h] Some by simp
    then have "k \<in> set (map fst g)" by (metis map_of_eq_None_iff option.distinct(1) list.set_map)
    moreover have "isHopByHopHeader n = isHopByHopHeader k" if "canonicalKey n = k" for n
      using that by (metis hop_fold equalFold_def to_lower_canonicalKey)
    ultimately have "(\<exists>n\<in>set (map fst g). isHopByHopHeader n \<and> canonicalKey n = k) \<longleftrightarrow> isHopByHopHeader k"
      using k(2) by blast
    then show ?thesis using gk Some False
      by (simp only: removeHopByHopHeaders_def Let_def g_def[symmetric] map_of_fold_headerDel_if if_False simp_thms split: if_split)
  qed
qed

lemma map_of_copyResponseHeaders_aux:
  "distinct (map fst h) \<Longrightarrow>
   map_of (fold (\<lambda>(name, values) d. if P name then d else AList.update name values d) h d) k =
   (case map_of h k of Some v \<Rightarrow> if P k then map_of d k else Some v | None \<Rightarrow> map_of d k)"
proof (induction h arbitrary: d)
  case (Cons nv h)
  obtain n v where nv: "nv = (n, v)" by force
  show ?case using Cons by (auto simp: nv split: option.splits dest: map_of_SomeD) (metis fst_conv image_eqI map_of_SomeD)+
qed simp

lemma map_of_copyResponseHeaders:
  assumes "distinct (map fst h)"
  shows "map_of (copyResponseHeaders [] h) k =
     (if isHopByHopHeader k \<or> connectionListsHeader h k then None else map_of h k)"
  unfolding copyResponseHeaders_def map_of_copyResponseHeaders_aux[OF assms] by (auto split: option.splits)

text \<open>C22: The request that goes upstream carries every field of the client's request unchanged,
except the hop-by-hop fields and the fields its \<^verbatim>\<open>Connection\<close> lists, in whatever case it lists
them; of these only a \<^verbatim>\<open>TE\<close> that asks for trailers and nothing else survives, as exactly that. The
response header that goes back to the client is cut in the same way.\<close>
theorem hop_by_hop_fields_end_here:
  assumes "canonicalHeader h"
  shows "map_of (sanitizeForwardRequestHeaders h) k =
      (if k = ''Te'' then (if requestTEIsTrailers h then Some [''trailers''] else None)
       else if isHopByHopHeader k \<or> connectionListsHeader h k then None
       else map_of h k) \<and>
    map_of (copyResponseHeaders [] h) k =
      (if isHopByHopHeader k \<or> connectionListsHeader h k then None else map_of h k)"
proof -
  have te: "canonicalKey ''Te'' = ''Te''" "isHopByHopHeader ''Te''" by code_simp+
  show ?thesis
    using te assms map_of_removeHopByHopHeaders[OF assms] map_of_copyResponseHeaders[of h k]
    by (simp add: sanitizeForwardRequestHeaders_def Let_def headerSet_def canonicalHeader_def)
qed

theorem hop_by_hop_fields_end_here_witness:
  "map_of (sanitizeForwardRequestHeaders
     [(''Connection'', [''x-secret, TE'']), (''X-Secret'', [''1'']), (''Te'', [''Trailers'']), (''Accept'', [''*''])]) ''X-Secret'' = None"
proof -
  have "canonicalHeader [(''Connection'', [''x-secret, TE'']), (''X-Secret'', [''1'']), (''Te'', [''Trailers'']), (''Accept'', [''*''])]"
    by code_simp
  from hop_by_hop_fields_end_here[OF this, of "''X-Secret''"] show ?thesis by code_simp
qed

section \<open>What a script may put into a header\<close>

definition headerValueCount :: "headers \<Rightarrow> nat" where
  "headerValueCount h = sum_list (map (\<lambda>(_, vs). length vs) h)"

definition headerBytes :: "headers \<Rightarrow> nat" where
  "headerBytes h = sum_list (map (\<lambda>(k, vs). length k + sum_list (map length vs)) h)"

definition acceptableHeader :: "headers \<Rightarrow> bool" where
  "acceptableHeader h \<longleftrightarrow>
     canonicalHeader h \<and>
     list_all (\<lambda>(_, vs). list_all (\<lambda>v. validHTTPHeaderValue v \<and> length v \<le> maxScriptHeaderValueBytes) vs) h"

lemma sum_list_update_le:
  "sum_list (map f (AList.update k v h)) \<le> sum_list (map f h) + (f (k, v) :: nat)"
  by (induction h) auto

lemma length_alist_update_le: "length (AList.update k v h) \<le> Suc (length h)"
  by (induction h) auto

lemma set_alist_update: "set (AList.update k v h) \<subseteq> insert (k, v) (set h)"
  by (induction h) auto

lemma map_sum_id_Inr: "map_sum id g r = Inr b \<longleftrightarrow> (\<exists>a. r = Inr a \<and> b = g a)"
  by (cases r) auto

lemma addField_Inr:
  assumes "addField name b = Inr b'"
  shows "budgetValues b' = budgetValues b" "budgetBytes b' = budgetBytes b + length name" "budgetBytes b' \<le> maxModuleNetworkHeaderBytes"
  using assms by (auto simp: addField_def Let_def split: if_splits)

lemma addValue_Inr:
  assumes "addValue name v b = Inr b'"
  shows "budgetValues b' = Suc (budgetValues b)" "budgetBytes b' = budgetBytes b + length v"
    "budgetBytes b' \<le> maxModuleNetworkHeaderBytes" "budgetValues b' \<le> maxScriptHeaderValues"
    "validHTTPHeaderValue v" "length v \<le> maxScriptHeaderValueBytes"
  using assms by (auto simp: addValue_def Let_def split: if_splits)

lemma addValues_Inr:
  assumes "addValues name raw b = Inr (vs, b')" "budgetValues b \<le> maxScriptHeaderValues" "budgetBytes b \<le> maxModuleNetworkHeaderBytes"
  shows "budgetValues b' = budgetValues b + length vs \<and> budgetBytes b' = budgetBytes b + sum_list (map length vs) \<and>
    budgetBytes b' \<le> maxModuleNetworkHeaderBytes \<and> budgetValues b' \<le> maxScriptHeaderValues \<and>
    list_all (\<lambda>v. validHTTPHeaderValue v \<and> length v \<le> maxScriptHeaderValueBytes) vs"
  using assms
proof (induction name raw b arbitrary: vs rule: addValues.induct)
  case (2 name r raw b)
  then obtain s b1 vs' where "exportedHeaderScalar r = Some s" and b1: "addValue name s b = Inr b1"
    and r: "addValues name raw b1 = Inr (vs', b')" and vs: "vs = s # vs'"
    by (auto simp: map_sum_id_Inr split: option.splits)
  note a = addValue_Inr[OF b1]
  from "2.IH"[OF \<open>exportedHeaderScalar r = Some s\<close> r a(4,3)] a vs show ?case by simp
qed simp

lemma exportedHeaderValues_addValues:
  assumes "exportedHeaderValues name raw b = Inr r"
  obtains raws where "addValues name raws b = Inr r"
  using assms by (auto simp: exportedHeaderValues_def simp del: addValues.simps split: exported.splits if_splits)

lemma list_all_alist_update: "list_all P h \<Longrightarrow> P (k, v) \<Longrightarrow> list_all P (AList.update k v h)"
  using set_alist_update[of k v h] by (auto simp: list_all_iff)

lemma acceptableHeader_update:
  assumes "acceptableHeader h" "validModuleNetworkHeaderName name"
    and "list_all (\<lambda>v. validHTTPHeaderValue v \<and> length v \<le> maxScriptHeaderValueBytes) vs"
  shows "acceptableHeader (AList.update (canonicalKey name) vs h)"
  using assms by (simp add: acceptableHeader_def canonicalHeader_def list_all_alist_update distinct_update)

lemma exportFields_Inr:
  assumes "exportFields f names b h = Inr h'"
    and "list_all validModuleNetworkHeaderName names" "acceptableHeader h"
    and "headerValueCount h \<le> budgetValues b" "headerBytes h \<le> budgetBytes b"
    and "budgetValues b \<le> maxScriptHeaderValues" "budgetBytes b \<le> maxModuleNetworkHeaderBytes"
  shows "acceptableHeader h' \<and> length h' \<le> length h + length names \<and>
    headerValueCount h' \<le> maxScriptHeaderValues \<and> headerBytes h' \<le> maxModuleNetworkHeaderBytes"
  using assms
proof (induction f names b h rule: exportFields.induct)
  case (2 f name names b h)
  then obtain b1 vs b2 where f: "addField name b = Inr b1" and v: "exportedHeaderValues name (f name) b1 = Inr (vs, b2)"
    and rest: "exportFields f names b2 (AList.update (canonicalKey name) vs h) = Inr h'"
    by auto
  note f1 = addField_Inr[OF f]
  obtain raws where "addValues name raws b1 = Inr (vs, b2)" using exportedHeaderValues_addValues[OF v] .
  note a = addValues_Inr[OF this]
  let ?h = "AList.update (canonicalKey name) vs h"
  have a': "budgetValues b2 = budgetValues b + length vs" "budgetBytes b2 = budgetBytes b + length name + sum_list (map length vs)"
      "budgetBytes b2 \<le> maxModuleNetworkHeaderBytes" "budgetValues b2 \<le> maxScriptHeaderValues"
      "list_all (\<lambda>v. validHTTPHeaderValue v \<and> length v \<le> maxScriptHeaderValueBytes) vs"
    using a f1 "2.prems"(6) by simp_all
  have "acceptableHeader ?h"
    by (rule acceptableHeader_update) (use "2.prems"(2,3) a'(5) in simp_all)
  moreover have "headerValueCount ?h \<le> budgetValues b2"
    using sum_list_update_le[of "\<lambda>(_, vs). length vs" "canonicalKey name" vs h] a'(1) "2.prems"(4)
    by (simp add: headerValueCount_def)
  moreover have "headerBytes ?h \<le> budgetBytes b2"
    using sum_list_update_le[of "\<lambda>(k, vs). length k + sum_list (map length vs)" "canonicalKey name" vs h] a'(2) "2.prems"(5)
    by (simp add: headerBytes_def)
  moreover have "length ?h \<le> Suc (length h)" by (rule length_alist_update_le)
  ultimately show ?case
    using "2.IH"[OF rest] "2.prems"(2) a'(3,4) by simp
qed simp

lemma checkNames_valid: "checkNames seen names = None \<Longrightarrow> list_all validModuleNetworkHeaderName names"
  by (induction seen names rule: checkNames.induct) (auto split: if_splits option.splits)

definition boundedHeader :: "headers \<Rightarrow> bool" where
  "boundedHeader h \<longleftrightarrow>
     acceptableHeader h \<and> length h \<le> maxScriptHeaderFields \<and> headerValueCount h \<le> maxScriptHeaderValues \<and>
     headerBytes h \<le> maxModuleNetworkHeaderBytes"

lemma exportedHeaders_bounds:
  assumes "exportedHeaders block = Inr h"
  shows "boundedHeader h"
proof -
  obtain f names where r: "exportFields f names \<lparr>budgetValues = 0, budgetBytes = 0\<rparr> [] = Inr h"
    and n: "length names \<le> maxScriptHeaderFields" "list_all validModuleNetworkHeaderName names"
    using assms
    by (auto simp: exportedHeaders_def validatedScriptHeaderNames_def checkNames_valid
        split: option.splits if_splits)
  have "acceptableHeader h \<and> length h \<le> length ([] :: headers) + length names \<and>
    headerValueCount h \<le> maxScriptHeaderValues \<and> headerBytes h \<le> maxModuleNetworkHeaderBytes"
    by (rule exportFields_Inr[OF r n(2)]) (simp_all add: acceptableHeader_def canonicalHeader_def headerValueCount_def headerBytes_def)
  with n(1) show ?thesis by (simp add: boundedHeader_def)
qed

text \<open>Header fields a script hands over, in whatever shape, are taken only within the bounds:
at most 256 fields under distinct canonical token names, at most 512 values, each of at most 16 KiB
and free of control characters other than tab, and 64 KiB in all.\<close>
theorem exported_headers_bounded:
  assumes "exportedHeaders block = Inr h"
  shows "acceptableHeader h \<and> length h \<le> maxScriptHeaderFields \<and>
    headerValueCount h \<le> maxScriptHeaderValues \<and> headerBytes h \<le> maxModuleNetworkHeaderBytes"
  using exportedHeaders_bounds[OF assms] unfolding boundedHeader_def .

theorem exported_headers_bounded_witness:
  "\<exists>h. exportedHeaders (ExMap [(''x-b'', ExNumber ''2''), (''X-A'', ExList [ExString ''1'', ExBool True])]) = Inr h \<and>
     h = [(''X-A'', [''1'', ''true'']), (''X-B'', [''2''])] \<and> acceptableHeader h"
proof -
  have e: "exportedHeaders (ExMap [(''x-b'', ExNumber ''2''), (''X-A'', ExList [ExString ''1'', ExBool True])]) =
     Inr [(''X-A'', [''1'', ''true'']), (''X-B'', [''2''])]"
  proof -
    have names: "sort [''x-b'', ''X-A''] = [''X-A'', ''x-b'']" "checkNames [] [''X-A'', ''x-b''] = None"
      "canonicalKey ''X-A'' = ''X-A''" "canonicalKey ''x-b'' = ''X-B''" by code_simp+
    have vals: "validHTTPHeaderValue ''1''" "validHTTPHeaderValue ''2''" "validHTTPHeaderValue ''true''" by code_simp+
    show ?thesis
      by (simp add: exportedHeaders_def validatedScriptHeaderNames_def names exportedHeaderValues_def exportedHeaderScalar_def
          addField_def addValue_def vals maxScriptHeaderFields_def maxScriptHeaderValues_def maxModuleNetworkHeaderBytes_def
          maxScriptHeaderValueBytes_def bindJ_def del: checkNames.simps bindJ_Inr)
  qed
  with exported_headers_bounded[OF e] show ?thesis by simp
qed
end
