(* ===== verification/Script_Results.thy ===== *)
theory Script_Results
  imports Rule_Matching Http_Headers
begin

text \<open>
  From what a script hands back to a patch of the message (module_runtime.go, module_compat.go,
  module_jq.go): the native contract, the completion of a published bundle, a jq filter, and the
  dispatch over the kinds of action.

  The script engine and the jq interpreter are arguments, collected in \<open>engines\<close>; what they are asked
  is determined by the action and the messages, so within one exchange they are functions of these.
\<close>

section \<open>The native contract\<close>

datatype result_error =
    NotResultObject | UnsupportedField | AbortNotBool | RequestInResponsePhase | BothPatches | PatchNotObject
  | URLInResponse | URLNotString | HeadersRefused header_error | TrailersInRequest | BodyRefused | StatusInRequest
  | StatusRefused | EnvelopeNotObject

fun exportedBytes :: "exported list \<Rightarrow> string option" where
  "exportedBytes [] = Some []"
| "exportedBytes (v # vs) =
     (case v of
        ExInt n \<Rightarrow> (if n < 0 \<or> n > 255 then None else map_option (Cons (char_of (nat n))) (exportedBytes vs))
      | _ \<Rightarrow> None)"

definition exportedBody :: "exported \<Rightarrow> string option" where
  "exportedBody v =
     (case v of
        ExString s \<Rightarrow> Some s
      | ExBytes b \<Rightarrow> Some b
      | ExList items \<Rightarrow> exportedBytes items
      | _ \<Rightarrow> None)"

definition stringAnyMap :: "exported \<Rightarrow> (string \<times> exported) list option" where
  "stringAnyMap v = (case v of ExMap m \<Rightarrow> Some m | _ \<Rightarrow> None)"

definition patchKeys :: "string list" where
  "patchKeys = [''url'', ''headers'', ''trailers'', ''body'', ''status'']"

text \<open>The members of a patch in the order the code reads them.\<close>

definition patchURL :: "bool \<Rightarrow> (string \<times> exported) list \<Rightarrow> scriptResult \<Rightarrow> result_error + scriptResult" where
  "patchURL response object result =
     (case map_of object ''url'' of
        None \<Rightarrow> Inr result
      | Some raw \<Rightarrow>
          (if response then Inl URLInResponse
           else (case raw of
                   ExString s \<Rightarrow> Inr (result\<lparr>resURL := s, resChangedURL := True\<rparr>)
                 | _ \<Rightarrow> Inl URLNotString)))"

definition patchHeaders :: "bool \<Rightarrow> (string \<times> exported) list \<Rightarrow> scriptResult \<Rightarrow> result_error + scriptResult" where
  "patchHeaders response object result =
     (case map_of object ''headers'' of
        None \<Rightarrow> Inr result
      | Some raw \<Rightarrow>
          (case bindJ (exportedHeaders raw) (validateNativePatchHeaders response) of
             Inl e \<Rightarrow> Inl (HeadersRefused e)
           | Inr h \<Rightarrow> Inr (result\<lparr>resHeaders := h, resChangedHeaders := True\<rparr>)))"

definition patchTrailers :: "bool \<Rightarrow> (string \<times> exported) list \<Rightarrow> scriptResult \<Rightarrow> result_error + scriptResult" where
  "patchTrailers response object result =
     (case map_of object ''trailers'' of
        None \<Rightarrow> Inr result
      | Some raw \<Rightarrow>
          (if \<not> response then Inl TrailersInRequest
           else (case exportedTrailers raw of
                   Inl e \<Rightarrow> Inl (HeadersRefused e)
                 | Inr t \<Rightarrow> Inr (result\<lparr>resTrailers := t, resChangedTrailers := True\<rparr>))))"

definition patchBody :: "(string \<times> exported) list \<Rightarrow> scriptResult \<Rightarrow> result_error + scriptResult" where
  "patchBody object result =
     (case map_of object ''body'' of
        None \<Rightarrow> Inr result
      | Some raw \<Rightarrow>
          (case exportedBody raw of
             None \<Rightarrow> Inl BodyRefused
           | Some b \<Rightarrow> Inr (result\<lparr>resBody := b, resChangedBody := True\<rparr>)))"

definition patchStatus :: "bool \<Rightarrow> (string \<times> exported) list \<Rightarrow> scriptResult \<Rightarrow> result_error + scriptResult" where
  "patchStatus response object result =
     (case map_of object ''status'' of
        None \<Rightarrow> Inr result
      | Some raw \<Rightarrow>
          (if \<not> response then Inl StatusInRequest
           else (case exportedStatus raw of
                   None \<Rightarrow> Inl StatusRefused
                 | Some st \<Rightarrow> Inr (result\<lparr>resStatusCode := st, resChangedStatus := True\<rparr>))))"

definition applyNativePatch :: "scriptResult \<Rightarrow> exported \<Rightarrow> bool \<Rightarrow> result_error + scriptResult" where
  "applyNativePatch result raw response =
     (case stringAnyMap raw of
        None \<Rightarrow> Inl PatchNotObject
      | Some object \<Rightarrow>
          (if list_ex (\<lambda>(key, _). key \<notin> set patchKeys) object then Inl UnsupportedField
           else bindJ (patchURL response object result) (\<lambda>result.
                bindJ (patchHeaders response object result) (\<lambda>result.
                bindJ (patchTrailers response object result) (\<lambda>result.
                bindJ (patchBody object result) (patchStatus response object))))))"

definition nativeAbort :: "(string \<times> exported) list \<Rightarrow> result_error + scriptResult" where
  "nativeAbort object =
     (case map_of object ''abort'' of
        None \<Rightarrow> Inr noResult
      | Some raw \<Rightarrow> (case raw of ExBool b \<Rightarrow> Inr (noResult\<lparr>resAbort := b\<rparr>) | _ \<Rightarrow> Inl AbortNotBool))"

definition syntheticPatch :: "bool \<Rightarrow> scriptResult \<Rightarrow> exported \<Rightarrow> result_error + scriptResult" where
  "syntheticPatch responsePhase result patch =
     map_sum id (\<lambda>r. r\<lparr>resSynthetic := \<not> responsePhase\<rparr>) (applyNativePatch result patch True)"

definition nativePatches :: "bool \<Rightarrow> (string \<times> exported) list \<Rightarrow> scriptResult \<Rightarrow> result_error + scriptResult" where
  "nativePatches responsePhase object result =
     (case (map_of object ''request'', map_of object ''response'') of
        (Some _, Some _) \<Rightarrow> Inl (if responsePhase then RequestInResponsePhase else BothPatches)
      | (Some patch, None) \<Rightarrow> (if responsePhase then Inl RequestInResponsePhase else applyNativePatch result patch False)
      | (None, Some patch) \<Rightarrow> syntheticPatch responsePhase result patch
      | (None, None) \<Rightarrow> Inr result)"

text \<open>The settled value of \<^verbatim>\<open>transform\<close>; \<^const>\<open>None\<close> is null or undefined.\<close>

definition parseNativeScriptResult :: "exported option \<Rightarrow> bool \<Rightarrow> result_error + scriptResult" where
  "parseNativeScriptResult value responsePhase =
     (case value of
        None \<Rightarrow> Inr noResult
      | Some v \<Rightarrow>
          (case stringAnyMap v of
             None \<Rightarrow> Inl NotResultObject
           | Some object \<Rightarrow>
               (if list_ex (\<lambda>(key, _). key \<notin> set [''abort'', ''request'', ''response'']) object then Inl UnsupportedField
                else bindJ (nativeAbort object) (nativePatches responsePhase object))))"

section \<open>The completion of a published bundle\<close>

record compatEntry =
  entryCompleted :: bool
  entryResult :: "exported option"

definition callDone :: "exported option \<Rightarrow> compatEntry \<Rightarrow> compatEntry" where
  "callDone argument e =
     (if entryCompleted e then e else \<lparr>entryCompleted = True, entryResult = argument\<rparr>)"

definition unwrapCompatValue :: "exported \<Rightarrow> exported" where
  "unwrapCompatValue raw = (case raw of ExWrapped v \<Rightarrow> v | _ \<Rightarrow> raw)"

text \<open>
  The loop ranges over a Go map; \<^verbatim>\<open>body\<close> wins over \<^verbatim>\<open>bodyBytes\<close> in whatever order it meets them.
\<close>

definition compatProjection :: "(string \<times> exported) list \<Rightarrow> (string \<times> exported) list" where
  "compatProjection patch =
     (let kept = map (apsnd unwrapCompatValue)
                   (filter (\<lambda>(key, _). key \<in> set [''status'', ''headers'', ''body'', ''trailers'']) patch);
          projection = (case map_of patch ''bodyBytes'' of
                          Some raw \<Rightarrow> if map_of kept ''body'' = None then kept @ [(''body'', unwrapCompatValue raw)] else kept
                        | None \<Rightarrow> kept)
      in if map_of projection ''body'' = Some ExNil then AList.delete ''body'' projection else projection)"

definition parseCompatScriptResult :: "exported option \<Rightarrow> bool \<Rightarrow> result_error + scriptResult" where
  "parseCompatScriptResult value responsePhase =
     (case value of
        None \<Rightarrow> Inr noResult
      | Some v \<Rightarrow>
          (case stringAnyMap v of
             None \<Rightarrow> Inl NotResultObject
           | Some patch \<Rightarrow>
               (case map_of patch ''response'' of
                  Some envelope \<Rightarrow>
                    (case stringAnyMap (unwrapCompatValue envelope) of
                       None \<Rightarrow> Inl EnvelopeNotObject
                     | Some projection \<Rightarrow>
                         syntheticPatch responsePhase noResult (ExMap (compatProjection projection)))
                | None \<Rightarrow> applyNativePatch noResult (ExMap (compatProjection patch)) responsePhase)))"

definition compatProjectionIsEmpty :: "exported option \<Rightarrow> bool" where
  "compatProjectionIsEmpty value =
     (case value of
        None \<Rightarrow> False
      | Some v \<Rightarrow>
          (case stringAnyMap v of
             None \<Rightarrow> False
           | Some patch \<Rightarrow>
               (if patch = [] then False
                else (case map_of patch ''response'' of
                        Some envelope \<Rightarrow>
                          (case stringAnyMap (unwrapCompatValue envelope) of
                             None \<Rightarrow> False
                           | Some inner \<Rightarrow> inner \<noteq> [] \<and> compatProjection inner = [])
                      | None \<Rightarrow> compatProjection patch = []))))"

section \<open>jq filters\<close>

text \<open>The numbers gojq computes with: whole ones of any size, and the rest as a \<^verbatim>\<open>float64\<close>.\<close>

datatype jq_value =
    JqNull | JqBool bool | JqInt int | JqFloat rat | JqStr string | JqArr "jq_value list" | JqObj "(string \<times> jq_value) list"

text \<open>
  A literal of digits with an optional minus sign is an \<^verbatim>\<open>int\<close> or a \<^verbatim>\<open>big.Int\<close>; JSON has no other
  whole numbers without a fraction or an exponent.
\<close>

definition wholeLiteral :: "string \<Rightarrow> int option" where
  "wholeLiteral s =
     (case s of
        [] \<Rightarrow> None
      | c # cs \<Rightarrow>
          (if c = CHR ''-'' then (if cs \<noteq> [] \<and> list_all is_digit cs then Some (- int (digits_value cs)) else None)
           else if list_all is_digit s then Some (int (digits_value s)) else None))"

fun normaliseJQNumbers :: "externs \<Rightarrow> json \<Rightarrow> jq_value option"
  and normaliseJQItems :: "externs \<Rightarrow> json list \<Rightarrow> jq_value list option"
  and normaliseJQMembers :: "externs \<Rightarrow> (string \<times> json) list \<Rightarrow> (string \<times> jq_value) list option" where
  "normaliseJQNumbers x JNull = Some JqNull"
| "normaliseJQNumbers x (JBool b) = Some (JqBool b)"
| "normaliseJQNumbers x (JStr s) = Some (JqStr s)"
| "normaliseJQNumbers x (JNum s) =
     (case wholeLiteral s of Some i \<Rightarrow> Some (JqInt i) | None \<Rightarrow> map_option JqFloat (xNum x s))"
| "normaliseJQNumbers x (JArr items) = map_option JqArr (normaliseJQItems x items)"
| "normaliseJQNumbers x (JObj members) = map_option JqObj (normaliseJQMembers x members)"
| "normaliseJQItems x [] = Some []"
| "normaliseJQItems x (v # vs) =
     (case normaliseJQNumbers x v of
        None \<Rightarrow> None
      | Some n \<Rightarrow> map_option (Cons n) (normaliseJQItems x vs))"
| "normaliseJQMembers x [] = Some []"
| "normaliseJQMembers x ((k, v) # ms) =
     (case normaliseJQNumbers x v of
        None \<Rightarrow> None
      | Some n \<Rightarrow> map_option (Cons (k, n)) (normaliseJQMembers x ms))"

datatype jq_error = JQProgramInvalid | JQNoResponse | JQSettings | JQCancelled | JQNoOutput | JQHalted | JQFailed
  | JQUnencodable | JQOutputTooLong | JQNotJSON | JQShape

text \<open>The first thing the iterator gives, with what the context and the encoder say about it.\<close>

datatype jq_first = FirstNone bool | FirstCancelled | FirstHaltNull | FirstHaltValue | FirstError | FirstValue "string option"

definition maxJQOutputBytes :: nat where "maxJQOutputBytes = 64 * 2 ^ 20"

definition runJQ :: "externs \<Rightarrow> (jq_code \<Rightarrow> jq_value \<Rightarrow> settings \<Rightarrow> jq_first) \<Rightarrow> jq_code \<Rightarrow> string \<Rightarrow> settings \<Rightarrow> jq_error + string" where
  "runJQ x run program body settings =
     (case xJSON x body of
        None \<Rightarrow> Inl JQNotJSON
      | Some v \<Rightarrow>
          (case normaliseJQNumbers x v of
             None \<Rightarrow> Inl JQNotJSON
           | Some input \<Rightarrow>
               (case run program input settings of
                  FirstNone cancelled \<Rightarrow> Inl (if cancelled then JQCancelled else JQNoOutput)
                | FirstCancelled \<Rightarrow> Inl JQCancelled
                | FirstHaltNull \<Rightarrow> Inl JQHalted
                | FirstHaltValue \<Rightarrow> Inl JQFailed
                | FirstError \<Rightarrow> Inl JQShape
                | FirstValue None \<Rightarrow> Inl JQUnencodable
                | FirstValue (Some encoded) \<Rightarrow>
                    (if length encoded > maxJQOutputBytes then Inl JQOutputTooLong else Inr encoded))))"

definition jqProgram :: "externs \<Rightarrow> ScriptRule \<Rightarrow> jq_code option" where
  "jqProgram x rule = (case ruleJQ rule of Some c \<Rightarrow> Some c | None \<Rightarrow> compileJQProgram x (ruleJQProgram rule))"

definition scriptSettingValues :: "externs \<Rightarrow> Module \<Rightarrow> ScriptRule \<Rightarrow> settings option" where
  "scriptSettingValues x m rule =
     (case ruleSettings rule of Some s \<Rightarrow> Some s | None \<Rightarrow> moduleSettingValues x m)"

definition executeJQ :: "externs \<Rightarrow> (jq_code \<Rightarrow> jq_value \<Rightarrow> settings \<Rightarrow> jq_first) \<Rightarrow> Module \<Rightarrow> ScriptRule \<Rightarrow> scriptMessage \<Rightarrow>
    scriptMessage option \<Rightarrow> jq_error + scriptResult" where
  "executeJQ x run m rule request response =
     (case jqProgram x rule of
        None \<Rightarrow> Inl JQProgramInvalid
      | Some program \<Rightarrow>
          (case messageBody rule request response of
             Inl _ \<Rightarrow> Inl JQNoResponse
           | Inr body \<Rightarrow>
               (case scriptSettingValues x m rule of
                  None \<Rightarrow> Inl JQSettings
                | Some settings \<Rightarrow>
                    (case runJQ x run program body settings of
                       Inl JQNotJSON \<Rightarrow> Inr noResult
                     | Inl JQShape \<Rightarrow> Inr noResult
                     | Inl e \<Rightarrow> Inl e
                     | Inr transformed \<Rightarrow> Inr (noResult\<lparr>resBody := transformed, resChangedBody := True\<rparr>)))))"

section \<open>Running an action\<close>

datatype exec_error = ActionFailed action_error | ResultRefused result_error | JQRefused jq_error | ProgramInvalid | SettingsInvalid
  | ScriptFailed

text \<open>
  A native script ends in a failure or in the settled value of \<^verbatim>\<open>transform\<close>. A bundle runs its
  program, calls \<^verbatim>\<open>$done\<close> some number of times, and the wait for it ends well or not.
\<close>

record bundle_run =
  brunProgram :: bool
  brunDone :: "exported option list"
  brunWait :: bool

record engines =
  enNative :: "Module \<Rightarrow> ScriptRule \<Rightarrow> settings \<Rightarrow> scriptMessage \<Rightarrow> scriptMessage option \<Rightarrow> exported option option"
  enBundle :: "Module \<Rightarrow> ScriptRule \<Rightarrow> settings \<Rightarrow> scriptMessage \<Rightarrow> scriptMessage option \<Rightarrow> bundle_run"
  enJQ :: "jq_code \<Rightarrow> jq_value \<Rightarrow> settings \<Rightarrow> jq_first"

definition scriptEntryProxyCompat :: string where "scriptEntryProxyCompat = ''proxy-compat''"

definition executeProxyCompat :: "bundle_run \<Rightarrow> bool \<Rightarrow> exec_error + scriptResult" where
  "executeProxyCompat run responsePhase =
     (if \<not> brunProgram run then Inl ScriptFailed
      else
        (let entry = fold callDone (brunDone run) \<lparr>entryCompleted = False, entryResult = None\<rparr>
         in if \<not> brunWait run \<and> \<not> entryCompleted entry then Inl ScriptFailed
            else map_sum ResultRefused id (parseCompatScriptResult (entryResult entry) responsePhase)))"

definition executeScript :: "externs \<Rightarrow> engines \<Rightarrow> Module \<Rightarrow> ScriptRule \<Rightarrow> scriptMessage \<Rightarrow> scriptMessage option \<Rightarrow>
    exec_error + scriptResult" where
  "executeScript x en m rule request response =
     (case scriptProgram x m rule of
        None \<Rightarrow> Inl ProgramInvalid
      | Some _ \<Rightarrow>
          (case scriptSettingValues x m rule of
             None \<Rightarrow> Inl SettingsInvalid
           | Some settings \<Rightarrow>
               (if ruleEntry rule = scriptEntryProxyCompat
                then executeProxyCompat (enBundle en m rule settings request response) (response \<noteq> None)
                else (case enNative en m rule settings request response of
                        None \<Rightarrow> Inl ScriptFailed
                      | Some value \<Rightarrow> map_sum ResultRefused id (parseNativeScriptResult value (response \<noteq> None))))))"

definition execute :: "externs \<Rightarrow> engines \<Rightarrow> Module \<Rightarrow> ScriptRule \<Rightarrow> scriptMessage \<Rightarrow> scriptMessage option \<Rightarrow>
    exec_error + scriptResult" where
  "execute x en m rule request response =
     (if ruleReject rule then Inr (noResult\<lparr>resAbort := True\<rparr>)
      else case ruleMock rule of
        Some mock \<Rightarrow> map_sum ActionFailed id (executeMock x mock (response \<noteq> None))
      | None \<Rightarrow>
      (case ruleHeaders rule of
        Some edits \<Rightarrow> map_sum ActionFailed id (executeHeaderEdits rule edits request response)
      | None \<Rightarrow>
      (case ruleRewrite rule of
        Some rw \<Rightarrow> map_sum ActionFailed id (executeRewrite x rule m rw request)
      | None \<Rightarrow>
      (case ruleReplaceBody rule of
        Some br \<Rightarrow> map_sum ActionFailed id (executeBodyReplace x rule m br request response)
      | None \<Rightarrow>
          (if ruleJQProgram rule \<noteq> [] then map_sum JQRefused id (executeJQ x (enJQ en) m rule request response)
           else executeScript x en m rule request response)))))"

end
