(* ===== verification/Script_Results_Properties.thy ===== *)
theory Script_Results_Properties
  imports Script_Results Http_Headers_Properties Config_Example
begin

text \<open>
  What a script can do to an exchange: whatever it hands back, through the native contract or as a
  published bundle, the patch that comes out is confined to what its phase may change.
\<close>

section \<open>Header blocks of a patch\<close>

lemma length_dropWhile_space: "length (trim_space s) \<le> length s"
  unfolding trim_space_def
  by (metis length_dropWhile_le length_rev le_trans)

lemma equalFold_length: "equalFold a b \<Longrightarrow> length a = length b"
  unfolding equalFold_def by (metis length_to_lower)

lemma te_name:
  assumes "canonicalHeader h" "(k, vs) \<in> set h" "equalFold k ''Te''"
  shows "k = ''Te''"
proof -
  have k: "validModuleNetworkHeaderName k" "canonicalKey k = k"
    using assms(1,2) by (auto simp: canonicalHeader_def list_all_iff)
  have "validModuleNetworkHeaderName ''Te''" "canonicalKey ''Te'' = ''Te''" by code_simp+
  with canonicalKey_eq_iff[OF k(1), of "''Te''"] k(2) assms(3) show ?thesis by simp
qed

lemma single_field:
  assumes "canonicalHeader h" "filter (\<lambda>(name, _). equalFold name ''Te'') h = [(name, vs)]"
  shows "name = ''Te''" "map_of h ''Te'' = Some vs"
proof -
  have "(name, vs) \<in> set (filter (\<lambda>(name, _). equalFold name ''Te'') h)" unfolding assms(2) by simp
  then have m: "(name, vs) \<in> set h" and f: "equalFold name ''Te''" by simp_all
  show n: "name = ''Te''" by (rule te_name[OF assms(1) m f])
  with m assms(1) show "map_of h ''Te'' = Some vs" by (simp add: canonicalHeader_def)
qed

lemma sum_list_delete:
  assumes "distinct (map fst h)" "map_of h k = Some v"
  shows "sum_list (map f (AList.delete k h)) + f (k, v) = (sum_list (map f h) :: nat)"
  using assms
proof (induction h)
  case (Cons kv h)
  then show ?case by (cases kv) (auto simp: delete_idem dest: map_of_SomeD)
qed simp

lemma alist_update_append: "k \<notin> fst ` set h \<Longrightarrow> AList.update k v h = h @ [(k, v)]"
  by (induction h) auto

lemma set_alist_delete: "set (AList.delete k h) \<subseteq> set h"
  by (induction h) auto

lemma list_all_alist_delete: "list_all P h \<Longrightarrow> list_all P (AList.delete k h)"
  by (induction h) auto

lemma acceptableHeader_delete: "acceptableHeader h \<Longrightarrow> acceptableHeader (AList.delete k h)"
  by (simp add: acceptableHeader_def canonicalHeader_def list_all_alist_delete distinct_delete)

text \<open>A field of a request that survives as hop-by-hop is \<^verbatim>\<open>TE: trailers\<close>.\<close>

definition endToEnd :: "bool \<Rightarrow> headers \<Rightarrow> bool" where
  "endToEnd response h \<longleftrightarrow>
     (\<forall>(k, vs) \<in> set h. isHopByHopHeader k \<longrightarrow> \<not> response \<and> k = ''Te'' \<and> vs = [''trailers''])"

lemma normalizeRequestTEHeader_Inr:
  assumes "normalizeRequestTEHeader h = Inr h'" "boundedHeader h"
  shows "boundedHeader h' \<and> (\<forall>(k, vs) \<in> set h'. equalFold k ''Te'' \<longrightarrow> k = ''Te'' \<and> vs = [''trailers''])"
proof -
  have can: "canonicalHeader h" using assms(2) by (simp add: boundedHeader_def acceptableHeader_def)
  have te: "canonicalKey ''Te'' = ''Te''" by code_simp
  consider "filter (\<lambda>(name, _). equalFold name ''Te'') h = []" "h' = h"
    | name v where "filter (\<lambda>(name, _). equalFold name ''Te'') h = [(name, [v])]" "equalFold (trim_space v) ''trailers''"
        "h' = headerSet ''Te'' ''trailers'' (AList.delete name h)"
    using assms(1)
    by (auto simp: normalizeRequestTEHeader_def length_Suc_conv split: list.splits if_splits prod.splits)
  then show ?thesis
  proof cases
    case 1
    then show ?thesis using assms(2) by (auto simp: filter_empty_conv)
  next
    case 2
    note f = single_field[OF can 2(1)]
    let ?d = "AList.delete ''Te'' h"
    have h': "h' = ?d @ [(''Te'', [''trailers''])]"
      using 2(3) f(1) te by (simp add: headerSet_def alist_update_append delete_notin_dom)
    have sums: "sum_list (map g ?d) + g (''Te'', [v]) = sum_list (map g h)" for g :: "string \<times> string list \<Rightarrow> nat"
      by (rule sum_list_delete) (use can f(2) in \<open>simp_all add: canonicalHeader_def\<close>)
    have v: "8 \<le> length v" using equalFold_length[OF 2(2)] length_dropWhile_space[of v] by simp
    have sub: "set ?d \<subseteq> set h" by (rule set_alist_delete)
    have "acceptableHeader ?d" by (rule acceptableHeader_delete) (use assms(2) in \<open>simp add: boundedHeader_def\<close>)
    then have "acceptableHeader (AList.update (canonicalKey ''Te'') [''trailers''] ?d)"
    proof (rule acceptableHeader_update)
      show "validModuleNetworkHeaderName ''Te''" by code_simp
      have "validHTTPHeaderValue ''trailers''" by code_simp
      then show "list_all (\<lambda>v. validHTTPHeaderValue v \<and> length v \<le> maxScriptHeaderValueBytes) [''trailers'']"
        by (simp add: maxScriptHeaderValueBytes_def)
    qed
    then have "acceptableHeader h'" using 2(3) f(1) by (simp add: headerSet_def)
    moreover have "length h' \<le> length h" "headerValueCount h' = headerValueCount h" "headerBytes h' \<le> headerBytes h"
      using sums[of "\<lambda>_. 1"] sums[of "\<lambda>(_, vs). length vs"] sums[of "\<lambda>(k, vs). length k + sum_list (map length vs)"] v
      by (simp_all add: h' headerValueCount_def headerBytes_def sum_list_triv)
    moreover have "\<forall>(k, vs) \<in> set h'. equalFold k ''Te'' \<longrightarrow> k = ''Te'' \<and> vs = [''trailers'']"
    proof (clarify)
      fix k vs assume "(k, vs) \<in> set h'" and k: "equalFold k ''Te''"
      then consider "(k, vs) \<in> set ?d" | "k = ''Te''" "vs = [''trailers'']" unfolding h' by auto
      then show "k = ''Te'' \<and> vs = [''trailers'']"
      proof cases
        case 1
        then have "k = ''Te''" using te_name[OF can _ k] sub by blast
        with 1 show ?thesis using delete_notin_dom[of "''Te''" h] by force
      qed simp
    qed
    ultimately show ?thesis using assms(2) by (auto simp: boundedHeader_def)
  qed
qed

lemma case_list_Inr: "(case xs of [] \<Rightarrow> Inr a | y # ys \<Rightarrow> Inl (f y)) = Inr b \<longleftrightarrow> xs = [] \<and> a = b"
  by (cases xs) auto

lemma validateNativePatchHeaders_Inr:
  assumes "validateNativePatchHeaders response h = Inr h'" "boundedHeader h"
  shows "boundedHeader h' \<and> endToEnd response h'"
proof -
  obtain g where g: "(if response then Inr h else normalizeRequestTEHeader h) = Inr g"
    and none: "filter (\<lambda>name. isHopByHopHeader name \<and> \<not> (\<not> response \<and> equalFold name ''Te'')) (sort (map fst g)) = []" and "h' = g"
    using assms(1) unfolding validateNativePatchHeaders_def bindJ_Inr case_list_Inr by blast
  have n: "isHopByHopHeader k \<Longrightarrow> \<not> response \<and> equalFold k ''Te''" if "(k, vs) \<in> set g" for k vs
    using none that by (force simp: filter_empty_conv)
  show ?thesis
  proof (cases response)
    case True
    then show ?thesis using g n \<open>h' = g\<close> assms(2) by (auto simp: endToEnd_def)
  next
    case False
    then have "boundedHeader g \<and> (\<forall>(k, vs) \<in> set g. equalFold k ''Te'' \<longrightarrow> k = ''Te'' \<and> vs = [''trailers''])"
      using normalizeRequestTEHeader_Inr[OF _ assms(2)] g by simp
    then show ?thesis using n \<open>h' = g\<close> False by (fastforce simp: endToEnd_def)
  qed
qed

section \<open>What a script can change\<close>

lemma map_sum_result: "map_sum f id r = Inr b \<longleftrightarrow> r = Inr b"
  by (cases r) auto

definition resultOK :: "bool \<Rightarrow> bool \<Rightarrow> scriptResult \<Rightarrow> bool" where
  "resultOK responsePhase synthetic r \<longleftrightarrow>
     (resChangedURL r \<longrightarrow> \<not> responsePhase \<and> \<not> synthetic) \<and>
     (resChangedHeaders r \<longrightarrow> boundedHeader (resHeaders r) \<and> endToEnd (responsePhase \<or> synthetic) (resHeaders r)) \<and>
     (resChangedTrailers r \<longrightarrow> (responsePhase \<or> synthetic) \<and> boundedHeader (resTrailers r) \<and>
        (\<forall>(k, _) \<in> set (resTrailers r). validResponseTrailerName k)) \<and>
     (resChangedStatus r \<longrightarrow> (responsePhase \<or> synthetic) \<and> 100 \<le> resStatusCode r \<and> resStatusCode r \<le> 599)"

lemma exportedTrailers_Inr:
  assumes "exportedTrailers v = Inr t"
  shows "boundedHeader t \<and> (\<forall>(k, _) \<in> set t. validResponseTrailerName k)"
proof -
  have "exportedHeaders v = Inr t" "filter (\<lambda>name. \<not> validResponseTrailerName name) (map fst t) = []"
    using assms unfolding exportedTrailers_def bindJ_Inr case_list_Inr by blast+
  then show ?thesis using exportedHeaders_bounds by (auto simp: boundedHeader_def filter_empty_conv)
qed

lemma exportedStatus_Some: "exportedStatus v = Some st \<Longrightarrow> 100 \<le> st \<and> st \<le> 599"
  by (auto simp: exportedStatus_def split: option.splits if_splits)

lemma patchURL_OK:
  assumes "patchURL response object r = Inr r'" "resultOK responsePhase synthetic r" "response = (responsePhase \<or> synthetic)"
  shows "resultOK responsePhase synthetic r' \<and> resSynthetic r' = resSynthetic r \<and> resAbort r' = resAbort r"
  using assms by (auto simp: patchURL_def resultOK_def split: option.splits exported.splits if_splits)

lemma patchHeaders_OK:
  assumes "patchHeaders response object r = Inr r'" "resultOK responsePhase synthetic r" "response = (responsePhase \<or> synthetic)"
  shows "resultOK responsePhase synthetic r' \<and> resSynthetic r' = resSynthetic r \<and> resAbort r' = resAbort r"
proof (cases "map_of object ''headers''")
  case (Some raw)
  then obtain g h where "exportedHeaders raw = Inr g" "validateNativePatchHeaders response g = Inr h"
    and r': "r' = r\<lparr>resHeaders := h, resChangedHeaders := True\<rparr>"
    using assms(1) by (auto simp: patchHeaders_def split: sum.splits)
  then have "boundedHeader h \<and> endToEnd response h"
    using validateNativePatchHeaders_Inr exportedHeaders_bounds by blast
  then show ?thesis using assms(2,3) by (simp add: r' resultOK_def)
qed (use assms in \<open>simp add: patchHeaders_def\<close>)

lemma patchTrailers_OK:
  assumes "patchTrailers response object r = Inr r'" "resultOK responsePhase synthetic r" "response = (responsePhase \<or> synthetic)"
  shows "resultOK responsePhase synthetic r' \<and> resSynthetic r' = resSynthetic r \<and> resAbort r' = resAbort r"
proof (cases "map_of object ''trailers''")
  case (Some raw)
  then obtain t where "exportedTrailers raw = Inr t" "response"
    and r': "r' = r\<lparr>resTrailers := t, resChangedTrailers := True\<rparr>"
    using assms(1) by (auto simp: patchTrailers_def split: sum.splits if_splits)
  then show ?thesis using assms(2,3) exportedTrailers_Inr[of raw t] by (simp add: resultOK_def)
qed (use assms in \<open>simp add: patchTrailers_def\<close>)

lemma patchBody_OK:
  assumes "patchBody object r = Inr r'" "resultOK responsePhase synthetic r"
  shows "resultOK responsePhase synthetic r' \<and> resSynthetic r' = resSynthetic r \<and> resAbort r' = resAbort r"
  using assms by (auto simp: patchBody_def resultOK_def split: option.splits)

lemma patchStatus_OK:
  assumes "patchStatus response object r = Inr r'" "resultOK responsePhase synthetic r" "response = (responsePhase \<or> synthetic)"
  shows "resultOK responsePhase synthetic r' \<and> resSynthetic r' = resSynthetic r \<and> resAbort r' = resAbort r"
  using assms by (auto simp: patchStatus_def resultOK_def dest: exportedStatus_Some split: option.splits if_splits)

lemma applyNativePatch_OK:
  assumes "applyNativePatch r v response = Inr r'" "resultOK responsePhase synthetic r" "response = (responsePhase \<or> synthetic)"
  shows "resultOK responsePhase synthetic r' \<and> resSynthetic r' = resSynthetic r \<and> resAbort r' = resAbort r"
proof -
  obtain object r1 r2 r3 r4 where r: "patchURL response object r = Inr r1" "patchHeaders response object r1 = Inr r2"
    "patchTrailers response object r2 = Inr r3" "patchBody object r3 = Inr r4" "patchStatus response object r4 = Inr r'"
    using assms(1) by (auto simp: applyNativePatch_def split: option.splits if_splits)
  note s1 = patchURL_OK[OF r(1) assms(2,3)]
  note s2 = patchHeaders_OK[OF r(2) conjunct1[OF s1] assms(3)]
  note s3 = patchTrailers_OK[OF r(3) conjunct1[OF s2] assms(3)]
  note s4 = patchBody_OK[OF r(4) conjunct1[OF s3]]
  note s5 = patchStatus_OK[OF r(5) conjunct1[OF s4] assms(3)]
  show ?thesis using s1 s2 s3 s4 s5 by simp
qed

lemma noResult_OK [simp]: "resultOK p s noResult" "resultOK p s (noResult\<lparr>resAbort := b\<rparr>)"
  by (simp_all add: resultOK_def noResult_def)

lemma resultOK_synthetic [simp]: "resultOK p s (r\<lparr>resSynthetic := b\<rparr>) = resultOK p s r"
  by (simp add: resultOK_def)

lemma noResult_synthetic [simp]: "\<not> resSynthetic noResult"
  by (simp add: noResult_def)

lemma syntheticPatch_OK:
  assumes "syntheticPatch responsePhase r0 patch = Inr r" "\<And>p s. resultOK p s r0"
  shows "resultOK responsePhase (resSynthetic r) r \<and> (responsePhase \<longrightarrow> \<not> resSynthetic r)"
proof -
  obtain r1 where "applyNativePatch r0 patch True = Inr r1" "r = r1\<lparr>resSynthetic := \<not> responsePhase\<rparr>"
    using assms(1) unfolding syntheticPatch_def by (cases "applyNativePatch r0 patch True") auto
  then show ?thesis using applyNativePatch_OK[of r0 patch True r1 responsePhase "\<not> responsePhase"] assms(2) by simp
qed

lemma plainPatch_OK:
  assumes "applyNativePatch r0 patch responsePhase = Inr r" "\<And>p s. resultOK p s r0" "\<not> resSynthetic r0"
  shows "resultOK responsePhase (resSynthetic r) r \<and> (responsePhase \<longrightarrow> \<not> resSynthetic r)"
  using applyNativePatch_OK[OF assms(1,2), of responsePhase False] assms(3) by simp

lemma nativePatches_OK:
  assumes "nativePatches responsePhase object r0 = Inr r" "\<And>p s. resultOK p s r0" "\<not> resSynthetic r0"
  shows "resultOK responsePhase (resSynthetic r) r \<and> (responsePhase \<longrightarrow> \<not> resSynthetic r)"
proof (cases "map_of object ''request''")
  case None
  show ?thesis
  proof (cases "map_of object ''response''")
    case None
    with \<open>map_of object ''request'' = None\<close> assms show ?thesis by (auto simp: nativePatches_def)
  next
    case (Some patch)
    with \<open>map_of object ''request'' = None\<close> assms(1) have "syntheticPatch responsePhase r0 patch = Inr r"
      by (simp add: nativePatches_def)
    then show ?thesis using assms(2) by (rule syntheticPatch_OK)
  qed
next
  case (Some patch)
  with assms plainPatch_OK[of r0 patch responsePhase r] show ?thesis
    by (cases "map_of object ''response''") (simp_all add: nativePatches_def split: if_splits)
qed

lemma nativeAbort_Inr: "nativeAbort object = Inr r \<Longrightarrow> \<exists>b. r = noResult\<lparr>resAbort := b\<rparr>"
  by (auto simp: nativeAbort_def noResult_def split: option.splits exported.splits)

lemma parseNativeScriptResult_OK:
  assumes "parseNativeScriptResult v responsePhase = Inr r"
  shows "resultOK responsePhase (resSynthetic r) r \<and> (responsePhase \<longrightarrow> \<not> resSynthetic r)"
proof (cases v)
  case (Some raw)
  then obtain object r0 where "nativeAbort object = Inr r0" and r: "nativePatches responsePhase object r0 = Inr r"
    using assms by (auto simp: parseNativeScriptResult_def split: option.splits if_splits)
  then obtain b where "r0 = noResult\<lparr>resAbort := b\<rparr>" using nativeAbort_Inr by blast
  then show ?thesis using nativePatches_OK[OF r] by simp
qed (use assms in \<open>simp add: parseNativeScriptResult_def\<close>)

lemma parseCompatScriptResult_OK:
  assumes "parseCompatScriptResult v responsePhase = Inr r"
  shows "resultOK responsePhase (resSynthetic r) r \<and> (responsePhase \<longrightarrow> \<not> resSynthetic r)"
proof (cases v)
  case (Some raw)
  obtain patch where patch: "stringAnyMap raw = Some patch"
    using assms Some by (cases "stringAnyMap raw") (simp_all add: parseCompatScriptResult_def)
  show ?thesis
  proof (cases "map_of patch ''response''")
    case None
    then have "applyNativePatch noResult (ExMap (compatProjection patch)) responsePhase = Inr r"
      using assms Some patch by (simp add: parseCompatScriptResult_def)
    then show ?thesis by (rule plainPatch_OK) simp_all
  next
    case env: (Some envelope)
    then obtain inner where "syntheticPatch responsePhase noResult (ExMap (compatProjection inner)) = Inr r"
      using assms Some patch by (cases "stringAnyMap (unwrapCompatValue envelope)") (simp_all add: parseCompatScriptResult_def)
    then show ?thesis by (rule syntheticPatch_OK) simp
  qed
qed (use assms in \<open>simp add: parseCompatScriptResult_def\<close>)

lemma executeScript_parses:
  assumes "executeScript x en m rule request response = Inr r"
  obtains v where "parseNativeScriptResult v (response \<noteq> None) = Inr r" | v where "parseCompatScriptResult v (response \<noteq> None) = Inr r"
proof (cases "ruleEntry rule = scriptEntryProxyCompat")
  case True
  then show thesis using assms that(2)
    by (simp add: executeScript_def executeProxyCompat_def Let_def map_sum_result split: option.splits if_splits)
next
  case False
  then show thesis using assms that(1) by (auto simp: executeScript_def map_sum_result split: option.splits)
qed

text \<open>C23: Whatever a script hands back, the result that is applied is confined to its phase. Only a
request action that does not answer the exchange can change the URL, only a response can be given a
status, between 100 and 599, or trailers, all of them fields a trailer section may carry; a response
action never answers in place of the origin; and every header block is within the bounds, its only
hop-by-hop field being \<^verbatim>\<open>TE: trailers\<close> on a request.\<close>
theorem script_results_confined:
  assumes "executeScript x en m rule request response = Inr r"
  shows "resultOK (response \<noteq> None) (resSynthetic r) r \<and> (response \<noteq> None \<longrightarrow> \<not> resSynthetic r)"
  using executeScript_parses[OF assms] parseNativeScriptResult_OK parseCompatScriptResult_OK by metis

definition exEngines :: "exported option \<Rightarrow> engines" where
  "exEngines value = \<lparr>enNative = (\<lambda>m r st rq rs. Some value),
     enBundle = (\<lambda>m r st rq rs. \<lparr>brunProgram = True, brunDone = [value], brunWait = True\<rparr>),
     enJQ = (\<lambda>c v st. FirstNone False)\<rparr>"

definition exScriptRule :: ScriptRule where
  "exScriptRule = docRule\<lparr>ruleReject := False, ruleProgram := Some (Program [] []), ruleSettings := Some []\<rparr>"

definition exMessage :: scriptMessage where
  "exMessage = \<lparr>msgURL = ''https://a.example.com/'', msgMethod = ''GET'', msgHeaders = [], msgTrailers = [], msgBody = [], msgStatusCode = 0\<rparr>"

theorem script_results_confined_witness:
  "\<exists>r. executeScript docExterns (exEngines (Some (ExMap [(''response'', ExMap [(''status'', ExInt 404), (''body'', ExString ''no'')])])))
     docModule exScriptRule exMessage None = Inr r \<and> resSynthetic r \<and> resStatusCode r = 404 \<and> resultOK False True r"
proof -
  let ?en = "exEngines (Some (ExMap [(''response'', ExMap [(''status'', ExInt 404), (''body'', ExString ''no'')])]))"
  let ?r = "noResult\<lparr>resBody := ''no'', resChangedBody := True, resStatusCode := 404, resChangedStatus := True, resSynthetic := True\<rparr>"
  have e: "executeScript docExterns ?en docModule exScriptRule exMessage None = Inr ?r"
    by (simp add: executeScript_def exEngines_def exScriptRule_def docRule_def scriptProgram_def scriptSettingValues_def
        scriptEntryProxyCompat_def parseNativeScriptResult_def stringAnyMap_def nativeAbort_def nativePatches_def
        syntheticPatch_def applyNativePatch_def patchKeys_def patchURL_def patchHeaders_def patchTrailers_def patchBody_def
        patchStatus_def exportedBody_def exportedStatus_def bindJ_def del: bindJ_Inr)
  show ?thesis using script_results_confined[OF e] e by simp
qed

section \<open>jq\<close>

text \<open>A whole number of any size reaches the filter exactly.\<close>

lemma jq_whole_numbers_exact: "normaliseJQNumbers x (JNum (itoa i)) = Some (JqInt i)"
proof (cases "i < 0")
  case True
  then show ?thesis using digits_of_digit[of "nat (- i)"]
    by (simp add: itoa_def wholeLiteral_def)
next
  case False
  then have i: "itoa i = digits_of (nat i)" by (simp add: itoa_def)
  obtain c cs where d: "digits_of (nat i) = c # cs" by (cases "digits_of (nat i)") auto
  have "c \<noteq> CHR ''-''" "list_all is_digit (c # cs)" "digits_value (c # cs) = nat i"
    using hd_digits_of[of "nat i"] digits_of_digit[of "nat i"] digits_value_digits_of[of "nat i"] d by auto
  then show ?thesis using False by (simp add: i d wholeLiteral_def)
qed
end
