(* ===== verification/Response_Writer.thy ===== *)
theory Response_Writer
  imports Http_Headers
begin

text \<open>
  Writing a response to the client (proxy.go \<^verbatim>\<open>transferDeadlineWriter\<close>, \<^verbatim>\<open>writeStreamingProxyResponse\<close>,
  module_proxy.go \<^verbatim>\<open>writeBufferedModuleResponse\<close>).

  The client's side of the connection is an argument: how many bytes of a piece it takes and whether
  the write ended without an error, by the number of pieces offered before, and whether a flush
  succeeds. What a writer did is the list of pieces it offered and the bytes that were taken.
\<close>

record client =
  clWrite :: "nat \<Rightarrow> string \<Rightarrow> nat \<times> bool"
  clFlush :: bool

datatype write_error =
    WriteFailed | ShortWrite | BodyNotAllowed | TrailersNeedBody | FlushFailed | TrailersRefused header_error | BodyReadFailed

definition interceptTransferWriteChunk :: nat where "interceptTransferWriteChunk = 32 * 2 ^ 10"

lemma chunk_pos [simp]: "0 < interceptTransferWriteChunk"
  by (simp add: interceptTransferWriteChunk_def)

text \<open>Every piece is offered under a deadline of its own.\<close>

function transferWrite :: "client \<Rightarrow> nat \<Rightarrow> string \<Rightarrow> string list \<times> string \<times> write_error option" where
  "transferWrite cl n payload =
     (if payload = [] then ([], [], None)
      else
        (let chunk = take interceptTransferWriteChunk payload; (count, ok) = clWrite cl n chunk
         in if \<not> ok then ([chunk], take count chunk, Some WriteFailed)
            else if count < length chunk then ([chunk], take count chunk, Some ShortWrite)
            else (case transferWrite cl (Suc n) (drop count payload) of
                    (offered, taken, e) \<Rightarrow> (chunk # offered, chunk @ taken, e))))"
  by pat_completeness auto
termination
proof (relation "measure (\<lambda>(cl, n, payload). length payload)")
  fix cl :: client and n :: nat and payload chunk :: string and xy :: "nat \<times> bool" and count ok
  assume "payload \<noteq> []" "chunk = take interceptTransferWriteChunk payload" "\<not> count < length chunk"
  then have "0 < count" "0 < length payload" by (simp_all add: not_less)
      (metis chunk_pos dual_order.strict_trans1 length_greater_0_conv min_less_iff_conj)
  then show "((cl, Suc n, drop count payload), cl, n, payload) \<in> measure (\<lambda>(cl, n, payload). length payload)" by simp
qed simp

declare transferWrite.simps [simp del]

record written =
  wrStatus :: int
  wrHeader :: headers
  wrBody :: string
  wrFinal :: headers

text \<open>The header of a buffered response as it is committed, and the trailers it declares.\<close>

definition bufferedHeader :: "headers \<Rightarrow> headers \<Rightarrow> string \<Rightarrow> string list \<times> headers" where
  "bufferedHeader headers trailers body =
     (let h = headerDel ''Content-Encoding'' (removeHopByHopHeaders (copyResponseHeaders [] headers));
          (declared, h) = declareResponseTrailers h trailers
      in (declared, if declared = [] then headerSet ''Content-Length'' (digits_of (length body)) h else h))"

definition writeBufferedModuleResponse :: "client \<Rightarrow> string \<Rightarrow> int \<Rightarrow> headers \<Rightarrow> headers \<Rightarrow> string \<Rightarrow> write_error + written" where
  "writeBufferedModuleResponse cl m status headers trailers body =
     (let canHaveBody = responseCanHaveBody m status
      in if body \<noteq> [] \<and> \<not> canHaveBody then Inl BodyNotAllowed
         else if responseTrailerNames trailers \<noteq> [] \<and> \<not> canHaveBody then Inl TrailersNeedBody
         else
           (let (declared, h) = bufferedHeader headers trailers body
            in case (if body = [] then ([], [], None) else transferWrite cl 0 body) of
                 (_, _, Some e) \<Rightarrow> Inl e
               | (_, taken, None) \<Rightarrow>
                   (if length taken \<noteq> length body then Inl ShortWrite
                    else if declared \<noteq> [] \<and> \<not> clFlush cl then Inl FlushFailed
                    else Inr \<lparr>wrStatus = status, wrHeader = h, wrBody = taken,
                           wrFinal = publishResponseTrailers h trailers declared\<rparr>)))"

section \<open>Streaming\<close>

text \<open>
  A response of the upstream: the pieces its body comes in and whether it ends cleanly, the trailers
  it announced and those it has once the body has been read.
\<close>

record httpResponse =
  rsStatus :: int
  rsProtoMajor :: nat
  rsHeader :: headers
  rsContentLength :: int
  rsBody :: "string list \<times> bool"
  rsTrailer :: headers
  rsFinalTrailer :: headers

fun copyPieces :: "client \<Rightarrow> nat \<Rightarrow> string list \<Rightarrow> string \<times> write_error option" where
  "copyPieces cl n [] = ([], None)"
| "copyPieces cl n (p # ps) =
     (case transferWrite cl n p of
        (offered, taken, Some e) \<Rightarrow> (taken, Some e)
      | (offered, taken, None) \<Rightarrow> apfst (append taken) (copyPieces cl (n + length offered) ps))"

definition copyBody :: "client \<Rightarrow> string list \<times> bool \<Rightarrow> string \<times> write_error option" where
  "copyBody cl body =
     (case body of (pieces, clean) \<Rightarrow>
        (case copyPieces cl 0 pieces of
           (taken, None) \<Rightarrow> (taken, if clean then None else Some BodyReadFailed)
         | r \<Rightarrow> r))"

definition forceChunked :: "nat \<Rightarrow> string \<Rightarrow> httpResponse \<Rightarrow> bool" where
  "forceChunked downstreamProtoMajor m response \<longleftrightarrow>
     downstreamProtoMajor = 1 \<and> rsProtoMajor response \<ge> 2 \<and> responseCanHaveBody m (rsStatus response)"

definition streamedHeader :: "nat \<Rightarrow> string \<Rightarrow> httpResponse \<Rightarrow> headers \<Rightarrow> string list \<times> headers" where
  "streamedHeader downstreamProtoMajor m response announced =
     (let (declared, h) = declareResponseTrailers (copyResponseHeaders [] (rsHeader response)) announced
      in (declared, if forceChunked downstreamProtoMajor m response then headerDel ''Content-Length'' h else h))"

definition writeStreamingProxyResponse :: "client \<Rightarrow> nat \<Rightarrow> string \<Rightarrow> httpResponse \<Rightarrow> write_error + written" where
  "writeStreamingProxyResponse cl downstreamProtoMajor m response =
     (case wireTrailers (rsTrailer response) of
        Inl e \<Rightarrow> Inl (TrailersRefused e)
      | Inr announced \<Rightarrow>
          (let canHaveBody = responseCanHaveBody m (rsStatus response)
           in if responseTrailerNames announced \<noteq> [] \<and> \<not> canHaveBody then Inl TrailersNeedBody
              else
                (let (declared, h) = streamedHeader downstreamProtoMajor m response announced
                 in if forceChunked downstreamProtoMajor m response \<and> \<not> clFlush cl then Inl FlushFailed
                    else (case copyBody cl (rsBody response) of
                            (_, Some e) \<Rightarrow> Inl e
                          | (taken, None) \<Rightarrow>
                              (case wireTrailers (rsFinalTrailer response) of
                                 Inl e \<Rightarrow> Inl (TrailersRefused e)
                               | Inr trailers \<Rightarrow>
                                   (if responseTrailerNames trailers \<noteq> [] \<and> \<not> canHaveBody then Inl TrailersNeedBody
                                    else if responseTrailerNames trailers \<noteq> [] \<and> \<not> clFlush cl then Inl FlushFailed
                                    else Inr \<lparr>wrStatus = rsStatus response, wrHeader = h, wrBody = taken,
                                           wrFinal = publishResponseTrailers h trailers declared\<rparr>))))))"

end
