(* ===== verification/Response_Writer_Properties.thy ===== *)
theory Response_Writer_Properties
  imports Response_Writer Http_Headers_Properties
begin

text \<open>
  What the client receives: the write loop ends and delivers the payload or a prefix of it, a
  buffered response is framed for the body it carries, and a streamed one passes through unchanged.
\<close>

section \<open>The write loop\<close>

definition writerContract :: "client \<Rightarrow> bool" where
  "writerContract cl \<longleftrightarrow> (\<forall>n c. fst (clWrite cl n c) \<le> length c)"

definition piecesBound :: "nat \<Rightarrow> nat" where
  "piecesBound n = (n + interceptTransferWriteChunk - 1) div interceptTransferWriteChunk"

lemma piecesBound_step:
  assumes "0 < n"
  shows "Suc (piecesBound (n - min n interceptTransferWriteChunk)) = piecesBound n"
proof (cases "n \<le> interceptTransferWriteChunk")
  case True
  then have "n + interceptTransferWriteChunk - 1 = interceptTransferWriteChunk + (n - 1)" "n - 1 < interceptTransferWriteChunk"
    using assms by auto
  then have "piecesBound n = 1" unfolding piecesBound_def by (metis chunk_pos div_add_self1 div_less less_numeral_extra(3) plus_nat.add_0 One_nat_def add.commute)
  moreover have "piecesBound 0 = 0" by (simp add: piecesBound_def)
  ultimately show ?thesis using True by (simp add: min_def)
next
  case False
  then have "n + interceptTransferWriteChunk - 1 = interceptTransferWriteChunk + (n - interceptTransferWriteChunk + interceptTransferWriteChunk - 1)"
    by simp
  then have "piecesBound n = Suc (piecesBound (n - interceptTransferWriteChunk))"
    unfolding piecesBound_def using chunk_pos by (metis div_add_self1 less_numeral_extra(3) Suc_eq_plus1)
  then show ?thesis using False by (simp add: min_def)
qed

definition transferOK :: "string \<Rightarrow> string list \<Rightarrow> string \<Rightarrow> write_error option \<Rightarrow> bool" where
  "transferOK payload offered taken e \<longleftrightarrow>
     length offered \<le> piecesBound (length payload) \<and>
     (\<forall>c\<in>set offered. c \<noteq> [] \<and> length c \<le> interceptTransferWriteChunk) \<and>
     prefix taken payload \<and> (e = None \<longrightarrow> concat offered = payload \<and> taken = payload)"

lemma transferWrite_OK:
  "writerContract cl \<Longrightarrow> transferWrite cl n payload = (offered, taken, e) \<Longrightarrow> transferOK payload offered taken e"
proof (induction cl n payload arbitrary: offered taken e rule: transferWrite.induct)
  case (1 cl n payload)
  show ?case
  proof (cases "payload = []")
    case True
    then show ?thesis using "1.prems"(2) by (simp add: transferWrite.simps transferOK_def)
  next
    case False
    define chunk where "chunk = take interceptTransferWriteChunk payload"
    obtain count ok where w: "clWrite cl n chunk = (count, ok)" by force
    have c: "chunk \<noteq> []" "length chunk \<le> interceptTransferWriteChunk" "prefix chunk payload"
      using False chunk_pos by (auto simp: chunk_def take_is_prefix)
    then have c4: "payload = chunk @ drop (length chunk) payload" by (metis append_eq_conv_conj prefix_def)
    have p1: "1 \<le> piecesBound (length payload)" using piecesBound_step[of "length payload"] False by simp
    show ?thesis
    proof (cases "ok \<and> \<not> count < length chunk")
      case True
      then have count: "count = length chunk" using "1.prems"(1) w by (metis fst_conv nat_less_le writerContract_def)
      obtain o' t' where r: "transferWrite cl (Suc n) (drop count payload) = (o', t', e)"
        and o: "offered = chunk # o'" "taken = chunk @ t'"
        using "1.prems"(2) False True w
        by (subst (asm) transferWrite.simps) (auto simp: chunk_def[symmetric] split: prod.splits)
      have ih: "transferOK (drop count payload) o' t' e"
        by (rule "1.IH"[OF False chunk_def w[symmetric] refl _ _ "1.prems"(1) r]) (use True in simp_all)
      have "Suc (piecesBound (length (drop count payload))) = piecesBound (length payload)"
        using piecesBound_step[of "length payload"] False by (simp add: count chunk_def)
      then show ?thesis using ih c o unfolding transferOK_def
        by (simp add: count) (metis c4 same_prefix_prefix)
    next
      case False': False
      then have "offered = [chunk]" "taken = take count chunk" "e \<noteq> None"
        using "1.prems"(2) False w by (subst (asm) transferWrite.simps; auto simp: chunk_def[symmetric] split: if_splits)+
      then show ?thesis using c p1 unfolding transferOK_def
        by (auto intro: prefix_order.trans[OF take_is_prefix])
    qed
  qed
qed

lemma transferWrite_no_error:
  assumes "\<And>n c. clWrite cl n c = (length c, True)"
  shows "snd (snd (transferWrite cl n payload)) = None"
proof (induction "length payload" arbitrary: n payload rule: less_induct)
  case less
  show ?case
  proof (cases "payload = []")
    case False
    then have "length (drop (length (take interceptTransferWriteChunk payload)) payload) < length payload"
      using chunk_pos by (simp add: min_def)
    from less[OF this, of "Suc n"] show ?thesis
      by (subst transferWrite.simps) (auto simp: Let_def assms split: prod.splits)
  qed (simp add: transferWrite.simps)
qed

text \<open>For a writer that keeps the contract of \<^verbatim>\<open>io.Writer\<close>, the write of a payload of any length
ends after at most one piece for every 32 KiB, each of them offered under its own deadline; what
the client has taken is a prefix of the payload, the whole payload when no error is reported, and
no error is reported when every piece is taken.\<close>
theorem transfer_write_ends:
  assumes "writerContract cl"
  shows "\<exists>offered taken e. transferWrite cl n payload = (offered, taken, e) \<and>
    length offered \<le> piecesBound (length payload) \<and>
    (\<forall>c\<in>set offered. c \<noteq> [] \<and> length c \<le> interceptTransferWriteChunk) \<and>
    prefix taken payload \<and> (e = None \<longrightarrow> concat offered = payload \<and> taken = payload) \<and>
    ((\<forall>n c. clWrite cl n c = (length c, True)) \<longrightarrow> e = None)"
proof -
  obtain offered taken e where r: "transferWrite cl n payload = (offered, taken, e)" by (metis prod_cases3)
  have "transferOK payload offered taken e" by (rule transferWrite_OK[OF assms r])
  moreover have "(\<forall>n c. clWrite cl n c = (length c, True)) \<longrightarrow> e = None"
    using transferWrite_no_error[of cl n payload] r by auto
  ultimately have "transferWrite cl n payload = (offered, taken, e) \<and>
    length offered \<le> piecesBound (length payload) \<and>
    (\<forall>c\<in>set offered. c \<noteq> [] \<and> length c \<le> interceptTransferWriteChunk) \<and>
    prefix taken payload \<and> (e = None \<longrightarrow> concat offered = payload \<and> taken = payload) \<and>
    ((\<forall>n c. clWrite cl n c = (length c, True)) \<longrightarrow> e = None)"
    using r unfolding transferOK_def by simp
  then show ?thesis by (intro exI)
qed

definition exClient :: client where
  "exClient = \<lparr>clWrite = (\<lambda>n c. (length c, True)), clFlush = True\<rparr>"

lemma exClient_contract: "writerContract exClient"
  by (simp add: writerContract_def exClient_def)

theorem transfer_write_ends_witness:
  "\<exists>offered. transferWrite exClient 0 ''ab'' = (offered, ''ab'', None) \<and> length offered \<le> 1"
proof -
  obtain offered taken e where "transferWrite exClient 0 ''ab'' = (offered, taken, e)" "length offered \<le> piecesBound (length ''ab'')"
    "e = None \<longrightarrow> concat offered = ''ab'' \<and> taken = ''ab''" "(\<forall>n c. clWrite exClient n c = (length c, True)) \<longrightarrow> e = None"
    using transfer_write_ends[OF exClient_contract, of 0 "''ab''"] by blast
  then show ?thesis by (simp add: exClient_def piecesBound_def interceptTransferWriteChunk_def)
qed

section \<open>Framing\<close>

lemma canonicalHeader_filterlike:
  assumes "canonicalHeader h" "distinct (map fst g)" "\<And>k v. map_of g k = Some v \<Longrightarrow> map_of h k = Some v"
  shows "canonicalHeader g"
proof -
  have "validModuleNetworkHeaderName k \<and> canonicalKey k = k" if "(k, v) \<in> set g" for k v
    using canonicalHeader_lookup[OF assms(1), of k v] assms(3)[of k v] that assms(2) by simp
  then show ?thesis using assms(2) by (auto simp: canonicalHeader_def list_all_iff)
qed

lemma distinct_copyResponseHeaders_aux:
  "distinct (map fst d) \<Longrightarrow> distinct (map fst (fold (\<lambda>(name, values) d. if P name then d else AList.update name values d) h d))"
  by (induction h arbitrary: d) (auto simp: distinct_update split: prod.splits)

lemma canonicalHeader_copyResponseHeaders:
  assumes "canonicalHeader h"
  shows "canonicalHeader (copyResponseHeaders [] h)"
proof (rule canonicalHeader_filterlike[OF assms])
  show "distinct (map fst (copyResponseHeaders [] h))"
    unfolding copyResponseHeaders_def by (rule distinct_copyResponseHeaders_aux) simp
  show "map_of h k = Some v" if "map_of (copyResponseHeaders [] h) k = Some v" for k v
    using that map_of_copyResponseHeaders[of h k] assms by (auto simp: canonicalHeader_def split: if_splits)
qed

lemma copyResponseHeaders_lists_nothing:
  assumes "canonicalHeader h"
  shows "\<not> connectionListsHeader (copyResponseHeaders [] h) k"
proof -
  have c: "canonicalKey ''Connection'' = ''Connection''" "isHopByHopHeader ''Connection''" by code_simp+
  have "map_of (copyResponseHeaders [] h) ''Connection'' = None"
    using map_of_copyResponseHeaders[of h "''Connection''"] assms c by (simp add: canonicalHeader_def)
  then show ?thesis by (simp add: connectionListsHeader_def connectionNames_def headerValues_def c)
qed

lemma framing_keys: "canonicalKey ''Trailer'' = ''Trailer''" "canonicalKey ''Content-Length'' = ''Content-Length''"
  "canonicalKey ''Content-Encoding'' = ''Content-Encoding''" "isHopByHopHeader ''Trailer''"
  by code_simp+

lemma map_of_declare:
  "declareResponseTrailers h trailers = (declared, g) \<Longrightarrow>
     declared = responseTrailerNames trailers \<and>
     map_of g k = (if k = ''Trailer'' then (if declared = [] then None else Some [joinNames declared])
       else if k = ''Content-Length'' \<and> declared \<noteq> [] then None else map_of h k)"
  by (auto simp: declareResponseTrailers_def Let_def headerDel_def headerSet_def framing_keys split: if_splits)

lemma map_of_bufferedHeader:
  assumes "canonicalHeader headers" "bufferedHeader headers trailers body = (declared, h)"
  shows "declared = responseTrailerNames trailers"
    and "map_of h k =
      (if k = ''Trailer'' then (if declared = [] then None else Some [joinNames declared])
       else if k = ''Content-Length'' then (if declared = [] then Some [digits_of (length body)] else None)
       else if k = ''Content-Encoding'' \<or> isHopByHopHeader k \<or> connectionListsHeader headers k then None
       else map_of headers k)"
proof -
  let ?c = "copyResponseHeaders [] headers"
  obtain g where g: "declareResponseTrailers (headerDel ''Content-Encoding'' (removeHopByHopHeaders ?c)) trailers = (declared, g)"
    and h: "h = (if declared = [] then headerSet ''Content-Length'' (digits_of (length body)) g else g)"
    using assms(2) by (auto simp: bufferedHeader_def split: prod.splits)
  note d = map_of_declare[OF g]
  show "declared = responseTrailerNames trailers" using d by simp
  have "map_of (removeHopByHopHeaders ?c) j = (if isHopByHopHeader j \<or> connectionListsHeader headers j then None else map_of headers j)" for j
    using map_of_removeHopByHopHeaders[OF canonicalHeader_copyResponseHeaders[OF assms(1)], of j]
      copyResponseHeaders_lists_nothing[OF assms(1)] map_of_copyResponseHeaders[of headers j] assms(1)
    by (simp add: canonicalHeader_def)
  then show "map_of h k =
      (if k = ''Trailer'' then (if declared = [] then None else Some [joinNames declared])
       else if k = ''Content-Length'' then (if declared = [] then Some [digits_of (length body)] else None)
       else if k = ''Content-Encoding'' \<or> isHopByHopHeader k \<or> connectionListsHeader headers k then None
       else map_of headers k)"
    using d by (auto simp: h headerSet_def headerDel_def framing_keys)
qed

lemma map_of_fold_alist_update:
  assumes "\<And>y. y \<in> set xs \<Longrightarrow> key y = k \<Longrightarrow> val y = v" "x \<in> set xs" "key x = k"
  shows "map_of (fold (\<lambda>x. AList.update (key x) (val x)) xs h) k = Some v"
  using assms by (induction xs rule: rev_induct) auto

lemma trailer_name_no_colon:
  assumes "n \<in> set (responseTrailerNames trailers)"
  shows "CHR '':'' \<notin> set n"
proof
  assume "CHR '':'' \<in> set n"
  then have "isTokenByte CHR '':''"
    using assms by (auto simp: responseTrailerNames_def validResponseTrailerName_def validModuleNetworkHeaderName_def list_all_iff)
  then show False by code_simp
qed

lemma map_of_publish:
  assumes "n \<in> set (responseTrailerNames trailers)" "n \<in> set declared"
  shows "map_of (publishResponseTrailers h trailers declared) n = Some (responseTrailerValues trailers n)"
  unfolding publishResponseTrailers_def
  by (rule map_of_fold_alist_update[where x = n]) (use assms trailer_name_no_colon[OF assms(1)] in \<open>auto split: if_splits\<close>)

text \<open>A response the sidecar writes itself reaches the client with the status and the body it was
given, and is framed for that body: its \<^verbatim>\<open>Content-Length\<close> is the number of bytes written, unless
trailers are declared, no \<^verbatim>\<open>Content-Encoding\<close> is left, hop-by-hop fields and those \<^verbatim>\<open>Connection\<close> lists
are gone, every other field is as it was, and every trailer that may be sent is declared and
published with its values. A body is written only where the method and the status allow one.\<close>
theorem buffered_response_framed:
  assumes "writerContract cl" "canonicalHeader headers"
    and "writeBufferedModuleResponse cl m status headers trailers body = Inr w"
  shows "wrStatus w = status \<and> wrBody w = body \<and> (body \<noteq> [] \<longrightarrow> responseCanHaveBody m status) \<and>
    map_of (wrHeader w) k =
      (if k = ''Trailer'' then (if responseTrailerNames trailers = [] then None else Some [joinNames (responseTrailerNames trailers)])
       else if k = ''Content-Length'' then (if responseTrailerNames trailers = [] then Some [digits_of (length body)] else None)
       else if k = ''Content-Encoding'' \<or> isHopByHopHeader k \<or> connectionListsHeader headers k then None
       else map_of headers k) \<and>
    (\<forall>n\<in>set (responseTrailerNames trailers). map_of (wrFinal w) n = Some (responseTrailerValues trailers n))"
proof -
  obtain declared h where b: "bufferedHeader headers trailers body = (declared, h)" by force
  obtain offered taken e where t: "(if body = [] then ([], [], None) else transferWrite cl 0 body) = (offered, taken, e)"
    by (metis prod_cases3)
  have "e = None" and len: "length taken = length body" and can: "body \<noteq> [] \<longrightarrow> responseCanHaveBody m status"
    and w: "w = \<lparr>wrStatus = status, wrHeader = h, wrBody = taken, wrFinal = publishResponseTrailers h trailers declared\<rparr>"
    using assms(3) unfolding writeBufferedModuleResponse_def Let_def b t
    by (auto split: if_splits option.splits)
  have "prefix taken body"
    using t transferWrite_OK[OF assms(1), of 0 body offered taken e] by (auto simp: transferOK_def split: if_splits)
  with len have "taken = body" by (metis append_eq_conv_conj prefix_def take_all_iff order_refl)
  note m = map_of_bufferedHeader[OF assms(2) b]
  show ?thesis using can w \<open>taken = body\<close> m map_of_publish[of _ trailers declared h] by simp
qed

theorem buffered_response_framed_witness:
  "\<exists>w. writeBufferedModuleResponse exClient ''GET'' 200 [(''X-A'', [''1''])] [] ''ok'' = Inr w \<and>
     wrBody w = ''ok'' \<and> map_of (wrHeader w) ''Content-Length'' = Some [''2'']"
proof -
  obtain offered where t: "transferWrite exClient 0 ''ok'' = (offered, ''ok'', None)"
    by (simp add: transferWrite.simps exClient_def interceptTransferWriteChunk_def Let_def)
  obtain declared h where b: "bufferedHeader [(''X-A'', [''1''])] [] ''ok'' = (declared, h)" by force
  have can: "canonicalHeader [(''X-A'', [''1''])]" "responseCanHaveBody ''GET'' 200" by code_simp+
  have d: "declared = []" using map_of_bufferedHeader(1)[OF can(1) b] by (simp add: responseTrailerNames_def)
  obtain w where w: "writeBufferedModuleResponse exClient ''GET'' 200 [(''X-A'', [''1''])] [] ''ok'' = Inr w"
    by (simp add: writeBufferedModuleResponse_def Let_def t b d can responseTrailerNames_def)
  have "digits_of (Suc (Suc 0)) = ''2''" by code_simp
  then show ?thesis
    using buffered_response_framed[OF exClient_contract can(1) w, of "''Content-Length''"] w by (simp add: responseTrailerNames_def)
qed

lemma copyPieces_OK:
  assumes "writerContract cl" "copyPieces cl n ps = (taken, None)"
  shows "taken = concat ps"
  using assms(2)
proof (induction ps arbitrary: n taken)
  case (Cons p ps)
  obtain o1 t1 e1 where t: "transferWrite cl n p = (o1, t1, e1)" by (metis prod_cases3)
  with Cons.prems have "e1 = None" by (auto split: option.splits)
  then have "t1 = p" using transferWrite_OK[OF assms(1) t] by (simp add: transferOK_def)
  with Cons t \<open>e1 = None\<close> show ?case by (cases "copyPieces cl (n + length o1) ps") (auto simp: apfst_def)
qed simp

lemma map_of_streamedHeader:
  assumes "canonicalHeader (rsHeader response)" "streamedHeader major m response announced = (declared, h)"
  shows "k \<noteq> ''Trailer'' \<and> k \<noteq> ''Content-Length'' \<longrightarrow>
      map_of h k = (if isHopByHopHeader k \<or> connectionListsHeader (rsHeader response) k then None else map_of (rsHeader response) k)"
    and "map_of h ''Content-Length'' = None \<or> map_of h ''Content-Length'' = map_of (rsHeader response) ''Content-Length''"
proof -
  obtain g where g: "declareResponseTrailers (copyResponseHeaders [] (rsHeader response)) announced = (declared, g)"
    and h: "h = (if forceChunked major m response then headerDel ''Content-Length'' g else g)"
    using assms(2) by (auto simp: streamedHeader_def split: prod.splits)
  have c: "map_of (copyResponseHeaders [] (rsHeader response)) j =
      (if isHopByHopHeader j \<or> connectionListsHeader (rsHeader response) j then None else map_of (rsHeader response) j)" for j
    by (rule map_of_copyResponseHeaders) (use assms(1) in \<open>simp add: canonicalHeader_def\<close>)
  show "k \<noteq> ''Trailer'' \<and> k \<noteq> ''Content-Length'' \<longrightarrow>
      map_of h k = (if isHopByHopHeader k \<or> connectionListsHeader (rsHeader response) k then None else map_of (rsHeader response) k)"
    using map_of_declare[OF g, of k] c[of k] by (simp add: h headerDel_def framing_keys)
  show "map_of h ''Content-Length'' = None \<or> map_of h ''Content-Length'' = map_of (rsHeader response) ''Content-Length''"
    using map_of_declare[OF g, of "''Content-Length''"] c[of "''Content-Length''"] by (simp add: h headerDel_def framing_keys)
qed

lemma copyBody_OK:
  assumes "writerContract cl" "copyBody cl body = (taken, None)"
  shows "taken = concat (fst body) \<and> snd body"
proof -
  obtain pieces clean where b: "body = (pieces, clean)" by force
  obtain t e where c: "copyPieces cl 0 pieces = (t, e)" by force
  with assms(2) b have "e = None" "t = taken" "clean" by (auto simp: copyBody_def split: option.splits if_splits)
  with copyPieces_OK[OF assms(1)] c b show ?thesis by simp
qed

text \<open>A response no action reads passes through unchanged: when the copy is reported as complete,
the upstream's body was read to its end and the client has taken exactly those bytes, under the
upstream's status, with every end-to-end field as the upstream sent it; \<^verbatim>\<open>Content-Length\<close> is the
upstream's or absent.\<close>
theorem streamed_response_faithful:
  assumes "writerContract cl" "canonicalHeader (rsHeader response)"
    and "writeStreamingProxyResponse cl major m response = Inr w"
  shows "wrStatus w = rsStatus response \<and> wrBody w = concat (fst (rsBody response)) \<and> snd (rsBody response) \<and>
    (k \<noteq> ''Trailer'' \<and> k \<noteq> ''Content-Length'' \<longrightarrow>
       map_of (wrHeader w) k =
         (if isHopByHopHeader k \<or> connectionListsHeader (rsHeader response) k then None else map_of (rsHeader response) k)) \<and>
    (map_of (wrHeader w) ''Content-Length'' = None \<or>
       map_of (wrHeader w) ''Content-Length'' = map_of (rsHeader response) ''Content-Length'')"
proof -
  obtain announced where a: "wireTrailers (rsTrailer response) = Inr announced"
    using assms(3) by (cases "wireTrailers (rsTrailer response)") (auto simp: writeStreamingProxyResponse_def)
  obtain declared h where sh: "streamedHeader major m response announced = (declared, h)" by force
  obtain taken e where c: "copyBody cl (rsBody response) = (taken, e)" by force
  have "e = None" "wrStatus w = rsStatus response" "wrHeader w = h" "wrBody w = taken"
    using assms(3) unfolding writeStreamingProxyResponse_def a
    by (auto simp: Let_def sh c split: if_splits option.splits sum.splits)
  then show ?thesis using copyBody_OK[OF assms(1)] c map_of_streamedHeader[OF assms(2) sh] by simp
qed

definition exResponse :: httpResponse where
  "exResponse = \<lparr>rsStatus = 200, rsProtoMajor = 1, rsHeader = [(''X-A'', [''1''])], rsContentLength = 2, rsBody = ([''o'', ''k''], True),
     rsTrailer = [], rsFinalTrailer = []\<rparr>"

theorem streamed_response_faithful_witness:
  "\<exists>w. writeStreamingProxyResponse exClient 1 ''GET'' exResponse = Inr w \<and> wrBody w = ''ok'' \<and> map_of (wrHeader w) ''X-A'' = Some [''1'']"
proof -
  have can: "canonicalHeader (rsHeader exResponse)" by code_simp
  have t: "wireTrailers [] = Inr []"
    by (simp add: wireTrailers_def exportedHeaders_def validatedScriptHeaderNames_def bindJ_def)
  obtain declared h where sh: "streamedHeader 1 ''GET'' exResponse [] = (declared, h)" by force
  have c: "copyBody exClient (rsBody exResponse) = (''ok'', None)"
    by (simp add: copyBody_def exResponse_def transferWrite.simps exClient_def interceptTransferWriteChunk_def Let_def)
  have ex: "rsTrailer exResponse = []" "rsFinalTrailer exResponse = []" "clFlush exClient" "responseTrailerNames [] = []"
    by (simp_all add: exResponse_def exClient_def responseTrailerNames_def)
  obtain w where w: "writeStreamingProxyResponse exClient 1 ''GET'' exResponse = Inr w"
    unfolding writeStreamingProxyResponse_def ex t c using sh by (simp add: Let_def ex)
  have "\<not> isHopByHopHeader ''X-A''" "\<not> connectionListsHeader (rsHeader exResponse) ''X-A''" by code_simp+
  then show ?thesis
    using streamed_response_faithful[OF exClient_contract can w, of "''X-A''"] w by (simp add: exResponse_def)
qed

end
