(* ===== verification/Request_Pipeline.thy ===== *)
theory Request_Pipeline
  imports Script_Results Response_Writer Projection
begin

text \<open>
  The exchange between a captured client and its origin (module_request_rewrite.go, module_proxy.go):
  the authorisation of a rewritten URL, the request actions in order, the request that goes upstream,
  the choice of the response actions by status, and the response actions.

  \<open>render\<close> is \<^verbatim>\<open>URL.String\<close>. A body is what reading it to the end gives, whether it ended cleanly and
  whether closing it succeeds. A panic with \<^verbatim>\<open>http.ErrAbortHandler\<close> is an outcome of its own: the
  server tears the exchange down.
\<close>

section \<open>Authorisation of a rewritten URL (module_network.go, module_request_rewrite.go)\<close>

definition parseModuleNetworkRequestURL :: "externs \<Rightarrow> string \<Rightarrow> (parsedURL \<times> string \<times> socksTarget) option" where
  "parseModuleNetworkRequestURL x raw =
     (if CHR ''#'' \<in> set raw then None
      else (case xURL x raw of
              None \<Rightarrow> None
            | Some u \<Rightarrow>
                (if urlOpaque u \<noteq> [] \<or> urlUser u \<noteq> None \<or> urlFragment u \<noteq> [] \<or> urlHostname u = [] then None
                 else (case canonicalModuleNetworkOrigin x (to_lower (urlScheme u) @ ''://'' @ urlHost u) of
                         None \<Rightarrow> None
                       | Some origin \<Rightarrow>
                           (case xURL x origin of
                              None \<Rightarrow> None
                            | Some ou \<Rightarrow>
                                (let portText = (if urlPort ou \<noteq> [] then urlPort ou else if urlScheme ou = ''https'' then ''443'' else ''80'');
                                     host = canonicalHost (urlHostname u)
                                 in case atoi portText of
                                      None \<Rightarrow> None
                                    | Some port \<Rightarrow>
                                        Some (u\<lparr>urlScheme := to_lower (urlScheme u),
                                                urlHost := (if urlPort ou \<noteq> [] then joinHostPort host (urlPort ou) else host)\<rparr>,
                                              origin, \<lparr>tgtHost = canonicalHost (urlHostname ou), tgtPort = port\<rparr>)))))))"

definition originOf :: "externs \<Rightarrow> string \<Rightarrow> string option" where
  "originOf x raw = map_option (\<lambda>(_, origin, _). origin) (parseModuleNetworkRequestURL x raw)"

definition maxModuleRequestRewriteURLBytes :: nat where "maxModuleRequestRewriteURLBytes = 16 * 2 ^ 10"

datatype rewrite_error =
    RewriteLength | RewriteNotHTTP | CurrentInvalid | TargetInvalid | OutsideBoundary | Downgrade | NotCanonical | NeedsNetwork

definition authorizeModuleRequestURLRewriteConfig :: "externs \<Rightarrow> Config \<Rightarrow> Module \<Rightarrow> string \<Rightarrow> string \<Rightarrow> rewrite_error + parsedURL" where
  "authorizeModuleRequestURLRewriteConfig x cfg m currentURL rawTargetURL =
     (if rawTargetURL = [] \<or> length rawTargetURL > maxModuleRequestRewriteURLBytes then Inl RewriteLength
      else (case xURL x rawTargetURL of
              None \<Rightarrow> Inl RewriteNotHTTP
            | Some rawTarget \<Rightarrow>
                (if urlScheme rawTarget \<noteq> ''http'' \<and> urlScheme rawTarget \<noteq> ''https'' then Inl RewriteNotHTTP
                 else (case parseModuleNetworkRequestURL x currentURL of
                         None \<Rightarrow> Inl CurrentInvalid
                       | Some (cur, currentOrigin, _) \<Rightarrow>
                           (case parseModuleNetworkRequestURL x rawTargetURL of
                              None \<Rightarrow> Inl TargetInvalid
                            | Some (target, targetOrigin, _) \<Rightarrow>
                                (if targetOrigin = currentOrigin then
                                   (if \<not> moduleCapturesHost cfg m (urlHostname target) \<and> \<not> modNetwork m then Inl OutsideBoundary
                                    else Inr rawTarget)
                                 else if urlScheme cur = ''https'' \<and> urlScheme target \<noteq> ''https'' then Inl Downgrade
                                 else if urlScheme rawTarget @ ''://'' @ urlHost rawTarget \<noteq> targetOrigin then Inl NotCanonical
                                 else if \<not> modNetwork m then Inl NeedsNetwork
                                 else Inr target))))))"

definition authorizeModuleRequestActionURL :: "externs \<Rightarrow> Config \<Rightarrow> Module \<Rightarrow> string \<Rightarrow> rewrite_error option" where
  "authorizeModuleRequestActionURL x cfg m rawURL =
     (case parseModuleNetworkRequestURL x rawURL of
        None \<Rightarrow> Some CurrentInvalid
      | Some (u, _, _) \<Rightarrow>
          (if moduleCapturesHost cfg m (urlHostname u) \<or> modNetwork m then None else Some OutsideBoundary))"

section \<open>Bodies\<close>

definition maxModuleHTTPBody :: nat where "maxModuleHTTPBody = 64 * 2 ^ 20"

record bodySource =
  bodyData :: string
  bodyClean :: bool
  bodyCloses :: bool

text \<open>\<open>rqTrailer\<close> are the announced trailers, \<open>rqFinalTrailer\<close> those there are once the body has been read.\<close>

record httpRequest =
  rqMethod :: string
  rqHost :: string
  rqURI :: string
  rqTLS :: bool
  rqProtoMajor :: nat
  rqContentLength :: int
  rqTransferEncoding :: "string list"
  rqHeader :: headers
  rqBody :: "bodySource option"
  rqTrailer :: headers
  rqFinalTrailer :: headers

definition requestHasPayload :: "httpRequest \<Rightarrow> bool" where
  "requestHasPayload r \<longleftrightarrow> rqBody r \<noteq> None \<and> (rqContentLength r \<noteq> 0 \<or> rqTransferEncoding r \<noteq> [])"

definition requestHasBodySection :: "httpRequest \<Rightarrow> bool" where
  "requestHasBodySection r \<longleftrightarrow> requestHasPayload r \<or> rqTrailer r \<noteq> []"

definition moduleRequestProbe :: "httpRequest \<Rightarrow> string \<Rightarrow> scriptMessage" where
  "moduleRequestProbe r host =
     \<lparr>msgURL = (if rqTLS r \<or> rqProtoMajor r = 3 then ''https'' else ''http'') @ ''://'' @ host @ rqURI r,
      msgMethod = rqMethod r, msgHeaders = [], msgTrailers = [], msgBody = [], msgStatusCode = 0\<rparr>"

type_synonym matched = "Module \<times> ScriptRule"

definition requestCanStreamWithoutModuleBuffer :: "httpRequest \<Rightarrow> matched list \<Rightarrow> bool" where
  "requestCanStreamWithoutModuleBuffer r rules =
     (if rules \<noteq> [] \<or> \<not> requestHasBodySection r then rules = []
      else rqProtoMajor r \<noteq> 3 \<and> rqContentLength r \<le> int maxModuleHTTPBody)"

definition requestNeedsModuleBodyReservation :: "httpRequest \<Rightarrow> matched list \<Rightarrow> bool" where
  "requestNeedsModuleBodyReservation r rules =
     (if rqContentLength r > int maxModuleHTTPBody then False
      else if rules \<noteq> [] then True
      else if \<not> requestHasBodySection r then False
      else \<not> requestCanStreamWithoutModuleBuffer r rules)"

definition requestCanConditionallyStreamWithModuleActions :: "httpRequest \<Rightarrow> matched list \<Rightarrow> bool" where
  "requestCanConditionallyStreamWithModuleActions r rules =
     (if rules = [] \<or> \<not> requestHasPayload r \<or> rqProtoMajor r = 3 \<or> rqContentLength r > int maxModuleHTTPBody then False
      else (case normalizedContentEncoding (rqHeader r) of
              Inl _ \<Rightarrow> False
            | Inr encoding \<Rightarrow>
                (if encoding \<noteq> [] \<and> encoding \<noteq> ''identity'' then False
                 else list_all (\<lambda>(_, rule). ruleBodyMode rule = ''none'') rules)))"

definition moduleBodyReadLimit :: "matched list \<Rightarrow> nat" where
  "moduleBodyReadLimit rules =
     (let limit = fold (\<lambda>(_, rule) limit. if ruleBodyMode rule = ''none'' then limit else max (ruleMaxBodyBytes rule) limit) rules 0
      in if limit \<le> 0 \<or> limit > int maxModuleHTTPBody then maxModuleHTTPBody else nat limit)"

text \<open>\<^verbatim>\<open>http.MaxBytesReader\<close>: the bytes up to the limit, and an error when there are more.\<close>

definition maxBytesReader :: "bodySource \<Rightarrow> nat \<Rightarrow> string \<times> bool" where
  "maxBytesReader b limit = (take limit (bodyData b), bodyClean b \<and> length (bodyData b) \<le> limit)"

definition readDecodedModuleRequestBody :: "codecs \<Rightarrow> httpRequest \<Rightarrow> nat \<Rightarrow> coding_error + string" where
  "readDecodedModuleRequestBody cx r readLimit =
     (case rqBody r of
        None \<Rightarrow> Inr []
      | Some b \<Rightarrow>
          bindJ (normalizedContentEncoding (rqHeader r)) (\<lambda>encoding.
          bindJ (readBounded (maxBytesReader b maxModuleHTTPBody) readLimit) (\<lambda>body.
          decodeContentBody cx body encoding readLimit)))"

definition drainModuleRequestBody :: "httpRequest \<Rightarrow> bool" where
  "drainModuleRequestBody r =
     (case rqBody r of None \<Rightarrow> True | Some b \<Rightarrow> snd (maxBytesReader b maxModuleHTTPBody) \<and> bodyCloses b)"

definition validateModuleResultBodySize :: "int \<Rightarrow> nat \<Rightarrow> bool" where
  "validateModuleResultBodySize actionLimit bytes \<longleftrightarrow> bytes \<le> maxModuleHTTPBody \<and> int bytes \<le> actionLimit"

definition validateModuleResultBody :: "ScriptRule \<Rightarrow> scriptResult \<Rightarrow> bool" where
  "validateModuleResultBody rule result =
     (if \<not> resChangedBody result then True
      else validateModuleResultBodySize (if ruleMock rule \<noteq> None then int maxMockBodyBytes else ruleMaxBodyBytes rule)
             (length (resBody result)))"

section \<open>The request that goes upstream\<close>

datatype outbound_body = NoBody | StreamedBody | BufferedBody string

record outboundRequest =
  obURL :: parsedURL
  obHost :: string
  obMethod :: string
  obProtoMajor :: nat
  obHeader :: headers
  obTrailer :: headers
  obBody :: outbound_body
  obContentLength :: int
  obReplayable :: bool

definition responseRulesStreamable :: "matched list \<Rightarrow> bool" where
  "responseRulesStreamable rules \<longleftrightarrow> rules \<noteq> [] \<and> list_all (\<lambda>(_, rule). ruleHeaders rule \<noteq> None) rules"

definition forwardRequestHeaders :: "scriptMessage \<Rightarrow> matched list \<Rightarrow> headers" where
  "forwardRequestHeaders message candidates =
     (let h = sanitizeForwardRequestHeaders (cloneProxyHeaders (msgHeaders message))
      in if candidates \<noteq> [] \<and> \<not> responseRulesStreamable candidates then headerSet ''Accept-Encoding'' ''identity'' h else h)"

definition outboundModuleRequest :: "httpRequest \<Rightarrow> parsedURL \<Rightarrow> headers \<Rightarrow> outboundRequest" where
  "outboundModuleRequest r u h =
     \<lparr>obURL = u, obHost = urlHost u, obMethod = rqMethod r, obProtoMajor = rqProtoMajor r, obHeader = h, obTrailer = rqTrailer r,
      obBody = (if rqBody r = None then NoBody else StreamedBody), obContentLength = rqContentLength r, obReplayable = False\<rparr>"

definition streamingModuleRequest :: "externs \<Rightarrow> httpRequest \<Rightarrow> Config \<Rightarrow> scriptMessage \<Rightarrow> (outboundRequest \<times> matched list) option" where
  "streamingModuleRequest x r cfg message =
     (case xURL x (msgURL message) of
        None \<Rightarrow> None
      | Some u \<Rightarrow>
          (let candidates = matchingScriptRulesParsed x cfg ''response'' message False u
           in Some (outboundModuleRequest r u (forwardRequestHeaders message candidates), candidates)))"

definition bufferedModuleRequest :: "externs \<Rightarrow> httpRequest \<Rightarrow> Config \<Rightarrow> scriptMessage \<Rightarrow> bool \<Rightarrow> (outboundRequest \<times> matched list) option" where
  "bufferedModuleRequest x r cfg message incomingHadBodySection =
     (case xURL x (msgURL message) of
        None \<Rightarrow> None
      | Some u \<Rightarrow>
          (let candidates = matchingScriptRulesParsed x cfg ''response'' message False u;
               ob = outboundModuleRequest r u (forwardRequestHeaders message candidates)
           in Some (if msgBody message = [] \<and> \<not> incomingHadBodySection \<and> obTrailer ob = []
                    then ob\<lparr>obBody := NoBody, obContentLength := 0, obReplayable := False\<rparr>
                    else ob\<lparr>obBody := BufferedBody (msgBody message), obContentLength := int (length (msgBody message)), obReplayable := True\<rparr>,
                    candidates)))"

section \<open>The request actions\<close>

datatype prepare_error =
    RequestTooLong | BodyRefusedBy coding_error | ActionURLRefused rewrite_error | ActionBodyTooLong | ActionExecFailed exec_error
  | ResultTooLong | RewriteRefused rewrite_error | BodyNotDrained | URLUnparsable

record preparedModuleRequest =
  prOutbound :: "outboundRequest option"
  prHandled :: "written option"
  prBufferRetained :: bool
  prBufferBytes :: nat
  prCandidates :: "matched list"

definition nothingPrepared :: preparedModuleRequest where
  "nothingPrepared = \<lparr>prOutbound = None, prHandled = None, prBufferRetained = False, prBufferBytes = 0, prCandidates = []\<rparr>"

datatype 'a handler = Panicked | Returned 'a

record requestState =
  stMessage :: scriptMessage
  stURLChanged :: bool
  stBodyChanged :: bool
  stRetained :: bool

datatype actions_end = ActionsPanic | ActionsError prepare_error bool | ActionsHandled written | ActionsDone requestState

text \<open>What a result that neither aborts nor answers changes in the message.\<close>

definition applyRequestResult :: "externs \<Rightarrow> (parsedURL \<Rightarrow> string) \<Rightarrow> Config \<Rightarrow> Module \<Rightarrow> scriptResult \<Rightarrow> requestState \<Rightarrow>
    prepare_error + requestState" where
  "applyRequestResult x render cfg m result st =
     bindJ (if resChangedURL result
            then (case authorizeModuleRequestURLRewriteConfig x cfg m (msgURL (stMessage st)) (resURL result) of
                    Inl e \<Rightarrow> Inl (RewriteRefused e)
                  | Inr u \<Rightarrow> Inr (st\<lparr>stMessage := (stMessage st)\<lparr>msgURL := render u\<rparr>, stURLChanged := True\<rparr>))
            else Inr st) (\<lambda>st.
     let st = (if resChangedHeaders result then st\<lparr>stMessage := (stMessage st)\<lparr>msgHeaders := resHeaders result\<rparr>\<rparr> else st)
     in Inr (if resChangedBody result
             then st\<lparr>stMessage := (stMessage st)\<lparr>msgBody := resBody result\<rparr>, stBodyChanged := True, stRetained := True\<rparr> else st))"

fun runRequestActions :: "externs \<Rightarrow> engines \<Rightarrow> (parsedURL \<Rightarrow> string) \<Rightarrow> client \<Rightarrow> httpRequest \<Rightarrow> Config \<Rightarrow> matched list \<Rightarrow> requestState \<Rightarrow>
    actions_end" where
  "runRequestActions x en render cl r cfg [] st = ActionsDone st"
| "runRequestActions x en render cl r cfg ((m, rule) # rules) st =
     (case (if stURLChanged st then authorizeModuleRequestActionURL x cfg m (msgURL (stMessage st)) else None) of
        Some e \<Rightarrow> ActionsError (ActionURLRefused e) (stRetained st)
      | None \<Rightarrow>
          (if ruleBodyMode rule \<noteq> ''none'' \<and> int (length (msgBody (stMessage st))) > ruleMaxBodyBytes rule
           then ActionsError ActionBodyTooLong (stRetained st)
           else (case execute x en m rule (stMessage st) None of
                   Inl e \<Rightarrow> ActionsError (ActionExecFailed e) (stRetained st)
                 | Inr result \<Rightarrow>
                     (if resAbort result then ActionsPanic
                      else if \<not> validateModuleResultBody rule result then ActionsError ResultTooLong (stRetained st)
                      else if resSynthetic result then
                        (case writeBufferedModuleResponse cl (rqMethod r) (if resStatusCode result = 0 then 200 else resStatusCode result)
                                (resHeaders result) (resTrailers result) (resBody result) of
                           Inl _ \<Rightarrow> ActionsPanic
                         | Inr w \<Rightarrow> ActionsHandled w)
                      else (case applyRequestResult x render cfg m result st of
                              Inl e \<Rightarrow> ActionsError e (stRetained st)
                            | Inr st \<Rightarrow> runRequestActions x en render cl r cfg rules st)))))"

definition retained :: "bool \<Rightarrow> nat \<Rightarrow> preparedModuleRequest" where
  "retained r n = nothingPrepared\<lparr>prBufferRetained := r, prBufferBytes := n\<rparr>"

definition sentUpstream :: "(outboundRequest \<times> matched list) option \<Rightarrow> bool \<Rightarrow> nat \<Rightarrow> preparedModuleRequest \<times> prepare_error option" where
  "sentUpstream res r n =
     (case res of
        None \<Rightarrow> (retained r n, Some URLUnparsable)
      | Some (ob, candidates) \<Rightarrow> ((retained r n)\<lparr>prOutbound := Some ob, prCandidates := candidates\<rparr>, None))"

text \<open>After the actions: \<open>conditional\<close> says that the body has not been read yet.\<close>

definition finishRequest :: "externs \<Rightarrow> codecs \<Rightarrow> httpRequest \<Rightarrow> Config \<Rightarrow> matched list \<Rightarrow> bool \<Rightarrow> bool \<Rightarrow> nat \<Rightarrow> requestState \<Rightarrow>
    preparedModuleRequest \<times> prepare_error option" where
  "finishRequest x cx r cfg rules conditional hadBodySection bytes st =
     (let read = r\<lparr>rqTrailer := rqFinalTrailer r\<rparr>
      in if conditional then
        (if stBodyChanged st then
           (if \<not> drainModuleRequestBody r then (retained (stRetained st) bytes, Some BodyNotDrained)
            else sentUpstream (bufferedModuleRequest x read cfg (stMessage st) hadBodySection) (stRetained st) bytes)
         else if stURLChanged st then
           (case readDecodedModuleRequestBody cx r (moduleBodyReadLimit rules) of
              Inl e \<Rightarrow> (nothingPrepared, Some (BodyRefusedBy e))
            | Inr body \<Rightarrow>
                sentUpstream (bufferedModuleRequest x read cfg ((stMessage st)\<lparr>msgBody := body\<rparr>) hadBodySection) True bytes)
         else sentUpstream (streamingModuleRequest x r cfg (stMessage st)) False 0)
      else sentUpstream (bufferedModuleRequest x (if rqBody r = None then r else read) cfg (stMessage st) hadBodySection) (stRetained st) bytes)"

definition startMessage :: "httpRequest \<Rightarrow> scriptMessage \<Rightarrow> string \<Rightarrow> scriptMessage" where
  "startMessage r probe body =
     probe\<lparr>msgHeaders := headerDel ''Content-Length'' (headerDel ''Content-Encoding'' (rqHeader r)), msgBody := body\<rparr>"

definition prepareModuleRequestWithRules :: "externs \<Rightarrow> engines \<Rightarrow> codecs \<Rightarrow> (parsedURL \<Rightarrow> string) \<Rightarrow> client \<Rightarrow> httpRequest \<Rightarrow> Config \<Rightarrow>
    scriptMessage \<Rightarrow> matched list \<Rightarrow> (preparedModuleRequest \<times> prepare_error option) handler" where
  "prepareModuleRequestWithRules x en cx render cl r cfg probe rules =
     (if rqContentLength r > int maxModuleHTTPBody then Returned (nothingPrepared, Some RequestTooLong)
      else if requestCanStreamWithoutModuleBuffer r rules
      then Returned (sentUpstream (streamingModuleRequest x r cfg (probe\<lparr>msgHeaders := rqHeader r\<rparr>)) False 0)
      else
        (let conditional = requestCanConditionallyStreamWithModuleActions r rules
         in case (if conditional then Inr [] else readDecodedModuleRequestBody cx r (moduleBodyReadLimit rules)) of
              Inl e \<Rightarrow> Returned (nothingPrepared, Some (BodyRefusedBy e))
            | Inr body \<Rightarrow>
                (let keeps = \<not> conditional \<and> (body \<noteq> [] \<or> (if rqBody r = None then rqTrailer r else rqFinalTrailer r) \<noteq> []);
                     bytes = (if conditional then 0 else length body)
                 in case runRequestActions x en render cl r cfg rules
                           \<lparr>stMessage = startMessage r probe body, stURLChanged = False, stBodyChanged = False, stRetained = keeps\<rparr> of
                      ActionsPanic \<Rightarrow> Panicked
                    | ActionsError e keeps \<Rightarrow> Returned (retained keeps bytes, Some e)
                    | ActionsHandled w \<Rightarrow> Returned (nothingPrepared\<lparr>prHandled := Some w\<rparr>, None)
                    | ActionsDone st \<Rightarrow>
                        Returned (finishRequest x cx r cfg rules conditional (requestHasBodySection r) bytes st))))"

definition prepareModuleRequest :: "externs \<Rightarrow> engines \<Rightarrow> codecs \<Rightarrow> (parsedURL \<Rightarrow> string) \<Rightarrow> client \<Rightarrow> httpRequest \<Rightarrow> Config \<Rightarrow> string \<Rightarrow>
    (preparedModuleRequest \<times> prepare_error option) handler" where
  "prepareModuleRequest x en cx render cl r cfg host =
     (let probe = moduleRequestProbe r host
      in prepareModuleRequestWithRules x en cx render cl r cfg probe (matchingScriptRules x cfg ''request'' probe))"

section \<open>The response actions\<close>

text \<open>
  \<open>filtered\<close> is the copy the loop makes at the first candidate it drops; without one the candidates
  themselves are returned.
\<close>

fun filterFrom :: "int \<Rightarrow> matched list \<Rightarrow> matched list option \<Rightarrow> matched list \<Rightarrow> matched list option" where
  "filterFrom status seen filtered [] = filtered"
| "filterFrom status seen filtered (c # cs) =
     (if matchStatusCodes (ruleMatch (snd c)) \<noteq> [] \<and> \<not> containsInt (matchStatusCodes (ruleMatch (snd c))) status
      then filterFrom status (seen @ [c]) (case filtered of None \<Rightarrow> Some seen | Some f \<Rightarrow> Some f) cs
      else filterFrom status (seen @ [c]) (map_option (\<lambda>f. f @ [c]) filtered) cs)"

definition responseRulesForStatus :: "matched list \<Rightarrow> int \<Rightarrow> matched list" where
  "responseRulesForStatus candidates status =
     (case filterFrom status [] None candidates of None \<Rightarrow> candidates | Some f \<Rightarrow> f)"

datatype transform_error =
    ResponseUnreadable | ResponseTrailers header_error | ResponseActionBodyTooLong | ResponseExecFailed exec_error | ResponseURLMutation
  | ResponseResultTooLong

record transformedResponse =
  trStatusCode :: int
  trHeader :: headers
  trTrailer :: headers
  trBody :: string

definition applyResponseResult :: "scriptResult \<Rightarrow> scriptMessage \<Rightarrow> scriptMessage" where
  "applyResponseResult result msg =
     (let msg = (if resChangedHeaders result then msg\<lparr>msgHeaders := resHeaders result\<rparr> else msg);
          msg = (if resChangedTrailers result then msg\<lparr>msgTrailers := resTrailers result\<rparr> else msg);
          msg = (if resChangedBody result then msg\<lparr>msgBody := resBody result\<rparr> else msg)
      in if resChangedStatus result then msg\<lparr>msgStatusCode := resStatusCode result\<rparr> else msg)"

fun runResponseActions :: "externs \<Rightarrow> engines \<Rightarrow> scriptMessage \<Rightarrow> matched list \<Rightarrow> scriptMessage \<Rightarrow> (transform_error + scriptMessage) handler" where
  "runResponseActions x en request [] response = Returned (Inr response)"
| "runResponseActions x en request ((m, rule) # rules) response =
     (if ruleBodyMode rule \<noteq> ''none'' \<and> int (length (msgBody response)) > ruleMaxBodyBytes rule
      then Returned (Inl ResponseActionBodyTooLong)
      else (case execute x en m rule request (Some response) of
              Inl e \<Rightarrow> Returned (Inl (ResponseExecFailed e))
            | Inr result \<Rightarrow>
                (if resAbort result then Panicked
                 else if resChangedURL result then Returned (Inl ResponseURLMutation)
                 else if \<not> validateModuleResultBody rule result then Returned (Inl ResponseResultTooLong)
                 else runResponseActions x en request rules (applyResponseResult result response))))"

text \<open>
  \<open>Inr None\<close> leaves the response to be streamed; the second component is the response that is then
  streamed, whose body has been read ahead when it could not be decoded.
\<close>

definition transformModuleResponse :: "externs \<Rightarrow> engines \<Rightarrow> codecs \<Rightarrow> (parsedURL \<Rightarrow> string) \<Rightarrow> outboundRequest \<Rightarrow> httpResponse \<Rightarrow> matched list \<Rightarrow>
    (transform_error + transformedResponse option \<times> httpResponse) handler" where
  "transformModuleResponse x en cx render request response rules =
     (if rules = [] then Returned (Inr (None, response))
      else
        (let requestMessage = \<lparr>msgURL = render (obURL request), msgMethod = obMethod request, msgHeaders = obHeader request,
               msgTrailers = [], msgBody = [], msgStatusCode = 0\<rparr>
         in case normalizedContentEncoding (rsHeader response) of
              Inl _ \<Rightarrow> Returned (Inr (None, response))
            | Inr encoding \<Rightarrow>
                (case readBounded (concat (fst (rsBody response)), snd (rsBody response)) (moduleBodyReadLimit rules) of
                   Inl _ \<Rightarrow> Returned (Inl ResponseUnreadable)
                 | Inr body \<Rightarrow>
                     (case decodeContentBody cx body (if encoding = [] \<and> isGzip body then ''gzip'' else encoding) maxModuleHTTPBody of
                        Inl _ \<Rightarrow> Returned (Inr (None, response\<lparr>rsBody := ([body], True)\<rparr>))
                      | Inr decoded \<Rightarrow>
                          (case wireTrailers (rsFinalTrailer response) of
                             Inl e \<Rightarrow> Returned (Inl (ResponseTrailers e))
                           | Inr trailers \<Rightarrow>
                               (case runResponseActions x en requestMessage rules
                                       \<lparr>msgURL = render (obURL request), msgMethod = obMethod request,
                                        msgHeaders = headerDel ''Content-Length'' (headerDel ''Content-Encoding'' (rsHeader response)),
                                        msgTrailers = trailers, msgBody = decoded, msgStatusCode = rsStatus response\<rparr> of
                                  Panicked \<Rightarrow> Panicked
                                | Returned (Inl e) \<Rightarrow> Returned (Inl e)
                                | Returned (Inr msg) \<Rightarrow>
                                    Returned (Inr (Some \<lparr>trStatusCode = msgStatusCode msg,
                                      trHeader = headerDel ''Content-Length'' (headerDel ''Content-Encoding'' (removeHopByHopHeaders (msgHeaders msg))),
                                      trTrailer = msgTrailers msg, trBody = msgBody msg\<rparr>, response))))))))"

text \<open>Header edits on a response whose body streams. \<open>None\<close> is the header unchanged.\<close>

fun runHeaderEdits :: "externs \<Rightarrow> engines \<Rightarrow> scriptMessage \<Rightarrow> matched list \<Rightarrow> scriptMessage \<Rightarrow> bool \<Rightarrow> (exec_error + headers option) handler" where
  "runHeaderEdits x en request [] response changed = Returned (Inr (if changed then Some (msgHeaders response) else None))"
| "runHeaderEdits x en request ((m, rule) # rules) response changed =
     (case execute x en m rule request (Some response) of
        Inl e \<Rightarrow> Returned (Inl e)
      | Inr result \<Rightarrow>
          (if resAbort result then Panicked
           else if resChangedHeaders result then runHeaderEdits x en request rules (response\<lparr>msgHeaders := resHeaders result\<rparr>) True
           else runHeaderEdits x en request rules response changed))"

definition framingFields :: "string list" where
  "framingFields = [''Content-Length'', ''Content-Encoding'', ''Transfer-Encoding'']"

definition headerAdd :: "string \<Rightarrow> string \<Rightarrow> headers \<Rightarrow> headers" where
  "headerAdd name v h = AList.update (canonicalKey name) (headerValues name h @ [v]) h"

text \<open>The upstream's framing fields stay; every other field is replaced by the edited ones.\<close>

definition replaceStreamedHeader :: "headers \<Rightarrow> headers \<Rightarrow> headers" where
  "replaceStreamedHeader original edited =
     (let edited = fold headerDel framingFields (removeHopByHopHeaders edited);
          kept = fold (\<lambda>name h. if canonicalKey name \<in> set framingFields then h else headerDel name h) (map fst original) original
      in fold (\<lambda>(name, values) h. fold (headerAdd name) values h) edited kept)"

definition applyStreamingResponseHeaderEdits :: "externs \<Rightarrow> engines \<Rightarrow> (parsedURL \<Rightarrow> string) \<Rightarrow> outboundRequest \<Rightarrow> httpResponse \<Rightarrow> matched list \<Rightarrow>
    (exec_error + httpResponse) handler" where
  "applyStreamingResponseHeaderEdits x en render request response rules =
     (let requestMessage = \<lparr>msgURL = render (obURL request), msgMethod = obMethod request, msgHeaders = obHeader request,
            msgTrailers = [], msgBody = [], msgStatusCode = 0\<rparr>;
          responseMessage = requestMessage\<lparr>msgHeaders := rsHeader response, msgStatusCode := rsStatus response\<rparr>
      in case runHeaderEdits x en requestMessage rules responseMessage False of
           Panicked \<Rightarrow> Panicked
         | Returned (Inl e) \<Rightarrow> Returned (Inl e)
         | Returned (Inr None) \<Rightarrow> Returned (Inr response)
         | Returned (Inr (Some edited)) \<Rightarrow> Returned (Inr (response\<lparr>rsHeader := replaceStreamedHeader (rsHeader response) edited\<rparr>)))"

end
