(* ===== verification/Proxy_Serve.thy ===== *)
theory Proxy_Serve
  imports Request_Pipeline
begin

text \<open>
  The body budget (module_proxy.go \<^verbatim>\<open>moduleBodyBudget\<close>) and the handler of an intercepted exchange
  (proxy.go \<^verbatim>\<open>ServeHTTP\<close>), with the reservations it takes and gives back on every path.

  The environment of one exchange is an argument: the configuration the store answers, the response of
  the upstream to a request, and whether the two reservations are admitted in time.
\<close>

section \<open>The budget\<close>

record moduleBodyBudget =
  budLimit :: int
  budUsed :: int

definition newModuleBodyBudget :: "int \<Rightarrow> moduleBodyBudget" where
  "newModuleBodyBudget limit = \<lparr>budLimit = limit, budUsed = 0\<rparr>"

definition maxModuleBodyBudgetBytes :: int where "maxModuleBodyBudgetBytes = 4 * int maxModuleHTTPBody"

definition clampWant :: "moduleBodyBudget \<Rightarrow> int \<Rightarrow> int" where
  "clampWant b want =
     (let want = (if want < 0 then 0 else want) in if want > budLimit b then budLimit b else want)"

text \<open>
  The loop of \<^verbatim>\<open>acquire\<close>: what it sees at each wake-up is the budget and whether the wait is over. It has
  not returned when the list ends.
\<close>

fun acquireLoop :: "int \<Rightarrow> (moduleBodyBudget \<times> bool) list \<Rightarrow> moduleBodyBudget option option" where
  "acquireLoop want [] = None"
| "acquireLoop want ((b, over) # wakes) =
     (if budUsed b + want > budLimit b then (if over then Some None else acquireLoop want wakes)
      else Some (Some (b\<lparr>budUsed := budUsed b + want\<rparr>)))"

definition release :: "int \<Rightarrow> moduleBodyBudget \<Rightarrow> moduleBodyBudget" where
  "release want b =
     (let used = budUsed b - clampWant b want in b\<lparr>budUsed := (if used < 0 then 0 else used)\<rparr>)"

definition widestLimit :: "matched list \<Rightarrow> int" where
  "widestLimit rules = fold (\<lambda>(_, rule) widest. if ruleMaxBodyBytes rule > widest then ruleMaxBodyBytes rule else widest) rules 0"

definition moduleBodyReservation :: "httpRequest \<Rightarrow> matched list \<Rightarrow> int" where
  "moduleBodyReservation r rules =
     (let limit = int (moduleBodyReadLimit rules);
          widest = (if widestLimit rules = 0 then limit else widestLimit rules)
      in if rqContentLength r > 0
         then (let declared = (if rqContentLength r > limit then limit else rqContentLength r)
               in if declared > widest then declared else widest)
         else widest)"

definition moduleResponseBodyReservation :: "httpResponse \<Rightarrow> matched list \<Rightarrow> int" where
  "moduleResponseBodyReservation response rules =
     (let limit = int (moduleBodyReadLimit rules);
          reserve = (if rsContentLength response > 0 \<and> rsContentLength response < limit then rsContentLength response else limit)
      in if widestLimit rules > reserve then widestLimit rules else reserve)"

section \<open>The handler\<close>

datatype slot_op = Took int | Gave int

datatype served = Refused int | Served written | Torn

record exchange =
  exOutcome :: served
  exSlots :: "slot_op list"
  exSent :: "outboundRequest option"

record surroundings =
  svConfig :: "Config option"
  svUpstream :: "outboundRequest \<Rightarrow> httpResponse option"
  svAdmitRequest :: bool
  svAdmitResponse :: bool

text \<open>What the request keeps reserved once it has been prepared.\<close>

definition shrinkReservation :: "int option \<Rightarrow> preparedModuleRequest \<Rightarrow> slot_op list \<times> int option" where
  "shrinkReservation held p =
     (case held of
        None \<Rightarrow> ([], None)
      | Some reserved \<Rightarrow>
          (if \<not> prBufferRetained p then ([Gave reserved], None)
           else if int (prBufferBytes p) < reserved then ([Gave (reserved - int (prBufferBytes p))], Some (int (prBufferBytes p)))
           else ([], Some reserved)))"

definition releaseHeld :: "int option \<Rightarrow> slot_op list" where
  "releaseHeld held = (case held of None \<Rightarrow> [] | Some n \<Rightarrow> [Gave n])"

definition writtenOrTorn :: "write_error + written \<Rightarrow> served" where
  "writtenOrTorn r = (case r of Inl _ \<Rightarrow> Torn | Inr w \<Rightarrow> Served w)"

definition finishTransformed :: "client \<Rightarrow> httpRequest \<Rightarrow> (transform_error + transformedResponse option \<times> httpResponse) handler \<Rightarrow> served" where
  "finishTransformed cl r t =
     (case t of
        Panicked \<Rightarrow> Torn
      | Returned (Inl _) \<Rightarrow> Refused 502
      | Returned (Inr (Some t, _)) \<Rightarrow>
          writtenOrTorn (writeBufferedModuleResponse cl (rqMethod r) (trStatusCode t) (trHeader t) (trTrailer t) (trBody t))
      | Returned (Inr (None, response)) \<Rightarrow>
          writtenOrTorn (writeStreamingProxyResponse cl (rqProtoMajor r) (rqMethod r) response))"

text \<open>The second half, once the upstream has answered: the outcome and the slots it takes and gives.\<close>

definition serveResponse :: "externs \<Rightarrow> engines \<Rightarrow> codecs \<Rightarrow> (parsedURL \<Rightarrow> string) \<Rightarrow> client \<Rightarrow> surroundings \<Rightarrow> httpRequest \<Rightarrow> outboundRequest \<Rightarrow>
    matched list \<Rightarrow> httpResponse \<Rightarrow> served \<times> slot_op list" where
  "serveResponse x en cx render cl sv r ob candidates response =
     (let rules = responseRulesForStatus candidates (rsStatus response)
      in if responseRulesStreamable rules then
           (case applyStreamingResponseHeaderEdits x en render ob response rules of
              Panicked \<Rightarrow> (Torn, [])
            | Returned (Inl _) \<Rightarrow> (Refused 502, [])
            | Returned (Inr response) \<Rightarrow> (writtenOrTorn (writeStreamingProxyResponse cl (rqProtoMajor r) (rqMethod r) response), []))
         else if rules = [] then
           (finishTransformed cl r (transformModuleResponse x en cx render ob response rules), [])
         else
           (let reserved = moduleResponseBodyReservation response rules
            in if \<not> svAdmitResponse sv then (Refused 502, [])
               else (finishTransformed cl r (transformModuleResponse x en cx render ob response rules), [Took reserved, Gave reserved])))"

definition serveAdmitted :: "externs \<Rightarrow> engines \<Rightarrow> codecs \<Rightarrow> (parsedURL \<Rightarrow> string) \<Rightarrow> client \<Rightarrow> surroundings \<Rightarrow> httpRequest \<Rightarrow> Config \<Rightarrow>
    scriptMessage \<Rightarrow> matched list \<Rightarrow> int option \<Rightarrow> exchange" where
  "serveAdmitted x en cx render cl sv r cfg probe rules held =
     (let taken = (case held of None \<Rightarrow> [] | Some n \<Rightarrow> [Took n])
      in case prepareModuleRequestWithRules x en cx render cl r cfg probe rules of
           Panicked \<Rightarrow> \<lparr>exOutcome = Torn, exSlots = taken @ releaseHeld held, exSent = None\<rparr>
         | Returned (p, e) \<Rightarrow>
             (let (shrink, held) = shrinkReservation held p; slots = taken @ shrink
              in case prHandled p of
                   Some w \<Rightarrow> \<lparr>exOutcome = Served w, exSlots = slots @ releaseHeld held, exSent = None\<rparr>
                 | None \<Rightarrow>
                     (case (e, prOutbound p) of
                        (None, Some ob) \<Rightarrow>
                          (case svUpstream sv ob of
                             None \<Rightarrow> \<lparr>exOutcome = Refused 502, exSlots = slots @ releaseHeld held, exSent = Some ob\<rparr>
                           | Some response \<Rightarrow>
                               (let (outcome, more_slots) = serveResponse x en cx render cl sv r ob (prCandidates p) response
                                in \<lparr>exOutcome = outcome, exSlots = slots @ more_slots @ releaseHeld held, exSent = Some ob\<rparr>))
                      | _ \<Rightarrow> \<lparr>exOutcome = Refused 502, exSlots = slots @ releaseHeld held, exSent = None\<rparr>)))"

definition ServeHTTP :: "externs \<Rightarrow> engines \<Rightarrow> codecs \<Rightarrow> (parsedURL \<Rightarrow> string) \<Rightarrow> client \<Rightarrow> surroundings \<Rightarrow> httpRequest \<Rightarrow> exchange" where
  "ServeHTTP x en cx render cl sv r =
     (let host = canonicalHost (rqHost r); refuse = (\<lambda>status. \<lparr>exOutcome = Refused status, exSlots = [], exSent = None\<rparr>)
      in case svConfig sv of
           None \<Rightarrow> refuse 503
         | Some cfg \<Rightarrow>
             (if \<not> activeInterceptHost cfg host then refuse 421
              else
                (let probe = moduleRequestProbe r host; rules = matchingScriptRules x cfg ''request'' probe
                 in if requestNeedsModuleBodyReservation r rules
                    then (if \<not> svAdmitRequest sv then refuse 503
                          else serveAdmitted x en cx render cl sv r cfg probe rules (Some (moduleBodyReservation r rules)))
                    else serveAdmitted x en cx render cl sv r cfg probe rules None)))"

end
