(* ===== verification/Request_Pipeline_Properties.thy ===== *)
theory Request_Pipeline_Properties
  imports Request_Pipeline Declarative_Properties Script_Results_Properties Response_Writer_Properties
begin

text \<open>
  What may leave the sidecar for a captured request: where it goes, how long a body it carries, which
  response actions apply, and what header edits leave of a streamed response. One exchange, in which
  a script rewrites the path of a captured request, is worked out at the end of the examples.
\<close>

section \<open>Branches\<close>

named_theorems branches "which branch a result came from"

lemma branch_results [branches]:
  "(if c then None else y) = Some z \<longleftrightarrow> \<not> c \<and> y = Some z"
  "(case a of None \<Rightarrow> None | Some v \<Rightarrow> f v) = Some z \<longleftrightarrow> (\<exists>v. a = Some v \<and> f v = Some z)"
  "(if c then Inl e else i) = Inr z' \<longleftrightarrow> \<not> c \<and> i = Inr z'"
  "(case a of None \<Rightarrow> Inl e | Some v \<Rightarrow> g v) = Inr z' \<longleftrightarrow> (\<exists>v. a = Some v \<and> g v = Inr z')"
  by (auto split: option.splits)

section \<open>An exchange\<close>

definition exParse :: "string \<Rightarrow> parsedURL option" where
  "exParse s =
     (let mk = (\<lambda>scheme rest. Some \<lparr>urlScheme = scheme, urlOpaque = [], urlUser = None, urlHost = takeWhile (\<lambda>c. c \<noteq> CHR ''/'') rest,
            urlPath = dropWhile (\<lambda>c. c \<noteq> CHR ''/'') rest, urlRawQuery = [], urlForceQuery = False, urlFragment = []\<rparr>)
      in if has_prefix s ''https://'' then mk ''https'' (drop 8 s)
         else if has_prefix s ''http://'' then mk ''http'' (drop 7 s) else None)"

definition exRender :: "parsedURL \<Rightarrow> string" where
  "exRender u = urlScheme u @ ''://'' @ urlHost u @ urlPath u"

definition exCodecs :: codecs where
  "exCodecs = \<lparr>cxGzip = (\<lambda>s. None), cxZlib = (\<lambda>s. None), cxFlate = (\<lambda>s. (s, True)), cxBrotli = (\<lambda>s. (s, True))\<rparr>"

definition pipeExterns :: externs where "pipeExterns = docExterns\<lparr>xURL := exParse\<rparr>"

lemma exParse_https: "exParse (''https'' @ ''://'' @ rest) = Some \<lparr>urlScheme = ''https'', urlOpaque = [], urlUser = None,
    urlHost = takeWhile (\<lambda>c. c \<noteq> CHR ''/'') rest, urlPath = dropWhile (\<lambda>c. c \<noteq> CHR ''/'') rest, urlRawQuery = [], urlForceQuery = False, urlFragment = []\<rparr>"
  by (simp add: exParse_def has_prefix_def Let_def)

lemma exParse_http: "exParse (''http'' @ ''://'' @ rest) = Some \<lparr>urlScheme = ''http'', urlOpaque = [], urlUser = None,
    urlHost = takeWhile (\<lambda>c. c \<noteq> CHR ''/'') rest, urlPath = dropWhile (\<lambda>c. c \<noteq> CHR ''/'') rest, urlRawQuery = [], urlForceQuery = False, urlFragment = []\<rparr>"
  by (simp add: exParse_def has_prefix_def Let_def)

lemma exParse_render: "exParse s = Some u \<Longrightarrow> exRender u = s"
  by (auto simp: exParse_def exRender_def Let_def has_prefix_iff split: if_splits)

definition exRuntime :: compiledScriptConfig where
  "exRuntime = \<lparr>rtModules = [\<lparr>cmModule = docModule,
       cmRules = [\<lparr>crRule = exScriptRule, crPath = Regexp ''/'', crHosts = newCompiledHostMatcher [''a.example.com'']\<rparr>],
       cmHosts = Some (newCompiledHostMatcher [''*.example.com''])\<rparr>],
     rtModuleHosts = [(''abc'', newCompiledHostMatcher [''*.example.com''])],
     rtActiveHosts = Some (newCompiledHostMatcher [''*.example.com'']), rtActivePatterns = [''*.example.com'']\<rparr>"

definition exCfg :: Config where "exCfg = document\<lparr>cfgRuntime := Some exRuntime\<rparr>"

definition exRequest :: httpRequest where
  "exRequest = \<lparr>rqMethod = ''GET'', rqHost = ''a.example.com'', rqURI = ''/'', rqTLS = True, rqProtoMajor = 1, rqContentLength = 0,
     rqTransferEncoding = [], rqHeader = [], rqBody = None, rqTrailer = [], rqFinalTrailer = []\<rparr>"

lemma exRules: "matchingScriptRules pipeExterns exCfg ''request'' (moduleRequestProbe exRequest ''a.example.com'') = [(docModule, exScriptRule)]"
  by code_simp

abbreviation exRewriting :: engines where
  "exRewriting \<equiv> exEngines (Some (ExMap [(''request'', ExMap [(''url'', ExString ''https://a.example.com/new'')])]))"

lemma exExecute: "execute pipeExterns exRewriting docModule exScriptRule msg None =
   Inr (noResult\<lparr>resURL := ''https://a.example.com/new'', resChangedURL := True\<rparr>)"
  by (simp add: execute_def executeScript_def exEngines_def exScriptRule_def docRule_def scriptProgram_def scriptSettingValues_def
        scriptEntryProxyCompat_def parseNativeScriptResult_def stringAnyMap_def nativeAbort_def nativePatches_def
        applyNativePatch_def patchKeys_def patchURL_def patchHeaders_def patchTrailers_def patchBody_def
        patchStatus_def bindJ_def del: bindJ_Inr)

definition exNewURL :: parsedURL where
  "exNewURL = \<lparr>urlScheme = ''https'', urlOpaque = [], urlUser = None, urlHost = ''a.example.com'', urlPath = ''/new'', urlRawQuery = [],
     urlForceQuery = False, urlFragment = []\<rparr>"

lemma exAuthorized:
  "authorizeModuleRequestURLRewriteConfig pipeExterns exCfg docModule ''https://a.example.com/'' ''https://a.example.com/new'' = Inr exNewURL"
proof -
  have "exParse ''https://a.example.com/new'' = Some exNewURL" by code_simp
  moreover have "parseModuleNetworkRequestURL pipeExterns ''https://a.example.com/'' =
      Some (exNewURL\<lparr>urlPath := ''/''\<rparr>, ''https://a.example.com'', \<lparr>tgtHost = ''a.example.com'', tgtPort = 443\<rparr>)"
    "parseModuleNetworkRequestURL pipeExterns ''https://a.example.com/new'' =
      Some (exNewURL, ''https://a.example.com'', \<lparr>tgtHost = ''a.example.com'', tgtPort = 443\<rparr>)"
    by code_simp+
  moreover have "moduleCapturesHost exCfg docModule (urlHostname exNewURL)" by code_simp
  ultimately show ?thesis
    by (simp add: authorizeModuleRequestURLRewriteConfig_def pipeExterns_def maxModuleRequestRewriteURLBytes_def exNewURL_def)
qed

lemma exPrepared:
  "\<exists>p ob. prepareModuleRequest pipeExterns exRewriting cx exRender cl exRequest exCfg ''a.example.com'' = Returned (p, None) \<and>
     prOutbound p = Some ob \<and> obURL ob = exNewURL \<and> obBody ob = NoBody"
proof -
  have url: "msgURL (moduleRequestProbe exRequest ''a.example.com'') = ''https://a.example.com/''" by code_simp
  have mode: "ruleBodyMode exScriptRule = ''none''" "exRender exNewURL = ''https://a.example.com/new''"
     "exParse ''https://a.example.com/new'' = Some exNewURL" by code_simp+
  have "runRequestActions pipeExterns exRewriting exRender cl exRequest exCfg [(docModule, exScriptRule)]
      \<lparr>stMessage = startMessage exRequest (moduleRequestProbe exRequest ''a.example.com'') [], stURLChanged = False, stBodyChanged = False, stRetained = False\<rparr> =
     ActionsDone \<lparr>stMessage = (startMessage exRequest (moduleRequestProbe exRequest ''a.example.com'') [])\<lparr>msgURL := ''https://a.example.com/new''\<rparr>,
       stURLChanged = True, stBodyChanged = False, stRetained = False\<rparr>"
    using url mode by (simp add: exExecute noResult_def validateModuleResultBody_def applyRequestResult_def startMessage_def exAuthorized bindJ_def)
  then show ?thesis
    unfolding prepareModuleRequest_def Let_def exRules prepareModuleRequestWithRules_def
    using mode
    by (simp add: exRequest_def requestCanStreamWithoutModuleBuffer_def requestCanConditionallyStreamWithModuleActions_def requestHasPayload_def
        requestHasBodySection_def readDecodedModuleRequestBody_def finishRequest_def sentUpstream_def bufferedModuleRequest_def pipeExterns_def
        startMessage_def retained_def nothingPrepared_def outboundModuleRequest_def Let_def)
qed

section \<open>Where a request may go\<close>

text \<open>
  What is used of \<^verbatim>\<open>net/url\<close>: parsing gives the scheme the text begins with, and writing a URL out and
  parsing it again keeps the scheme.
\<close>

definition urlSchemes :: "externs \<Rightarrow> (parsedURL \<Rightarrow> string) \<Rightarrow> bool" where
  "urlSchemes x render \<longleftrightarrow>
     (\<forall>s rest v. s \<in> {''http'', ''https''} \<and> xURL x (s @ ''://'' @ rest) = Some v \<longrightarrow> urlScheme v = s) \<and>
     (\<forall>u v. urlScheme u \<in> {''http'', ''https''} \<and> xURL x (render u) = Some v \<longrightarrow> urlScheme v = urlScheme u)"

lemma to_lower_schemes [simp]: "to_lower ''http'' = ''http''" "to_lower ''https'' = ''https''"
  by code_simp+

lemma urlSchemes_text: "urlSchemes x render \<Longrightarrow> s \<in> {''http'', ''https''} \<Longrightarrow> xURL x (s @ ''://'' @ rest) = Some v \<Longrightarrow> urlScheme v = s"
  unfolding urlSchemes_def by blast

lemma urlSchemes_render: "urlSchemes x render \<Longrightarrow> urlScheme u \<in> {''http'', ''https''} \<Longrightarrow> xURL x (render u) = Some v \<Longrightarrow> urlScheme v = urlScheme u"
  unfolding urlSchemes_def by blast

lemma both_begin: "(if c then Some (s @ p @ a) else Some (s @ p @ b)) = Some r \<Longrightarrow> \<exists>t. r = s @ p @ t"
  by (auto split: if_splits)

lemma origin_scheme:
  assumes "urlSchemes x render" "s \<in> {''http'', ''https''}" "canonicalModuleNetworkOrigin x (s @ ''://'' @ h) = Some origin"
  shows "\<exists>t. origin = s @ ''://'' @ t"
proof -
  let ?raw = "s @ ''://'' @ h"
  obtain u where u: "xURL x ?raw = Some u"
    using assms(3) by (cases "xURL x ?raw") (auto simp: canonicalModuleNetworkOrigin_def split: if_splits)
  have "to_lower (urlScheme u) = s" using urlSchemes_text[OF assms(1,2) u] assms(2) by auto
  moreover have "\<exists>t. origin = to_lower (urlScheme u) @ ''://'' @ t"
    using assms(3) unfolding canonicalModuleNetworkOrigin_def Let_def branches u option.inject
    by (elim conjE exE) (hypsubst, erule both_begin)
  ultimately show ?thesis by simp
qed

lemma parse_origin:
  assumes "parseModuleNetworkRequestURL x raw = Some (target, origin, t)" "xURL x raw = Some u"
  shows "canonicalModuleNetworkOrigin x (to_lower (urlScheme u) @ ''://'' @ urlHost u) = Some origin"
    and "urlScheme target = to_lower (urlScheme u)"
  using assms by (auto simp: parseModuleNetworkRequestURL_def Let_def split: if_splits option.splits)

lemma parse_url:
  assumes "parseModuleNetworkRequestURL x raw = Some r"
  obtains u where "xURL x raw = Some u"
  using assms by (cases "xURL x raw") (auto simp: parseModuleNetworkRequestURL_def split: if_splits)

definition httpsURL :: "externs \<Rightarrow> string \<Rightarrow> bool" where
  "httpsURL x url \<longleftrightarrow> (\<forall>v. xURL x url = Some v \<longrightarrow> urlScheme v = ''https'')"

lemma authorize_cases:
  assumes "authorizeModuleRequestURLRewriteConfig x cfg m cur raw = Inr u" "xURL x raw = Some rt"
  obtains c co ct t to tt where "parseModuleNetworkRequestURL x cur = Some (c, co, ct)" "parseModuleNetworkRequestURL x raw = Some (t, to, tt)"
    "u = (if to = co then rt else t)" "to \<noteq> co \<longrightarrow> urlScheme c = ''https'' \<longrightarrow> urlScheme t = ''https''"
    "urlScheme rt \<in> {''http'', ''https''}" "to \<noteq> co \<longrightarrow> modNetwork m"
proof -
  obtain c co ct where c: "parseModuleNetworkRequestURL x cur = Some (c, co, ct)"
    using assms(1) by (cases "parseModuleNetworkRequestURL x cur") (auto simp: authorizeModuleRequestURLRewriteConfig_def assms(2) split: if_split_asm)
  obtain t to tt where t: "parseModuleNetworkRequestURL x raw = Some (t, to, tt)"
    using assms(1) c by (cases "parseModuleNetworkRequestURL x raw") (auto simp: authorizeModuleRequestURLRewriteConfig_def assms(2) split: if_split_asm)
  show thesis
    using assms(1) by (intro that[OF c t]) (auto simp: authorizeModuleRequestURLRewriteConfig_def assms(2) c t split: if_split_asm)
qed

lemma authorize_keeps_https:
  assumes laws: "urlSchemes x render" and auth: "authorizeModuleRequestURLRewriteConfig x cfg m cur raw = Inr u" and https: "httpsURL x cur"
  shows "httpsURL x (render u)"
proof -
  obtain rt where rt: "xURL x raw = Some rt" "urlScheme rt \<in> {''http'', ''https''}"
    using auth unfolding authorizeModuleRequestURLRewriteConfig_def branches by auto
  obtain c co ct t to tt where p: "parseModuleNetworkRequestURL x cur = Some (c, co, ct)" "parseModuleNetworkRequestURL x raw = Some (t, to, tt)"
    and u: "u = (if to = co then rt else t)" and d: "to \<noteq> co \<longrightarrow> urlScheme c = ''https'' \<longrightarrow> urlScheme t = ''https''"
    by (rule authorize_cases[OF auth rt(1)])
  obtain cu where cu: "xURL x cur = Some cu" using parse_url[OF p(1)] .
  with https have s: "urlScheme cu = ''https''" by (simp add: httpsURL_def)
  note c = parse_origin[OF p(1) cu, unfolded s to_lower_schemes] and r = parse_origin[OF p(2) rt(1)]
  obtain a where a: "co = ''https'' @ ''://'' @ a" using origin_scheme[OF laws _ c(1)] by auto
  have "urlScheme u = ''https''"
  proof (cases "to = co")
    case True
    have "urlScheme rt = ''https''"
    proof (rule ccontr)
      assume "urlScheme rt \<noteq> ''https''"
      with rt(2) have h: "urlScheme rt = ''http''" by simp
      obtain b where "to = ''http'' @ ''://'' @ b" using origin_scheme[OF laws _ r(1)[unfolded h to_lower_schemes]] by auto
      with a True show False by simp
    qed
    then show ?thesis using True u by simp
  next
    case False
    then show ?thesis using d c(2) u by simp
  qed
  then show ?thesis using urlSchemes_render[OF laws, of u] by (simp add: httpsURL_def)
qed

lemma applyRequestResult_URL:
  assumes "applyRequestResult x render cfg m result st = Inr st'"
  shows "msgURL (stMessage st') = msgURL (stMessage st) \<or>
    (\<exists>u. authorizeModuleRequestURLRewriteConfig x cfg m (msgURL (stMessage st)) (resURL result) = Inr u \<and> msgURL (stMessage st') = render u)"
  using assms
  by (cases "resChangedURL result"; cases "resChangedHeaders result"; cases "resChangedBody result";
      cases "authorizeModuleRequestURLRewriteConfig x cfg m (msgURL (stMessage st)) (resURL result)")
    (auto simp: applyRequestResult_def)

lemma runRequestActions_step:
  assumes "runRequestActions x en render cl r cfg ((m, rule) # rules) st = ActionsDone st'"
  obtains result st1 where "applyRequestResult x render cfg m result st = Inr st1"
    "runRequestActions x en render cl r cfg rules st1 = ActionsDone st'" "validateModuleResultBody rule result"
    "execute x en m rule (stMessage st) None = Inr result" "\<not> resAbort result" "\<not> resSynthetic result"
  using assms by (simp split: option.split_asm if_split_asm sum.split_asm)

text \<open>An invariant of the URL that every authorised rewrite by a matched module keeps holds when the actions are done.\<close>

lemma runRequestActions_URL:
  assumes "runRequestActions x en render cl r cfg rules st = ActionsDone st'" "P (msgURL (stMessage st))"
    and "\<And>m rule cur raw u. (m, rule) \<in> set rules \<Longrightarrow> authorizeModuleRequestURLRewriteConfig x cfg m cur raw = Inr u \<Longrightarrow> P cur \<Longrightarrow> P (render u)"
  shows "P (msgURL (stMessage st'))"
  using assms
proof (induction rules arbitrary: st)
  case (Cons mr rules)
  obtain m rule where mr: "mr = (m, rule)" by force
  obtain result st1 where s: "applyRequestResult x render cfg m result st = Inr st1"
    and r: "runRequestActions x en render cl r cfg rules st1 = ActionsDone st'"
    by (rule runRequestActions_step[OF Cons.prems(1)[unfolded mr]])
  have "P (msgURL (stMessage st1))"
    using applyRequestResult_URL[OF s] Cons.prems(2,3) mr by (metis list.set_intros(1))
  from Cons.IH[OF r this] Cons.prems(3) show ?case by (meson list.set_intros(2))
qed simp

lemma sentUpstream_outbound: "prOutbound (fst (sentUpstream res r n)) = Some ob \<longleftrightarrow> (\<exists>c. res = Some (ob, c))"
  by (cases res) (auto simp: sentUpstream_def retained_def nothingPrepared_def)

lemma streaming_URL: "streamingModuleRequest x r cfg msg = Some (ob, c) \<Longrightarrow> xURL x (msgURL msg) = Some (obURL ob)"
  by (auto simp: streamingModuleRequest_def outboundModuleRequest_def Let_def split: option.splits)

lemma buffered_URL: "bufferedModuleRequest x r cfg msg had = Some (ob, c) \<Longrightarrow> xURL x (msgURL msg) = Some (obURL ob)"
  by (auto simp: bufferedModuleRequest_def outboundModuleRequest_def Let_def split: option.splits)

lemma nothing_outbound [simp]: "prOutbound nothingPrepared = None" "prOutbound (retained k n) = None"
  by (simp_all add: nothingPrepared_def retained_def)

lemma finishRequest_URL:
  assumes "prOutbound (fst (finishRequest x cx r cfg rules conditional had n st)) = Some ob"
  shows "xURL x (msgURL (stMessage st)) = Some (obURL ob)"
  using assms
  by (auto simp: finishRequest_def Let_def sentUpstream_outbound dest: streaming_URL buffered_URL split: if_splits sum.splits)

lemma prepared_cases:
  assumes "prepareModuleRequestWithRules x en cx render cl r cfg probe rules = Returned (p, e)" "prOutbound p = Some ob"
  obtains (stream) c where "streamingModuleRequest x r cfg (probe\<lparr>msgHeaders := rqHeader r\<rparr>) = Some (ob, c)" "p = fst (sentUpstream (Some (ob, c)) False 0)"
      "requestCanStreamWithoutModuleBuffer r rules"
  | (actions) body keeps n st conditional where
      "runRequestActions x en render cl r cfg rules
         \<lparr>stMessage = startMessage r probe body, stURLChanged = False, stBodyChanged = False, stRetained = keeps\<rparr> = ActionsDone st"
      "conditional = requestCanConditionallyStreamWithModuleActions r rules"
      "p = fst (finishRequest x cx r cfg rules conditional (requestHasBodySection r) n st)"
      "if conditional then body = [] \<and> n = 0 else readDecodedModuleRequestBody cx r (moduleBodyReadLimit rules) = Inr body \<and> n = length body"
proof (cases "requestCanStreamWithoutModuleBuffer r rules")
  case True
  then have p: "sentUpstream (streamingModuleRequest x r cfg (probe\<lparr>msgHeaders := rqHeader r\<rparr>)) False 0 = (p, e)"
    using assms by (auto simp: prepareModuleRequestWithRules_def split: if_splits)
  with assms(2) obtain c where "streamingModuleRequest x r cfg (probe\<lparr>msgHeaders := rqHeader r\<rparr>) = Some (ob, c)"
    by (metis fst_conv sentUpstream_outbound)
  with p show thesis by (intro stream[OF _ _ True]) (simp, metis fst_conv)
next
  case False
  define conditional where "conditional = requestCanConditionallyStreamWithModuleActions r rules"
  have short: "\<not> rqContentLength r > int maxModuleHTTPBody" using assms by (auto simp: prepareModuleRequestWithRules_def)
  note d = assms(1)[unfolded prepareModuleRequestWithRules_def if_not_P[OF short] if_not_P[OF False] Let_def conditional_def[symmetric]]
  obtain body where body: "(if conditional then Inr [] else readDecodedModuleRequestBody cx r (moduleBodyReadLimit rules)) = Inr body"
    using d assms(2) by (cases "if conditional then Inr [] else readDecodedModuleRequestBody cx r (moduleBodyReadLimit rules)") auto
  define n where "n = (if conditional then 0 else length body)"
  define st0 where "st0 = \<lparr>stMessage = startMessage r probe body, stURLChanged = False, stBodyChanged = False,
      stRetained = \<not> conditional \<and> (body \<noteq> [] \<or> (if rqBody r = None then rqTrailer r else rqFinalTrailer r) \<noteq> [])\<rparr>"
  note d' = d[unfolded body sum.case n_def[symmetric] st0_def[symmetric]]
  obtain st where st: "runRequestActions x en render cl r cfg rules st0 = ActionsDone st"
    using d' assms(2) by (cases "runRequestActions x en render cl r cfg rules st0") (auto simp: nothingPrepared_def retained_def)
  show thesis
    by (rule actions[OF st[unfolded st0_def] conditional_def, of n])
      (use d' st body n_def in \<open>auto split: if_splits\<close>)
qed

text \<open>A request that came over TLS or HTTP/3 never goes upstream in the clear: however many actions
rewrite its URL, the request that is prepared has the scheme \<^verbatim>\<open>https\<close>.\<close>
theorem https_never_downgraded:
  assumes "urlSchemes x render" "rqTLS r \<or> rqProtoMajor r = 3"
    and "prepareModuleRequest x en cx render cl r cfg host = Returned (p, e)" "prOutbound p = Some ob"
  shows "urlScheme (obURL ob) = ''https''"
proof -
  let ?probe = "moduleRequestProbe r host" and ?rules = "matchingScriptRules x cfg ''request'' (moduleRequestProbe r host)"
  have start: "httpsURL x (msgURL ?probe)"
    using urlSchemes_text[OF assms(1), of "''https''"] assms(2) by (auto simp: httpsURL_def moduleRequestProbe_def)
  have p: "prepareModuleRequestWithRules x en cx render cl r cfg ?probe ?rules = Returned (p, e)"
    using assms(3) by (simp add: prepareModuleRequest_def Let_def)
  show ?thesis using p assms(4)
  proof (cases rule: prepared_cases)
    case (stream c)
    then show ?thesis using start streaming_URL[OF stream(1)] by (simp add: httpsURL_def)
  next
    case (actions body keeps n st conditional)
    have "httpsURL x (msgURL (stMessage st))"
      by (rule runRequestActions_URL[OF actions(1)])
        (use start authorize_keeps_https[OF assms(1)] in \<open>auto simp: startMessage_def\<close>)
    then show ?thesis using finishRequest_URL[of x cx r cfg ?rules conditional "requestHasBodySection r" n st ob] actions(3) assms(4)
      by (simp add: httpsURL_def)
  qed
qed

lemma exSchemes: "urlSchemes pipeExterns exRender"
proof -
  have x: "xURL pipeExterns = exParse" by (simp add: pipeExterns_def)
  have parsed: "urlScheme v = s" if "s \<in> {''http'', ''https''}" "exParse (s @ ''://'' @ rest) = Some v" for s rest v
    using that exParse_https[of rest] exParse_http[of rest] by auto
  have "urlScheme v = urlScheme u" if "urlScheme u \<in> {''http'', ''https''}" "exParse (exRender u) = Some v" for u v
    using parsed[OF that(1), of "urlHost u @ urlPath u" v] that(2) by (simp add: exRender_def)
  with parsed show ?thesis unfolding urlSchemes_def x by blast
qed

theorem https_never_downgraded_witness:
  "\<exists>p ob. prepareModuleRequest pipeExterns exRewriting exCodecs exRender exClient exRequest exCfg ''a.example.com'' = Returned (p, None) \<and>
     prOutbound p = Some ob \<and> urlPath (obURL ob) = ''/new'' \<and> urlScheme (obURL ob) = ''https''"
proof -
  obtain p ob where e: "prepareModuleRequest pipeExterns exRewriting exCodecs exRender exClient exRequest exCfg ''a.example.com'' = Returned (p, None)"
    "prOutbound p = Some ob" "obURL ob = exNewURL" using exPrepared by blast
  have "rqTLS exRequest \<or> rqProtoMajor exRequest = 3" by (simp add: exRequest_def)
  from https_never_downgraded[OF exSchemes this e(1,2)] e show ?thesis by (auto simp: exNewURL_def)
qed

text \<open>Writing out a URL that was parsed and parsing it again keeps its origin.\<close>

definition keepsOrigin :: "externs \<Rightarrow> (parsedURL \<Rightarrow> string) \<Rightarrow> bool" where
  "keepsOrigin x render \<longleftrightarrow>
     (\<forall>raw u origin. xURL x raw = Some u \<and> originOf x raw = Some origin \<longrightarrow> originOf x (render u) = Some origin)"

lemma authorize_same_origin:
  assumes "keepsOrigin x render" "authorizeModuleRequestURLRewriteConfig x cfg m cur raw = Inr u" "\<not> modNetwork m"
  shows "originOf x (render u) = originOf x cur"
proof -
  obtain rt where rt: "xURL x raw = Some rt" using assms(2) unfolding authorizeModuleRequestURLRewriteConfig_def branches by auto
  obtain c co ct t tt where "parseModuleNetworkRequestURL x cur = Some (c, co, ct)" "parseModuleNetworkRequestURL x raw = Some (t, co, tt)" "u = rt"
    using authorize_cases[OF assms(2) rt] assms(3) by metis
  then have "originOf x cur = Some co" "originOf x raw = Some co" "xURL x raw = Some u" using rt by (simp_all add: originOf_def)
  then show ?thesis using assms(1) by (simp add: keepsOrigin_def)
qed

text \<open>A captured request leaves for the origin it was sent to, unless an extension that holds the
network permission is among those whose actions apply to it.\<close>
theorem detour_needs_grant:
  assumes "keepsOrigin x render"
    and "prepareModuleRequest x en cx render cl r cfg host = Returned (p, e)" "prOutbound p = Some ob"
  shows "(\<exists>url. xURL x url = Some (obURL ob) \<and> originOf x url = originOf x (msgURL (moduleRequestProbe r host))) \<or>
    (\<exists>(m, rule) \<in> set (matchingScriptRules x cfg ''request'' (moduleRequestProbe r host)). modNetwork m)"
proof (rule disjCI)
  let ?probe = "moduleRequestProbe r host" and ?rules = "matchingScriptRules x cfg ''request'' (moduleRequestProbe r host)"
  assume none: "\<not> (\<exists>(m, rule) \<in> set ?rules. modNetwork m)"
  have p: "prepareModuleRequestWithRules x en cx render cl r cfg ?probe ?rules = Returned (p, e)"
    using assms(2) by (simp add: prepareModuleRequest_def Let_def)
  show "\<exists>url. xURL x url = Some (obURL ob) \<and> originOf x url = originOf x (msgURL ?probe)" using p assms(3)
  proof (cases rule: prepared_cases)
    case (stream c)
    then show ?thesis using streaming_URL[OF stream(1)] by auto
  next
    case (actions body keeps n st conditional)
    have "originOf x (msgURL (stMessage st)) = originOf x (msgURL ?probe)"
    proof (rule runRequestActions_URL[OF actions(1)])
      show "originOf x (msgURL (stMessage \<lparr>stMessage = startMessage r ?probe body, stURLChanged = False, stBodyChanged = False, stRetained = keeps\<rparr>)) =
          originOf x (msgURL ?probe)" by (simp add: startMessage_def)
      fix m rule cur raw u
      assume "(m, rule) \<in> set ?rules" "authorizeModuleRequestURLRewriteConfig x cfg m cur raw = Inr u"
        "originOf x cur = originOf x (msgURL ?probe)"
      then show "originOf x (render u) = originOf x (msgURL ?probe)"
        using none authorize_same_origin[OF assms(1), of cfg m cur raw u] by fastforce
    qed
    moreover have "xURL x (msgURL (stMessage st)) = Some (obURL ob)"
      by (rule finishRequest_URL[of x cx r cfg ?rules conditional "requestHasBodySection r" n]) (use actions(3) assms(3) in simp)
    ultimately show ?thesis by blast
  qed
qed

lemma exKeepsOrigin: "keepsOrigin pipeExterns exRender"
  by (auto simp: keepsOrigin_def pipeExterns_def dest: exParse_render)

theorem detour_needs_grant_witness:
  "\<exists>p ob. prepareModuleRequest pipeExterns exRewriting exCodecs exRender exClient exRequest exCfg ''a.example.com'' = Returned (p, None) \<and>
     prOutbound p = Some ob \<and> \<not> modNetwork docModule \<and>
     (\<exists>url. exParse url = Some (obURL ob) \<and> originOf pipeExterns url = Some ''https://a.example.com'')"
proof -
  obtain p ob where e: "prepareModuleRequest pipeExterns exRewriting exCodecs exRender exClient exRequest exCfg ''a.example.com'' = Returned (p, None)"
    "prOutbound p = Some ob" using exPrepared by blast
  have n: "\<not> modNetwork docModule" by (simp add: docModule_def)
  have o: "originOf pipeExterns (msgURL (moduleRequestProbe exRequest ''a.example.com'')) = Some ''https://a.example.com''" by code_simp
  have x: "xURL pipeExterns = exParse" by (simp add: pipeExterns_def)
  from detour_needs_grant[OF exKeepsOrigin e] have "\<exists>url. exParse url = Some (obURL ob) \<and> originOf pipeExterns url = Some ''https://a.example.com''"
    unfolding exRules o x using n by simp
  with e n show ?thesis by blast
qed

section \<open>Bodies\<close>

lemma readBounded_bound: "readBounded r limit = Inr b \<Longrightarrow> length b \<le> limit"
  by (auto simp: readBounded_def split: prod.splits if_splits)

lemma decodeContentBody_bound: "decodeContentBody cx body encoding limit = Inr b \<Longrightarrow> length body \<le> limit \<Longrightarrow> length b \<le> limit"
  by (auto simp: decodeContentBody_def Let_def dest: readBounded_bound split: if_splits option.splits)

lemma readDecodedModuleRequestBody_bound: "readDecodedModuleRequestBody cx r limit = Inr b \<Longrightarrow> length b \<le> limit"
  by (auto simp: readDecodedModuleRequestBody_def dest: readBounded_bound decodeContentBody_bound split: option.splits)

lemma moduleBodyReadLimit_bound: "moduleBodyReadLimit rules \<le> maxModuleHTTPBody"
  by (auto simp: moduleBodyReadLimit_def Let_def)

lemma readDecoded_max:
  "readDecodedModuleRequestBody cx r (moduleBodyReadLimit rules) = Inr b \<Longrightarrow> length b \<le> maxModuleHTTPBody"
  using readDecodedModuleRequestBody_bound moduleBodyReadLimit_bound le_trans by blast

lemma applyRequestResult_body:
  assumes "applyRequestResult x render cfg m result st = Inr st'" "validateModuleResultBody rule result"
    and "length (msgBody (stMessage st)) \<le> maxModuleHTTPBody"
  shows "length (msgBody (stMessage st')) \<le> maxModuleHTTPBody"
  using assms
  by (cases "resChangedURL result"; cases "resChangedHeaders result"; cases "resChangedBody result";
      cases "authorizeModuleRequestURLRewriteConfig x cfg m (msgURL (stMessage st)) (resURL result)")
    (auto simp: applyRequestResult_def validateModuleResultBody_def validateModuleResultBodySize_def)

lemma runRequestActions_body:
  assumes "runRequestActions x en render cl r cfg rules st = ActionsDone st'" "length (msgBody (stMessage st)) \<le> maxModuleHTTPBody"
  shows "length (msgBody (stMessage st')) \<le> maxModuleHTTPBody"
  using assms
proof (induction rules arbitrary: st)
  case (Cons mr rules)
  obtain m rule where mr: "mr = (m, rule)" by force
  obtain result st1 where s: "applyRequestResult x render cfg m result st = Inr st1" "validateModuleResultBody rule result"
    and r: "runRequestActions x en render cl r cfg rules st1 = ActionsDone st'"
    by (rule runRequestActions_step[OF Cons.prems(1)[unfolded mr]])
  show ?case by (rule Cons.IH[OF r applyRequestResult_body[OF s Cons.prems(2)]])
qed simp

definition outboundFits :: "bool \<Rightarrow> outboundRequest \<Rightarrow> bool" where
  "outboundFits mustReplay ob \<longleftrightarrow>
     (\<forall>b. obBody ob = BufferedBody b \<longrightarrow> length b \<le> maxModuleHTTPBody \<and> obContentLength ob = int (length b) \<and> obReplayable ob) \<and>
     (mustReplay \<longrightarrow> obReplayable ob)"

lemma buffered_fits:
  "bufferedModuleRequest x r cfg msg had = Some (ob, c) \<Longrightarrow> length (msgBody msg) \<le> maxModuleHTTPBody \<Longrightarrow> outboundFits had ob"
  by (auto simp: bufferedModuleRequest_def outboundFits_def outboundModuleRequest_def Let_def split: option.splits if_splits)

lemma streaming_fits: "streamingModuleRequest x r cfg msg = Some (ob, c) \<Longrightarrow> outboundFits False ob"
  by (auto simp: streamingModuleRequest_def outboundFits_def outboundModuleRequest_def Let_def split: option.splits if_splits)

lemma finishRequest_sent:
  assumes "prOutbound (fst (finishRequest x cx r cfg rules conditional had n st)) = Some ob"
    and "length (msgBody (stMessage st)) \<le> maxModuleHTTPBody"
  shows "(conditional \<and> (\<exists>c. streamingModuleRequest x r cfg (stMessage st) = Some (ob, c))) \<or>
    (\<exists>r' msg c. bufferedModuleRequest x r' cfg msg had = Some (ob, c) \<and> length (msgBody msg) \<le> maxModuleHTTPBody)"
proof (cases "conditional \<and> \<not> stBodyChanged st \<and> stURLChanged st")
  case True
  then obtain body where "readDecodedModuleRequestBody cx r (moduleBodyReadLimit rules) = Inr body"
    and "\<exists>r' c. bufferedModuleRequest x r' cfg ((stMessage st)\<lparr>msgBody := body\<rparr>) had = Some (ob, c)"
    using assms(1) by (cases "readDecodedModuleRequestBody cx r (moduleBodyReadLimit rules)") (auto simp: finishRequest_def Let_def sentUpstream_outbound)
  moreover from this have "length body \<le> maxModuleHTTPBody" by (blast intro: readDecoded_max)
  ultimately show ?thesis by fastforce
next
  case False
  then show ?thesis using assms
    by (cases conditional; cases "stBodyChanged st"; cases "stURLChanged st")
      (auto simp: finishRequest_def Let_def sentUpstream_outbound split: if_splits)
qed

lemma finishRequest_fits:
  assumes "prOutbound (fst (finishRequest x cx r cfg rules conditional had n st)) = Some ob"
    and "length (msgBody (stMessage st)) \<le> maxModuleHTTPBody" "mustReplay \<longrightarrow> \<not> conditional \<and> had"
  shows "outboundFits mustReplay ob"
  using finishRequest_sent[OF assms(1,2)] assms(3) buffered_fits streaming_fits
  unfolding outboundFits_def by metis

text \<open>A buffered request body is at most 64 MiB, whatever the actions make of it, and is announced with
its true length; a request over HTTP/3 that has a body section can always be replayed, as the
fallback to the second QUIC version requires.\<close>
theorem outbound_bodies_fit:
  assumes "prepareModuleRequest x en cx render cl r cfg host = Returned (p, e)" "prOutbound p = Some ob"
  shows "(\<forall>b. obBody ob = BufferedBody b \<longrightarrow> length b \<le> maxModuleHTTPBody \<and> obContentLength ob = int (length b) \<and> obReplayable ob) \<and>
    (rqProtoMajor r = 3 \<and> requestHasBodySection r \<longrightarrow> obReplayable ob)"
proof -
  let ?probe = "moduleRequestProbe r host" and ?rules = "matchingScriptRules x cfg ''request'' (moduleRequestProbe r host)"
  let ?replay = "rqProtoMajor r = 3 \<and> requestHasBodySection r"
  have p: "prepareModuleRequestWithRules x en cx render cl r cfg ?probe ?rules = Returned (p, e)"
    using assms(1) by (simp add: prepareModuleRequest_def Let_def)
  have "outboundFits ?replay ob" using p assms(2)
  proof (cases rule: prepared_cases)
    case (stream c)
    then have "\<not> ?replay" by (auto simp: requestCanStreamWithoutModuleBuffer_def split: if_splits)
    then show ?thesis using streaming_fits[OF stream(1)] by (auto simp: outboundFits_def)
  next
    case (actions body keeps n st conditional)
    have "length body \<le> maxModuleHTTPBody"
      using actions(4) by (auto intro: readDecoded_max split: if_splits)
    then have "length (msgBody (stMessage st)) \<le> maxModuleHTTPBody"
      by (intro runRequestActions_body[OF actions(1)]) (simp add: startMessage_def)
    moreover have "?replay \<longrightarrow> \<not> conditional \<and> requestHasBodySection r"
      using actions(2) by (auto simp: requestCanConditionallyStreamWithModuleActions_def)
    ultimately show ?thesis
      using finishRequest_fits[of x cx r cfg ?rules conditional "requestHasBodySection r" n st ob ?replay] actions(3) assms(2) by simp
  qed
  then show ?thesis by (simp add: outboundFits_def)
qed

theorem outbound_bodies_fit_witness:
  "\<exists>p ob. prepareModuleRequest pipeExterns exRewriting exCodecs exRender exClient exRequest exCfg ''a.example.com'' = Returned (p, None) \<and>
     prOutbound p = Some ob \<and> (\<forall>b. obBody ob = BufferedBody b \<longrightarrow> length b \<le> maxModuleHTTPBody)"
proof -
  obtain p ob where e: "prepareModuleRequest pipeExterns exRewriting exCodecs exRender exClient exRequest exCfg ''a.example.com'' = Returned (p, None)"
    "prOutbound p = Some ob" using exPrepared by blast
  from outbound_bodies_fit[OF e] e show ?thesis by blast
qed

section \<open>Response actions\<close>

lemma filterFrom_filter:
  "filterFrom status seen filtered cs =
     (if list_all (\<lambda>c. matchStatusCodes (ruleMatch (snd c)) = [] \<or> containsInt (matchStatusCodes (ruleMatch (snd c))) status) cs \<and> filtered = None
      then None
      else Some ((case filtered of None \<Rightarrow> seen | Some f \<Rightarrow> f) @
        filter (\<lambda>c. matchStatusCodes (ruleMatch (snd c)) = [] \<or> containsInt (matchStatusCodes (ruleMatch (snd c))) status) cs))"
  by (induction status seen filtered cs rule: filterFrom.induct) (auto split: option.splits)

lemma responseRulesForStatus_filter:
  "responseRulesForStatus cs status =
     filter (\<lambda>c. matchStatusCodes (ruleMatch (snd c)) = [] \<or> containsInt (matchStatusCodes (ruleMatch (snd c))) status) cs"
  by (auto simp: responseRulesForStatus_def filterFrom_filter list_all_iff filter_id_conv)

lemma ruleMatches_status:
  "ruleMatches x phase (msg\<lparr>msgStatusCode := status\<rparr>) True u =
     (\<lambda>cr. ruleMatches x phase msg False u cr \<and>
       (matchStatusCodes (ruleMatch (crRule cr)) = [] \<or> containsInt (matchStatusCodes (ruleMatch (crRule cr))) status))"
  by (rule ext) (auto simp: ruleMatches_def Let_def)

lemma matchModule_status:
  "matchModule x phase (msg\<lparr>msgStatusCode := status\<rparr>) True u =
     filter (\<lambda>c. matchStatusCodes (ruleMatch (snd c)) = [] \<or> containsInt (matchStatusCodes (ruleMatch (snd c))) status) \<circ>
       matchModule x phase msg False u"
  by (auto simp: fun_eq_iff matchModule_def filter_map comp_def ruleMatches_status conj_commute)

text \<open>Filtering the response actions found while the request was prepared by the status of the response
gives exactly the actions a fresh walk over the whole configuration with that status would give.\<close>
theorem response_rules_by_status:
  "responseRulesForStatus (matchingScriptRulesParsed x cfg phase msg False u) status =
   matchingScriptRulesParsed x cfg phase (msg\<lparr>msgStatusCode := status\<rparr>) True u"
  by (auto simp: responseRulesForStatus_filter matchingScriptRulesParsed_def filter_concat matchModule_status split: sum.splits)

section \<open>Header edits on a streamed response\<close>

lemma distinct_fold_headerDel_if:
  "distinct (map fst h) \<Longrightarrow> distinct (map fst (fold (\<lambda>name h. if P name then headerDel name h else h) names h))"
  by (induction names arbitrary: h) (auto simp: headerDel_def distinct_delete)

lemma distinct_fold_headerDel: "distinct (map fst h) \<Longrightarrow> distinct (map fst (fold headerDel names h))"
  by (induction names arbitrary: h) (auto simp: headerDel_def distinct_delete)

lemma distinct_removeHopByHopHeaders: "distinct (map fst h) \<Longrightarrow> distinct (map fst (removeHopByHopHeaders h))"
  by (simp add: removeHopByHopHeaders_def Let_def distinct_fold_headerDel_if)

lemma map_of_fold_headerAdd:
  assumes "canonicalKey name = name"
  shows "map_of (fold (headerAdd name) vs h) k = (if k = name \<and> vs \<noteq> [] then Some (headerValues name h @ vs) else map_of h k)"
proof (induction vs arbitrary: h)
  case (Cons v vs)
  then show ?case by (auto simp: headerAdd_def headerValues_def assms)
qed simp

lemma map_of_add_fields:
  assumes "distinct (map fst es)" "\<And>n vs. (n, vs) \<in> set es \<Longrightarrow> canonicalKey n = n \<and> map_of h n = None"
  shows "map_of (fold (\<lambda>(n, vs) h. fold (headerAdd n) vs h) es h) k =
     (case map_of es k of Some vs \<Rightarrow> if vs = [] then map_of h k else Some vs | None \<Rightarrow> map_of h k)"
  using assms
proof (induction es arbitrary: h)
  case (Cons e es)
  obtain n vs where e: "e = (n, vs)" by force
  have n: "canonicalKey n = n" "map_of h n = None" using Cons.prems(2)[of n vs] e by auto
  let ?h = "fold (headerAdd n) vs h"
  have h: "map_of ?h j = (if j = n \<and> vs \<noteq> [] then Some vs else map_of h j)" for j
    using map_of_fold_headerAdd[OF n(1)] n by (simp add: headerValues_def)
  have "canonicalKey j = j \<and> map_of ?h j = None" if "(j, ws) \<in> set es" for j ws
    using Cons.prems(1) Cons.prems(2)[of j ws] that e h[of j] by (force simp: image_iff)
  then have ih: "map_of (fold (\<lambda>(n, vs) h. fold (headerAdd n) vs h) es ?h) k =
      (case map_of es k of Some vs \<Rightarrow> if vs = [] then map_of ?h k else Some vs | None \<Rightarrow> map_of ?h k)"
    using Cons.prems(1) e by (intro Cons.IH) auto
  show ?case
  proof (cases "k = n")
    case True
    then have "map_of es k = None" using Cons.prems(1) e by (simp add: map_of_eq_None_iff)
    then show ?thesis using ih h[of k] n e True by simp
  next
    case False
    then show ?thesis using ih h[of k] e by (cases "map_of es k") simp_all
  qed
qed simp

lemma framing_canonical: "\<forall>f\<in>set framingFields. canonicalKey f = f"
  by code_simp


lemma map_of_kept:
  assumes "canonicalHeader h"
  shows "map_of (fold (\<lambda>name h. if canonicalKey name \<in> set framingFields then h else headerDel name h) (map fst h) h) k =
     (if k \<in> set framingFields then map_of h k else None)"
proof -
  have "map_of (fold (\<lambda>name h. if canonicalKey name \<notin> set framingFields then headerDel name h else h) (map fst h) h) k =
      (if \<exists>n\<in>set (map fst h). canonicalKey n \<notin> set framingFields \<and> canonicalKey n = k then None else map_of h k)"
    by (rule map_of_fold_headerDel_if)
  moreover have "(\<exists>n\<in>set (map fst h). canonicalKey n \<notin> set framingFields \<and> canonicalKey n = k) \<longleftrightarrow> k \<in> fst ` set h \<and> k \<notin> set framingFields"
    using assms by (force simp: canonicalHeader_def list_all_iff)
  moreover have "(\<lambda>name h. if canonicalKey name \<in> set framingFields then h else headerDel name h) =
      (\<lambda>name h. if canonicalKey name \<notin> set framingFields then headerDel name h else h)" by (intro ext) simp
  ultimately show ?thesis by (auto simp: map_of_eq_None_iff)
qed

text \<open>Header edits on a response whose body is streamed never touch its framing: \<^verbatim>\<open>Content-Length\<close>,
\<^verbatim>\<open>Content-Encoding\<close> and \<^verbatim>\<open>Transfer-Encoding\<close> stay the upstream's whatever the edits set; every other
field is as the edits left it, without the hop-by-hop ones.\<close>
theorem streamed_edits_keep_framing:
  assumes "canonicalHeader original" "canonicalHeader edited"
  shows "map_of (replaceStreamedHeader original edited) k =
    (if k \<in> set framingFields then map_of original k
     else if isHopByHopHeader k \<or> connectionListsHeader edited k then None
     else (case map_of edited k of Some vs \<Rightarrow> if vs = [] then None else Some vs | None \<Rightarrow> None))"
proof -
  define e where "e = fold headerDel framingFields (removeHopByHopHeaders edited)"
  define kept where "kept = fold (\<lambda>name h. if canonicalKey name \<in> set framingFields then h else headerDel name h) (map fst original) original"
  have e: "map_of e j = (if j \<in> set framingFields \<or> isHopByHopHeader j \<or> connectionListsHeader edited j then None else map_of edited j)" for j
    using framing_canonical by (force simp: e_def map_of_fold_headerDel map_of_removeHopByHopHeaders[OF assms(2)] image_iff)
  have kept: "map_of kept j = (if j \<in> set framingFields then map_of original j else None)" for j
    unfolding kept_def by (rule map_of_kept[OF assms(1)])
  have d: "distinct (map fst e)"
    using assms(2) distinct_fold_headerDel[of "removeHopByHopHeaders edited" framingFields] distinct_removeHopByHopHeaders
    by (simp add: e_def canonicalHeader_def)
  have "map_of (fold (\<lambda>(n, vs) h. fold (headerAdd n) vs h) e kept) k =
     (case map_of e k of Some vs \<Rightarrow> if vs = [] then map_of kept k else Some vs | None \<Rightarrow> map_of kept k)"
  proof (rule map_of_add_fields[OF d])
    fix n vs assume "(n, vs) \<in> set e"
    then have "map_of e n = Some vs" using d by simp
    then show "canonicalKey n = n \<and> map_of kept n = None"
      using e[of n] kept[of n] canonicalHeader_lookup(2)[OF assms(2), of n vs] by (auto split: if_splits)
  qed
  then show ?thesis
    unfolding replaceStreamedHeader_def Let_def e_def[symmetric] kept_def[symmetric] using e[of k] kept[of k]
    by (auto split: option.splits)
qed


theorem streamed_edits_keep_framing_witness:
  "map_of (replaceStreamedHeader [(''Content-Length'', [''5'']), (''X-A'', [''1''])] [(''Content-Length'', [''9'']), (''X-B'', [''2''])]) ''Content-Length'' =
     Some [''5'']"
proof -
  have "canonicalHeader [(''Content-Length'', [''5'']), (''X-A'', [''1''])]" "canonicalHeader [(''Content-Length'', [''9'']), (''X-B'', [''2''])]"
    by code_simp+
  from streamed_edits_keep_framing[OF this, of "''Content-Length''"] show ?thesis by (simp add: framingFields_def)
qed

section \<open>A body in answer to a HEAD request\<close>

text \<open>
  A mock that carries a body, on a path a client asks for with \<^verbatim>\<open>HEAD\<close>: the writer refuses the body and
  the exchange is torn down instead of being answered with the mock's header.
\<close>

lemma head_request_to_mock_aborts:
  assumes "\<not> ruleReject rule" "ruleMock rule = Some mock" "mockBase64Body mock = []" "mockBody mock \<noteq> []"
    and "length (mockBody mock) \<le> maxMockBodyBytes" "ruleBodyMode rule = ''none''" "\<not> stURLChanged st" "rqMethod r = ''HEAD''"
  shows "runRequestActions x en render cl r cfg ((m, rule) # rules) st = ActionsPanic"
  using assms
  by (simp add: execute_def executeMock_def mockBytes_def noResult_def validateModuleResultBody_def validateModuleResultBodySize_def
      Let_def writeBufferedModuleResponse_def responseCanHaveBody_def maxMockBodyBytes_def maxModuleHTTPBody_def)

end
