(* ===== verification/Proxy_Serve_Properties.thy ===== *)
theory Proxy_Serve_Properties
  imports Proxy_Serve Request_Pipeline_Properties Config_Store_Properties
begin

text \<open>
  The reservations of an exchange balance on every path, so that any number of them keeps the budget exact; the limits
  of an accepted document bound each reservation; and what the handler sends upstream was authorised.
\<close>

section \<open>Reservations\<close>

text \<open>What an exchange does to the budget: it gives back what it holds, never more, and holds nothing at the end.\<close>

fun slotsOK :: "int \<Rightarrow> int \<Rightarrow> slot_op list \<Rightarrow> bool" where
  "slotsOK limit held [] \<longleftrightarrow> held = 0"
| "slotsOK limit held (Took n # ops) \<longleftrightarrow> 0 \<le> n \<and> n \<le> limit \<and> slotsOK limit (held + n) ops"
| "slotsOK limit held (Gave n # ops) \<longleftrightarrow> 0 \<le> n \<and> n \<le> held \<and> n \<le> limit \<and> slotsOK limit (held - n) ops"

definition compiledLimits :: "int \<Rightarrow> Config \<Rightarrow> bool" where
  "compiledLimits limit cfg \<longleftrightarrow>
     int maxModuleHTTPBody \<le> limit \<and>
     (\<exists>rt. cfgRuntime cfg = Some rt \<and> (\<forall>cm\<in>set (rtModules rt). \<forall>cr\<in>set (cmRules cm). ruleMaxBodyBytes (crRule cr) \<le> limit))"

lemma matching_limits:
  assumes "compiledLimits limit cfg" "(m, rule) \<in> set (matchingScriptRulesParsed x cfg phase msg b u)"
  shows "ruleMaxBodyBytes rule \<le> limit"
  using assms by (auto simp: compiledLimits_def matchingScriptRulesParsed_def matchModule_def split: if_splits)

lemma matchingScriptRules_limits:
  assumes "compiledLimits limit cfg" "(m, rule) \<in> set (matchingScriptRules x cfg phase msg)"
  shows "ruleMaxBodyBytes rule \<le> limit"
  using assms matching_limits
  by (auto simp: matchingScriptRules_def matchingScriptRulesWithStatus_def split: option.splits)

lemma widestLimit_fold:
  "0 \<le> w \<Longrightarrow> w \<le> limit \<Longrightarrow> \<forall>(m, rule)\<in>set rules. ruleMaxBodyBytes rule \<le> limit \<Longrightarrow>
   0 \<le> fold (\<lambda>(_, rule) widest. if ruleMaxBodyBytes rule > widest then ruleMaxBodyBytes rule else widest) rules w \<and>
   fold (\<lambda>(_, rule) widest. if ruleMaxBodyBytes rule > widest then ruleMaxBodyBytes rule else widest) rules w \<le> limit"
  by (induction rules arbitrary: w) (auto split: prod.splits)

lemma widestLimit_range:
  assumes "0 \<le> limit" "\<forall>(m, rule)\<in>set rules. ruleMaxBodyBytes rule \<le> limit"
  shows "0 \<le> widestLimit rules \<and> widestLimit rules \<le> limit"
  unfolding widestLimit_def by (rule widestLimit_fold) (use assms in auto)

lemma reservation_range:
  assumes "int maxModuleHTTPBody \<le> limit" "\<forall>(m, rule)\<in>set rules. ruleMaxBodyBytes rule \<le> limit"
  shows "0 \<le> moduleBodyReservation r rules \<and> moduleBodyReservation r rules \<le> limit"
    and "0 \<le> moduleResponseBodyReservation rs rules \<and> moduleResponseBodyReservation rs rules \<le> limit"
proof -
  have w: "0 \<le> widestLimit rules" "widestLimit rules \<le> limit" using widestLimit_range[OF _ assms(2)] assms(1) by simp_all
  have l: "int (moduleBodyReadLimit rules) \<le> limit" using moduleBodyReadLimit_bound[of rules] assms(1) by linarith
  show "0 \<le> moduleBodyReservation r rules \<and> moduleBodyReservation r rules \<le> limit"
    using w l by (auto simp: moduleBodyReservation_def Let_def)
  show "0 \<le> moduleResponseBodyReservation rs rules \<and> moduleResponseBodyReservation rs rules \<le> limit"
    using w l by (auto simp: moduleResponseBodyReservation_def Let_def)
qed

definition fromResponseMatch :: "externs \<Rightarrow> Config \<Rightarrow> matched list \<Rightarrow> bool" where
  "fromResponseMatch x cfg cs \<longleftrightarrow> cs = [] \<or> (\<exists>msg u. cs = matchingScriptRulesParsed x cfg ''response'' msg False u)"

lemma sentUpstream_candidates:
  "(\<And>ob c. res = Some (ob, c) \<Longrightarrow> fromResponseMatch x cfg c) \<Longrightarrow> fromResponseMatch x cfg (prCandidates (fst (sentUpstream res k n)))"
  by (cases res) (auto simp: sentUpstream_def retained_def nothingPrepared_def fromResponseMatch_def)

lemma streaming_candidates: "streamingModuleRequest x r cfg msg = Some (ob, c) \<Longrightarrow> fromResponseMatch x cfg c"
  by (auto simp: streamingModuleRequest_def fromResponseMatch_def Let_def split: option.splits)

lemma buffered_candidates: "bufferedModuleRequest x r cfg msg had = Some (ob, c) \<Longrightarrow> fromResponseMatch x cfg c"
  by (auto simp: bufferedModuleRequest_def fromResponseMatch_def Let_def split: option.splits)

lemma no_candidates [simp]: "fromResponseMatch x cfg (prCandidates nothingPrepared)" "fromResponseMatch x cfg (prCandidates (retained k n))"
  by (simp_all add: nothingPrepared_def retained_def fromResponseMatch_def)

lemma finishRequest_candidates: "fromResponseMatch x cfg (prCandidates (fst (finishRequest x cx r cfg rules conditional had n st)))"
  unfolding finishRequest_def Let_def
  by (auto intro!: sentUpstream_candidates dest: streaming_candidates buffered_candidates split: sum.split)

lemma prepared_candidates:
  assumes "prepareModuleRequestWithRules x en cx render cl r cfg probe rules = Returned (p, e)" "prOutbound p = Some ob"
  shows "fromResponseMatch x cfg (prCandidates p)"
  using assms
proof (cases rule: prepared_cases)
  case (stream c)
  then show ?thesis using streaming_candidates[OF stream(1)] by (simp add: sentUpstream_def retained_def)
next
  case (actions body keeps n st conditional)
  then show ?thesis using finishRequest_candidates by simp
qed

lemma fromResponseMatch_limits:
  assumes "compiledLimits limit cfg" "fromResponseMatch x cfg cs"
  shows "\<forall>(m, rule)\<in>set (responseRulesForStatus cs status). ruleMaxBodyBytes rule \<le> limit"
  using assms matching_limits by (fastforce simp: fromResponseMatch_def responseRulesForStatus_filter)

definition pairSlots :: "int \<Rightarrow> slot_op list \<Rightarrow> bool" where
  "pairSlots limit ops \<longleftrightarrow> ops = [] \<or> (\<exists>q. 0 \<le> q \<and> q \<le> limit \<and> ops = [Took q, Gave q])"

lemma serveResponse_slots:
  assumes "compiledLimits limit cfg" "fromResponseMatch x cfg cs"
  shows "pairSlots limit (snd (serveResponse x en cx render cl sv r ob cs response))"
proof -
  note l = reservation_range(2)[OF _ fromResponseMatch_limits[OF assms, of "rsStatus response"], of response]
  show ?thesis using l assms(1)
    by (auto simp: serveResponse_def pairSlots_def Let_def compiledLimits_def split: handler.split sum.split)
qed

lemma slotsOK_around:
  assumes "case held of None \<Rightarrow> True | Some n \<Rightarrow> 0 \<le> n \<and> n \<le> limit" "shrinkReservation held p = (shrink, held')" "pairSlots limit ops"
  shows "slotsOK limit 0 ((case held of None \<Rightarrow> [] | Some n \<Rightarrow> [Took n]) @ shrink @ ops @ releaseHeld held')"
  using assms by (auto simp: shrinkReservation_def pairSlots_def releaseHeld_def split: option.splits if_splits)

lemma pairSlots_Nil [simp]: "pairSlots limit []"
  by (simp add: pairSlots_def)

lemma serveAdmitted_slots:
  assumes "compiledLimits limit cfg" "case held of None \<Rightarrow> True | Some n \<Rightarrow> 0 \<le> n \<and> n \<le> limit"
  shows "slotsOK limit 0 (exSlots (serveAdmitted x en cx render cl sv r cfg probe rules held))"
proof (cases "prepareModuleRequestWithRules x en cx render cl r cfg probe rules")
  case Panicked
  then show ?thesis using assms(2) by (auto simp: serveAdmitted_def releaseHeld_def split: option.splits)
next
  case (Returned pe)
  obtain p e where pe: "pe = (p, e)" by force
  obtain shrink held' where s: "shrinkReservation held p = (shrink, held')" by force
  note around = slotsOK_around[OF assms(2) s]
  show ?thesis
  proof (cases "prHandled p = None \<and> e = None \<and> (\<exists>ob rs. prOutbound p = Some ob \<and> svUpstream sv ob = Some rs)")
    case True
    then obtain ob rs where o: "prHandled p = None" "e = None" "prOutbound p = Some ob" "svUpstream sv ob = Some rs" by blast
    obtain outcome slots where sr: "serveResponse x en cx render cl sv r ob (prCandidates p) rs = (outcome, slots)" by force
    have "pairSlots limit slots"
      using serveResponse_slots[OF assms(1) prepared_candidates[OF Returned[unfolded pe] o(3)], of en cx render cl sv r ob rs] sr by simp
    then show ?thesis using around[of slots] o sr by (simp add: serveAdmitted_def Returned pe s Let_def)
  next
    case False
    then show ?thesis using around[of "[]"]
      by (auto simp: serveAdmitted_def Returned pe s Let_def split: option.splits)
  qed
qed

lemma ServeHTTP_slots:
  assumes "\<And>cfg. svConfig sv = Some cfg \<Longrightarrow> compiledLimits limit cfg"
  shows "slotsOK limit 0 (exSlots (ServeHTTP x en cx render cl sv r))"
proof (cases "svConfig sv")
  case (Some cfg)
  note l = assms[OF Some]
  have "\<forall>(m, rule)\<in>set (matchingScriptRules x cfg ''request'' (moduleRequestProbe r (canonicalHost (rqHost r)))). ruleMaxBodyBytes rule \<le> limit"
    using matchingScriptRules_limits[OF l] by fast
  note res = reservation_range(1)[OF _ this, of r]
  show ?thesis using Some l res serveAdmitted_slots[OF l]
    by (simp add: ServeHTTP_def Let_def compiledLimits_def)
qed (simp add: ServeHTTP_def)

section \<open>Limits of accepted documents\<close>

lemma compileRules_limit:
  "compileRules x ps m settings rs = Inr cs \<Longrightarrow> cr \<in> set cs \<Longrightarrow> \<exists>r\<in>set rs. ruleMaxBodyBytes (crRule cr) = ruleMaxBodyBytes r"
  by (induction rs arbitrary: cs) (fastforce simp: compileRule_def bindJ_def split: if_splits option.splits sum.splits)+

lemma compileOrder_limit:
  "compileOrder x ps hosts byID ids = Inr cms \<Longrightarrow> cm \<in> set cms \<Longrightarrow> cr \<in> set (cmRules cm) \<Longrightarrow>
   \<exists>i m r. map_of byID i = Some m \<and> r \<in> set (modScripts m) \<and> ruleMaxBodyBytes (crRule cr) = ruleMaxBodyBytes r"
proof (induction ids arbitrary: cms)
  case (Cons i ids)
  then show ?case
    by (fastforce simp: compileModule_def bindJ_def split: if_splits option.splits sum.splits dest: compileRules_limit)
qed simp

lemma actionOK_limit: "actionOK x m r \<Longrightarrow> ruleMaxBodyBytes r \<le> 67108864"
  by (auto simp: actionOK_def validateAction_def commonActionChecks_def check_def split: option.splits if_splits)

lemma decoded_compiledLimits:
  assumes "decodeConfig x unmarshal body = Inr cfg" "int maxModuleHTTPBody \<le> limit"
  shows "compiledLimits limit cfg"
proof -
  obtain c ps rt where d: "configOK x c" "compileScriptConfigWithPrograms x (withPatterns x c) ps = Inr rt"
      "cfg = (withPatterns x c)\<lparr>cfgRuntime := Some rt\<rparr>"
    using decodeConfig_Inr[OF assms(1)] by metis
  have "ruleMaxBodyBytes (crRule cr) \<le> limit" if cm: "cm \<in> set (rtModules rt)" "cr \<in> set (cmRules cm)" for cm cr
  proof -
    obtain i m r where m: "map_of (modulesByID (cfgModules (withPatterns x c))) i = Some m" "r \<in> set (modScripts m)"
        "ruleMaxBodyBytes (crRule cr) = ruleMaxBodyBytes r"
      using compileOrder_limit[OF compile_fields(4)[OF d(2)] cm] by blast
    then obtain m0 where "m0 \<in> set (cfgModules c)" "m = patternsKept x m0"
      using modulesByID_members[OF m(1)] by auto
    then obtain r0 where "actionOK x m0 r0" "r = keepPatterns x r0"
      using d(1) m(2) by (auto simp: configOK_def moduleOK_def patternsKept_def)
    then show ?thesis using actionOK_limit[of x m0 r0] m(3) assms(2) by (simp add: keepPatterns_def maxModuleHTTPBody_def split: if_splits)
  qed
  then show ?thesis using d(3) assms(2) by (auto simp: compiledLimits_def)
qed

section \<open>The budget under concurrent exchanges\<close>

text \<open>
  The budget and the exchanges under way: what each of them holds and what it will still do. An exchange takes a
  reservation when the loop of \<^verbatim>\<open>acquire\<close> finds room at some wake-up.
\<close>

type_synonym budgetState = "moduleBodyBudget \<times> (int \<times> slot_op list) list"

inductive budgetStep :: "(string \<Rightarrow> config_error + Config) \<Rightarrow> externs \<Rightarrow> budgetState \<Rightarrow> budgetState \<Rightarrow> bool" for decode x where
  arrives: "(\<And>cfg. svConfig sv = Some cfg \<Longrightarrow> fromDocument decode cfg) \<Longrightarrow>
    budgetStep decode x (b, ws) (b, ws @ [(0, exSlots (ServeHTTP x en cx render cl sv r))])"
| takes: "acquireLoop (clampWant b n) [(b, over)] = Some (Some b') \<Longrightarrow>
    budgetStep decode x (b, ws @ (held, Took n # ops) # ws') (b', ws @ (held + n, ops) # ws')"
| gives: "budgetStep decode x (b, ws @ (held, Gave n # ops) # ws') (release n b, ws @ (held - n, ops) # ws')"

definition budgetOK :: "int \<Rightarrow> budgetState \<Rightarrow> bool" where
  "budgetOK limit s \<longleftrightarrow> budLimit (fst s) = limit \<and> budUsed (fst s) = sum_list (map fst (snd s)) \<and> budUsed (fst s) \<le> limit \<and>
     (\<forall>(held, ops)\<in>set (snd s). 0 \<le> held \<and> slotsOK limit held ops)"

lemma held_below: "\<forall>(held, ops)\<in>set ws. 0 \<le> held \<Longrightarrow> 0 \<le> sum_list (map fst (ws :: (int \<times> slot_op list) list))"
  by (induction ws) auto

lemma clamped: "0 \<le> n \<Longrightarrow> n \<le> budLimit b \<Longrightarrow> clampWant b n = n"
  by (simp add: clampWant_def)

lemma budgetStep_OK:
  assumes "budgetStep (decodeConfig x unmarshal) x s s'" "budgetOK limit s" "int maxModuleHTTPBody \<le> limit"
  shows "budgetOK limit s'"
  using assms
proof (cases rule: budgetStep.cases)
  case (arrives sv b ws en cx render cl r)
  have "compiledLimits limit cfg" if "svConfig sv = Some cfg" for cfg
    using arrives(3)[OF that] decoded_compiledLimits[OF _ assms(3)] by (auto simp: fromDocument_def compiledLimits_def)
  then show ?thesis using assms(2) ServeHTTP_slots[of sv limit x en cx render cl r] by (auto simp: arrives budgetOK_def)
next
  case (takes b n over b' ws held ops ws')
  then show ?thesis using assms(2) by (auto simp: budgetOK_def clamped split: if_splits)
next
  case (gives b ws held n ops ws')
  have "0 \<le> sum_list (map fst ws)" "0 \<le> sum_list (map fst ws')"
    using assms(2) by (auto intro!: held_below simp: gives budgetOK_def)
  then show ?thesis using assms(2) by (auto simp: gives budgetOK_def release_def clamped Let_def)
qed

text \<open>C24: However many exchanges are served at once under accepted documents, and however their reservations interleave,
the bytes counted as resident are exactly the sum of what the exchanges hold, never negative and never more than the
budget; when every exchange has finished, on whatever path, nothing stays reserved.\<close>
theorem budget_accounts_exactly:
  assumes "(budgetStep (decodeConfig x unmarshal) x)\<^sup>*\<^sup>* (newModuleBodyBudget maxModuleBodyBudgetBytes, []) (b, ws)"
  shows "budUsed b = sum_list (map fst ws) \<and> 0 \<le> budUsed b \<and> budUsed b \<le> maxModuleBodyBudgetBytes \<and>
    ((\<forall>(held, ops)\<in>set ws. ops = []) \<longrightarrow> budUsed b = 0)"
proof -
  have "budgetOK maxModuleBodyBudgetBytes (b, ws)" using assms
  proof (induction "(b, ws)" arbitrary: b ws rule: rtranclp_induct)
    case base
    then show ?case by (simp add: budgetOK_def newModuleBodyBudget_def maxModuleBodyBudgetBytes_def)
  next
    case (step s)
    then show ?case using budgetStep_OK[of x unmarshal s _ maxModuleBodyBudgetBytes]
      by (cases s) (simp add: maxModuleBodyBudgetBytes_def)
  qed
  moreover from this have "0 \<le> sum_list (map fst ws)" by (auto intro!: held_below simp: budgetOK_def)
  moreover have "sum_list (map fst ws) = 0" if "\<forall>(held, ops)\<in>set ws. slotsOK l held ops \<and> ops = []" for l
    using that by (induction ws) auto
  ultimately show ?thesis by (fastforce simp: budgetOK_def)
qed

section \<open>An exchange over HTTP/3\<close>

definition exUpload :: httpRequest where
  "exUpload = exRequest\<lparr>rqProtoMajor := 3, rqContentLength := - 1, rqBody := Some \<lparr>bodyData = ''hi'', bodyClean = True, bodyCloses = True\<rparr>\<rparr>"
definition exSurroundings :: "Config \<Rightarrow> surroundings" where
  "exSurroundings cfg = \<lparr>svConfig = Some cfg, svUpstream = (\<lambda>_. None), svAdmitRequest = True, svAdmitResponse = True\<rparr>"

lemma docSnapshot:
  obtains cfg where "decodeConfig docExterns docUnmarshal ''doc'' = Inr cfg" "activeInterceptHost cfg ''a.example.com''"
proof -
  obtain cfg where cfg: "decodeConfig docExterns docUnmarshal ''doc'' = Inr cfg"
    using decodeConfig_accepts[of docExterns document "''doc''" "JStr ''doc''" docUnmarshal] document_rawNulls document_unmarshalled document_OK by blast
  moreover obtain ps rt where c: "compileScriptConfigWithPrograms docExterns (withPatterns docExterns document) ps = Inr rt"
     "cfg = (withPatterns docExterns document)\<lparr>cfgRuntime := Some rt\<rparr>"
    using decodeConfig_Inr[OF cfg] document_unmarshalled by (metis option.inject)
  have p: "Match (Some (newCompiledHostMatcher (uniqueSorted [''*.example.com'']))) ''a.example.com''" by code_simp
  have "activeInterceptHost cfg ''a.example.com''"
    using compile_fields(2,3)[OF c(1)] c(2) p
    by (simp add: activeInterceptHost_def document_def docModule_def)
  ultimately show thesis using that by blast
qed

lemma exUpload_slots:
  assumes "activeInterceptHost cfg ''a.example.com''"
  shows "exSlots (ServeHTTP docExterns exRewriting exCodecs exRender exClient (exSurroundings cfg) exUpload) =
    [Took 67108864, Gave 67108862, Gave 2]"
proof -
  have h: "canonicalHost ''a.example.com'' = ''a.example.com''" by code_simp
  have r: "matchingScriptRules docExterns cfg ''request'' msg = []" for msg
    by (simp add: matchingScriptRules_def matchingScriptRulesWithStatus_def docExterns_def)
  have enc: "normalizedContentEncoding [] = Inr []" by code_simp
  have trim: "trim_space [] = []" by code_simp
  have read: "readDecodedModuleRequestBody exCodecs exUpload maxModuleHTTPBody = Inr ''hi''"
    by (simp add: readDecodedModuleRequestBody_def exUpload_def exRequest_def enc bindJ_def maxBytesReader_def maxModuleHTTPBody_def
        readBounded_def decodeContentBody_def trim)
  have limit: "moduleBodyReadLimit [] = maxModuleHTTPBody" by (simp add: moduleBodyReadLimit_def)
  have stream: "\<not> requestCanStreamWithoutModuleBuffer exUpload []" "\<not> requestCanConditionallyStreamWithModuleActions exUpload []"
      "requestNeedsModuleBodyReservation exUpload []" "rqContentLength exUpload = - 1" "rqHost exUpload = ''a.example.com''"
    by (simp_all add: requestCanStreamWithoutModuleBuffer_def requestCanConditionallyStreamWithModuleActions_def
        requestNeedsModuleBodyReservation_def requestHasBodySection_def requestHasPayload_def exUpload_def exRequest_def)
  have prep: "prepareModuleRequestWithRules docExterns exRewriting exCodecs exRender exClient exUpload cfg probe [] =
      Returned (retained True 2, Some URLUnparsable)" for probe
    using stream by (simp add: prepareModuleRequestWithRules_def limit read finishRequest_def sentUpstream_def bufferedModuleRequest_def docExterns_def numeral_2_eq_2)
  have res: "moduleBodyReservation exUpload [] = 67108864"
    by (simp add: moduleBodyReservation_def limit widestLimit_def stream maxModuleHTTPBody_def)
  show ?thesis using assms
    by (simp add: ServeHTTP_def exSurroundings_def stream h r serveAdmitted_def prep res shrinkReservation_def retained_def nothingPrepared_def releaseHeld_def)
qed

theorem budget_accounts_exactly_witness:
  "\<exists>b. (budgetStep (decodeConfig docExterns docUnmarshal) docExterns)\<^sup>*\<^sup>* (newModuleBodyBudget maxModuleBodyBudgetBytes, []) (b, [(67108864, [Gave 67108862, Gave 2])]) \<and>
     budUsed b = 67108864"
proof -
  obtain cfg where cfg: "decodeConfig docExterns docUnmarshal ''doc'' = Inr cfg" "activeInterceptHost cfg ''a.example.com''"
    by (rule docSnapshot)
  let ?step = "budgetStep (decodeConfig docExterns docUnmarshal) docExterns" and ?b = "newModuleBodyBudget maxModuleBodyBudgetBytes"
  have "?step (?b, []) (?b, [] @ [(0, exSlots (ServeHTTP docExterns exRewriting exCodecs exRender exClient (exSurroundings (cfg\<lparr>cfgGeneration := g\<rparr>)) exUpload))])" for g
    by (rule arrives) (use fromDocumentI[of "decodeConfig docExterns docUnmarshal", OF cfg(1)] in \<open>auto simp: exSurroundings_def\<close>)
  moreover have "activeInterceptHost (cfg\<lparr>cfgGeneration := 1\<rparr>) ''a.example.com''" using cfg(2) by (auto simp: activeInterceptHost_def activeHostPatterns_def Let_def split: option.splits if_splits)
  ultimately have "?step (?b, []) (?b, [] @ (0, Took 67108864 # [Gave 67108862, Gave 2]) # [])" by (metis append_Nil exUpload_slots)
  moreover have "?step (?b, [] @ (0, Took 67108864 # [Gave 67108862, Gave 2]) # [])
      (?b\<lparr>budUsed := 67108864\<rparr>, [] @ (0 + 67108864, [Gave 67108862, Gave 2]) # [])"
    by (rule takes[where over = False]) (simp add: clampWant_def newModuleBodyBudget_def maxModuleBodyBudgetBytes_def maxModuleHTTPBody_def)
  ultimately have run: "?step\<^sup>*\<^sup>* (?b, []) (?b\<lparr>budUsed := 67108864\<rparr>, [(67108864, [Gave 67108862, Gave 2])])" by simp
  show ?thesis using run budget_accounts_exactly[OF run] by (intro exI[of _ "?b\<lparr>budUsed := 67108864\<rparr>"]) simp
qed

section \<open>What leaves the process\<close>

lemma serveAdmitted_sent:
  assumes "exSent (serveAdmitted x en cx render cl sv r cfg probe rules held) = Some ob"
  obtains p where "prepareModuleRequestWithRules x en cx render cl r cfg probe rules = Returned (p, None)" "prOutbound p = Some ob"
  using assms
  by (auto simp: serveAdmitted_def Let_def split: handler.splits prod.splits option.splits)

lemma ServeHTTP_sent:
  assumes "exSent (ServeHTTP x en cx render cl sv r) = Some ob"
  obtains cfg p where "svConfig sv = Some cfg" "activeInterceptHost cfg (canonicalHost (rqHost r))"
    "prepareModuleRequest x en cx render cl r cfg (canonicalHost (rqHost r)) = Returned (p, None)" "prOutbound p = Some ob"
    "requestNeedsModuleBodyReservation r (matchingScriptRules x cfg ''request'' (moduleRequestProbe r (canonicalHost (rqHost r)))) \<Longrightarrow> svAdmitRequest sv"
proof -
  obtain cfg where cfg: "svConfig sv = Some cfg" "activeInterceptHost cfg (canonicalHost (rqHost r))"
    using assms by (auto simp: ServeHTTP_def Let_def split: option.splits if_splits)
  let ?probe = "moduleRequestProbe r (canonicalHost (rqHost r))" and ?rules = "matchingScriptRules x cfg ''request'' (moduleRequestProbe r (canonicalHost (rqHost r)))"
  obtain held where "exSent (serveAdmitted x en cx render cl sv r cfg ?probe ?rules held) = Some ob"
     "requestNeedsModuleBodyReservation r ?rules \<Longrightarrow> svAdmitRequest sv"
    using assms cfg by (auto simp: ServeHTTP_def Let_def split: if_splits)
  then show thesis using that cfg serveAdmitted_sent by (metis prepareModuleRequest_def)
qed

text \<open>C25: Nothing leaves the process unless the service has a configuration, the host of the request is one the
configuration intercepts, the reservation its body needs was admitted and every action went through. What leaves goes out
over TLS when the request came in over TLS or HTTP/3, and to the origin the request named unless an extension that applies
to the request holds the network permission.\<close>
theorem sent_requests_authorised:
  assumes "urlSchemes x render" "keepsOrigin x render" "exSent (ServeHTTP x en cx render cl sv r) = Some ob"
  shows "\<exists>cfg. let host = canonicalHost (rqHost r); probe = moduleRequestProbe r host; rules = matchingScriptRules x cfg ''request'' probe
    in svConfig sv = Some cfg \<and> activeInterceptHost cfg host \<and> (requestNeedsModuleBodyReservation r rules \<longrightarrow> svAdmitRequest sv) \<and>
       (rqTLS r \<or> rqProtoMajor r = 3 \<longrightarrow> urlScheme (obURL ob) = ''https'') \<and>
       ((\<exists>url. xURL x url = Some (obURL ob) \<and> originOf x url = originOf x (msgURL probe)) \<or> (\<exists>(m, rule)\<in>set rules. modNetwork m))"
proof -
  obtain cfg p where p: "svConfig sv = Some cfg" "activeInterceptHost cfg (canonicalHost (rqHost r))"
    "prepareModuleRequest x en cx render cl r cfg (canonicalHost (rqHost r)) = Returned (p, None)" "prOutbound p = Some ob"
    "requestNeedsModuleBodyReservation r (matchingScriptRules x cfg ''request'' (moduleRequestProbe r (canonicalHost (rqHost r)))) \<Longrightarrow> svAdmitRequest sv"
    using ServeHTTP_sent[OF assms(3)] by metis
  show ?thesis unfolding Let_def
    using p https_never_downgraded[OF assms(1) _ p(3,4)] detour_needs_grant[OF assms(2) p(3,4)] by (intro exI[of _ cfg]) blast
qed

lemma prepared_not_handled:
  assumes "prepareModuleRequestWithRules x en cx render cl r cfg probe rules = Returned (p, e)" "prOutbound p = Some ob"
  shows "prHandled p = None"
  using assms
proof (cases rule: prepared_cases)
  case (stream c)
  then show ?thesis by (simp add: sentUpstream_def retained_def nothingPrepared_def)
next
  case (actions body keeps n st conditional)
  have "prHandled (fst (finishRequest x cx r cfg rules conditional (requestHasBodySection r) n st)) = None"
    by (auto simp: finishRequest_def sentUpstream_def retained_def nothingPrepared_def Let_def split: option.splits sum.splits)
  then show ?thesis using actions(3) by simp
qed

theorem sent_requests_authorised_witness:
  "\<exists>ob. exSent (ServeHTTP pipeExterns exRewriting exCodecs exRender exClient (exSurroundings exCfg) exRequest) = Some ob \<and>
     urlPath (obURL ob) = ''/new'' \<and> urlScheme (obURL ob) = ''https''"
proof -
  obtain p ob where e: "prepareModuleRequest pipeExterns exRewriting exCodecs exRender exClient exRequest exCfg ''a.example.com'' = Returned (p, None)"
    "prOutbound p = Some ob" "obURL ob = exNewURL" using exPrepared by blast
  note handled = prepared_not_handled[OF e(1)[unfolded prepareModuleRequest_def Let_def] e(2)]
  have h: "canonicalHost (rqHost exRequest) = ''a.example.com''" "activeInterceptHost exCfg ''a.example.com''" by code_simp+
  have sent: "exSent (ServeHTTP pipeExterns exRewriting exCodecs exRender exClient (exSurroundings exCfg) exRequest) = Some ob"
    using e handled by (auto simp: ServeHTTP_def Let_def h exSurroundings_def serveAdmitted_def prepareModuleRequest_def split: prod.splits)
  have "urlScheme (obURL ob) = ''https''" using sent_requests_authorised[OF exSchemes exKeepsOrigin sent]
    by (auto simp: Let_def exRequest_def)
  then show ?thesis using sent e(3) by (auto simp: exNewURL_def)
qed

text \<open>
  The reservation is cut back to the bytes that were read, which a script's replacement body does not change: a request
  whose body was left unread and replaced keeps the replacement resident for the whole round trip with nothing reserved.
\<close>

lemma replaced_body_unaccounted:
  assumes "stBodyChanged st" "stRetained st" "drainModuleRequestBody r" "0 < reserved"
    and "bufferedModuleRequest x (r\<lparr>rqTrailer := rqFinalTrailer r\<rparr>) cfg (stMessage st) had = Some (ob, candidates)"
  shows "prOutbound (fst (finishRequest x cx r cfg rules True had 0 st)) = Some ob \<and>
    shrinkReservation (Some reserved) (fst (finishRequest x cx r cfg rules True had 0 st)) = ([Gave reserved], Some 0)"
  using assms by (simp add: finishRequest_def sentUpstream_def shrinkReservation_def retained_def nothingPrepared_def)

end
