(* ===== verification/Certificates.thy ===== *)
theory Certificates
  imports Projection Net_Addr
begin

text \<open>
  The interception certificate (cert.go): loading the leaf named by the configuration, the checks it has to pass, and the
  cache keyed on paths and modification times.

  The files, their parsing and the clock are arguments of each call. A leaf keeps what the checks read of it; the host
  name check is the one of \<^verbatim>\<open>crypto/x509\<close>.
\<close>

section \<open>Leaf certificates\<close>

record tlsLeaf =
  leafIsCA :: bool
  leafNotBefore :: int
  leafNotAfter :: int
  leafDNSNames :: "string list"
  leafIPs :: "addr list"

record tlsCertificate =
  crtChain :: "string list"
  crtLeaf :: "tlsLeaf option"

definition hostnameChar :: "bool \<Rightarrow> char \<Rightarrow> bool" where
  "hostnameChar first c \<longleftrightarrow> (CHR ''a'' \<le> c \<and> c \<le> CHR ''z'') \<or> (CHR ''0'' \<le> c \<and> c \<le> CHR ''9'') \<or> (CHR ''A'' \<le> c \<and> c \<le> CHR ''Z'') \<or>
     (c = CHR ''-'' \<and> \<not> first) \<or> c = CHR ''_''"

definition hostnamePart :: "string \<Rightarrow> bool" where
  "hostnamePart part \<longleftrightarrow> part \<noteq> [] \<and> hostnameChar True (hd part) \<and> list_all (hostnameChar False) (tl part)"

definition validHostnameInput :: "string \<Rightarrow> bool" where
  "validHostnameInput host = list_all hostnamePart (split_on CHR ''.'' (trim_suffix host ''.''))"

definition validHostnamePattern :: "string \<Rightarrow> bool" where
  "validHostnamePattern pat =
     (case split_on CHR ''.'' pat of
        [] \<Rightarrow> False
      | part # parts \<Rightarrow> (part = ''*'' \<or> hostnamePart part) \<and> list_all hostnamePart parts)"

definition matchHostnames :: "string \<Rightarrow> string \<Rightarrow> bool" where
  "matchHostnames pattern host =
     (let pattern = to_lower pattern; host = to_lower (trim_suffix host ''.'')
      in pattern \<noteq> [] \<and> host \<noteq> [] \<and>
         (case (split_on CHR ''.'' pattern, split_on CHR ''.'' host) of
            (p # ps, h # hs) \<Rightarrow> (p = ''*'' \<or> p = h) \<and> ps = hs
          | _ \<Rightarrow> False))"

definition matchExactly :: "string \<Rightarrow> string \<Rightarrow> bool" where
  "matchExactly a b \<longleftrightarrow> a \<notin> {[], ''.''} \<and> b \<notin> {[], ''.''} \<and> to_lower a = to_lower b"

definition VerifyHostname :: "tlsLeaf \<Rightarrow> string \<Rightarrow> bool" where
  "VerifyHostname leaf h =
     (let candidateIP = (if length h \<ge> 3 \<and> hd h = CHR ''['' \<and> last h = CHR '']'' then butlast (tl h) else h)
      in case ParseIP candidateIP of
           Some ip \<Rightarrow> Unmap ip \<in> Unmap ` set (leafIPs leaf)
         | None \<Rightarrow>
             (let name = to_lower h
              in list_ex (\<lambda>dns. if validHostnameInput name \<and> validHostnamePattern dns then matchHostnames dns name else matchExactly dns name)
                   (leafDNSNames leaf)))"

section \<open>The checks\<close>

datatype cert_error =
  UnrecognizedSNI | CertConfigUnavailable | CertNotStated | KeyNotStated | KeyPairNotLoaded | NoCertificate | LeafNotParsed |
  LeafMissing | LeafIsCA | LeafOutsideValidity | LeafDoesNotCover string

definition validateInterceptLeafValidity :: "tlsLeaf option \<Rightarrow> int \<Rightarrow> cert_error option" where
  "validateInterceptLeafValidity leaf now =
     (case leaf of
        None \<Rightarrow> Some LeafMissing
      | Some l \<Rightarrow> (if now < leafNotBefore l \<or> \<not> now < leafNotAfter l then Some LeafOutsideValidity else None))"

definition hostProbe :: "string \<Rightarrow> string" where
  "hostProbe host = (if has_prefix host ''*.'' then ''probe.'' @ trim_prefix host ''*.'' else host)"

fun coversHosts :: "tlsLeaf \<Rightarrow> string list \<Rightarrow> cert_error option" where
  "coversHosts leaf [] = None"
| "coversHosts leaf (host # hosts) = (if \<not> VerifyHostname leaf (hostProbe host) then Some (LeafDoesNotCover host) else coversHosts leaf hosts)"

definition validateInterceptLeaf :: "tlsLeaf option \<Rightarrow> string list \<Rightarrow> int \<Rightarrow> cert_error option" where
  "validateInterceptLeaf leaf requiredHosts now =
     (case leaf of
        None \<Rightarrow> Some LeafMissing
      | Some l \<Rightarrow>
          (if leafIsCA l then Some LeafIsCA
           else (case validateInterceptLeafValidity leaf now of
                   Some e \<Rightarrow> Some e
                 | None \<Rightarrow> coversHosts l requiredHosts)))"

section \<open>The store\<close>

record certificateStore =
  ctCertPath :: string
  ctKeyPath :: string
  ctCertModTime :: int
  ctKeyModTime :: int
  ctCertificate :: "tlsCertificate option"

record tlsFiles =
  tfStat :: "string \<Rightarrow> int option"
  tfLoad :: "string \<Rightarrow> string \<Rightarrow> string list option"
  tfParse :: "string \<Rightarrow> tlsLeaf option"

definition staleOrError :: "certificateStore \<Rightarrow> cert_error \<Rightarrow> (cert_error + tlsCertificate) \<times> certificateStore" where
  "staleOrError s e = (case ctCertificate s of None \<Rightarrow> (Inl e, s) | Some c \<Rightarrow> (Inr c, s))"

text \<open>Reading the key pair and replacing the cached one.\<close>

definition reloadCertificate :: "Config \<Rightarrow> tlsFiles \<Rightarrow> int \<Rightarrow> int \<Rightarrow> int \<Rightarrow> certificateStore \<Rightarrow> (cert_error + tlsCertificate) \<times> certificateStore" where
  "reloadCertificate cfg fs now certTime keyTime s =
     (case tfLoad fs (cfgTLSCert cfg) (cfgTLSKey cfg) of
        None \<Rightarrow> staleOrError s KeyPairNotLoaded
      | Some [] \<Rightarrow> staleOrError s NoCertificate
      | Some (der # rest) \<Rightarrow>
          (case tfParse fs der of
             None \<Rightarrow> staleOrError s LeafNotParsed
           | Some leaf \<Rightarrow>
               (case validateInterceptLeaf (Some leaf) (certificateHostPatterns cfg) now of
                  Some e \<Rightarrow> staleOrError s e
                | None \<Rightarrow>
                    (let certificate = \<lparr>crtChain = der # rest, crtLeaf = Some leaf\<rparr>
                     in (Inr certificate,
                         \<lparr>ctCertPath = cfgTLSCert cfg, ctKeyPath = cfgTLSKey cfg, ctCertModTime = certTime, ctKeyModTime = keyTime,
                          ctCertificate = Some certificate\<rparr>)))))"

definition currentCertificate :: "Config option \<Rightarrow> tlsFiles \<Rightarrow> int \<Rightarrow> certificateStore \<Rightarrow> (cert_error + tlsCertificate) \<times> certificateStore" where
  "currentCertificate current fs now s =
     (case current of
        None \<Rightarrow> (Inl CertConfigUnavailable, s)
      | Some cfg \<Rightarrow>
          (case tfStat fs (cfgTLSCert cfg) of
             None \<Rightarrow> staleOrError s CertNotStated
           | Some certTime \<Rightarrow>
               (case tfStat fs (cfgTLSKey cfg) of
                  None \<Rightarrow> staleOrError s KeyNotStated
                | Some keyTime \<Rightarrow>
                    (case ctCertificate s of
                       None \<Rightarrow> reloadCertificate cfg fs now certTime keyTime s
                     | Some c \<Rightarrow>
                         (if ctCertPath s = cfgTLSCert cfg \<and> ctKeyPath s = cfgTLSKey cfg \<and> certTime = ctCertModTime s \<and> keyTime = ctKeyModTime s
                          then (if validateInterceptLeafValidity (crtLeaf c) now = None then (Inr c, s)
                                else reloadCertificate cfg fs now certTime keyTime (s\<lparr>ctCertificate := None\<rparr>))
                          else reloadCertificate cfg fs now certTime keyTime s)))))"

definition emptyCertificateStore :: certificateStore where
  "emptyCertificateStore = \<lparr>ctCertPath = [], ctKeyPath = [], ctCertModTime = 0, ctKeyModTime = 0, ctCertificate = None\<rparr>"

definition newCertificateStore :: "Config option \<Rightarrow> tlsFiles \<Rightarrow> int \<Rightarrow> cert_error + certificateStore" where
  "newCertificateStore current fs now =
     (case currentCertificate current fs now emptyCertificateStore of (Inl e, _) \<Rightarrow> Inl e | (Inr _, s) \<Rightarrow> Inr s)"

text \<open>
  The handshake asks the configuration twice, once for the name the client sent and once for the files; the two answers
  may differ.
\<close>

definition GetCertificate :: "string option \<Rightarrow> Config option \<Rightarrow> Config option \<Rightarrow> tlsFiles \<Rightarrow> int \<Rightarrow> certificateStore \<Rightarrow>
    (cert_error + tlsCertificate) \<times> certificateStore" where
  "GetCertificate hello asked current fs now s =
     (case (hello, asked) of
        (Some serverName, Some cfg) \<Rightarrow>
          (if activeInterceptHost cfg serverName then currentCertificate current fs now s else (Inl UnrecognizedSNI, s))
      | _ \<Rightarrow> (Inl UnrecognizedSNI, s))"

end
