(* ===== verification/Certificates_Properties.thy ===== *)
theory Certificates_Properties
  imports Certificates Config_Example
begin

text \<open>
  What the client is shown: every presented leaf passed the checks at some handshake, and is valid now unless there is
  no certificate on disk that passes them.
\<close>

section \<open>Handshakes\<close>

record certCall =
  ccHello :: "string option"
  ccAsked :: "Config option"
  ccConfig :: "Config option"
  ccFiles :: tlsFiles
  ccNow :: int

fun certRun :: "certificateStore \<Rightarrow> certCall list \<Rightarrow> (cert_error + tlsCertificate) list" where
  "certRun s [] = []"
| "certRun s (c # cs) = (let (r, s') = GetCertificate (ccHello c) (ccAsked c) (ccConfig c) (ccFiles c) (ccNow c) s in r # certRun s' cs)"

text \<open>The files hold a certificate that passes every check of this call.\<close>

definition onDisk :: "certCall \<Rightarrow> tlsCertificate \<Rightarrow> bool" where
  "onDisk c crt \<longleftrightarrow>
     (\<exists>cfg leaf. ccConfig c = Some cfg \<and> tfStat (ccFiles c) (cfgTLSCert cfg) \<noteq> None \<and> tfStat (ccFiles c) (cfgTLSKey cfg) \<noteq> None \<and>
        tfLoad (ccFiles c) (cfgTLSCert cfg) (cfgTLSKey cfg) = Some (crtChain crt) \<and> crtChain crt \<noteq> [] \<and>
        tfParse (ccFiles c) (hd (crtChain crt)) = Some leaf \<and> crtLeaf crt = Some leaf \<and>
        \<not> leafIsCA leaf \<and> leafNotBefore leaf \<le> ccNow c \<and> ccNow c < leafNotAfter leaf \<and>
        (\<forall>host\<in>set (certificateHostPatterns cfg). VerifyHostname leaf (hostProbe host)))"

lemma coversHosts_None: "coversHosts leaf hosts = None \<longleftrightarrow> (\<forall>h\<in>set hosts. VerifyHostname leaf (hostProbe h))"
  by (induction hosts) auto

lemma validateInterceptLeaf_None:
  "validateInterceptLeaf (Some leaf) hosts now = None \<longleftrightarrow>
     \<not> leafIsCA leaf \<and> leafNotBefore leaf \<le> now \<and> now < leafNotAfter leaf \<and> (\<forall>h\<in>set hosts. VerifyHostname leaf (hostProbe h))"
  by (auto simp: validateInterceptLeaf_def validateInterceptLeafValidity_def coversHosts_None)

definition validNow :: "int \<Rightarrow> tlsCertificate \<Rightarrow> bool" where
  "validNow now crt \<longleftrightarrow> (\<exists>leaf. crtLeaf crt = Some leaf \<and> leafNotBefore leaf \<le> now \<and> now < leafNotAfter leaf)"

lemma validity_None: "validateInterceptLeafValidity (crtLeaf crt) now = None \<longleftrightarrow> validNow now crt"
  by (auto simp: validateInterceptLeafValidity_def validNow_def split: option.splits)

lemma staleOrError_cases: "staleOrError s e = (r, s') \<Longrightarrow> s' = s \<and> (case r of Inl e' \<Rightarrow> e' = e \<and> ctCertificate s = None | Inr crt \<Rightarrow> ctCertificate s = Some crt)"
  by (auto simp: staleOrError_def split: option.splits)

lemma reload_cases:
  assumes "reloadCertificate cfg (ccFiles c) (ccNow c) certTime keyTime s = (r, s')" "ccConfig c = Some cfg"
    and "tfStat (ccFiles c) (cfgTLSCert cfg) \<noteq> None" "tfStat (ccFiles c) (cfgTLSKey cfg) \<noteq> None"
  obtains (fresh) crt where "r = Inr crt" "onDisk c crt" "ctCertificate s' = Some crt"
  | (kept) "s' = s" "\<And>crt. \<not> onDisk c crt" "case r of Inl _ \<Rightarrow> ctCertificate s = None | Inr crt \<Rightarrow> ctCertificate s = Some crt"
proof (cases "\<exists>der rest leaf. tfLoad (ccFiles c) (cfgTLSCert cfg) (cfgTLSKey cfg) = Some (der # rest) \<and> tfParse (ccFiles c) der = Some leaf \<and>
    validateInterceptLeaf (Some leaf) (certificateHostPatterns cfg) (ccNow c) = None")
  case True
  then obtain der rest leaf where d: "tfLoad (ccFiles c) (cfgTLSCert cfg) (cfgTLSKey cfg) = Some (der # rest)" "tfParse (ccFiles c) der = Some leaf"
    "validateInterceptLeaf (Some leaf) (certificateHostPatterns cfg) (ccNow c) = None" by blast
  have "onDisk c \<lparr>crtChain = der # rest, crtLeaf = Some leaf\<rparr>"
    using d assms(2-4) by (simp add: onDisk_def validateInterceptLeaf_None)
  then show thesis using assms(1) d by (intro fresh) (auto simp: reloadCertificate_def Let_def)
next
  case False
  obtain e where stale: "reloadCertificate cfg (ccFiles c) (ccNow c) certTime keyTime s = staleOrError s e"
    using False by (fastforce simp: reloadCertificate_def split: option.splits list.splits)
  have "\<not> onDisk c crt" for crt
    using False assms(2) by (auto simp: onDisk_def validateInterceptLeaf_None neq_Nil_conv)
  then show thesis using staleOrError_cases[of s e r s'] assms(1) stale by (intro kept) (auto split: sum.splits)
qed

text \<open>A call answers with what is on disk now, or with the cached certificate.\<close>

lemma currentCertificate_cases:
  assumes "currentCertificate (ccConfig c) (ccFiles c) (ccNow c) s = (r, s')"
  obtains (fresh) crt where "r = Inr crt" "onDisk c crt" "ctCertificate s' = Some crt"
  | (cached) crt where "r = Inr crt" "ctCertificate s = Some crt" "s' = s" "validNow (ccNow c) crt \<or> (\<forall>crt'. \<not> onDisk c crt')"
  | (failed) e where "r = Inl e" "ctCertificate s' = ctCertificate s \<or> ctCertificate s' = None"
proof (cases "\<exists>cfg ct kt. ccConfig c = Some cfg \<and> tfStat (ccFiles c) (cfgTLSCert cfg) = Some ct \<and> tfStat (ccFiles c) (cfgTLSKey cfg) = Some kt")
  case True
  then obtain cfg ct kt where k: "ccConfig c = Some cfg" "tfStat (ccFiles c) (cfgTLSCert cfg) = Some ct" "tfStat (ccFiles c) (cfgTLSKey cfg) = Some kt" by blast
  show thesis
  proof (cases "\<exists>crt. r = Inr crt \<and> ctCertificate s = Some crt \<and> s' = s \<and> validNow (ccNow c) crt")
    case True
    then show thesis using cached by blast
  next
    case False
    obtain s1 where s1: "reloadCertificate cfg (ccFiles c) (ccNow c) ct kt s1 = (r, s')" "s1 = s \<or> ctCertificate s1 = None"
      using assms k False by (auto simp: currentCertificate_def validity_None split: option.splits if_splits)
    have stated: "tfStat (ccFiles c) (cfgTLSCert cfg) \<noteq> None" "tfStat (ccFiles c) (cfgTLSKey cfg) \<noteq> None" using k by simp_all
    show thesis using s1(1) k(1) stated
    proof (cases rule: reload_cases)
      case (fresh crt)
      then show ?thesis using that(1) by blast
    next
      case kept
      then show ?thesis using s1(2) cached failed by (cases r) auto
    qed
  qed
next
  case False
  show thesis
  proof (cases "ccConfig c")
    case None
    then show thesis using assms by (intro failed) (auto simp: currentCertificate_def)
  next
    case (Some cfg)
    then obtain e where "staleOrError s e = (r, s')" using assms False by (auto simp: currentCertificate_def split: option.splits)
    moreover have "\<not> onDisk c crt" for crt using False Some by (auto simp: onDisk_def)
    ultimately show thesis using staleOrError_cases[of s e r s'] cached failed by (cases r) auto
  qed
qed

definition seen :: "certCall list \<Rightarrow> certificateStore \<Rightarrow> bool" where
  "seen calls s \<longleftrightarrow> (\<forall>crt. ctCertificate s = Some crt \<longrightarrow> (\<exists>c\<in>set calls. onDisk c crt))"

definition presentedOK :: "certCall list \<Rightarrow> certCall \<Rightarrow> tlsCertificate \<Rightarrow> bool" where
  "presentedOK earlier c crt \<longleftrightarrow>
     (\<exists>host cfg. ccHello c = Some host \<and> ccAsked c = Some cfg \<and> activeInterceptHost cfg host) \<and>
     (\<exists>c'\<in>set earlier \<union> {c}. onDisk c' crt) \<and> (validNow (ccNow c) crt \<or> (\<forall>crt'. \<not> onDisk c crt'))"

lemma onDisk_valid: "onDisk c crt \<Longrightarrow> validNow (ccNow c) crt"
  by (auto simp: onDisk_def validNow_def)

lemma GetCertificate_step:
  assumes "GetCertificate (ccHello c) (ccAsked c) (ccConfig c) (ccFiles c) (ccNow c) s = (r, s')" "seen earlier s"
  shows "seen (c # earlier) s' \<and> (case r of Inl _ \<Rightarrow> True | Inr crt \<Rightarrow> presentedOK earlier c crt)"
proof (cases "\<exists>host cfg. ccHello c = Some host \<and> ccAsked c = Some cfg \<and> activeInterceptHost cfg host")
  case True
  then have cur: "currentCertificate (ccConfig c) (ccFiles c) (ccNow c) s = (r, s')" using assms(1) by (auto simp: GetCertificate_def)
  show ?thesis using cur
  proof (cases rule: currentCertificate_cases)
    case (fresh crt)
    then show ?thesis using True onDisk_valid by (auto simp: presentedOK_def seen_def)
  next
    case (cached crt)
    then show ?thesis using True assms(2) by (fastforce simp: presentedOK_def seen_def)
  next
    case (failed e)
    then show ?thesis using assms(2) by (auto simp: seen_def)
  qed
next
  case False
  then show ?thesis using assms by (auto simp: GetCertificate_def seen_def split: option.splits if_splits)
qed

lemma certRun_presented:
  "seen earlier s \<Longrightarrow> i < length calls \<Longrightarrow> certRun s calls ! i = Inr crt \<Longrightarrow> presentedOK (earlier @ take i calls) (calls ! i) crt"
proof (induction calls arbitrary: earlier s i)
  case (Cons c calls)
  obtain r s' where g: "GetCertificate (ccHello c) (ccAsked c) (ccConfig c) (ccFiles c) (ccNow c) s = (r, s')" by force
  note step = GetCertificate_step[OF g Cons.prems(1)]
  show ?case
  proof (cases i)
    case 0
    then show ?thesis using Cons.prems(3) g step by simp
  next
    case (Suc j)
    have "seen (earlier @ [c]) s'" using step by (auto simp: seen_def)
    then show ?thesis using Cons.IH[of "earlier @ [c]" s' j] Cons.prems(2,3) g Suc by simp
  qed
qed simp

text \<open>C26: Every certificate the client is shown, in any sequence of handshakes, configuration changes and changes of the
files, is for a name the configuration intercepts; it is a leaf that at this handshake or an earlier one lay in the
configured files and passed every check (no CA, within its validity, covering a probe of every capture pattern); and it is
within its validity now unless the files hold no certificate that passes the checks.\<close>
theorem presented_leaf_checked:
  assumes "newCertificateStore (ccConfig c0) (ccFiles c0) (ccNow c0) = Inr s0" "i < length calls" "certRun s0 calls ! i = Inr crt"
  shows "(\<exists>host cfg. ccHello (calls ! i) = Some host \<and> ccAsked (calls ! i) = Some cfg \<and> activeInterceptHost cfg host) \<and>
    (\<exists>c\<in>set (c0 # take (Suc i) calls). onDisk c crt) \<and>
    (validNow (ccNow (calls ! i)) crt \<or> (\<forall>crt'. \<not> onDisk (calls ! i) crt'))"
proof -
  obtain crt0 where "currentCertificate (ccConfig c0) (ccFiles c0) (ccNow c0) emptyCertificateStore = (Inr crt0, s0)"
    using assms(1) by (auto simp: newCertificateStore_def split: prod.splits sum.splits)
  then have "seen [c0] s0" by (cases rule: currentCertificate_cases) (auto simp: seen_def emptyCertificateStore_def)
  from certRun_presented[OF this assms(2,3)] show ?thesis
    using take_Suc_conv_app_nth[OF assms(2)] by (auto simp: presentedOK_def)
qed

section \<open>An example\<close>

definition exLeaf :: tlsLeaf where
  "exLeaf = \<lparr>leafIsCA = False, leafNotBefore = 0, leafNotAfter = 100, leafDNSNames = [''*.example.com''], leafIPs = []\<rparr>"

definition exDisk :: tlsFiles where
  "exDisk = \<lparr>tfStat = (\<lambda>p. Some 1), tfLoad = (\<lambda>c k. Some [''der'']), tfParse = (\<lambda>der. Some exLeaf)\<rparr>"

definition exGone :: tlsFiles where
  "exGone = exDisk\<lparr>tfStat := (\<lambda>p. None)\<rparr>"

definition exCertificate :: tlsCertificate where
  "exCertificate = \<lparr>crtChain = [''der''], crtLeaf = Some exLeaf\<rparr>"

definition exHandshake :: "tlsFiles \<Rightarrow> int \<Rightarrow> certCall" where
  "exHandshake fs now = \<lparr>ccHello = Some ''a.example.com'', ccAsked = Some document, ccConfig = Some document, ccFiles = fs, ccNow = now\<rparr>"

definition exCertStore :: certificateStore where
  "exCertStore = \<lparr>ctCertPath = ''c'', ctKeyPath = ''k'', ctCertModTime = 1, ctKeyModTime = 1, ctCertificate = Some exCertificate\<rparr>"

lemma exCertStore_new: "newCertificateStore (Some document) exDisk 50 = Inr exCertStore"
  by code_simp

theorem presented_leaf_checked_witness:
  "\<exists>crt. certRun exCertStore [exHandshake exDisk 60] = [Inr crt] \<and> validNow 60 crt"
proof -
  have run: "certRun exCertStore [exHandshake exDisk 60] = [Inr exCertificate]" by code_simp
  have leaf: "\<not> (\<forall>crt'. \<not> onDisk (exHandshake exDisk 60) crt')"
  proof -
    have v: "validateInterceptLeaf (Some exLeaf) (certificateHostPatterns document) 60 = None" by code_simp
    then have "onDisk (exHandshake exDisk 60) exCertificate"
      unfolding validateInterceptLeaf_None by (simp add: onDisk_def exHandshake_def exDisk_def exCertificate_def)
    then show ?thesis by blast
  qed
  have new: "newCertificateStore (ccConfig (exHandshake exDisk 50)) (ccFiles (exHandshake exDisk 50)) (ccNow (exHandshake exDisk 50)) = Inr exCertStore"
    using exCertStore_new by (simp add: exHandshake_def)
  have "ccNow (exHandshake exDisk 60) = 60" by (simp add: exHandshake_def)
  then show ?thesis using presented_leaf_checked[OF new, of 0 "[exHandshake exDisk 60]" exCertificate] run leaf by simp
qed

text \<open>The cached leaf survives its validity when the files cannot be stated.\<close>

lemma expired_leaf_presented:
  "certRun exCertStore [exHandshake exDisk 60, exHandshake exGone 1000] = [Inr exCertificate, Inr exCertificate] \<and> \<not> validNow 1000 exCertificate"
proof
  show "certRun exCertStore [exHandshake exDisk 60, exHandshake exGone 1000] = [Inr exCertificate, Inr exCertificate]" by code_simp
  show "\<not> validNow 1000 exCertificate" by (simp add: validNow_def exCertificate_def exLeaf_def)
qed

text \<open>A cached leaf is not compared with the patterns of a later configuration.\<close>

lemma changed_patterns_not_rechecked:
  "certRun exCertStore [(exHandshake exDisk 60)\<lparr>ccHello := Some ''www.example.org'', ccAsked := Some wider, ccConfig := Some wider\<rparr>] = [Inr exCertificate]
   \<and> \<not> VerifyHostname exLeaf ''www.example.org''"
  if "wider = document\<lparr>cfgModules := [docModule\<lparr>modCaptureHosts := [''www.example.org'']\<rparr>]\<rparr>"
  unfolding that by code_simp

text \<open>A wildcard pattern intercepts names at any depth, a wildcard certificate covers one label, and the probe asks for one.\<close>

lemma deep_names_not_covered:
  "validateInterceptLeaf (Some exLeaf) [''*.example.com''] 60 = None \<and> matchHostPattern ''*.example.com'' ''a.b.example.com'' \<and>
   \<not> VerifyHostname exLeaf ''a.b.example.com''"
  by code_simp

end
