(* ===== verification/Transport_Pool.thy ===== *)
theory Transport_Pool
  imports Projection Request_Pipeline
begin

text \<open>
  The pool of upstream transports (proxy.go \<^verbatim>\<open>upstreamTransportGeneration\<close>, \<^verbatim>\<open>roundTrip\<close> and \<^verbatim>\<open>roundTripHTTP3\<close>): reference
  counting of generations, their retirement when the configuration moves on, and the QUIC version fallback.

  Generations are cells of a heap, a pointer is an index into it. What a method closes after it has dropped the lock is
  part of its result, so that a step relation can run it at any later moment. The transports of \<^verbatim>\<open>net/http\<close> and
  quic-go are kept as the fact that they were made; their round trips are arguments.
\<close>

section \<open>Generations\<close>

datatype quicVersion = Version1 | Version2 | OtherVersion nat

record upstreamTransportGeneration =
  genGeneration :: "64 word"
  genProjection :: upstreamTransportProjection
  genHTTP :: bool
  genHTTP3 :: "quicVersion list"
  genVersions :: "(string \<times> quicVersion) list"
  genClosed :: bool
  genRefs :: nat
  genRetired :: bool

record transportPool =
  plHeap :: "upstreamTransportGeneration list"
  plUpstream :: "nat option"

datatype close_op = CloseIdle nat | CloseNow nat

definition newUpstreamTransportGeneration :: "(string \<Rightarrow> string) \<Rightarrow> Config \<Rightarrow> upstreamTransportGeneration" where
  "newUpstreamTransportGeneration sha cfg =
     (let projection = newUpstreamTransportProjection sha cfg
      in \<lparr>genGeneration = upGeneration projection, genProjection = projection, genHTTP = False, genHTTP3 = [], genVersions = [],
          genClosed = False, genRefs = 0, genRetired = False\<rparr>)"

definition emptyPool :: transportPool where
  "emptyPool = \<lparr>plHeap = [], plUpstream = None\<rparr>"

definition atGen :: "nat \<Rightarrow> (upstreamTransportGeneration \<Rightarrow> upstreamTransportGeneration) \<Rightarrow> transportPool \<Rightarrow> transportPool" where
  "atGen i f p = p\<lparr>plHeap := (plHeap p)[i := f (plHeap p ! i)]\<rparr>"

definition allocGen :: "upstreamTransportGeneration \<Rightarrow> transportPool \<Rightarrow> nat \<times> transportPool" where
  "allocGen g p = (length (plHeap p), p\<lparr>plHeap := plHeap p @ [g]\<rparr>)"

text \<open>Retiring the generation in use: the operation that closes it depends on whether it is referenced.\<close>

definition retireGen :: "nat \<Rightarrow> transportPool \<Rightarrow> close_op \<times> transportPool" where
  "retireGen i p =
     (let p = atGen i (\<lambda>g. g\<lparr>genRetired := True\<rparr>) p
      in (if genRefs (plHeap p ! i) = 0 then CloseNow i else CloseIdle i, p))"

text \<open>The generation to use, before it is referenced.\<close>

definition chooseGeneration :: "(string \<Rightarrow> string) \<Rightarrow> Config \<Rightarrow> transportPool \<Rightarrow> nat \<times> close_op list \<times> transportPool" where
  "chooseGeneration sha cfg p =
     (let ownGeneration = (\<lambda>p. let (i, p) = allocGen ((newUpstreamTransportGeneration sha cfg)\<lparr>genRetired := True\<rparr>) p in (i, [], p))
      in if cfgGeneration cfg = 0 then ownGeneration p
         else (case plUpstream p of
                 None \<Rightarrow> (let (i, p) = allocGen (newUpstreamTransportGeneration sha cfg) p in (i, [], p\<lparr>plUpstream := Some i\<rparr>))
               | Some j \<Rightarrow>
                   (if cfgGeneration cfg > genGeneration (plHeap p ! j) then
                      (if upFingerprint (newUpstreamTransportProjection sha cfg) = upFingerprint (genProjection (plHeap p ! j))
                       then (j, [], atGen j (\<lambda>g. g\<lparr>genGeneration := cfgGeneration cfg\<rparr>) p)
                       else (let (i, p) = allocGen (newUpstreamTransportGeneration sha cfg) p;
                                 (op, p) = retireGen j (p\<lparr>plUpstream := Some i\<rparr>)
                             in (i, [op], p)))
                    else if cfgGeneration cfg < genGeneration (plHeap p ! j) then ownGeneration p
                    else (j, [], p))))"

definition acquireUpstreamTransportGeneration :: "(string \<Rightarrow> string) \<Rightarrow> Config \<Rightarrow> transportPool \<Rightarrow> nat \<times> close_op list \<times> transportPool" where
  "acquireUpstreamTransportGeneration sha cfg p =
     (let (i, ops, p) = chooseGeneration sha cfg p in (i, ops, atGen i (\<lambda>g. g\<lparr>genRefs := genRefs g + 1\<rparr>) p))"

definition releaseUpstreamTransportGeneration :: "nat \<Rightarrow> transportPool \<Rightarrow> close_op list \<times> transportPool" where
  "releaseUpstreamTransportGeneration i p =
     (let p = atGen i (\<lambda>g. if genRefs g > 0 then g\<lparr>genRefs := genRefs g - 1\<rparr> else g) p
      in (if genRetired (plHeap p ! i) \<and> genRefs (plHeap p ! i) = 0 then [CloseNow i] else [], p))"

definition closeUpstreamTransports :: "transportPool \<Rightarrow> close_op list \<times> transportPool" where
  "closeUpstreamTransports p =
     (case plUpstream p of
        None \<Rightarrow> ([], p)
      | Some i \<Rightarrow> (let (op, p) = retireGen i p in ([op], p\<lparr>plUpstream := None\<rparr>)))"

text \<open>Closing idle connections leaves the generation as it is; closing drops its transports.\<close>

definition closeGeneration :: "upstreamTransportGeneration \<Rightarrow> upstreamTransportGeneration" where
  "closeGeneration g = (if genClosed g then g else g\<lparr>genClosed := True, genHTTP := False, genHTTP3 := []\<rparr>)"

fun performClose :: "close_op \<Rightarrow> transportPool \<Rightarrow> transportPool" where
  "performClose (CloseIdle i) p = p"
| "performClose (CloseNow i) p = atGen i closeGeneration p"

datatype transport_error = GenerationClosed | AuthorityMissing | BodyNotReplayable | RoundTripFailed | VersionRefused "quicVersion list"

definition getHTTPTransport :: "nat \<Rightarrow> transportPool \<Rightarrow> transport_error + transportPool" where
  "getHTTPTransport i p =
     (if genClosed (plHeap p ! i) then Inl GenerationClosed else Inr (atGen i (\<lambda>g. g\<lparr>genHTTP := True\<rparr>) p))"

definition getHTTP3Transport :: "nat \<Rightarrow> quicVersion \<Rightarrow> transportPool \<Rightarrow> transport_error + transportPool" where
  "getHTTP3Transport i version p =
     (if genClosed (plHeap p ! i) then Inl GenerationClosed
      else Inr (atGen i (\<lambda>g. if version \<in> set (genHTTP3 g) then g else g\<lparr>genHTTP3 := version # genHTTP3 g\<rparr>) p))"

definition preferredHTTP3Version :: "nat \<Rightarrow> string \<Rightarrow> transportPool \<Rightarrow> quicVersion" where
  "preferredHTTP3Version i authority p =
     (case map_of (genVersions (plHeap p ! i)) authority of Some version \<Rightarrow> version | None \<Rightarrow> Version1)"

definition preferHTTP3Version2 :: "nat \<Rightarrow> string \<Rightarrow> transportPool \<Rightarrow> transportPool" where
  "preferHTTP3Version2 i authority p = atGen i (\<lambda>g. g\<lparr>genVersions := AList.update authority Version2 (genVersions g)\<rparr>) p"

section \<open>Round trips\<close>

text \<open>An HTTP/3 request has no transfer encoding, so its payload is announced by its length.\<close>

definition outboundHasBodySection :: "outboundRequest \<Rightarrow> bool" where
  "outboundHasBodySection ob \<longleftrightarrow> (obBody ob \<noteq> NoBody \<and> obContentLength ob \<noteq> 0) \<or> obTrailer ob \<noteq> []"

definition resetHTTP3RequestBodyForReplay :: "outboundRequest \<Rightarrow> transport_error + outboundRequest" where
  "resetHTTP3RequestBodyForReplay ob =
     (if \<not> outboundHasBodySection ob then Inr (ob\<lparr>obBody := NoBody\<rparr>)
      else if \<not> obReplayable ob then Inl BodyNotReplayable
      else Inr ob)"

definition canonicalHTTP3Authority :: "outboundRequest \<Rightarrow> transport_error + string" where
  "canonicalHTTP3Authority ob =
     (let host = canonicalHost (urlHostname (obURL ob)); portText = (if urlPort (obURL ob) = [] then ''443'' else urlPort (obURL ob))
      in if host = [] then Inl AuthorityMissing else Inr (joinHostPort host portText))"

fun containsQUICVersion :: "quicVersion list \<Rightarrow> quicVersion \<Rightarrow> bool" where
  "containsQUICVersion [] want = False"
| "containsQUICVersion (version # versions) want = (version = want \<or> containsQUICVersion versions want)"

type_synonym 'r upstream3 = "quicVersion \<Rightarrow> outboundRequest \<Rightarrow> transport_error + 'r"

definition roundTripHTTP3 :: "'r upstream3 \<Rightarrow> outboundRequest \<Rightarrow> nat \<Rightarrow> transportPool \<Rightarrow> (transport_error + 'r) \<times> transportPool" where
  "roundTripHTTP3 send ob i p =
     (case canonicalHTTP3Authority ob of
        Inl e \<Rightarrow> (Inl e, p)
      | Inr authority \<Rightarrow>
          (let version = preferredHTTP3Version i authority p
           in case getHTTP3Transport i version p of
                Inl e \<Rightarrow> (Inl e, p)
              | Inr p \<Rightarrow>
                  (case send version ob of
                     Inr response \<Rightarrow> (Inr response, p)
                   | Inl e \<Rightarrow>
                       (if version = Version2 then (Inl e, p)
                        else (case e of
                                VersionRefused theirs \<Rightarrow>
                                  (if \<not> containsQUICVersion theirs Version2 then (Inl e, p)
                                   else (case resetHTTP3RequestBodyForReplay ob of
                                           Inl e' \<Rightarrow> (Inl e', p)
                                         | Inr ob \<Rightarrow>
                                             (case getHTTP3Transport i Version2 p of
                                                Inl e' \<Rightarrow> (Inl e', p)
                                              | Inr p \<Rightarrow>
                                                  (case send Version2 ob of
                                                     Inl e' \<Rightarrow> (Inl e', p)
                                                   | Inr response \<Rightarrow> (Inr response, preferHTTP3Version2 i authority p)))))
                              | _ \<Rightarrow> (Inl e, p))))))"

definition roundTripOn :: "(outboundRequest \<Rightarrow> transport_error + 'r) \<Rightarrow> 'r upstream3 \<Rightarrow> outboundRequest \<Rightarrow> nat \<Rightarrow> transportPool \<Rightarrow>
    (transport_error + 'r) \<times> transportPool" where
  "roundTripOn send send3 ob i p =
     (if obProtoMajor ob = 3 then roundTripHTTP3 send3 ob i p
      else (case getHTTPTransport i p of Inl e \<Rightarrow> (Inl e, p) | Inr p \<Rightarrow> (send ob, p)))"

end
