(* ===== verification/Transport_Pool_Properties.thy ===== *)
theory Transport_Pool_Properties
  imports Transport_Pool Request_Pipeline_Properties
begin

text \<open>
  The pool never closes a generation a request holds and leaves none open that nobody needs; requests prepared for HTTP/3
  survive the fallback to the second QUIC version.
\<close>

section \<open>The pool under concurrent requests\<close>

text \<open>
  A request holds a lease on a generation from \<^verbatim>\<open>acquire\<close> to its cleanup, which runs once. What a method closes after
  dropping the lock stays pending until it happens. Configurations with a generation come from the store, where the number
  names the snapshot.
\<close>

type_synonym poolState = "transportPool \<times> (nat \<times> Config) list \<times> close_op list"

inductive poolStep :: "(string \<Rightarrow> string) \<Rightarrow> (64 word \<Rightarrow> Config) \<Rightarrow> poolState \<Rightarrow> poolState \<Rightarrow> bool" for sha docs where
  acquires: "cfgGeneration cfg = 0 \<or> cfg = docs (cfgGeneration cfg) \<Longrightarrow> acquireUpstreamTransportGeneration sha cfg p = (i, ops, p') \<Longrightarrow>
    poolStep sha docs (p, ls, pend) (p', (i, cfg) # ls, pend @ ops)"
| releases: "releaseUpstreamTransportGeneration i p = (ops, p') \<Longrightarrow>
    poolStep sha docs (p, ls @ (i, cfg) # ls', pend) (p', ls @ ls', pend @ ops)"
| stops: "closeUpstreamTransports p = (ops, p') \<Longrightarrow> poolStep sha docs (p, ls, pend) (p', ls, pend @ ops)"
| closes: "poolStep sha docs (p, ls, pend @ op # pend') (performClose op p, ls, pend @ pend')"
| uses: "(i, cfg) \<in> set ls \<Longrightarrow> getHTTPTransport i p = Inr p' \<Longrightarrow> poolStep sha docs (p, ls, pend) (p', ls, pend)"
| uses3: "(i, cfg) \<in> set ls \<Longrightarrow> getHTTP3Transport i version p = Inr p' \<Longrightarrow> poolStep sha docs (p, ls, pend) (p', ls, pend)"
| prefers: "(i, cfg) \<in> set ls \<Longrightarrow> poolStep sha docs (p, ls, pend) (preferHTTP3Version2 i authority p, ls, pend)"

definition leaseCount :: "nat \<Rightarrow> (nat \<times> Config) list \<Rightarrow> nat" where
  "leaseCount i ls = length (filter (\<lambda>l. fst l = i) ls)"

lemma leaseCount_simps [simp]:
  "leaseCount i [] = 0" "leaseCount i (l # ls) = (if fst l = i then 1 else 0) + leaseCount i ls"
  "leaseCount i (ls @ ls') = leaseCount i ls + leaseCount i ls'"
  by (simp_all add: leaseCount_def)

definition genOK :: "nat option \<Rightarrow> (nat \<times> Config) list \<Rightarrow> close_op list \<Rightarrow> nat \<Rightarrow> upstreamTransportGeneration \<Rightarrow> bool" where
  "genOK up ls pend i g \<longleftrightarrow> genRefs g = leaseCount i ls \<and> (genRetired g \<longleftrightarrow> up \<noteq> Some i) \<and>
     ((genClosed g \<or> CloseNow i \<in> set pend) \<longleftrightarrow> genRetired g \<and> genRefs g = 0)"

definition poolOK :: "(string \<Rightarrow> string) \<Rightarrow> (64 word \<Rightarrow> Config) \<Rightarrow> poolState \<Rightarrow> bool" where
  "poolOK sha docs s = (case s of (p, ls, pend) \<Rightarrow>
     (\<forall>i < length (plHeap p). genOK (plUpstream p) ls pend i (plHeap p ! i)) \<and>
     (\<forall>i. plUpstream p = Some i \<longrightarrow> i < length (plHeap p) \<and>
        upFingerprint (genProjection (plHeap p ! i)) = upFingerprint (newUpstreamTransportProjection sha (docs (genGeneration (plHeap p ! i))))) \<and>
     (\<forall>(i, cfg) \<in> set ls. i < length (plHeap p) \<and>
        upFingerprint (genProjection (plHeap p ! i)) = upFingerprint (newUpstreamTransportProjection sha cfg)) \<and>
     (\<forall>i. CloseNow i \<in> set pend \<longrightarrow> i < length (plHeap p)))"

lemma poolOKI:
  assumes "\<And>k. k < length (plHeap p) \<Longrightarrow> genOK (plUpstream p) ls pend k (plHeap p ! k)"
    and "\<And>k. plUpstream p = Some k \<Longrightarrow> k < length (plHeap p) \<and>
      upFingerprint (genProjection (plHeap p ! k)) = upFingerprint (newUpstreamTransportProjection sha (docs (genGeneration (plHeap p ! k))))"
    and "\<And>k c. (k, c) \<in> set ls \<Longrightarrow> k < length (plHeap p) \<and>
      upFingerprint (genProjection (plHeap p ! k)) = upFingerprint (newUpstreamTransportProjection sha c)"
    and "\<And>k. CloseNow k \<in> set pend \<Longrightarrow> k < length (plHeap p)"
  shows "poolOK sha docs (p, ls, pend)"
  using assms by (auto simp: poolOK_def)

lemma leaseCount_absent: "\<forall>(i, cfg) \<in> set ls. i < n \<Longrightarrow> leaseCount n ls = 0"
  by (auto simp: leaseCount_def filter_empty_conv)

lemma generation_same: "upFingerprint (newUpstreamTransportProjection sha cfg) = upFingerprint (newUpstreamTransportProjection sha (docs (upGeneration (newUpstreamTransportProjection sha cfg))))"
  if "cfg = docs (cfgGeneration cfg)"
  using that by (simp add: newUpstreamTransportProjection_def)

lemma acquire_cases:
  assumes "acquireUpstreamTransportGeneration sha cfg p = (i, ops, p')" "\<forall>j. plUpstream p = Some j \<longrightarrow> j < length (plHeap p)"
  obtains (own) "i = length (plHeap p)" "ops = []" "plUpstream p' = plUpstream p"
      "plHeap p' = plHeap p @ [(newUpstreamTransportGeneration sha cfg)\<lparr>genRetired := True, genRefs := 1\<rparr>]"
  | (first) "i = length (plHeap p)" "ops = []" "plUpstream p = None" "plUpstream p' = Some i" "cfgGeneration cfg \<noteq> 0"
      "plHeap p' = plHeap p @ [(newUpstreamTransportGeneration sha cfg)\<lparr>genRefs := 1\<rparr>]"
  | (reused) "plUpstream p = Some i" "i < length (plHeap p)" "plUpstream p' = Some i" "ops = []" "cfgGeneration cfg \<noteq> 0"
      "plHeap p' = (plHeap p)[i := (plHeap p ! i)\<lparr>genGeneration := cfgGeneration cfg, genRefs := genRefs (plHeap p ! i) + 1\<rparr>]"
      "cfgGeneration cfg = genGeneration (plHeap p ! i) \<or> upFingerprint (newUpstreamTransportProjection sha cfg) = upFingerprint (genProjection (plHeap p ! i))"
  | (replaced) j where "plUpstream p = Some j" "j < length (plHeap p)" "i = length (plHeap p)" "plUpstream p' = Some i" "cfgGeneration cfg \<noteq> 0"
      "ops = [if genRefs (plHeap p ! j) = 0 then CloseNow j else CloseIdle j]"
      "plHeap p' = (plHeap p)[j := (plHeap p ! j)\<lparr>genRetired := True\<rparr>] @ [(newUpstreamTransportGeneration sha cfg)\<lparr>genRefs := 1\<rparr>]"
proof (cases "cfgGeneration cfg = 0 \<or> (\<exists>j. plUpstream p = Some j \<and> cfgGeneration cfg < genGeneration (plHeap p ! j))")
  case True
  then have "cfgGeneration cfg = 0 \<or> (\<exists>j. plUpstream p = Some j \<and> cfgGeneration cfg < genGeneration (plHeap p ! j) \<and> \<not> genGeneration (plHeap p ! j) < cfgGeneration cfg)"
    using order.asym by blast
  then have "chooseGeneration sha cfg p =
      (length (plHeap p), [], p\<lparr>plHeap := plHeap p @ [(newUpstreamTransportGeneration sha cfg)\<lparr>genRetired := True\<rparr>]\<rparr>)"
    by (auto simp: chooseGeneration_def allocGen_def Let_def)
  then show thesis using assms(1)
    by (intro own) (auto simp: acquireUpstreamTransportGeneration_def atGen_def newUpstreamTransportGeneration_def Let_def)
next
  case new: False
  show thesis
  proof (cases "plUpstream p")
    case None
    then show thesis using assms(1) new
      by (intro first) (auto simp: acquireUpstreamTransportGeneration_def chooseGeneration_def allocGen_def atGen_def Let_def newUpstreamTransportGeneration_def)
  next
    case (Some j)
    have len: "j < length (plHeap p)" using assms(2) Some by blast
    consider (same) "cfgGeneration cfg = genGeneration (plHeap p ! j)"
      | (kept) "cfgGeneration cfg > genGeneration (plHeap p ! j)" "upFingerprint (newUpstreamTransportProjection sha cfg) = upFingerprint (genProjection (plHeap p ! j))"
      | (moved) "cfgGeneration cfg > genGeneration (plHeap p ! j)" "upFingerprint (newUpstreamTransportProjection sha cfg) \<noteq> upFingerprint (genProjection (plHeap p ! j))"
      using new Some by force
    then show thesis
    proof cases
      case same
      then show thesis using assms(1) new Some len
        by (intro reused) (auto simp: acquireUpstreamTransportGeneration_def chooseGeneration_def atGen_def Let_def)
    next
      case kept
      then show thesis using assms(1) new Some len
        by (intro reused) (auto simp: acquireUpstreamTransportGeneration_def chooseGeneration_def atGen_def Let_def)
    next
      case moved
      then show thesis using assms(1) new Some len
        by (intro replaced[of j]) (auto simp: acquireUpstreamTransportGeneration_def chooseGeneration_def allocGen_def retireGen_def atGen_def Let_def
            newUpstreamTransportGeneration_def nth_append list_update_append)
    qed
  qed
qed

lemma poolStep_acquires:
  assumes "cfgGeneration cfg = 0 \<or> cfg = docs (cfgGeneration cfg)" "acquireUpstreamTransportGeneration sha cfg p = (i, ops, p')"
    and ok: "poolOK sha docs (p, ls, pend)"
  shows "poolOK sha docs (p', (i, cfg) # ls, pend @ ops)"
proof -
  have len: "\<forall>j. plUpstream p = Some j \<longrightarrow> j < length (plHeap p)" using ok by (auto simp: poolOK_def)
  have absent: "leaseCount (length (plHeap p)) ls = 0" using ok by (intro leaseCount_absent) (auto simp: poolOK_def)
  have close: "CloseNow (length (plHeap p)) \<notin> set pend" using ok by (auto simp: poolOK_def)
  have fp: "upFingerprint (newUpstreamTransportProjection sha (docs (cfgGeneration cfg))) = upFingerprint (newUpstreamTransportProjection sha cfg)"
    if "cfgGeneration cfg \<noteq> 0" using assms(1) that by metis
  have gens: "genOK (plUpstream p) ls pend k (plHeap p ! k)" if "k < length (plHeap p)" for k using ok that by (auto simp: poolOK_def)
  have leases: "k < length (plHeap p)" "upFingerprint (genProjection (plHeap p ! k)) = upFingerprint (newUpstreamTransportProjection sha c)"
    if "(k, c) \<in> set ls" for k c using ok that by (auto simp: poolOK_def)
  have pends: "k < length (plHeap p)" if "CloseNow k \<in> set pend" for k using ok that by (auto simp: poolOK_def)
  have up: "upFingerprint (genProjection (plHeap p ! k)) = upFingerprint (newUpstreamTransportProjection sha (docs (genGeneration (plHeap p ! k))))"
    if "plUpstream p = Some k" for k using ok that by (auto simp: poolOK_def)
  show ?thesis using assms(2) len
  proof (cases rule: acquire_cases)
    case own
    have "genOK (plUpstream p') ((i, cfg) # ls) (pend @ ops) k (plHeap p' ! k)" if "k < length (plHeap p')" for k
      using gens[of k] that absent close len by (cases "k < length (plHeap p)") (auto simp: own less_Suc_eq genOK_def nth_append newUpstreamTransportGeneration_def Let_def)
    then show ?thesis
      by (rule poolOKI) (use up leases pends len in \<open>auto simp: own nth_append newUpstreamTransportGeneration_def Let_def less_Suc_eq\<close>)
  next
    case first
    have "genOK (plUpstream p') ((i, cfg) # ls) (pend @ ops) k (plHeap p' ! k)" if "k < length (plHeap p')" for k
      using gens[of k] that absent close len by (cases "k < length (plHeap p)") (auto simp: first less_Suc_eq genOK_def nth_append newUpstreamTransportGeneration_def Let_def)
    then show ?thesis
      by (rule poolOKI) (use leases pends fp[OF first(5)] in \<open>auto simp: first nth_append newUpstreamTransportGeneration_def newUpstreamTransportProjection_def Let_def less_Suc_eq\<close>)
  next
    case reused
    have "genOK (plUpstream p') ((i, cfg) # ls) (pend @ ops) k (plHeap p' ! k)" if "k < length (plHeap p')" for k
      using gens[of k] that by (cases "k = i") (auto simp: reused genOK_def nth_list_update)
    note gen = this
    have fpi: "upFingerprint (genProjection (plHeap p ! i)) = upFingerprint (newUpstreamTransportProjection sha cfg)"
      using reused(6) up[OF reused(1)] fp[OF reused(5)] reused by metis
    show ?thesis
      by (rule poolOKI[OF gen]) (use fpi leases pends fp[OF reused(5)] in \<open>auto simp: reused nth_list_update\<close>)
  next
    case (replaced j)
    have "genOK (plUpstream p') ((i, cfg) # ls) (pend @ ops) k (plHeap p' ! k)" if "k < length (plHeap p')" for k
      using gens[of k] gens[OF replaced(2)] that absent close replaced(1-5)
      by (cases "k < length (plHeap p)") (auto simp: replaced(6,7) less_Suc_eq genOK_def nth_append nth_list_update newUpstreamTransportGeneration_def Let_def)
    then show ?thesis
      by (rule poolOKI) (use leases pends fp[OF replaced(5)] replaced(1-4) in \<open>auto simp: replaced(6,7) nth_append nth_list_update newUpstreamTransportGeneration_def newUpstreamTransportProjection_def Let_def less_Suc_eq split: if_splits\<close>)
  qed
qed

lemma poolStep_releases:
  assumes "releaseUpstreamTransportGeneration i p = (ops, p')" and ok: "poolOK sha docs (p, ls @ (i, cfg) # ls', pend)"
  shows "poolOK sha docs (p', ls @ ls', pend @ ops)"
proof -
  have i: "i < length (plHeap p)" using ok by (auto simp: poolOK_def)
  have gens: "genOK (plUpstream p) (ls @ (i, cfg) # ls') pend k (plHeap p ! k)" if "k < length (plHeap p)" for k using ok that by (auto simp: poolOK_def)
  have refs: "genRefs (plHeap p ! i) = Suc (leaseCount i (ls @ ls'))" using gens[OF i] by (simp add: genOK_def)
  have p': "p' = p\<lparr>plHeap := (plHeap p)[i := (plHeap p ! i)\<lparr>genRefs := leaseCount i (ls @ ls')\<rparr>]\<rparr>"
    "ops = (if genRetired (plHeap p ! i) \<and> leaseCount i (ls @ ls') = 0 then [CloseNow i] else [])"
    using assms(1) refs i by (auto simp: releaseUpstreamTransportGeneration_def atGen_def Let_def)
  have "genOK (plUpstream p') (ls @ ls') (pend @ ops) k (plHeap p' ! k)" if "k < length (plHeap p')" for k
    using gens[of k] that refs i by (cases "k = i") (auto simp: p' genOK_def nth_list_update)
  then show ?thesis using ok i by (fastforce simp: poolOK_def p' nth_list_update split: if_splits)
qed

lemma poolStep_stops:
  assumes "closeUpstreamTransports p = (ops, p')" and ok: "poolOK sha docs (p, ls, pend)"
  shows "poolOK sha docs (p', ls, pend @ ops)"
proof (cases "plUpstream p")
  case None
  then show ?thesis using assms by (simp add: closeUpstreamTransports_def)
next
  case (Some j)
  have j: "j < length (plHeap p)" using ok Some by (auto simp: poolOK_def)
  have gens: "genOK (plUpstream p) ls pend k (plHeap p ! k)" if "k < length (plHeap p)" for k using ok that by (auto simp: poolOK_def)
  have p': "p' = p\<lparr>plHeap := (plHeap p)[j := (plHeap p ! j)\<lparr>genRetired := True\<rparr>], plUpstream := None\<rparr>"
    "ops = [if genRefs (plHeap p ! j) = 0 then CloseNow j else CloseIdle j]"
    using assms(1) j Some by (auto simp: closeUpstreamTransports_def retireGen_def atGen_def Let_def)
  have "genOK (plUpstream p') ls (pend @ ops) k (plHeap p' ! k)" if "k < length (plHeap p')" for k
    using gens[of k] that Some j by (cases "k = j") (auto simp: p' genOK_def nth_list_update)
  then show ?thesis using ok j by (auto simp: poolOK_def p' nth_list_update)
qed

text \<open>Changing what the pool does not decide by, at a generation it may be changed at.\<close>

lemma poolOK_atGen:
  assumes "poolOK sha docs (p, ls, pend)" "i < length (plHeap p)"
    and "\<And>g. genRefs (f g) = genRefs g \<and> genRetired (f g) = genRetired g \<and> genClosed (f g) = genClosed g \<and> genProjection (f g) = genProjection g \<and>
      genGeneration (f g) = genGeneration g"
  shows "poolOK sha docs (atGen i f p, ls, pend)"
  using assms by (auto simp: poolOK_def genOK_def atGen_def nth_list_update)

lemma poolStep_closes:
  assumes ok: "poolOK sha docs (p, ls, pend @ op # pend')"
  shows "poolOK sha docs (performClose op p, ls, pend @ pend')"
proof (cases op)
  case (CloseIdle i)
  then show ?thesis using ok by (auto simp: poolOK_def genOK_def)
next
  case (CloseNow i)
  have i: "i < length (plHeap p)" using ok CloseNow by (auto simp: poolOK_def)
  have gens: "genOK (plUpstream p) ls (pend @ op # pend') k (plHeap p ! k)" if "k < length (plHeap p)" for k using ok that by (auto simp: poolOK_def)
  have "genOK (plUpstream p) ls (pend @ pend') k (plHeap (performClose op p) ! k)" if "k < length (plHeap p)" for k
    using gens[OF that] gens[OF i] i by (cases "k = i") (auto simp: CloseNow genOK_def atGen_def closeGeneration_def nth_list_update)
  moreover have "genProjection (closeGeneration g) = genProjection g" "genGeneration (closeGeneration g) = genGeneration g" for g
    by (simp_all add: closeGeneration_def)
  ultimately show ?thesis using ok i by (auto simp: poolOK_def CloseNow atGen_def nth_list_update)
qed

lemma poolStep_OK:
  assumes "poolStep sha docs s s'" "poolOK sha docs s"
  shows "poolOK sha docs s'"
  using assms
proof (induction rule: poolStep.induct)
  case (acquires cfg p i ops p' ls pend)
  then show ?case using poolStep_acquires by blast
next
  case (releases i p ops p' ls cfg ls' pend)
  then show ?case using poolStep_releases by blast
next
  case (stops p ops p' ls pend)
  then show ?case using poolStep_stops by blast
next
  case (closes p ls pend op pend')
  then show ?case using poolStep_closes by blast
next
  case (uses i cfg ls p p' pend)
  moreover have "i < length (plHeap p)" using uses by (auto simp: poolOK_def)
  ultimately show ?case by (auto simp: getHTTPTransport_def split: if_splits intro!: poolOK_atGen)
next
  case (uses3 i cfg ls version p p' pend)
  moreover have "i < length (plHeap p)" using uses3 by (auto simp: poolOK_def)
  ultimately show ?case by (auto simp: getHTTP3Transport_def split: if_splits intro!: poolOK_atGen)
next
  case (prefers i cfg ls p pend authority)
  moreover have "i < length (plHeap p)" using prefers by (auto simp: poolOK_def)
  ultimately show ?case by (auto simp: preferHTTP3Version2_def intro!: poolOK_atGen)
qed

lemma pool_reachable_OK:
  assumes "(poolStep sha docs)\<^sup>*\<^sup>* (emptyPool, [], []) s"
  shows "poolOK sha docs s"
  using assms
proof (induction rule: rtranclp_induct)
  case base
  then show ?case by (simp add: poolOK_def emptyPool_def)
next
  case (step s s')
  then show ?case using poolStep_OK by blast
qed

text \<open>C27: Whatever requests come and go, whatever configurations they run under and however the closings that follow
interleave with them, a request always holds an open generation whose proxy, protocol and authorised targets are those of
the configuration it was admitted under (the fingerprints agree); a generation is closed, now or by a closing that is under
way, exactly when it has been replaced and no request holds it; and when the pool has been shut down and every request has
finished nothing stays open.\<close>
theorem pool_generations_sound:
  assumes "(poolStep sha docs)\<^sup>*\<^sup>* (emptyPool, [], []) (p, ls, pend)"
  shows "(\<forall>(i, cfg)\<in>set ls. i < length (plHeap p) \<and> \<not> genClosed (plHeap p ! i) \<and> CloseNow i \<notin> set pend \<and>
       upFingerprint (genProjection (plHeap p ! i)) = upFingerprint (newUpstreamTransportProjection sha cfg)) \<and>
    (\<forall>i < length (plHeap p). genClosed (plHeap p ! i) \<or> CloseNow i \<in> set pend \<longleftrightarrow> plUpstream p \<noteq> Some i \<and> i \<notin> fst ` set ls) \<and>
    (plUpstream p = None \<and> ls = [] \<and> pend = [] \<longrightarrow> (\<forall>g\<in>set (plHeap p). genClosed g))"
proof -
  have ok: "poolOK sha docs (p, ls, pend)" by (rule pool_reachable_OK[OF assms])
  have gens: "genOK (plUpstream p) ls pend k (plHeap p ! k)" if "k < length (plHeap p)" for k using ok that by (auto simp: poolOK_def)
  have held: "leaseCount k ls = 0 \<longleftrightarrow> k \<notin> fst ` set ls" for k by (auto simp: leaseCount_def filter_empty_conv)
  have leases: "i < length (plHeap p) \<and> upFingerprint (genProjection (plHeap p ! i)) = upFingerprint (newUpstreamTransportProjection sha cfg)"
    if "(i, cfg) \<in> set ls" for i cfg using ok that by (auto simp: poolOK_def)
  have closed: "genClosed (plHeap p ! i) \<or> CloseNow i \<in> set pend \<longleftrightarrow> plUpstream p \<noteq> Some i \<and> i \<notin> fst ` set ls" if "i < length (plHeap p)" for i
    using gens[OF that] held[of i] by (auto simp: genOK_def)
  have "\<forall>(i, cfg)\<in>set ls. i < length (plHeap p) \<and> \<not> genClosed (plHeap p ! i) \<and> CloseNow i \<notin> set pend \<and>
       upFingerprint (genProjection (plHeap p ! i)) = upFingerprint (newUpstreamTransportProjection sha cfg)"
    using leases closed by (force simp: image_iff)
  moreover have "genClosed g" if "plUpstream p = None" "ls = []" "pend = []" "g \<in> set (plHeap p)" for g
    using closed that by (auto simp: in_set_conv_nth)
  ultimately show ?thesis using closed by blast
qed

section \<open>An example\<close>

definition exDocs :: "64 word \<Rightarrow> Config" where
  "exDocs n = document\<lparr>cfgGeneration := n, cfgMITM := (cfgMITM document)\<lparr>mitmHTTP2 := (n = 1)\<rparr>\<rparr>"

definition exGen :: "64 word \<Rightarrow> nat \<Rightarrow> bool \<Rightarrow> upstreamTransportGeneration" where
  "exGen n refs retired = (newUpstreamTransportGeneration id (exDocs n))\<lparr>genRefs := refs, genRetired := retired\<rparr>"

lemma exDocs_generation: "cfgGeneration (exDocs n) = n"
  by (simp add: exDocs_def)

lemma exPool_run:
  "(poolStep id exDocs)\<^sup>*\<^sup>* (emptyPool, [], [])
     (\<lparr>plHeap = [exGen 1 1 True, exGen 2 1 False], plUpstream = Some 1\<rparr>, [(1, exDocs 2), (0, exDocs 1)], [CloseIdle 0])"
proof -
  have first: "acquireUpstreamTransportGeneration id (exDocs 1) emptyPool = (0, [], \<lparr>plHeap = [exGen 1 1 False], plUpstream = Some 0\<rparr>)"
    by (simp add: acquireUpstreamTransportGeneration_def chooseGeneration_def emptyPool_def allocGen_def atGen_def exDocs_generation exGen_def
        newUpstreamTransportGeneration_def Let_def)
  have fp: "upFingerprint (newUpstreamTransportProjection id (exDocs 2)) \<noteq> upFingerprint (newUpstreamTransportProjection id (exDocs 1))"
    by (simp add: newUpstreamTransportProjection_def fingerprintBytes_def Let_def exDocs_def writeFingerprintBool_def byte_def)
  have gen: "genGeneration (exGen 1 1 False) = 1" "genProjection (exGen 1 1 False) = newUpstreamTransportProjection id (exDocs 1)"
    by (simp_all add: exGen_def newUpstreamTransportGeneration_def Let_def newUpstreamTransportProjection_def exDocs_generation)
  have ug: "upGeneration (newUpstreamTransportProjection id (exDocs n)) = n" for n
    by (simp add: newUpstreamTransportProjection_def exDocs_generation)
  have second: "acquireUpstreamTransportGeneration id (exDocs 2) \<lparr>plHeap = [exGen 1 1 False], plUpstream = Some 0\<rparr> =
      (1, [CloseIdle 0], \<lparr>plHeap = [exGen 1 1 True, exGen 2 1 False], plUpstream = Some 1\<rparr>)"
    using fp by (simp add: acquireUpstreamTransportGeneration_def chooseGeneration_def allocGen_def atGen_def retireGen_def exDocs_generation gen Let_def)
      (simp add: ug exGen_def newUpstreamTransportGeneration_def Let_def)
  have "poolStep id exDocs (emptyPool, [], []) (\<lparr>plHeap = [exGen 1 1 False], plUpstream = Some 0\<rparr>, (0, exDocs 1) # [], [] @ [])"
    by (rule acquires[OF _ first]) (simp add: exDocs_generation)
  moreover have "poolStep id exDocs (\<lparr>plHeap = [exGen 1 1 False], plUpstream = Some 0\<rparr>, [(0, exDocs 1)], [])
      (\<lparr>plHeap = [exGen 1 1 True, exGen 2 1 False], plUpstream = Some 1\<rparr>, (1, exDocs 2) # [(0, exDocs 1)], [] @ [CloseIdle 0])"
    by (rule acquires[OF _ second]) (simp add: exDocs_generation)
  ultimately show ?thesis by simp
qed

theorem pool_generations_sound_witness:
  "\<exists>p. (poolStep id exDocs)\<^sup>*\<^sup>* (emptyPool, [], []) (p, [(1, exDocs 2), (0, exDocs 1)], [CloseIdle 0]) \<and>
     plUpstream p = Some 1 \<and> \<not> genClosed (plHeap p ! 0) \<and> \<not> genClosed (plHeap p ! 1)"
  using pool_generations_sound[OF exPool_run] exPool_run by (intro exI[of _ "\<lparr>plHeap = [exGen 1 1 True, exGen 2 1 False], plUpstream = Some 1\<rparr>"]) simp

section \<open>The fallback to the second QUIC version\<close>

lemma buffered_replayable: "bufferedModuleRequest x r cfg msg had = Some (ob, c) \<Longrightarrow> outboundHasBodySection ob \<Longrightarrow> obReplayable ob"
  by (auto simp: bufferedModuleRequest_def outboundHasBodySection_def Let_def split: option.splits if_splits)

lemma streamed_bodiless:
  assumes "streamingModuleRequest x r cfg msg = Some (ob, c)" "requestCanStreamWithoutModuleBuffer r rules" "obProtoMajor ob = 3"
  shows "\<not> outboundHasBodySection ob"
proof -
  obtain u h where ob: "ob = outboundModuleRequest r u h"
    using assms(1) by (auto simp: streamingModuleRequest_def Let_def split: option.splits)
  then have "\<not> requestHasBodySection r" using assms(2,3)
    by (auto simp: requestCanStreamWithoutModuleBuffer_def outboundModuleRequest_def split: if_splits)
  then show ?thesis
    by (auto simp: ob outboundHasBodySection_def outboundModuleRequest_def requestHasBodySection_def requestHasPayload_def split: if_splits)
qed

lemma buffered_proto: "bufferedModuleRequest x r cfg msg had = Some (ob, c) \<Longrightarrow> obProtoMajor ob = rqProtoMajor r"
  by (auto simp: bufferedModuleRequest_def outboundModuleRequest_def Let_def split: option.splits if_splits)

lemma streaming_proto: "streamingModuleRequest x r cfg msg = Some (ob, c) \<Longrightarrow> obProtoMajor ob = rqProtoMajor r"
  by (auto simp: streamingModuleRequest_def outboundModuleRequest_def Let_def split: option.splits)

lemma sentUpstream_Some: "prOutbound (fst (sentUpstream res k n)) = Some ob \<Longrightarrow> \<exists>c. res = Some (ob, c)"
  by (auto simp: sentUpstream_def retained_def nothingPrepared_def split: option.splits)

lemma finishRequest_origin:
  assumes "prOutbound (fst (finishRequest x cx r cfg rules conditional had n st)) = Some ob"
  shows "(\<exists>r' msg c. bufferedModuleRequest x r' cfg msg had = Some (ob, c) \<and> rqProtoMajor r' = rqProtoMajor r) \<or>
    (conditional \<and> (\<exists>msg c. streamingModuleRequest x r cfg msg = Some (ob, c)))"
proof (cases conditional)
  case False
  then obtain c where "bufferedModuleRequest x (if rqBody r = None then r else r\<lparr>rqTrailer := rqFinalTrailer r\<rparr>) cfg (stMessage st) had = Some (ob, c)"
    using assms sentUpstream_Some by (fastforce simp: finishRequest_def Let_def)
  then show ?thesis by (intro disjI1 exI conjI) (assumption, simp)
next
  case True
  note s = assms[unfolded finishRequest_def Let_def if_P[OF True]]
  consider (changed) "stBodyChanged st" "drainModuleRequestBody r"
    | (moved) body where "\<not> stBodyChanged st" "stURLChanged st" "readDecodedModuleRequestBody cx r (moduleBodyReadLimit rules) = Inr body"
    | (same) "\<not> stBodyChanged st" "\<not> stURLChanged st"
    using s by (fastforce simp: retained_def nothingPrepared_def split: if_splits sum.splits)
  then show ?thesis
  proof cases
    case changed
    then obtain c where "bufferedModuleRequest x (r\<lparr>rqTrailer := rqFinalTrailer r\<rparr>) cfg (stMessage st) had = Some (ob, c)"
      using s sentUpstream_Some by fastforce
    then show ?thesis by (intro disjI1 exI conjI) (assumption, simp)
  next
    case moved
    then obtain c where "bufferedModuleRequest x (r\<lparr>rqTrailer := rqFinalTrailer r\<rparr>) cfg ((stMessage st)\<lparr>msgBody := body\<rparr>) had = Some (ob, c)"
      using s sentUpstream_Some by fastforce
    then show ?thesis by (intro disjI1 exI conjI) (assumption, simp)
  next
    case same
    then show ?thesis using s True sentUpstream_Some by fastforce
  qed
qed

lemma prepared_replayable:
  assumes "prepareModuleRequestWithRules x en cx render cl r cfg probe rules = Returned (p, e)" "prOutbound p = Some ob"
    and "obProtoMajor ob = 3" "outboundHasBodySection ob"
  shows "obReplayable ob"
  using assms(1,2)
proof (cases rule: prepared_cases)
  case (stream c)
  then show ?thesis using streamed_bodiless assms(3,4) by blast
next
  case (actions body keeps n st conditional)
  have "prOutbound (fst (finishRequest x cx r cfg rules conditional (requestHasBodySection r) n st)) = Some ob" using actions(3) assms(2) by simp
  note o = finishRequest_origin[OF this]
  have "rqProtoMajor r = 3" using o assms(3) buffered_proto streaming_proto by metis
  then have "\<not> conditional" using actions(2) by (simp add: requestCanConditionallyStreamWithModuleActions_def)
  then show ?thesis using o assms(4) buffered_replayable by blast
qed

lemma containsQUICVersion_set: "containsQUICVersion versions want \<longleftrightarrow> want \<in> set versions"
  by (induction versions) auto

lemma getHTTP3Transport_open:
  assumes "i < length (plHeap p)" "\<not> genClosed (plHeap p ! i)"
  obtains p' where "getHTTP3Transport i version p = Inr p'" "i < length (plHeap p')" "\<not> genClosed (plHeap p' ! i)"
  using assms by (auto simp: getHTTP3Transport_def atGen_def)

lemma preferHTTP3Version2_preferred: "i < length (plHeap p) \<Longrightarrow> preferredHTTP3Version i authority (preferHTTP3Version2 i authority p) = Version2"
  by (simp add: preferredHTTP3Version_def preferHTTP3Version2_def atGen_def AList.update_conv')

text \<open>A request that was prepared for HTTP/3 can always be sent a second time: on an open generation its round trip
is the answer over the preferred QUIC version, or, when the upstream refuses that version and offers version 2, the answer
over version 2 to the same request with the same body, and a success is remembered for the authority. The fallback never
fails for want of a body.\<close>
theorem http3_fallback_replays:
  assumes "prepareModuleRequest x en cx render cl r cfg host = Returned (p, e)" "prOutbound p = Some ob" "obProtoMajor ob = 3"
    and "i < length (plHeap pool)" "\<not> genClosed (plHeap pool ! i)" "canonicalHTTP3Authority ob = Inr authority"
    and "roundTripHTTP3 send ob i pool = (res, pool')"
  shows "let version = preferredHTTP3Version i authority pool
    in if version \<noteq> Version2 \<and> (\<exists>theirs. send version ob = Inl (VersionRefused theirs) \<and> Version2 \<in> set theirs)
       then \<exists>ob'. res = send Version2 ob' \<and> ob'\<lparr>obBody := obBody ob\<rparr> = ob \<and> (outboundHasBodySection ob \<longrightarrow> ob' = ob) \<and>
              (\<forall>response. res = Inr response \<longrightarrow> preferredHTTP3Version i authority pool' = Version2)
       else res = send version ob"
proof -
  define version where "version = preferredHTTP3Version i authority pool"
  obtain p1 where p1: "getHTTP3Transport i version pool = Inr p1" "i < length (plHeap p1)" "\<not> genClosed (plHeap p1 ! i)"
    using getHTTP3Transport_open[OF assms(4,5)] by blast
  obtain p2 where p2: "getHTTP3Transport i Version2 p1 = Inr p2" "i < length (plHeap p2)" using getHTTP3Transport_open[OF p1(2,3)] by blast
  note rt = assms(7)[unfolded roundTripHTTP3_def assms(6) sum.case Let_def version_def[symmetric] p1(1)]
  show ?thesis
  proof (cases "version \<noteq> Version2 \<and> (\<exists>theirs. send version ob = Inl (VersionRefused theirs) \<and> Version2 \<in> set theirs)")
    case True
    then obtain theirs where t: "version \<noteq> Version2" "send version ob = Inl (VersionRefused theirs)" "Version2 \<in> set theirs" by blast
    have "\<exists>ob'. resetHTTP3RequestBodyForReplay ob = Inr ob' \<and> ob'\<lparr>obBody := obBody ob\<rparr> = ob \<and> (outboundHasBodySection ob \<longrightarrow> ob' = ob)"
      using prepared_replayable[OF assms(1)[unfolded prepareModuleRequest_def Let_def] assms(2,3)]
      by (cases "outboundHasBodySection ob") (simp_all add: resetHTTP3RequestBodyForReplay_def)
    then obtain ob' where ob': "resetHTTP3RequestBodyForReplay ob = Inr ob'" "ob'\<lparr>obBody := obBody ob\<rparr> = ob" "outboundHasBodySection ob \<longrightarrow> ob' = ob"
      by blast
    have "res = send Version2 ob'" "\<forall>response. res = Inr response \<longrightarrow> pool' = preferHTTP3Version2 i authority p2"
      using rt t ob'(1) p2(1) by (auto simp: containsQUICVersion_set split: sum.splits)
    then show ?thesis using True ob' preferHTTP3Version2_preferred[OF p2(2)] by (auto simp: version_def[symmetric])
  next
    case False
    then have "res = send version ob" using rt
      by (auto simp: containsQUICVersion_set split: sum.splits transport_error.splits if_splits)
    then show ?thesis using False by (auto simp: version_def[symmetric])
  qed
qed

definition exH3 :: httpRequest where "exH3 = exRequest\<lparr>rqProtoMajor := 3\<rparr>"

definition exOffersV2 :: "outboundRequest \<Rightarrow> quicVersion \<Rightarrow> outboundRequest \<Rightarrow> transport_error + string" where
  "exOffersV2 ob version ob' = (if version = Version2 then Inr ''ok'' else Inl (VersionRefused [Version2]))"

lemma exH3_prepared:
  "\<exists>p ob. prepareModuleRequest pipeExterns exRewriting exCodecs exRender exClient exH3 exCfg ''a.example.com'' = Returned (p, None) \<and>
     prOutbound p = Some ob \<and> obURL ob = exNewURL \<and> obProtoMajor ob = 3"
proof -
  have probe: "moduleRequestProbe exH3 ''a.example.com'' = moduleRequestProbe exRequest ''a.example.com''" by code_simp
  have start: "startMessage exH3 probe body = startMessage exRequest probe body" for probe body by (simp add: startMessage_def exH3_def)
  have url: "msgURL (moduleRequestProbe exRequest ''a.example.com'') = ''https://a.example.com/''" by code_simp
  have mode: "ruleBodyMode exScriptRule = ''none''" "exRender exNewURL = ''https://a.example.com/new''"
     "exParse ''https://a.example.com/new'' = Some exNewURL" by code_simp+
  have "runRequestActions pipeExterns exRewriting exRender exClient exH3 exCfg [(docModule, exScriptRule)]
      \<lparr>stMessage = startMessage exRequest (moduleRequestProbe exRequest ''a.example.com'') [], stURLChanged = False, stBodyChanged = False, stRetained = False\<rparr> =
     ActionsDone \<lparr>stMessage = (startMessage exRequest (moduleRequestProbe exRequest ''a.example.com'') [])\<lparr>msgURL := ''https://a.example.com/new''\<rparr>,
       stURLChanged = True, stBodyChanged = False, stRetained = False\<rparr>"
    using url mode by (simp add: exExecute noResult_def validateModuleResultBody_def applyRequestResult_def startMessage_def exAuthorized bindJ_def)
  then show ?thesis
    unfolding prepareModuleRequest_def Let_def probe exRules prepareModuleRequestWithRules_def start
    using mode
    by (simp add: exH3_def exRequest_def requestCanStreamWithoutModuleBuffer_def requestCanConditionallyStreamWithModuleActions_def requestHasPayload_def
        requestHasBodySection_def readDecodedModuleRequestBody_def finishRequest_def sentUpstream_def bufferedModuleRequest_def pipeExterns_def
        startMessage_def retained_def nothingPrepared_def outboundModuleRequest_def Let_def)
qed

theorem http3_fallback_replays_witness:
  "\<exists>ob pool'. obProtoMajor ob = 3 \<and> roundTripHTTP3 (exOffersV2 ob) ob 0 \<lparr>plHeap = [exGen 1 1 False], plUpstream = Some 0\<rparr> = (Inr ''ok'', pool') \<and>
     preferredHTTP3Version 0 ''a.example.com:443'' pool' = Version2"
proof -
  let ?pool = "\<lparr>plHeap = [exGen 1 1 False], plUpstream = Some 0\<rparr>"
  obtain p ob where e: "prepareModuleRequest pipeExterns exRewriting exCodecs exRender exClient exH3 exCfg ''a.example.com'' = Returned (p, None)"
    "prOutbound p = Some ob" "obURL ob = exNewURL" "obProtoMajor ob = 3" using exH3_prepared by blast
  obtain res pool' where rt: "roundTripHTTP3 (exOffersV2 ob) ob 0 ?pool = (res, pool')" by force
  have "joinHostPort (canonicalHost (urlHostname exNewURL)) ''443'' = ''a.example.com:443''" "urlPort exNewURL = []" "canonicalHost (urlHostname exNewURL) \<noteq> []"
    by code_simp+
  then have a: "canonicalHTTP3Authority ob = Inr ''a.example.com:443''" by (simp add: canonicalHTTP3Authority_def e Let_def)
  have v: "preferredHTTP3Version 0 ''a.example.com:443'' ?pool = Version1"
    by (simp add: preferredHTTP3Version_def exGen_def newUpstreamTransportGeneration_def Let_def)
  have "\<not> genClosed (plHeap ?pool ! 0)" by (simp add: exGen_def newUpstreamTransportGeneration_def Let_def)
  from http3_fallback_replays[OF e(1,2,4) _ this a rt] v
  have "res = Inr ''ok''" "preferredHTTP3Version 0 ''a.example.com:443'' pool' = Version2" by (auto simp: exOffersV2_def)
  then show ?thesis using rt e(4) by blast
qed

end
