(* ===== verification/Script_Storage.thy ===== *)
theory Script_Storage
  imports Validation Utf8 "HOL-Library.AList"
begin

text \<open>
  The persistent storage of extensions (module_runtime.go \<^verbatim>\<open>storageObject\<close>, \<^verbatim>\<open>loadPersistent\<close>, \<^verbatim>\<open>savePersistent\<close>): a bucket of
  strings per extension, kept in one file that every accepted write replaces.

  Go maps are association lists with distinct keys. The JSON text of the file is an argument (\<open>marshal\<close>, \<open>unmarshal\<close>); a
  call says which of the system calls of a save would fail. The writes hold one mutex, so each call is one step.
\<close>

section \<open>The store\<close>

type_synonym bucket = "(string \<times> string) list"

type_synonym buckets = "(string \<times> bucket) list"

definition maxPersistentStoreBytes :: nat where "maxPersistentStoreBytes = 4194304"
definition maxPersistentModuleBytes :: nat where "maxPersistentModuleBytes = 1048576"
definition maxPersistentKeys :: nat where "maxPersistentKeys = 256"
definition maxPersistentKeyBytes :: nat where "maxPersistentKeyBytes = 256"
definition maxPersistentValueBytes :: nat where "maxPersistentValueBytes = 65536"
definition maxPersistentCommitsPerAction :: nat where "maxPersistentCommitsPerAction = 32"

text \<open>\<open>psCommits\<close> counts, per action that is running, the commits its storage object has spent.\<close>

record scriptStore =
  psModules :: buckets
  psLoadErr :: bool
  psPath :: bool
  psFile :: "string option"
  psCommits :: "nat \<Rightarrow> nat"

definition persistentBucketBytes :: "bucket \<Rightarrow> nat" where
  "persistentBucketBytes b = sum_list (map (\<lambda>(key, value). length key + length value) b)"

definition bucketOf :: "buckets \<Rightarrow> string \<Rightarrow> bucket" where
  "bucketOf modules moduleID = (case map_of modules moduleID of None \<Rightarrow> [] | Some b \<Rightarrow> b)"

section \<open>The file\<close>

record saveFaults =
  sfMkdir :: bool
  sfCreate :: bool
  sfChmod :: bool
  sfWrite :: bool
  sfSync :: bool
  sfClose :: bool
  sfRename :: bool
  sfSyncDir :: bool

definition marshalPersistentSnapshot :: "(buckets \<Rightarrow> string) \<Rightarrow> buckets \<Rightarrow> string option" where
  "marshalPersistentSnapshot marshal modules =
     (if length (marshal modules) > maxPersistentStoreBytes then None else Some (marshal modules))"

text \<open>Whether the save succeeded, and the file afterwards.\<close>

definition savePersistent :: "(buckets \<Rightarrow> string) \<Rightarrow> saveFaults \<Rightarrow> buckets \<Rightarrow> scriptStore \<Rightarrow> bool \<times> string option" where
  "savePersistent marshal f modules s =
     (if \<not> psPath s then (True, psFile s)
      else (case marshalPersistentSnapshot marshal modules of
              None \<Rightarrow> (False, psFile s)
            | Some body \<Rightarrow>
                (if sfMkdir f then (False, psFile s)
                 else if sfCreate f then (False, psFile s)
                 else if sfChmod f then (False, psFile s)
                 else if sfWrite f then (False, psFile s)
                 else if sfSync f then (False, psFile s)
                 else if sfClose f then (False, psFile s)
                 else if sfRename f then (False, psFile s)
                 else (\<not> sfSyncDir f, Some body))))"

definition entryTooLong :: "string \<times> string \<Rightarrow> bool" where
  "entryTooLong e = (case e of (key, value) \<Rightarrow> length key = 0 \<or> length key > maxPersistentKeyBytes \<or> length value > maxPersistentValueBytes)"

definition bucketRefused :: "string \<times> bucket option \<Rightarrow> bool" where
  "bucketRefused e =
     (case e of (moduleID, v) \<Rightarrow>
        \<not> validModuleID moduleID \<or>
        (case v of None \<Rightarrow> True | Some b \<Rightarrow> length b > maxPersistentKeys \<or> list_ex entryTooLong b))"

datatype load_error = StoreMissing | StoreUnreadable | StoreTooLong | StoreNotUTF8 | StoreNotJSON | StoreNotObject | StoreOverLimits

datatype stored_file = FileMissing | FileUnreadable | FileContent string

text \<open>A JSON object of objects; \<open>None\<close> stands for \<open>null\<close>.\<close>

type_synonym unmarshaller = "string \<Rightarrow> (string \<times> bucket option) list option option"

definition loadPersistent :: "unmarshaller \<Rightarrow> stored_file \<Rightarrow> load_error + buckets" where
  "loadPersistent unmarshal file =
     (case file of
        FileMissing \<Rightarrow> Inl StoreMissing
      | FileUnreadable \<Rightarrow> Inl StoreUnreadable
      | FileContent body \<Rightarrow>
          (if length body > maxPersistentStoreBytes then Inl StoreTooLong
           else if \<not> validUTF8 body then Inl StoreNotUTF8
           else (case unmarshal body of
                   None \<Rightarrow> Inl StoreNotJSON
                 | Some None \<Rightarrow> Inl StoreNotObject
                 | Some (Some state) \<Rightarrow>
                     (if list_ex bucketRefused state then Inl StoreOverLimits
                      else Inr (map (\<lambda>(i, b). (i, the b)) state)))))"

text \<open>Starting with a state file: a store that cannot be read is empty and refuses every write.\<close>

definition newScriptRuntime :: "unmarshaller \<Rightarrow> stored_file \<Rightarrow> scriptStore" where
  "newScriptRuntime unmarshal file =
     (let s = \<lparr>psModules = [], psLoadErr = False, psPath = True,
               psFile = (case file of FileContent body \<Rightarrow> Some body | _ \<Rightarrow> None), psCommits = (\<lambda>_. 0)\<rparr>
      in case loadPersistent unmarshal file of
           Inr modules \<Rightarrow> s\<lparr>psModules := modules\<rparr>
         | Inl StoreMissing \<Rightarrow> s
         | Inl _ \<Rightarrow> s\<lparr>psLoadErr := True\<rparr>)"

section \<open>The storage object of an action\<close>

definition storageGet :: "string \<Rightarrow> string \<Rightarrow> scriptStore \<Rightarrow> string option" where
  "storageGet moduleID key s = map_of (bucketOf (psModules s) moduleID) key"

definition spend :: "nat \<Rightarrow> scriptStore \<Rightarrow> bool \<times> scriptStore" where
  "spend a s = (psCommits s a + 1 \<le> maxPersistentCommitsPerAction, s\<lparr>psCommits := (psCommits s)(a := psCommits s a + 1)\<rparr>)"

text \<open>Saving and, when that succeeds, publishing.\<close>

definition commitStore :: "(buckets \<Rightarrow> string) \<Rightarrow> saveFaults \<Rightarrow> buckets \<Rightarrow> scriptStore \<Rightarrow> bool \<times> scriptStore" where
  "commitStore marshal f next s =
     (case savePersistent marshal f next s of
        (saved, file) \<Rightarrow> (let s = s\<lparr>psFile := file\<rparr> in if saved then (True, s\<lparr>psModules := next\<rparr>) else (False, s)))"

definition storageSet :: "(buckets \<Rightarrow> string) \<Rightarrow> saveFaults \<Rightarrow> nat \<Rightarrow> string \<Rightarrow> string \<Rightarrow> string \<Rightarrow> scriptStore \<Rightarrow> bool \<times> scriptStore" where
  "storageSet marshal f a moduleID key value s =
     (if length key = 0 \<or> length key > maxPersistentKeyBytes \<or> length value > maxPersistentValueBytes then (False, s)
      else if psLoadErr s then (False, s)
      else (let b = bucketOf (psModules s) moduleID
            in if length b \<ge> maxPersistentKeys \<and> map_of b key = None then (False, s)
               else if map_of b key = Some value then (True, s)
               else (case spend a s of
                       (False, s) \<Rightarrow> (False, s)
                     | (True, s) \<Rightarrow>
                         (let nextBucket = AList.update key value b
                          in if persistentBucketBytes nextBucket > maxPersistentModuleBytes then (False, s)
                             else commitStore marshal f (AList.update moduleID nextBucket (psModules s)) s))))"

definition storageDelete :: "(buckets \<Rightarrow> string) \<Rightarrow> saveFaults \<Rightarrow> nat \<Rightarrow> string \<Rightarrow> string \<Rightarrow> scriptStore \<Rightarrow> bool \<times> scriptStore" where
  "storageDelete marshal f a moduleID key s =
     (if psLoadErr s then (False, s)
      else (let b = bucketOf (psModules s) moduleID
            in if map_of b key = None then (False, s)
               else (case spend a s of
                       (False, s) \<Rightarrow> (False, s)
                     | (True, s) \<Rightarrow> commitStore marshal f (AList.update moduleID (AList.delete key b) (psModules s)) s)))"

definition storageClear :: "(buckets \<Rightarrow> string) \<Rightarrow> saveFaults \<Rightarrow> nat \<Rightarrow> string \<Rightarrow> scriptStore \<Rightarrow> bool \<times> scriptStore" where
  "storageClear marshal f a moduleID s =
     (if psLoadErr s then (False, s)
      else if map_of (psModules s) moduleID = None then (True, s)
      else (case spend a s of
              (False, s) \<Rightarrow> (False, s)
            | (True, s) \<Rightarrow> commitStore marshal f (AList.delete moduleID (psModules s)) s))"

datatype storage_op = SetOp string string | DeleteOp string | ClearOp

record storageCall =
  scAction :: nat
  scModule :: string
  scOp :: storage_op
  scFaults :: saveFaults

definition storageCallStep :: "(buckets \<Rightarrow> string) \<Rightarrow> storageCall \<Rightarrow> scriptStore \<Rightarrow> bool \<times> scriptStore" where
  "storageCallStep marshal c s =
     (case scOp c of
        SetOp key value \<Rightarrow> storageSet marshal (scFaults c) (scAction c) (scModule c) key value s
      | DeleteOp key \<Rightarrow> storageDelete marshal (scFaults c) (scAction c) (scModule c) key s
      | ClearOp \<Rightarrow> storageClear marshal (scFaults c) (scAction c) (scModule c) s)"

end
