(* ===== verification/Script_Storage_Properties.thy ===== *)
theory Script_Storage_Properties
  imports Script_Storage
begin

text \<open>
  The storage of extensions is one map per extension: the contract of such a store as a locale and its interpretation,
  the quotas, and what a restart reads back.
\<close>

section \<open>A store of one map per owner\<close>

fun applyOp :: "storage_op \<Rightarrow> (string \<Rightarrow> string option) \<Rightarrow> string \<Rightarrow> string option" where
  "applyOp (SetOp key value) m = m(key \<mapsto> value)"
| "applyOp (DeleteOp key) m = m(key := None)"
| "applyOp ClearOp m = Map.empty"

text \<open>What an owner sees of a sequence of calls: the acknowledged ones of its own, in order.\<close>

definition specRun :: "('c \<Rightarrow> string) \<Rightarrow> ('c \<Rightarrow> storage_op) \<Rightarrow> string \<Rightarrow> ('c \<times> bool) list \<Rightarrow> (string \<Rightarrow> string option) \<Rightarrow> string \<Rightarrow> string option" where
  "specRun owner opOf m answers = fold (\<lambda>(c, ack). if ack \<and> owner c = m then applyOp (opOf c) else id) answers"

locale keyed_store =
  fixes look :: "'s \<Rightarrow> string \<Rightarrow> string \<Rightarrow> string option" and step :: "'c \<Rightarrow> 's \<Rightarrow> bool \<times> 's"
    and owner :: "'c \<Rightarrow> string" and opOf :: "'c \<Rightarrow> storage_op"
  assumes acked: "step c s = (True, s') \<Longrightarrow> look s' (owner c) = applyOp (opOf c) (look s (owner c))"
    and refused: "step c s = (False, s') \<Longrightarrow> look s' m = look s m"
    and others: "step c s = (ack, s') \<Longrightarrow> m \<noteq> owner c \<Longrightarrow> look s' m = look s m"
begin

fun runs :: "'c list \<Rightarrow> 's \<Rightarrow> bool list \<times> 's" where
  "runs [] s = ([], s)"
| "runs (c # cs) s = (let (ack, s) = step c s; (acks, s) = runs cs s in (ack # acks, s))"

lemma runs_spec: "runs cs s = (acks, s') \<Longrightarrow> look s' m = specRun owner opOf m (zip cs acks) (look s m)"
proof (induction cs arbitrary: s acks)
  case (Cons c cs)
  obtain ack s1 where s1: "step c s = (ack, s1)" by force
  obtain acks' where a: "runs cs s1 = (acks', s')" "acks = ack # acks'" using Cons.prems s1 by (auto split: prod.splits)
  have "look s1 m = (if ack \<and> owner c = m then applyOp (opOf c) (look s m) else look s m)"
    using acked[of c s s1] refused[of c s s1 m] others[of c s ack s1 m] s1 by (cases ack) auto
  then show ?case using Cons.IH[OF a(1)] by (simp add: a(2) specRun_def)
qed (simp add: specRun_def)

end

section \<open>Calls\<close>

definition nextBuckets :: "storage_op \<Rightarrow> string \<Rightarrow> buckets \<Rightarrow> buckets" where
  "nextBuckets op m ms =
     (case op of
        SetOp key value \<Rightarrow> AList.update m (AList.update key value (bucketOf ms m)) ms
      | DeleteOp key \<Rightarrow> AList.update m (AList.delete key (bucketOf ms m)) ms
      | ClearOp \<Rightarrow> AList.delete m ms)"

definition admitted :: "storage_op \<Rightarrow> string \<Rightarrow> buckets \<Rightarrow> bool" where
  "admitted op m ms =
     (case op of
        SetOp key value \<Rightarrow> \<not> entryTooLong (key, value) \<and> (length (bucketOf ms m) < maxPersistentKeys \<or> map_of (bucketOf ms m) key \<noteq> None) \<and>
          persistentBucketBytes (AList.update key value (bucketOf ms m)) \<le> maxPersistentModuleBytes
      | DeleteOp key \<Rightarrow> map_of (bucketOf ms m) key \<noteq> None
      | ClearOp \<Rightarrow> True)"

definition spent :: "nat \<Rightarrow> scriptStore \<Rightarrow> scriptStore" where
  "spent a s = s\<lparr>psCommits := (psCommits s)(a := psCommits s a + 1)\<rparr>"

lemma spent_simps [simp]:
  "psModules (spent a s) = psModules s" "psFile (spent a s) = psFile s" "psPath (spent a s) = psPath s" "psLoadErr (spent a s) = psLoadErr s"
  "psCommits (spent a s) = (psCommits s)(a := psCommits s a + 1)"
  by (simp_all add: spent_def)

lemma look_absent: "map_of ms m = None \<Longrightarrow> (\<lambda>k. map_of (bucketOf ms m) k) = Map.empty"
  by (simp add: bucketOf_def)

lemma spend_spent: "spend a s = (psCommits s a < maxPersistentCommitsPerAction, spent a s)"
  by (simp add: spend_def spent_def Suc_le_eq)

lemma bool_case_if: "(case b of True \<Rightarrow> u | False \<Rightarrow> v) = (if b then u else v)"
  by (cases b) simp_all

lemmas call_forms = storageSet_def storageDelete_def storageClear_def spend_spent bool_case_if Let_def spent_simps

lemma step_cases:
  assumes "storageCallStep marshal c s = (ack, s')"
  obtains (kept) "s' = s \<or> s' = spent (scAction c) s" "ack \<Longrightarrow> applyOp (scOp c) (map_of (bucketOf (psModules s) (scModule c))) = map_of (bucketOf (psModules s) (scModule c))"
  | (attempt) "commitStore marshal (scFaults c) (nextBuckets (scOp c) (scModule c) (psModules s)) (spent (scAction c) s) = (ack, s')"
      "psCommits s (scAction c) < maxPersistentCommitsPerAction" "admitted (scOp c) (scModule c) (psModules s)" "\<not> psLoadErr s"
proof (cases "scOp c")
  case (SetOp key v)
  then show thesis using assms kept attempt
    by (auto simp: storageCallStep_def call_forms nextBuckets_def admitted_def entryTooLong_def not_less fun_upd_idem split: if_splits)
next
  case (DeleteOp key)
  then show thesis using assms kept attempt
    by (auto simp: storageCallStep_def call_forms nextBuckets_def admitted_def split: if_splits)
next
  case ClearOp
  then show thesis using assms kept attempt look_absent[of "psModules s" "scModule c"]
    by (auto simp: storageCallStep_def call_forms nextBuckets_def admitted_def split: if_splits)
qed

lemma commitStore_cases:
  assumes "commitStore marshal f next s = (ack, s')"
  shows "psModules s' = (if ack then next else psModules s)" "psCommits s' = psCommits s" "psLoadErr s' = psLoadErr s" "psPath s' = psPath s"
    and "psFile s' = psFile s \<or> psFile s' = Some (marshal next) \<and> length (marshal next) \<le> maxPersistentStoreBytes"
    and "ack \<Longrightarrow> psPath s \<Longrightarrow> psFile s' = Some (marshal next)"
    and "psFile s' \<noteq> psFile s \<Longrightarrow> \<not> sfSyncDir f \<Longrightarrow> ack"
  using assms
  by (auto simp: commitStore_def savePersistent_def marshalPersistentSnapshot_def Let_def not_less split: if_splits option.splits)

lemma look_next: "map_of (bucketOf (nextBuckets op m ms) m') = (if m' = m then applyOp op (map_of (bucketOf ms m)) else map_of (bucketOf ms m'))"
  by (cases op) (auto simp: nextBuckets_def bucketOf_def AList.update_conv' AList.delete_conv' split: option.splits)

lemma step_look:
  assumes "storageCallStep marshal c s = (ack, s')"
  shows "map_of (bucketOf (psModules s') m) =
    (if ack \<and> m = scModule c then applyOp (scOp c) (map_of (bucketOf (psModules s) m)) else map_of (bucketOf (psModules s) m))"
  using assms
proof (cases rule: step_cases)
  case kept
  then show ?thesis by auto
next
  case attempt
  then show ?thesis using commitStore_cases(1)[OF attempt(1)] by (simp add: look_next)
qed

interpretation ext: keyed_store "\<lambda>s m. map_of (bucketOf (psModules s) m)" "storageCallStep marshal" scModule scOp for marshal
  by unfold_locales (auto simp: step_look)

text \<open>A sequence of calls, with their answers.\<close>

fun storageRun :: "(buckets \<Rightarrow> string) \<Rightarrow> storageCall list \<Rightarrow> scriptStore \<Rightarrow> bool list \<times> scriptStore" where
  "storageRun marshal [] s = ([], s)"
| "storageRun marshal (c # cs) s = (let (ack, s) = storageCallStep marshal c s; (acks, s) = storageRun marshal cs s in (ack # acks, s))"

lemma storageRun_runs: "storageRun marshal cs s = ext.runs marshal cs s"
  by (induction cs arbitrary: s) (simp_all split: prod.splits)

text \<open>C28: Whatever calls the actions of all extensions make, in whatever order and with whatever failures of the disk,
every extension reads exactly the map its own acknowledged calls make of what it started with; calls of other extensions and
calls that were refused leave no trace in it.\<close>
theorem storage_refines_maps:
  "storageGet m key (snd (storageRun marshal cs s)) =
     specRun scModule scOp m (zip cs (fst (storageRun marshal cs s))) (\<lambda>key. storageGet m key s) key"
  using ext.runs_spec[of marshal cs s "fst (storageRun marshal cs s)" "snd (storageRun marshal cs s)" m]
  by (simp add: storageGet_def[abs_def] storageRun_runs)

section \<open>Shape and quotas\<close>

text \<open>Go maps have distinct keys.\<close>

definition decodesMaps :: "unmarshaller \<Rightarrow> bool" where
  "decodesMaps unmarshal \<longleftrightarrow>
     (\<forall>body st. unmarshal body = Some (Some st) \<longrightarrow> distinct (map fst st) \<and> (\<forall>(i, v)\<in>set st. \<forall>b. v = Some b \<longrightarrow> distinct (map fst b)))"

definition bucketOK :: "bucket \<Rightarrow> bool" where
  "bucketOK b \<longleftrightarrow> distinct (map fst b) \<and> length b \<le> maxPersistentKeys \<and> (\<forall>e\<in>set b. \<not> entryTooLong e)"

definition bucketsOK :: "buckets \<Rightarrow> bool" where
  "bucketsOK ms \<longleftrightarrow> distinct (map fst ms) \<and> (\<forall>(m, b)\<in>set ms. validModuleID m \<and> bucketOK b)"

lemma bucket_update_subset: "set (AList.update k v al) \<subseteq> insert (k, v) (set al)"
  by (induction al) auto

lemma length_alist_update: "length (AList.update k v al) = (if map_of al k = None then Suc (length al) else length al)"
  by (induction al) auto

lemma bucketOf_in: "bucketOf ms m = [] \<or> (m, bucketOf ms m) \<in> set ms"
  by (auto simp: bucketOf_def split: option.splits dest: map_of_SomeD)

lemma bucketOK_bucketOf: "bucketsOK ms \<Longrightarrow> bucketOK (bucketOf ms m)"
  using bucketOf_in[of ms m] by (auto simp: bucketsOK_def bucketOK_def)

lemma bucketOK_update:
  assumes "bucketOK b" "\<not> entryTooLong (k, v)" "length b < maxPersistentKeys \<or> map_of b k \<noteq> None"
  shows "bucketOK (AList.update k v b)"
  using assms bucket_update_subset[of k v b]
  by (auto simp: bucketOK_def length_alist_update AList.distinct_update split: if_splits)

lemma bucketOK_delete: "bucketOK b \<Longrightarrow> bucketOK (AList.delete k b)"
  by (auto simp: bucketOK_def AList.distinct_delete AList.delete_eq intro: le_trans[OF length_filter_le] distinct_map_filter)

lemma bucketsOK_next:
  assumes "bucketsOK ms" "admitted op m ms" "validModuleID m"
  shows "bucketsOK (nextBuckets op m ms)"
proof (cases op)
  case (SetOp key v)
  have "bucketOK (AList.update key v (bucketOf ms m))"
    using assms(2) bucketOK_bucketOf[OF assms(1)] by (intro bucketOK_update) (auto simp: admitted_def SetOp)
  then show ?thesis using assms(1,3) bucket_update_subset[of m "AList.update key v (bucketOf ms m)" ms]
    by (auto simp: nextBuckets_def SetOp bucketsOK_def AList.distinct_update)
next
  case (DeleteOp key)
  have "bucketOK (AList.delete key (bucketOf ms m))" using bucketOK_bucketOf[OF assms(1)] by (rule bucketOK_delete)
  then show ?thesis using assms(1,3) bucket_update_subset[of m "AList.delete key (bucketOf ms m)" ms]
    by (auto simp: nextBuckets_def DeleteOp bucketsOK_def AList.distinct_update)
next
  case ClearOp
  then show ?thesis using assms(1)
    by (auto simp: nextBuckets_def bucketsOK_def AList.delete_eq intro: distinct_map_filter)
qed

lemma loaded_bucketsOK:
  assumes "decodesMaps unmarshal" "loadPersistent unmarshal file = Inr ms"
  shows "bucketsOK ms"
proof -
  obtain body st where st: "unmarshal body = Some (Some st)" "\<not> list_ex bucketRefused st" "ms = map (\<lambda>(i, b). (i, the b)) st"
    using assms(2) by (auto simp: loadPersistent_def split: stored_file.splits if_splits option.splits)
  have "distinct (map fst ms)" using assms(1) st(1) unfolding st(3) by (simp add: decodesMaps_def comp_def case_prod_beta')
  moreover have "validModuleID i \<and> bucketOK (the v)" if "(i, v) \<in> set st" for i v
  proof -
    have "\<not> bucketRefused (i, v)" using st(2) that by (auto simp: list_ex_iff)
    then obtain b where "v = Some b" "validModuleID i" "length b \<le> maxPersistentKeys" "\<not> list_ex entryTooLong b"
      by (auto simp: bucketRefused_def split: option.splits)
    moreover have "distinct (map fst b)" if "v = Some b" for b using assms(1) st(1) \<open>(i, v) \<in> set st\<close> that unfolding decodesMaps_def by fastforce
    ultimately show ?thesis by (auto simp: bucketOK_def list_ex_iff)
  qed
  ultimately show ?thesis by (auto simp: bucketsOK_def st(3))
qed

lemma new_bucketsOK: "decodesMaps unmarshal \<Longrightarrow> bucketsOK (psModules (newScriptRuntime unmarshal file))"
  using loaded_bucketsOK[of unmarshal "file"]
  by (cases "loadPersistent unmarshal file") (auto simp: newScriptRuntime_def Let_def bucketsOK_def[of "[]"] split: load_error.split)

definition quotaOK :: "(string \<Rightarrow> nat) \<Rightarrow> buckets \<Rightarrow> bool" where
  "quotaOK start ms \<longleftrightarrow> (\<forall>m. persistentBucketBytes (bucketOf ms m) \<le> max maxPersistentModuleBytes (start m))"

lemma bytes_delete: "persistentBucketBytes (AList.delete k b) \<le> persistentBucketBytes b"
  by (induction b) (auto simp: persistentBucketBytes_def)

lemma bucketOf_next:
  "bucketOf (nextBuckets op m ms) m' =
     (if m' \<noteq> m then bucketOf ms m'
      else case op of SetOp key value \<Rightarrow> AList.update key value (bucketOf ms m) | DeleteOp key \<Rightarrow> AList.delete key (bucketOf ms m) | ClearOp \<Rightarrow> [])"
  by (cases op) (auto simp: nextBuckets_def bucketOf_def AList.update_conv' AList.delete_conv')

lemma quotaOK_next: "quotaOK start ms \<Longrightarrow> admitted op m ms \<Longrightarrow> quotaOK start (nextBuckets op m ms)"
  unfolding quotaOK_def
  by (cases op) (auto simp: bucketOf_next admitted_def persistentBucketBytes_def le_max_iff_disj intro: le_trans[OF bytes_delete[unfolded persistentBucketBytes_def]])

lemma step_shape:
  assumes "storageCallStep marshal c s = (ack, s')" "bucketsOK (psModules s)" "quotaOK start (psModules s)" "validModuleID (scModule c)"
  shows "bucketsOK (psModules s') \<and> quotaOK start (psModules s')"
  using assms(1)
proof (cases rule: step_cases)
  case kept
  then show ?thesis using assms by auto
next
  case attempt
  then show ?thesis using commitStore_cases(1)[OF attempt(1)] assms bucketsOK_next quotaOK_next by simp
qed

lemma run_shape:
  "bucketsOK (psModules s) \<Longrightarrow> quotaOK start (psModules s) \<Longrightarrow> \<forall>c\<in>set cs. validModuleID (scModule c) \<Longrightarrow>
   bucketsOK (psModules (snd (storageRun marshal cs s))) \<and> quotaOK start (psModules (snd (storageRun marshal cs s)))"
proof (induction cs arbitrary: s)
  case (Cons c cs)
  obtain ack s' where s': "storageCallStep marshal c s = (ack, s')" by force
  then show ?case using Cons.IH[of s'] step_shape[OF s' Cons.prems(1,2)] Cons.prems(3) by (simp add: case_prod_beta' Let_def)
qed simp

text \<open>How often the calls of one action replace the file.\<close>

fun fileWrites :: "(buckets \<Rightarrow> string) \<Rightarrow> nat \<Rightarrow> storageCall list \<Rightarrow> scriptStore \<Rightarrow> nat" where
  "fileWrites marshal a [] s = 0"
| "fileWrites marshal a (c # cs) s =
     (let s' = snd (storageCallStep marshal c s)
      in (if scAction c = a \<and> psFile s' \<noteq> psFile s then 1 else 0) + fileWrites marshal a cs s')"

lemma step_commits:
  assumes "storageCallStep marshal c s = (ack, s')"
  shows "psCommits s a \<le> psCommits s' a \<and> (psFile s' \<noteq> psFile s \<longrightarrow> psCommits s' (scAction c) = Suc (psCommits s (scAction c)) \<and>
    psCommits s (scAction c) < maxPersistentCommitsPerAction)"
  using assms
proof (cases rule: step_cases)
  case kept
  then show ?thesis by auto
next
  case attempt
  then show ?thesis using commitStore_cases(2)[OF attempt(1)] by simp
qed

lemma fileWrites_bound: "fileWrites marshal a cs s \<le> maxPersistentCommitsPerAction - psCommits s a"
proof (induction cs arbitrary: s)
  case (Cons c cs)
  obtain ack s' where s': "storageCallStep marshal c s = (ack, s')" by force
  show ?case using Cons.IH[of s'] step_commits[OF s', of a] step_commits[OF s', of "scAction c"] by (auto simp: s' Let_def)
qed simp


section \<open>Restarting\<close>

text \<open>The same maps, whatever the order of their entries.\<close>

definition sameBuckets :: "buckets \<Rightarrow> buckets \<Rightarrow> bool" where
  "sameBuckets ms ms' \<longleftrightarrow> (\<forall>i. rel_option (\<lambda>b b'. map_of b = map_of b') (map_of ms i) (map_of ms' i))"

text \<open>Strings of a script arrive as UTF-8.\<close>

definition textBucket :: "bucket \<Rightarrow> bool" where
  "textBucket b \<longleftrightarrow> (\<forall>(key, v)\<in>set b. validUTF8 key \<and> validUTF8 v)"

definition textBuckets :: "buckets \<Rightarrow> bool" where
  "textBuckets ms \<longleftrightarrow> (\<forall>(i, b)\<in>set ms. textBucket b)"

definition textOp :: "storage_op \<Rightarrow> bool" where
  "textOp op = (case op of SetOp key v \<Rightarrow> validUTF8 key \<and> validUTF8 v | _ \<Rightarrow> True)"

lemma textBuckets_next:
  assumes "textBuckets ms" "textOp op"
  shows "textBuckets (nextBuckets op m ms)"
proof -
  have b: "textBucket (bucketOf ms m)" using assms(1) bucketOf_in[of ms m] by (auto simp: textBuckets_def textBucket_def)
  have u: "textBuckets (AList.update m b' ms)" if "textBucket b'" for b'
    using assms(1) that bucket_update_subset[of m b' ms] by (auto simp: textBuckets_def)
  show ?thesis
  proof (cases op)
    case (SetOp key v)
    then have "textBucket (AList.update key v (bucketOf ms m))" using b assms(2) bucket_update_subset[of key v "bucketOf ms m"]
      by (auto simp: textBucket_def textOp_def)
    then show ?thesis by (simp add: nextBuckets_def SetOp u)
  next
    case (DeleteOp key)
    have "textBucket (AList.delete key (bucketOf ms m))" using b by (auto simp: textBucket_def AList.delete_eq)
    then show ?thesis by (simp add: nextBuckets_def DeleteOp u)
  next
    case ClearOp
    then show ?thesis using assms(1) by (auto simp: nextBuckets_def textBuckets_def AList.delete_eq)
  qed
qed

lemma step_text:
  assumes "storageCallStep marshal c s = (ack, s')" "textBuckets (psModules s)" "textOp (scOp c)"
  shows "textBuckets (psModules s')"
  using assms(1)
proof (cases rule: step_cases)
  case kept
  then show ?thesis using assms by auto
next
  case attempt
  then show ?thesis using commitStore_cases(1)[OF attempt(1)] assms textBuckets_next by simp
qed

text \<open>
  What is used of \<^verbatim>\<open>encoding/json\<close>: it decodes maps to maps of UTF-8 strings, and the text of a map of maps of UTF-8 strings is
  UTF-8 and decodes to the same maps.
\<close>

definition jsonMaps :: "(buckets \<Rightarrow> string) \<Rightarrow> unmarshaller \<Rightarrow> bool" where
  "jsonMaps marshal unmarshal \<longleftrightarrow> decodesMaps unmarshal \<and>
     (\<forall>body st. unmarshal body = Some (Some st) \<longrightarrow> (\<forall>(i, v)\<in>set st. \<forall>b. v = Some b \<longrightarrow> textBucket b)) \<and>
     (\<forall>ms. distinct (map fst ms) \<and> (\<forall>(i, b)\<in>set ms. validModuleID i \<and> distinct (map fst b)) \<and> textBuckets ms \<longrightarrow>
        validUTF8 (marshal ms) \<and> (\<exists>st. unmarshal (marshal ms) = Some (Some (map (\<lambda>(i, b). (i, Some b)) st)) \<and> sameBuckets st ms))"

lemma sameBuckets_look: "sameBuckets ms ms' \<Longrightarrow> map_of (bucketOf ms m) = map_of (bucketOf ms' m)"
  unfolding sameBuckets_def bucketOf_def by (force split: option.splits dest: spec[of _ m])

lemma same_entries:
  assumes "map_of b = map_of b'" "distinct (map fst b)" "distinct (map fst b')"
  shows "set b = set b'" "length b = length b'"
proof -
  show s: "set b = set b'" using assms map_of_inject_set by blast
  have "distinct b" "distinct b'" using assms(2,3) by (simp_all add: distinct_map)
  then show "length b = length b'" using s by (metis distinct_card)
qed

lemma sameBuckets_accepted:
  assumes "sameBuckets st ms" "bucketsOK ms" "distinct (map fst st)" "\<forall>(i, b)\<in>set st. distinct (map fst b)"
  shows "\<not> list_ex bucketRefused (map (\<lambda>(i, b). (i, Some b)) st)"
proof -
  have "\<not> bucketRefused (i, Some b)" if e: "(i, b) \<in> set st" for i b
  proof -
    have "map_of st i = Some b" using assms(3) e by simp
    then obtain b' where b': "map_of ms i = Some b'" "map_of b = map_of b'"
      using assms(1)[unfolded sameBuckets_def, rule_format, of i] by (cases "map_of ms i") auto
    then have ok: "validModuleID i" "bucketOK b'" using assms(2) map_of_SomeD[OF b'(1)] by (auto simp: bucketsOK_def)
    have "distinct (map fst b)" using assms(4) e by auto
    from same_entries[OF b'(2) this] ok show ?thesis
      by (auto simp: bucketRefused_def bucketOK_def list_ex_iff)
  qed
  then show ?thesis by (auto simp: list_ex_iff)
qed

lemma load_marshalled:
  assumes "jsonMaps marshal unmarshal" "bucketsOK ms" "textBuckets ms" "length (marshal ms) \<le> maxPersistentStoreBytes"
  shows "\<exists>ms'. loadPersistent unmarshal (FileContent (marshal ms)) = Inr ms' \<and> sameBuckets ms' ms"
proof -
  have d: "distinct (map fst ms) \<and> (\<forall>(i, b)\<in>set ms. validModuleID i \<and> distinct (map fst b)) \<and> textBuckets ms" using assms(2,3) by (auto simp: bucketsOK_def bucketOK_def)
  then obtain st where st: "validUTF8 (marshal ms)" "unmarshal (marshal ms) = Some (Some (map (\<lambda>(i, b). (i, Some b)) st))" "sameBuckets st ms"
    using assms(1) unfolding jsonMaps_def by blast
  have "distinct (map fst (map (\<lambda>(i, b). (i, Some b)) st)) \<and> (\<forall>(i, v)\<in>set (map (\<lambda>(i, b). (i, Some b)) st). \<forall>b. v = Some b \<longrightarrow> distinct (map fst b))"
    using assms(1) st(2) unfolding jsonMaps_def decodesMaps_def by blast
  then have "distinct (map fst st)" "\<forall>(i, b)\<in>set st. distinct (map fst b)" by (auto simp: comp_def case_prod_beta')
  from sameBuckets_accepted[OF st(3) assms(2) this] st assms(4) show ?thesis
    by (intro exI[of _ st]) (simp add: loadPersistent_def comp_def case_prod_beta' not_less)
qed

definition diskOf :: "scriptStore \<Rightarrow> stored_file" where
  "diskOf s = (case psFile s of None \<Rightarrow> FileMissing | Some body \<Rightarrow> FileContent body)"

text \<open>The file holds what is published.\<close>

definition agrees :: "unmarshaller \<Rightarrow> scriptStore \<Rightarrow> bool" where
  "agrees unmarshal s \<longleftrightarrow> psPath s \<and> \<not> psLoadErr s \<and>
     (case psFile s of
        None \<Rightarrow> psModules s = []
      | Some body \<Rightarrow> \<exists>ms. loadPersistent unmarshal (FileContent body) = Inr ms \<and> sameBuckets ms (psModules s))"

lemma sameBuckets_refl [simp]: "sameBuckets ms ms"
  by (simp add: sameBuckets_def option.rel_refl)

lemma new_agrees: "\<not> psLoadErr (newScriptRuntime unmarshal f) \<Longrightarrow> agrees unmarshal (newScriptRuntime unmarshal f)"
  by (cases f; cases "loadPersistent unmarshal f")
    (auto simp: agrees_def newScriptRuntime_def Let_def loadPersistent_def split: load_error.splits if_splits option.splits)

lemma agrees_restart:
  assumes "agrees unmarshal s"
  shows "storageGet m key (newScriptRuntime unmarshal (diskOf s)) = storageGet m key s \<and> \<not> psLoadErr (newScriptRuntime unmarshal (diskOf s))"
proof (cases "psFile s")
  case None
  then show ?thesis using assms by (simp add: agrees_def diskOf_def newScriptRuntime_def loadPersistent_def storageGet_def)
next
  case (Some body)
  then obtain ms where "loadPersistent unmarshal (FileContent body) = Inr ms" "sameBuckets ms (psModules s)" using assms by (auto simp: agrees_def)
  then show ?thesis using sameBuckets_look[of ms "psModules s" m] by (simp add: Some diskOf_def newScriptRuntime_def storageGet_def Let_def)
qed

lemma agrees_step:
  assumes json: "jsonMaps marshal unmarshal" and step: "storageCallStep marshal c s = (ack, s')"
    and s: "agrees unmarshal s" "bucketsOK (psModules s)" "validModuleID (scModule c)" "\<not> sfSyncDir (scFaults c)"
      "textBuckets (psModules s)" "textOp (scOp c)"
  shows "agrees unmarshal s'"
  using step
proof (cases rule: step_cases)
  case kept
  then show ?thesis using s(1) by (auto simp: agrees_def split: option.splits)
next
  case attempt
  note c = commitStore_cases[OF attempt(1)]
  let ?next = "nextBuckets (scOp c) (scModule c) (psModules s)"
  show ?thesis
  proof (cases ack)
    case True
    have p: "psPath s" using s(1) by (simp add: agrees_def)
    have f: "psFile s' = Some (marshal ?next)" using c(6) True p by simp
    have "length (marshal ?next) \<le> maxPersistentStoreBytes"
      using attempt(1) True p by (auto simp: commitStore_def savePersistent_def marshalPersistentSnapshot_def Let_def not_less split: if_splits)
    from load_marshalled[OF json bucketsOK_next[OF s(2) attempt(3) s(3)] textBuckets_next[OF s(5,6)] this] show ?thesis
      using f c(1,3,4) True p s(1) by (simp add: agrees_def)
  next
    case False
    then have "psFile s' = psFile s" using c(7) s(4) by auto
    then show ?thesis using c(1,3,4) False s(1) by (simp add: agrees_def split: option.splits)
  qed
qed

lemma agrees_run:
  "jsonMaps marshal unmarshal \<Longrightarrow> agrees unmarshal s \<Longrightarrow> bucketsOK (psModules s) \<Longrightarrow> textBuckets (psModules s) \<Longrightarrow>
   \<forall>c\<in>set cs. validModuleID (scModule c) \<and> textOp (scOp c) \<and> \<not> sfSyncDir (scFaults c) \<Longrightarrow> agrees unmarshal (snd (storageRun marshal cs s))"
proof (induction cs arbitrary: s)
  case (Cons c cs)
  obtain ack s' where s': "storageCallStep marshal c s = (ack, s')" by force
  have "bucketsOK (psModules s')"
    using step_shape[OF s' Cons.prems(3), of "\<lambda>m. persistentBucketBytes (bucketOf (psModules s) m)"] Cons.prems(5) by (simp add: quotaOK_def)
  moreover have "agrees unmarshal s'" using agrees_step[OF Cons.prems(1) s' Cons.prems(2,3)] Cons.prems(4,5) by simp
  moreover have "textBuckets (psModules s')" using step_text[OF s' Cons.prems(4)] Cons.prems(5) by simp
  ultimately show ?case using Cons.IH[of s'] Cons.prems(1,5) s' by (simp add: case_prod_beta' Let_def)
qed simp

lemma new_text:
  assumes "jsonMaps marshal unmarshal"
  shows "textBuckets (psModules (newScriptRuntime unmarshal file))"
proof (cases "loadPersistent unmarshal file")
  case (Inl e)
  then show ?thesis by (cases e) (simp_all add: newScriptRuntime_def Let_def textBuckets_def)
next
  case (Inr ms)
  obtain body st where st: "unmarshal body = Some (Some st)" "\<not> list_ex bucketRefused st" "ms = map (\<lambda>(i, b). (i, the b)) st"
    using Inr by (auto simp: loadPersistent_def split: stored_file.splits if_splits option.splits)
  have "textBucket (the v)" if "(i, v) \<in> set st" for i v
    using assms st(1,2) that by (fastforce simp: jsonMaps_def list_ex_iff bucketRefused_def split: option.splits)
  then show ?thesis using Inr st(3) by (auto simp: newScriptRuntime_def textBuckets_def Let_def)
qed


section \<open>An example\<close>

text \<open>A text for maps of maps in which every byte is spelled in eight digits.\<close>

fun exByte :: "char \<Rightarrow> string" where
  "exByte (Char b0 b1 b2 b3 b4 b5 b6 b7) = map (\<lambda>b. if b then CHR ''1'' else CHR ''0'') [b0, b1, b2, b3, b4, b5, b6, b7]"

fun exText :: "string \<Rightarrow> string" where
  "exText [] = ''.''"
| "exText (c # cs) = CHR ''c'' # exByte c @ exText cs"

fun exByteOf :: "string \<Rightarrow> char" where
  "exByteOf [b0, b1, b2, b3, b4, b5, b6, b7] =
     Char (b0 = CHR ''1'') (b1 = CHR ''1'') (b2 = CHR ''1'') (b3 = CHR ''1'') (b4 = CHR ''1'') (b5 = CHR ''1'') (b6 = CHR ''1'') (b7 = CHR ''1'')"
| "exByteOf _ = CHR ''?''"

fun exReadText :: "string \<Rightarrow> (string \<times> string) option" where
  "exReadText [] = None"
| "exReadText (x # rest) =
     (if x = CHR ''.'' then Some ([], rest)
      else if x = CHR ''c'' then map_option (apfst (\<lambda>cs. exByteOf (take 8 rest) # cs)) (exReadText (drop 8 rest))
      else None)"

lemma exByte_roundtrip: "exByteOf (exByte c) = c" "length (exByte c) = 8"
  by (cases c; simp)+

lemma exReadText_text: "exReadText (exText s @ rest) = Some (s, rest)"
  by (induction s) (simp_all add: exByte_roundtrip)

text \<open>A list of items, each announced by a plus sign.\<close>

fun exList :: "('a \<Rightarrow> string) \<Rightarrow> 'a list \<Rightarrow> string" where
  "exList f [] = ''-''"
| "exList f (x # xs) = CHR ''+'' # f x @ exList f xs"

fun exReadList :: "nat \<Rightarrow> (string \<Rightarrow> ('a \<times> string) option) \<Rightarrow> string \<Rightarrow> ('a list \<times> string) option" where
  "exReadList 0 f s = None"
| "exReadList (Suc n) f s =
     (case s of
        [] \<Rightarrow> None
      | x # rest \<Rightarrow>
          (if x = CHR ''-'' then Some ([], rest)
           else (case f rest of None \<Rightarrow> None | Some (a, rest) \<Rightarrow> map_option (apfst (\<lambda>as. a # as)) (exReadList n f rest))))"

lemma exReadList_list:
  "(\<And>x rest. x \<in> set xs \<Longrightarrow> g (f x @ rest) = Some (x, rest)) \<Longrightarrow> length xs < n \<Longrightarrow> exReadList n g (exList f xs @ rest) = Some (xs, rest)"
proof (induction xs arbitrary: n)
  case Nil
  then show ?case by (cases n) simp_all
next
  case (Cons x xs)
  then obtain k where "n = Suc k" "length xs < k" by (cases n) auto
  then show ?case using Cons by simp
qed

lemma exList_length: "length xs < length (exList f xs)"
  by (induction xs) auto

definition exEntry :: "string \<times> string \<Rightarrow> string" where "exEntry e = exText (fst e) @ exText (snd e)"

definition exReadEntry :: "string \<Rightarrow> ((string \<times> string) \<times> string) option" where
  "exReadEntry s = (case exReadText s of None \<Rightarrow> None | Some (k, s) \<Rightarrow> map_option (apfst (\<lambda>v. (k, v))) (exReadText s))"

definition exBucket :: "string \<times> bucket \<Rightarrow> string" where "exBucket e = exText (fst e) @ exList exEntry (snd e)"

definition exReadBucket :: "string \<Rightarrow> ((string \<times> bucket) \<times> string) option" where
  "exReadBucket s = (case exReadText s of None \<Rightarrow> None | Some (k, s) \<Rightarrow> map_option (apfst (\<lambda>v. (k, v))) (exReadList (length s) exReadEntry s))"

definition exMarshal :: "buckets \<Rightarrow> string" where "exMarshal ms = exList exBucket ms"

definition exUnmarshal :: unmarshaller where
  "exUnmarshal s =
     (case exReadList (length s) exReadBucket s of
        Some (ms, []) \<Rightarrow>
          (if distinct (map fst ms) \<and> list_all (\<lambda>(i, b). distinct (map fst b) \<and> textBucket b) ms then Some (Some (map (\<lambda>(i, b). (i, Some b)) ms)) else None)
      | _ \<Rightarrow> None)"

lemma exReadEntry_entry: "exReadEntry (exEntry e @ rest) = Some (e, rest)"
  by (simp add: exReadEntry_def exEntry_def exReadText_text)

lemma exReadBucket_bucket: "exReadBucket (exBucket e @ rest) = Some (e, rest)"
proof -
  have "exReadList (length (exList exEntry (snd e) @ rest)) exReadEntry (exList exEntry (snd e) @ rest) = Some (snd e, rest)"
    by (rule exReadList_list) (use exReadEntry_entry exList_length[of "snd e" exEntry] in auto)
  then show ?thesis by (simp add: exReadBucket_def exBucket_def exReadText_text)
qed

lemma exReadList_marshal: "exReadList (length (exMarshal ms)) exReadBucket (exMarshal ms) = Some (ms, [])"
  using exReadList_list[of ms exReadBucket exBucket "length (exMarshal ms)" "[]"] exReadBucket_bucket exList_length[of ms exBucket]
  by (simp add: exMarshal_def)

lemma low_bytes_validUTF8: "\<forall>c\<in>set s. code c < 128 \<Longrightarrow> validUTF8 s"
proof (induction s)
  case (Cons c s)
  then have "runeOK (c # s)" "runeWidth (c # s) = 1" by (simp_all add: runeOK_def runeWidth_def decodeRune.simps Let_def)
  then show ?case using Cons by (subst validUTF8.simps) simp
qed simp

lemma exMarshal_ascii: "c \<in> set (exMarshal ms) \<Longrightarrow> code c < 128"
proof -
  have "set (exByte x) \<subseteq> {CHR ''0'', CHR ''1''}" for x by (cases x) auto
  then have digit: "code c < 128" if "c \<in> set (exByte x)" for x using that by (fastforce simp: code_def)
  have txts: "code c < 128" if "c \<in> set (exText x)" for x using that digit by (induction x) (auto simp: code_def)
  have entry: "code c < 128" if "c \<in> set (exList exEntry b)" for b using that txts by (induction b) (auto simp: code_def exEntry_def)
  show "c \<in> set (exMarshal ms) \<Longrightarrow> code c < 128"
    unfolding exMarshal_def using entry txts by (induction ms) (auto simp: code_def exBucket_def)
qed

lemma exJson: "jsonMaps exMarshal exUnmarshal"
proof -
  have "decodesMaps exUnmarshal"
    unfolding decodesMaps_def exUnmarshal_def
    by (auto simp: list_all_iff comp_def case_prod_beta' split: option.splits list.splits if_splits prod.splits)
  moreover have "\<exists>st. exUnmarshal (exMarshal ms) = Some (Some (map (\<lambda>(i, b). (i, Some b)) st)) \<and> sameBuckets st ms"
    if "distinct (map fst ms) \<and> (\<forall>(i, b)\<in>set ms. validModuleID i \<and> distinct (map fst b)) \<and> textBuckets ms" for ms
    using that by (intro exI[of _ ms]) (auto simp: exUnmarshal_def exReadList_marshal list_all_iff textBuckets_def)
  moreover have "textBucket b" if "exUnmarshal body = Some (Some st)" "(i, Some b) \<in> set st" for body st i b
    using that unfolding exUnmarshal_def by (auto simp: list_all_iff split: option.splits list.splits if_splits prod.splits)
  ultimately show ?thesis using low_bytes_validUTF8 exMarshal_ascii by (fastforce simp: jsonMaps_def)
qed

definition noFaults :: saveFaults where
  "noFaults = \<lparr>sfMkdir = False, sfCreate = False, sfChmod = False, sfWrite = False, sfSync = False, sfClose = False, sfRename = False, sfSyncDir = False\<rparr>"

definition exSet :: "saveFaults \<Rightarrow> string \<Rightarrow> storageCall" where
  "exSet f v = \<lparr>scAction = 0, scModule = ''abc'', scOp = SetOp ''k'' v, scFaults = f\<rparr>"

text \<open>The state after the first write of a value, and the file it leaves.\<close>

definition exStored :: "string option \<Rightarrow> nat \<Rightarrow> buckets \<Rightarrow> scriptStore" where
  "exStored f n ms = \<lparr>psModules = ms, psLoadErr = False, psPath = True, psFile = f, psCommits = (\<lambda>_. 0)(0 := n)\<rparr>"

lemma exStart: "newScriptRuntime exUnmarshal FileMissing = exStored None 0 []"
  by (simp add: newScriptRuntime_def loadPersistent_def exStored_def fun_eq_iff)

lemma exSmall: "length v = 1 \<Longrightarrow> length (exMarshal [(''abc'', [(''k'', v)])]) \<le> maxPersistentStoreBytes"
  by (cases v) (simp_all add: exMarshal_def exBucket_def exEntry_def maxPersistentStoreBytes_def exByte_roundtrip)

lemma exSet_save:
  assumes "length v = 1" "psModules s = [] \<or> psModules s = [(''abc'', [(''k'', w)])] \<and> w \<noteq> v" "psPath s" "\<not> psLoadErr s" "psCommits s 0 < 32"
  shows "storageCallStep exMarshal (exSet f v) s = commitStore exMarshal f [(''abc'', [(''k'', v)])] (spent 0 s)"
proof -
  have "bucketOf (psModules s) ''abc'' = [] \<or> bucketOf (psModules s) ''abc'' = [(''k'', w)] \<and> w \<noteq> v" using assms(2) by (auto simp: bucketOf_def)
  moreover have "AList.update ''abc'' [(''k'', v)] (psModules s) = [(''abc'', [(''k'', v)])]" using assms(2) by auto
  ultimately show ?thesis using assms(1,3-5)
    by (auto simp: storageCallStep_def exSet_def call_forms maxPersistentKeyBytes_def maxPersistentValueBytes_def maxPersistentKeys_def
        persistentBucketBytes_def maxPersistentModuleBytes_def maxPersistentCommitsPerAction_def)
qed

lemma exSet_saved:
  "storageCallStep exMarshal (exSet noFaults ''v'') (exStored None 0 []) = (True, exStored (Some (exMarshal [(''abc'', [(''k'', ''v'')])])) (Suc 0) [(''abc'', [(''k'', ''v'')])])"
proof -
  have e: "storageCallStep exMarshal (exSet noFaults ''v'') (exStored None 0 []) = commitStore exMarshal noFaults [(''abc'', [(''k'', ''v'')])] (spent 0 (exStored None 0 []))"
    by (rule exSet_save) (simp_all add: exStored_def)
  show ?thesis unfolding e using exSmall[of "''v''"]
    by (simp add: commitStore_def savePersistent_def marshalPersistentSnapshot_def noFaults_def exStored_def spent_def Let_def)
qed

lemma exSet_unsynced:
  "storageCallStep exMarshal (exSet (noFaults\<lparr>sfSync := True\<rparr>) ''w'') (exStored (Some file) (Suc 0) [(''abc'', [(''k'', ''v'')])]) =
     (False, exStored (Some file) (Suc (Suc 0)) [(''abc'', [(''k'', ''v'')])])"
proof -
  have e: "storageCallStep exMarshal (exSet (noFaults\<lparr>sfSync := True\<rparr>) ''w'') (exStored (Some file) (Suc 0) [(''abc'', [(''k'', ''v'')])]) =
      commitStore exMarshal (noFaults\<lparr>sfSync := True\<rparr>) [(''abc'', [(''k'', ''w'')])] (spent 0 (exStored (Some file) (Suc 0) [(''abc'', [(''k'', ''v'')])]))"
    by (rule exSet_save[where w = "''v''"]) (simp_all add: exStored_def)
  show ?thesis unfolding e using exSmall[of "''w''"]
    by (simp add: commitStore_def savePersistent_def marshalPersistentSnapshot_def noFaults_def exStored_def spent_def Let_def)
qed



text \<open>A write that is refused because the directory could not be synchronised is read after a restart.\<close>

lemma refused_write_survives_restart:
  "\<exists>s. storageCallStep exMarshal (exSet (noFaults\<lparr>sfSyncDir := True\<rparr>) ''v'') (newScriptRuntime exUnmarshal FileMissing) = (False, s) \<and>
     storageGet ''abc'' ''k'' s = None \<and> storageGet ''abc'' ''k'' (newScriptRuntime exUnmarshal (diskOf s)) = Some ''v''"
proof -
  let ?ms = "[(''abc'', [(''k'', ''v'')])]"
  have e: "storageCallStep exMarshal (exSet (noFaults\<lparr>sfSyncDir := True\<rparr>) ''v'') (exStored None 0 []) =
      commitStore exMarshal (noFaults\<lparr>sfSyncDir := True\<rparr>) ?ms (spent 0 (exStored None 0 []))"
    by (rule exSet_save) (simp_all add: exStored_def)
  have s: "commitStore exMarshal (noFaults\<lparr>sfSyncDir := True\<rparr>) ?ms (spent 0 (exStored None 0 [])) = (False, exStored (Some (exMarshal ?ms)) (Suc 0) [])"
    using exSmall[of "''v''"] by (simp add: commitStore_def savePersistent_def marshalPersistentSnapshot_def noFaults_def exStored_def spent_def Let_def)
  have "validModuleID ''abc''" by code_simp
  then have "bucketsOK ?ms" by (simp add: bucketsOK_def bucketOK_def entryTooLong_def maxPersistentKeys_def maxPersistentKeyBytes_def maxPersistentValueBytes_def)
  moreover have "textBuckets ?ms" by code_simp
  ultimately obtain ms' where l: "loadPersistent exUnmarshal (FileContent (exMarshal ?ms)) = Inr ms'" "sameBuckets ms' ?ms"
    using load_marshalled[OF exJson] exSmall[of "''v''"] by auto
  then show ?thesis using sameBuckets_look[OF l(2), of "''abc''"]
    by (simp add: exStart e s) (simp add: diskOf_def newScriptRuntime_def storageGet_def exStored_def bucketOf_def Let_def)
qed

text \<open>The quota of an extension is not checked when the file is read.\<close>

lemma loaded_bucket_over_quota:
  assumes "unmarshal body = Some (Some [(''abc'', Some (map (\<lambda>k. (k, replicate 65536 CHR ''x'')) keys))])" "length keys = 17" "\<forall>k\<in>set keys. length k = 2"
    and "length body \<le> maxPersistentStoreBytes" "validUTF8 body"
  shows "maxPersistentModuleBytes < persistentBucketBytes (bucketOf (psModules (newScriptRuntime unmarshal (FileContent body))) ''abc'')"
proof -
  have "validModuleID ''abc''" by code_simp
  then have l: "loadPersistent unmarshal (FileContent body) = Inr [(''abc'', map (\<lambda>k. (k, replicate 65536 CHR ''x'')) keys)]"
    using assms by (auto simp: loadPersistent_def bucketRefused_def list_ex_iff entryTooLong_def maxPersistentKeys_def maxPersistentKeyBytes_def maxPersistentValueBytes_def)
  have "persistentBucketBytes (map (\<lambda>k. (k, replicate 65536 CHR ''x'')) keys) \<ge> length keys * 65536" for keys
    by (induction keys) (auto simp: persistentBucketBytes_def)
  from this[of keys] show ?thesis using assms(2) by (simp add: newScriptRuntime_def l Let_def bucketOf_def maxPersistentModuleBytes_def)
qed

end
