(* ===== verification/Async_Loop.thy ===== *)
theory Async_Loop
  imports Prelude "HOL-Library.Word"
begin

text \<open>
  The event loop of one action (module_async.go): callbacks posted by worker goroutines, timers and their cancellation.

  The goroutine that owns the VM calls \<^verbatim>\<open>setTimeout\<close>, \<^verbatim>\<open>clearTimeout\<close>, runs callbacks and closes the loop; timers of the Go
  runtime fire in goroutines of their own, which post. A callback is named by the timer it belongs to or, for other work, by
  a number; what it computes inside the VM is not part of the model, only whether it reports an error.
\<close>

section \<open>State\<close>

datatype task = TimerTask int | WorkTask nat

text \<open>
  \<open>lpTimers\<close> is the map of pending timers, \<open>None\<close> once the loop is closed; \<open>lpArmed\<close> are the runtime timers that have not
  fired, \<open>lpPosting\<close> the goroutines that are about to post.
\<close>

record asyncLoop =
  lpCallbacks :: "task list"
  lpDone :: bool
  lpTimers :: "int list option"
  lpNextID :: int
  lpArmed :: "int list"
  lpPosting :: "task list"

definition maxAsyncTimers :: nat where "maxAsyncTimers = 64"
definition asyncCallbackQueueCap :: nat where "asyncCallbackQueueCap = 256"

definition newAsyncLoop :: asyncLoop where
  "newAsyncLoop = \<lparr>lpCallbacks = [], lpDone = False, lpTimers = Some [], lpNextID = 0, lpArmed = [], lpPosting = []\<rparr>"

section \<open>Timers\<close>

datatype timeout_result = NotAFunction | LoopClosed | TooManyTimers | TimerSet int

definition setTimeout :: "bool \<Rightarrow> asyncLoop \<Rightarrow> timeout_result \<times> asyncLoop" where
  "setTimeout isFunction l =
     (if \<not> isFunction then (NotAFunction, l)
      else (case lpTimers l of
              None \<Rightarrow> (LoopClosed, l)
            | Some timers \<Rightarrow>
                (if length timers \<ge> maxAsyncTimers then (TooManyTimers, l)
                 else (let i = lpNextID l + 1
                       in (TimerSet i, l\<lparr>lpNextID := i, lpTimers := Some (i # timers), lpArmed := i # lpArmed l\<rparr>)))))"

definition clearTimeout :: "int \<Rightarrow> asyncLoop \<Rightarrow> asyncLoop" where
  "clearTimeout i l =
     (case lpTimers l of
        None \<Rightarrow> l
      | Some timers \<Rightarrow> (if i \<in> set timers then l\<lparr>lpTimers := Some (removeAll i timers), lpArmed := removeAll i (lpArmed l)\<rparr> else l))"

definition claimTimer :: "int \<Rightarrow> asyncLoop \<Rightarrow> bool \<times> asyncLoop" where
  "claimTimer i l =
     (case lpTimers l of
        None \<Rightarrow> (False, l)
      | Some timers \<Rightarrow> (if i \<notin> set timers then (False, l) else (True, l\<lparr>lpTimers := Some (removeAll i timers)\<rparr>)))"

text \<open>A runtime timer that fires leaves the runtime's list and starts a goroutine that posts.\<close>

definition fireTimer :: "int \<Rightarrow> asyncLoop \<Rightarrow> asyncLoop" where
  "fireTimer i l = (if i \<in> set (lpArmed l) then l\<lparr>lpArmed := removeAll i (lpArmed l), lpPosting := TimerTask i # lpPosting l\<rparr> else l)"

text \<open>
  \<^verbatim>\<open>time.Duration(delay) * time.Millisecond\<close> for a delay that is a positive number of milliseconds in the range of an
  \<^verbatim>\<open>int64\<close>; anything that is not greater than zero is zero.
\<close>

definition timerDelay :: "int \<Rightarrow> int" where
  "timerDelay delay = sint (word_of_int (if delay > 0 then delay else 0) * word_of_int 1000000 :: 64 word)"

section \<open>The queue\<close>

text \<open>What a posting goroutine can do: \<open>None\<close> when it blocks.\<close>

definition post :: "task \<Rightarrow> asyncLoop \<Rightarrow> asyncLoop option" where
  "post t l =
     (if lpDone l then Some l
      else if length (lpCallbacks l) < asyncCallbackQueueCap then Some (l\<lparr>lpCallbacks := lpCallbacks l @ [t]\<rparr>)
      else None)"

definition closeLoop :: "asyncLoop \<Rightarrow> asyncLoop" where
  "closeLoop l = (if lpDone l then l else l\<lparr>lpDone := True, lpTimers := None, lpArmed := []\<rparr>)"

text \<open>Taking the next callback: the task, whether its function runs, and the loop.\<close>

definition takeCallback :: "asyncLoop \<Rightarrow> (task \<times> bool \<times> asyncLoop) option" where
  "takeCallback l =
     (case lpCallbacks l of
        [] \<Rightarrow> None
      | t # rest \<Rightarrow>
          (let l = l\<lparr>lpCallbacks := rest\<rparr>
           in case t of
                WorkTask n \<Rightarrow> Some (t, True, l)
              | TimerTask i \<Rightarrow> (case claimTimer i l of (claimed, l) \<Rightarrow> Some (t, claimed, l))))"

text \<open>
  The loop of \<^verbatim>\<open>wait\<close> over what it receives: a callback, with its error if it has one and the state it leaves behind, or
  the end of the action's context. It has not returned when the list ends.
\<close>

datatype ('e, 's) received = Ran "'e option" 's | ContextDone

datatype 'e wait_result = Settled | CallbackFailed 'e | ContextEnded

fun wait :: "('s \<Rightarrow> bool) \<Rightarrow> 's \<Rightarrow> ('e, 's) received list \<Rightarrow> ('e wait_result \<times> 's) option" where
  "wait settled s [] = (if settled s then Some (Settled, s) else None)"
| "wait settled s (ContextDone # rs) = (if settled s then Some (Settled, s) else Some (ContextEnded, s))"
| "wait settled s (Ran e s' # rs) =
     (if settled s then Some (Settled, s)
      else (case e of Some err \<Rightarrow> Some (CallbackFailed err, s') | None \<Rightarrow> wait settled s' rs))"

text \<open>A promise of the script engine, as far as it is asked.\<close>

datatype 'v promise_state = Pending | Fulfilled 'v | Rejected 'v

datatype ('v, 'e) settled_value = Value 'v | WaitFailed "'e wait_result" | PromiseRejected 'v

datatype 'v script_value = Plain 'v | Promise "'v promise_state"

definition settlePromise :: "'v script_value \<Rightarrow> ('e, 'v promise_state) received list \<Rightarrow> ('v, 'e) settled_value option" where
  "settlePromise value received =
     (case value of
        Plain v \<Rightarrow> Some (Value v)
      | Promise p \<Rightarrow>
          (case wait (\<lambda>p. p \<noteq> Pending) p received of
             None \<Rightarrow> None
           | Some (Settled, Fulfilled v) \<Rightarrow> Some (Value v)
           | Some (Settled, Rejected v) \<Rightarrow> Some (PromiseRejected v)
           | Some (w, _) \<Rightarrow> Some (WaitFailed w)))"

end
