(* ===== verification/Async_Loop_Properties.thy ===== *)
theory Async_Loop_Properties
  imports Async_Loop
begin

text \<open>
  Timers of the event loop run at most once and never after they were cleared; waiting returns.
\<close>

section \<open>The loop among its goroutines\<close>

datatype loop_event = WasSet int | WasCleared int | WasRun int | WasClosed

text \<open>Steps of the VM goroutine, of runtime timers and of worker goroutines, with what happened to timers.\<close>

inductive loopStep :: "asyncLoop \<times> loop_event list \<Rightarrow> asyncLoop \<times> loop_event list \<Rightarrow> bool" where
  sets: "setTimeout True l = (TimerSet i, l') \<Longrightarrow> loopStep (l, es) (l', es @ [WasSet i])"
| clears: "loopStep (l, es) (clearTimeout i l, es @ [WasCleared i])"
| fires: "loopStep (l, es) (fireTimer i l, es)"
| works: "loopStep (l, es) (l\<lparr>lpPosting := WorkTask n # lpPosting l\<rparr>, es)"
| posts: "lpPosting l = ps @ t # ps' \<Longrightarrow> post t (l\<lparr>lpPosting := ps @ ps'\<rparr>) = Some l' \<Longrightarrow> loopStep (l, es) (l', es)"
| runs_timer: "takeCallback l = Some (TimerTask i, True, l') \<Longrightarrow> loopStep (l, es) (l', es @ [WasRun i])"
| runs_other: "takeCallback l = Some (t, b, l') \<Longrightarrow> (\<forall>i. t = TimerTask i \<longrightarrow> \<not> b) \<Longrightarrow> loopStep (l, es) (l', es)"
| closes: "\<not> lpDone l \<Longrightarrow> loopStep (l, es) (closeLoop l, es @ [WasClosed])"

text \<open>The timers that are pending according to what happened.\<close>

fun pendingAfter :: "loop_event list \<Rightarrow> int set \<Rightarrow> int set" where
  "pendingAfter [] P = P"
| "pendingAfter (WasSet i # es) P = pendingAfter es (insert i P)"
| "pendingAfter (WasCleared i # es) P = pendingAfter es (P - {i})"
| "pendingAfter (WasRun i # es) P = pendingAfter es (P - {i})"
| "pendingAfter (WasClosed # es) P = pendingAfter es {}"

text \<open>Every callback of a timer that ran belonged to a pending one, and every timer was new.\<close>

fun timersOK :: "int set \<Rightarrow> int set \<Rightarrow> loop_event list \<Rightarrow> bool" where
  "timersOK P U [] = True"
| "timersOK P U (WasSet i # es) = (i \<notin> U \<and> timersOK (insert i P) (insert i U) es)"
| "timersOK P U (WasCleared i # es) = timersOK (P - {i}) U es"
| "timersOK P U (WasRun i # es) = (i \<in> P \<and> timersOK (P - {i}) U es)"
| "timersOK P U (WasClosed # es) = timersOK {} U es"

fun usedAfter :: "loop_event list \<Rightarrow> int set \<Rightarrow> int set" where
  "usedAfter [] U = U"
| "usedAfter (WasSet i # es) U = usedAfter es (insert i U)"
| "usedAfter (_ # es) U = usedAfter es U"

lemma pendingAfter_append: "pendingAfter (es @ es') P = pendingAfter es' (pendingAfter es P)"
  by (induction es P rule: pendingAfter.induct) simp_all

lemma usedAfter_append: "usedAfter (es @ es') U = usedAfter es' (usedAfter es U)"
  by (induction es U rule: usedAfter.induct) simp_all

lemma timersOK_append: "timersOK P U (es @ es') \<longleftrightarrow> timersOK P U es \<and> timersOK (pendingAfter es P) (usedAfter es U) es'"
  by (induction P U es rule: timersOK.induct) auto

definition loopOK :: "asyncLoop \<times> loop_event list \<Rightarrow> bool" where
  "loopOK s = (case s of (l, es) \<Rightarrow>
     timersOK {} {} es \<and> pendingAfter es {} = (case lpTimers l of None \<Rightarrow> {} | Some ts \<Rightarrow> set ts) \<and>
     (lpTimers l = None \<longleftrightarrow> lpDone l) \<and> (case lpTimers l of None \<Rightarrow> True | Some ts \<Rightarrow> length ts \<le> maxAsyncTimers) \<and>
     (\<forall>i\<in>usedAfter es {}. i \<le> lpNextID l) \<and> length (lpCallbacks l) \<le> asyncCallbackQueueCap)"

lemma loopStep_OK: "loopStep s s' \<Longrightarrow> loopOK s \<Longrightarrow> loopOK s'"
proof (induction rule: loopStep.induct)
  case (sets l i l' es)
  then show ?case
    by (fastforce simp: loopOK_def setTimeout_def pendingAfter_append usedAfter_append timersOK_append Let_def not_le split: option.splits if_splits)
next
  case (clears l es i)
  then show ?case
    by (auto simp: loopOK_def clearTimeout_def pendingAfter_append usedAfter_append timersOK_append intro: le_trans[OF length_removeAll_less_eq] split: option.splits)
next
  case (fires l es i)
  then show ?case by (auto simp: loopOK_def fireTimer_def split: option.splits)
next
  case (works l es n)
  then show ?case by (auto simp: loopOK_def split: option.splits)
next
  case (posts l ps t ps' l' es)
  then show ?case by (auto simp: loopOK_def post_def split: option.splits if_splits)
next
  case (runs_timer l i l' es)
  then show ?case
    by (auto simp: loopOK_def takeCallback_def claimTimer_def pendingAfter_append usedAfter_append timersOK_append Let_def
        intro: le_trans[OF length_removeAll_less_eq] split: list.splits task.splits option.splits if_splits)
next
  case (runs_other l t b l' es)
  then show ?case
    by (auto simp: loopOK_def takeCallback_def claimTimer_def Let_def split: list.splits task.splits option.splits if_splits)
next
  case (closes l es)
  then show ?case by (auto simp: loopOK_def closeLoop_def pendingAfter_append usedAfter_append timersOK_append split: option.splits)
qed

lemma pending_since_set:
  "i \<in> pendingAfter es {} \<Longrightarrow> \<exists>a b. es = a @ WasSet i # b \<and> WasCleared i \<notin> set b \<and> WasRun i \<notin> set b \<and> WasClosed \<notin> set b"
proof (induction es rule: rev_induct)
  case (snoc e es)
  show ?case
  proof (cases "e = WasSet i")
    case True
    then show ?thesis by (intro exI[of _ es] exI[of _ "[]"]) simp
  next
    case False
    then have "i \<in> pendingAfter es {} \<and> e \<noteq> WasCleared i \<and> e \<noteq> WasRun i \<and> e \<noteq> WasClosed"
      using snoc.prems by (cases e) (auto simp: pendingAfter_append)
    with snoc.IH obtain a b where "es = a @ WasSet i # b" "WasCleared i \<notin> set b" "WasRun i \<notin> set b" "WasClosed \<notin> set b" by blast
    with \<open>i \<in> pendingAfter es {} \<and> _\<close> show ?thesis by (intro exI[of _ a] exI[of _ "b @ [e]"]) auto
  qed
qed simp

lemma not_run_again: "timersOK P U es \<Longrightarrow> i \<notin> P \<Longrightarrow> i \<in> U \<Longrightarrow> WasRun i \<notin> set es"
  by (induction P U es rule: timersOK.induct) auto

lemma set_is_used: "WasSet i \<in> set es \<Longrightarrow> i \<in> usedAfter es U"
proof -
  have mono: "i \<in> U \<Longrightarrow> i \<in> usedAfter es U" for es U by (induction es U rule: usedAfter.induct) auto
  show "WasSet i \<in> set es \<Longrightarrow> i \<in> usedAfter es U" by (induction es U rule: usedAfter.induct) (auto intro: mono)
qed

lemma loop_reachable_OK: "loopStep\<^sup>*\<^sup>* (newAsyncLoop, []) s \<Longrightarrow> loopOK s"
proof (induction rule: rtranclp_induct)
  case base
  then show ?case by (simp add: loopOK_def newAsyncLoop_def)
next
  case (step s s')
  then show ?case using loopStep_OK by blast
qed

text \<open>C31: However the script, the timers of the runtime and the worker goroutines interleave, the callback of a timer runs
only after the timer was set and at most once, never after the script cleared it or the action ended, even when the timer
had already fired and its callback was waiting in the queue; no more than 64 timers are pending and no more than 256
callbacks wait; and once the action has ended no goroutine is left waiting to post.\<close>
theorem cleared_timers_never_run:
  assumes "loopStep\<^sup>*\<^sup>* (newAsyncLoop, []) (l, es)"
  shows "(\<forall>pre i suf. es = pre @ WasRun i # suf \<longrightarrow>
      (\<exists>a b. pre = a @ WasSet i # b \<and> WasCleared i \<notin> set b \<and> WasRun i \<notin> set b \<and> WasClosed \<notin> set b) \<and> WasRun i \<notin> set suf) \<and>
    (\<forall>ts. lpTimers l = Some ts \<longrightarrow> length ts \<le> 64) \<and> length (lpCallbacks l) \<le> 256 \<and> (lpDone l \<longrightarrow> (\<forall>t. post t l = Some l))"
proof -
  have ok: "loopOK (l, es)" by (rule loop_reachable_OK[OF assms])
  have "(\<exists>a b. pre = a @ WasSet i # b \<and> WasCleared i \<notin> set b \<and> WasRun i \<notin> set b \<and> WasClosed \<notin> set b) \<and> WasRun i \<notin> set suf"
    if e: "es = pre @ WasRun i # suf" for pre i suf
  proof -
    have t: "i \<in> pendingAfter pre {}" "timersOK (pendingAfter pre {} - {i}) (usedAfter pre {}) suf"
      using ok by (simp_all add: loopOK_def e timersOK_append)
    note since = pending_since_set[OF t(1)]
    then have "i \<in> usedAfter pre {}" by (intro set_is_used) auto
    then show ?thesis using since not_run_again[OF t(2), of i] by blast
  qed
  then show ?thesis using ok
    by (auto simp: loopOK_def post_def maxAsyncTimers_def asyncCallbackQueueCap_def split: option.splits)
qed

text \<open>A timer that has fired is cleared while its callback waits in the queue.\<close>

lemma exLoop_run:
  "loopStep\<^sup>*\<^sup>* (newAsyncLoop, [])
     (\<lparr>lpCallbacks = [], lpDone = False, lpTimers = Some [], lpNextID = 2, lpArmed = [], lpPosting = []\<rparr>, [WasSet 1, WasSet 2, WasCleared 1, WasRun 2])"
proof -
  let ?l = "\<lambda>q ts n arm pst. \<lparr>lpCallbacks = q, lpDone = False, lpTimers = Some ts, lpNextID = n, lpArmed = arm, lpPosting = pst\<rparr>"
  have "loopStep (newAsyncLoop, []) (?l [] [1] 1 [1] [], [] @ [WasSet 1])"
    by (rule sets) (simp add: setTimeout_def newAsyncLoop_def maxAsyncTimers_def)
  moreover have "loopStep (?l [] [1] 1 [1] [], [WasSet 1]) (?l [] [2, 1] 2 [2, 1] [], [WasSet 1] @ [WasSet 2])"
    by (rule sets) (simp add: setTimeout_def maxAsyncTimers_def)
  moreover have "loopStep (?l [] [2, 1] 2 [2, 1] [], [WasSet 1, WasSet 2]) (?l [] [2, 1] 2 [2] [TimerTask 1], [WasSet 1, WasSet 2])"
    using fires[of "?l [] [2, 1] 2 [2, 1] []" "[WasSet 1, WasSet 2]" 1] by (simp add: fireTimer_def)
  moreover have "loopStep (?l [] [2, 1] 2 [2] [TimerTask 1], [WasSet 1, WasSet 2]) (?l [] [2, 1] 2 [] [TimerTask 2, TimerTask 1], [WasSet 1, WasSet 2])"
    using fires[of "?l [] [2, 1] 2 [2] [TimerTask 1]" "[WasSet 1, WasSet 2]" 2] by (simp add: fireTimer_def)
  moreover have "loopStep (?l [] [2, 1] 2 [] [TimerTask 2, TimerTask 1], [WasSet 1, WasSet 2]) (?l [TimerTask 1] [2, 1] 2 [] [TimerTask 2], [WasSet 1, WasSet 2])"
    by (rule posts[of _ "[TimerTask 2]" _ "[]"]) (simp_all add: post_def asyncCallbackQueueCap_def)
  moreover have "loopStep (?l [TimerTask 1] [2, 1] 2 [] [TimerTask 2], [WasSet 1, WasSet 2]) (?l [TimerTask 1, TimerTask 2] [2, 1] 2 [] [], [WasSet 1, WasSet 2])"
    by (rule posts[of _ "[]" _ "[]"]) (simp_all add: post_def asyncCallbackQueueCap_def)
  moreover have "loopStep (?l [TimerTask 1, TimerTask 2] [2, 1] 2 [] [], [WasSet 1, WasSet 2]) (?l [TimerTask 1, TimerTask 2] [2] 2 [] [], [WasSet 1, WasSet 2] @ [WasCleared 1])"
    using clears[of "?l [TimerTask 1, TimerTask 2] [2, 1] 2 [] []" "[WasSet 1, WasSet 2]" 1] by (simp add: clearTimeout_def)
  moreover have "loopStep (?l [TimerTask 1, TimerTask 2] [2] 2 [] [], [WasSet 1, WasSet 2, WasCleared 1]) (?l [TimerTask 2] [2] 2 [] [], [WasSet 1, WasSet 2, WasCleared 1])"
    by (rule runs_other[of _ "TimerTask 1" False]) (simp_all add: takeCallback_def claimTimer_def)
  moreover have "loopStep (?l [TimerTask 2] [2] 2 [] [], [WasSet 1, WasSet 2, WasCleared 1]) (?l [] [] 2 [] [], [WasSet 1, WasSet 2, WasCleared 1] @ [WasRun 2])"
    by (rule runs_timer) (simp add: takeCallback_def claimTimer_def)
  ultimately show ?thesis by simp
qed

theorem cleared_timers_never_run_witness:
  "\<exists>l. loopStep\<^sup>*\<^sup>* (newAsyncLoop, []) (l, [WasSet 1, WasSet 2, WasCleared 1] @ WasRun 2 # []) \<and> lpNextID l = 2 \<and>
     (\<exists>a b. [WasSet 1, WasSet 2, WasCleared 1] = a @ WasSet 2 # b \<and> WasCleared 2 \<notin> set b)"
proof -
  let ?l = "\<lparr>lpCallbacks = [], lpDone = False, lpTimers = Some [], lpNextID = 2, lpArmed = [], lpPosting = []\<rparr>"
  have run: "loopStep\<^sup>*\<^sup>* (newAsyncLoop, []) (?l, [WasSet 1, WasSet 2, WasCleared 1] @ WasRun 2 # [])" using exLoop_run by simp
  from cleared_timers_never_run[OF run] run show ?thesis by (intro exI[of _ ?l]) fastforce
qed

section \<open>Waiting\<close>

lemma wait_settles: "wait settled s rs = Some (Settled, s') \<Longrightarrow> settled s'"
  by (induction settled s rs rule: wait.induct) (auto split: if_splits option.splits)

text \<open>\<^verbatim>\<open>wait\<close> returns at the latest when the context of the action ends.\<close>

lemma wait_returns: "ContextDone \<in> set rs \<Longrightarrow> \<exists>r. wait settled s rs = Some r"
  by (induction settled s rs rule: wait.induct) (auto split: option.splits)

text \<open>A promise is settled to its own result, and an action whose context ends does return.\<close>

lemma settlePromise_returns: "ContextDone \<in> set rs \<Longrightarrow> \<exists>r. settlePromise v rs = Some r"
  using wait_returns[of rs "\<lambda>p. p \<noteq> Pending"]
  by (cases v) (fastforce simp: settlePromise_def split: option.splits prod.splits wait_result.splits promise_state.splits)+

text \<open>
  A delay beyond what a duration holds wraps around: the timer fires at once, although a delay longer than the deadline is
  meant to be left alone.
\<close>

lemma long_delay_fires_at_once: "timerDelay 9223372036855 < 0 \<and> timerDelay 30000 = 30000000000"
  by code_simp

end
