(* ===== verification/Script_Network.thy ===== *)
theory Script_Network
  imports Request_Pipeline
begin

text \<open>
  Requests an extension sends on its own (module_network.go \<^verbatim>\<open>moduleNetworkRequester\<close>, module_compat.go \<^verbatim>\<open>compatHTTPMethod\<close>):
  the options a script hands over, the request that is built from them, the call budget of an action, and the transport
  that dials nothing but the origin it was made for.

  What travels over a connection is an argument: \<open>send\<close> gives the reply of the target to a message, or nothing.
\<close>

section \<open>Building a request\<close>

datatype network_error =
    UnsupportedOption | URLOption | URLRefused | MethodOption | HeadersRefused header_error | BodyOption | BodyTooLong
  | CallLimit | NotOptions | NoCallback | SlotRefused | RequestInvalid | RequesterClosed | ExchangeFailed | ReplyTooLong | TrailersRefused header_error

record moduleNetworkRequest =
  nrURL :: parsedURL
  nrOrigin :: string
  nrTarget :: socksTarget
  nrMethod :: string
  nrHeaders :: headers
  nrBody :: string
  nrHasBody :: bool

definition maxModuleNetworkRequestBody :: nat where "maxModuleNetworkRequestBody = 1048576"
definition maxModuleNetworkResponseBody :: nat where "maxModuleNetworkResponseBody = 1048576"
definition maxModuleNetworkCallsPerAction :: nat where "maxModuleNetworkCallsPerAction = 4"

definition optionURL :: "(string \<times> exported) list \<Rightarrow> network_error + string" where
  "optionURL options =
     (case map_of options ''url'' of
        Some (ExString raw) \<Rightarrow> (if raw = [] \<or> length raw > 4096 then Inl URLOption else Inr raw)
      | _ \<Rightarrow> Inl URLOption)"

definition optionMethod :: "(string \<times> exported) list \<Rightarrow> network_error + string" where
  "optionMethod options =
     (case map_of options ''method'' of
        None \<Rightarrow> Inr ''GET''
      | Some (ExString m) \<Rightarrow> (if validModuleNetworkMethod m then Inr m else Inl MethodOption)
      | Some _ \<Rightarrow> Inl MethodOption)"

definition optionHeaders :: "(string \<times> exported) list \<Rightarrow> network_error + headers" where
  "optionHeaders options =
     (case map_of options ''headers'' of
        None \<Rightarrow> Inr []
      | Some block \<Rightarrow> (case exportedHeaders block of Inl e \<Rightarrow> Inl (HeadersRefused e) | Inr h \<Rightarrow> Inr h))"

definition optionBody :: "(string \<times> exported) list \<Rightarrow> network_error + string" where
  "optionBody options =
     (case map_of options ''body'' of
        None \<Rightarrow> Inr []
      | Some v \<Rightarrow>
          (case exportedBody v of
             None \<Rightarrow> Inl BodyOption
           | Some body \<Rightarrow> (if length body > maxModuleNetworkRequestBody then Inl BodyTooLong else Inr body)))"

definition defaultedHeaders :: "headers \<Rightarrow> headers" where
  "defaultedHeaders h =
     (let h = (if map_of h ''User-Agent'' = None then AList.update ''User-Agent'' [[]] h else h)
      in if map_of h ''Accept-Encoding'' = None then headerSet ''Accept-Encoding'' ''identity'' h else h)"

definition newModuleNetworkRequest :: "externs \<Rightarrow> (string \<times> exported) list \<Rightarrow> network_error + moduleNetworkRequest" where
  "newModuleNetworkRequest x options =
     (if \<not> list_all (\<lambda>(key, _). key \<in> set [''url'', ''method'', ''headers'', ''body'']) options then Inl UnsupportedOption
      else bindJ (optionURL options) (\<lambda>raw.
           case parseModuleNetworkRequestURL x raw of
             None \<Rightarrow> Inl URLRefused
           | Some (parsed, origin, target) \<Rightarrow>
               bindJ (optionMethod options) (\<lambda>method.
               bindJ (optionHeaders options) (\<lambda>h.
               bindJ (optionBody options) (\<lambda>body.
               case validateModuleNetworkHeaders (defaultedHeaders h) of
                 Inl e \<Rightarrow> Inl (HeadersRefused e)
               | Inr h \<Rightarrow>
                   Inr \<lparr>nrURL = parsed, nrOrigin = origin, nrTarget = target, nrMethod = method, nrHeaders = h, nrBody = body,
                        nrHasBody = (map_of options ''body'' \<noteq> None)\<rparr>)))))"

section \<open>The requester of an action\<close>

text \<open>A transport is kept per origin and remembers the target it may dial.\<close>

record moduleNetworkRequester =
  nqTransports :: "(string \<times> socksTarget) list"
  nqClosed :: bool

definition newModuleNetworkRequester :: moduleNetworkRequester where
  "newModuleNetworkRequester = \<lparr>nqTransports = [], nqClosed = False\<rparr>"

definition transport :: "string \<Rightarrow> socksTarget \<Rightarrow> moduleNetworkRequester \<Rightarrow> network_error + (socksTarget \<times> moduleNetworkRequester)" where
  "transport origin target r =
     (if nqClosed r then Inl RequesterClosed
      else (case map_of (nqTransports r) origin of
              Some t \<Rightarrow> Inr (t, r)
            | None \<Rightarrow> Inr (target, r\<lparr>nqTransports := (origin, target) # nqTransports r\<rparr>)))"

definition closeRequester :: "moduleNetworkRequester \<Rightarrow> moduleNetworkRequester" where
  "closeRequester r = (if nqClosed r then r else r\<lparr>nqClosed := True, nqTransports := []\<rparr>)"

text \<open>The address \<^verbatim>\<open>net/http\<close> dials for a URL, and the check the dialler of a transport makes.\<close>

definition dialAddress :: "parsedURL \<Rightarrow> string" where
  "dialAddress u =
     joinHostPort (urlHostname u) (if urlPort u \<noteq> [] then urlPort u else if urlScheme u = ''https'' then ''443'' else ''80'')"

definition dialPermitted :: "socksTarget \<Rightarrow> string \<Rightarrow> bool" where
  "dialPermitted target address =
     (case split_host_port address of
        None \<Rightarrow> False
      | Some (host, port) \<Rightarrow> canonicalHost host = tgtHost target \<and> port = itoa (tgtPort target))"

record networkMessage =
  nmMethod :: string
  nmURL :: parsedURL
  nmHeaders :: headers
  nmBody :: "string option"

record networkReply =
  npStatus :: int
  npHeader :: headers
  npTrailer :: headers
  npBody :: "string \<times> bool"

record moduleNetworkResponse =
  nsURL :: string
  nsStatus :: int
  nsHeaders :: headers
  nsTrailers :: headers
  nsBody :: string

definition readReply :: "(parsedURL \<Rightarrow> string) \<Rightarrow> parsedURL \<Rightarrow> networkReply \<Rightarrow> network_error + moduleNetworkResponse" where
  "readReply render u reply =
     (case readBounded (npBody reply) maxModuleNetworkResponseBody of
        Inl _ \<Rightarrow> Inl ReplyTooLong
      | Inr body \<Rightarrow>
          (case wireTrailers (npTrailer reply) of
             Inl e \<Rightarrow> Inl (TrailersRefused e)
           | Inr trailers \<Rightarrow>
               Inr \<lparr>nsURL = render u, nsStatus = npStatus reply, nsHeaders = cloneProxyHeaders (npHeader reply), nsTrailers = trailers, nsBody = body\<rparr>))"

text \<open>
  One request: the result, what was dialled and sent, and the requester. \<open>slot\<close> says whether one of the process-wide slots
  was free, at once or before the action ended.
\<close>

definition performRequest :: "externs \<Rightarrow> (parsedURL \<Rightarrow> string) \<Rightarrow> (socksTarget \<Rightarrow> networkMessage \<Rightarrow> networkReply option) \<Rightarrow> bool \<Rightarrow> moduleNetworkRequest \<Rightarrow>
    moduleNetworkRequester \<Rightarrow> (network_error + moduleNetworkResponse) \<times> (socksTarget \<times> networkMessage) option \<times> moduleNetworkRequester" where
  "performRequest x render send slot req r =
     (if \<not> slot then (Inl SlotRefused, None, r)
      else (case xURL x (render (nrURL req)) of
              None \<Rightarrow> (Inl RequestInvalid, None, r)
            | Some u \<Rightarrow>
                (let msg = \<lparr>nmMethod = nrMethod req, nmURL = u, nmHeaders = nrHeaders req, nmBody = (if nrHasBody req then Some (nrBody req) else None)\<rparr>
                 in case transport (nrOrigin req) (nrTarget req) r of
                      Inl e \<Rightarrow> (Inl e, None, r)
                    | Inr (target, r) \<Rightarrow>
                        (if \<not> dialPermitted target (dialAddress u) then (Inl ExchangeFailed, None, r)
                         else (case send target msg of
                                 None \<Rightarrow> (Inl ExchangeFailed, Some (target, msg), r)
                               | Some reply \<Rightarrow> (readReply render u reply, Some (target, msg), r))))))"

definition performModuleNetworkRequest :: "externs \<Rightarrow> (parsedURL \<Rightarrow> string) \<Rightarrow> (socksTarget \<Rightarrow> networkMessage \<Rightarrow> networkReply option) \<Rightarrow> bool \<Rightarrow>
    (string \<times> exported) list \<Rightarrow> network_error + moduleNetworkResponse" where
  "performModuleNetworkRequest x render send slot options =
     (case newModuleNetworkRequest x options of
        Inl e \<Rightarrow> Inl e
      | Inr req \<Rightarrow> fst (performRequest x render send slot req newModuleNetworkRequester))"

section \<open>The entry points of a script\<close>

definition methodToken :: "string \<Rightarrow> string" where
  "methodToken m =
     (if m = ''get'' then ''GET'' else if m = ''post'' then ''POST'' else if m = ''put'' then ''PUT'' else if m = ''delete'' then ''DELETE''
      else if m = ''head'' then ''HEAD'' else if m = ''patch'' then ''PATCH'' else ''GET'')"

text \<open>The four keys of the native requester out of a bundle's options, and whether a binary reply was asked for.\<close>

definition compatRequestOptions :: "exported \<Rightarrow> string \<Rightarrow> (network_error + (string \<times> exported) list \<times> bool)" where
  "compatRequestOptions raw method =
     (case raw of
        ExString url \<Rightarrow> Inr ([(''method'', ExString (methodToken method)), (''url'', ExString url)], False)
      | _ \<Rightarrow>
          (case stringAnyMap raw of
             None \<Rightarrow> Inl NotOptions
           | Some source \<Rightarrow>
               (let taken = concat (map (\<lambda>key. case map_of source key of None \<Rightarrow> [] | Some v \<Rightarrow> [(key, v)]) [''url'', ''headers'', ''body''])
                in if map_of source ''url'' = None then Inl NotOptions
                   else Inr ((''method'', ExString (methodToken method)) # taken,
                             (case map_of source ''binary-mode'' of Some (ExBool b) \<Rightarrow> b | _ \<Rightarrow> False)))))"

text \<open>
  \<open>NativeRequest\<close> is \<^verbatim>\<open>network.request\<close> and \<^verbatim>\<open>network.requestAsync\<close>, which share one budget; \<open>CompatRequest\<close> is a method of
  \<^verbatim>\<open>$httpClient\<close> with its callback.
\<close>

datatype network_call = NativeRequest exported | CompatRequest string exported bool

record networkAction =
  naCalls :: nat
  naRequester :: moduleNetworkRequester

definition callOptions :: "network_call \<Rightarrow> network_error + (string \<times> exported) list" where
  "callOptions c =
     (case c of
        NativeRequest v \<Rightarrow> (case stringAnyMap v of None \<Rightarrow> Inl NotOptions | Some options \<Rightarrow> Inr options)
      | CompatRequest method v callback \<Rightarrow>
          (if \<not> callback then Inl NoCallback else (case compatRequestOptions v method of Inl e \<Rightarrow> Inl e | Inr (options, _) \<Rightarrow> Inr options)))"

definition networkCall :: "externs \<Rightarrow> (parsedURL \<Rightarrow> string) \<Rightarrow> (socksTarget \<Rightarrow> networkMessage \<Rightarrow> networkReply option) \<Rightarrow> network_call \<times> bool \<Rightarrow> networkAction \<Rightarrow>
    (network_error + moduleNetworkResponse) \<times> (socksTarget \<times> networkMessage) option \<times> networkAction" where
  "networkCall x render send c a =
     (let a = a\<lparr>naCalls := naCalls a + 1\<rparr>
      in if naCalls a > maxModuleNetworkCallsPerAction then (Inl CallLimit, None, a)
         else (case callOptions (fst c) of
                 Inl e \<Rightarrow> (Inl e, None, a)
               | Inr options \<Rightarrow>
                   (case newModuleNetworkRequest x options of
                      Inl e \<Rightarrow> (Inl e, None, a)
                    | Inr req \<Rightarrow>
                        (case performRequest x render send (snd c) req (naRequester a) of
                           (result, sent, r) \<Rightarrow> (result, sent, a\<lparr>naRequester := r\<rparr>)))))"

end
