(* ===== verification/Script_Network_Properties.thy ===== *)
theory Script_Network_Properties
  imports Script_Network Request_Pipeline_Properties Config_Example
begin

text \<open>
  What the requests of an extension are confined to: the target a request is dialled at is a function of its origin
  (\<open>originTarget\<close>) and public, a requester keeps only transports for the target of their origin (\<open>requesterOK\<close>), and over any
  sequence of calls of an action the budget and the bounds of a message hold.
\<close>

section \<open>Targets\<close>

text \<open>What is used of \<^verbatim>\<open>net/url\<close>: an origin over an accepted host name, when it parses at all, parses to its scheme, host and port.\<close>

definition originsParse :: "externs \<Rightarrow> bool" where
  "originsParse x \<longleftrightarrow>
     (\<forall>scheme host u. scheme \<in> {''http'', ''https''} \<and> CHR '':'' \<notin> set host \<and> validHostTarget host \<longrightarrow>
        (xURL x (scheme @ ''://'' @ host) = Some u \<longrightarrow> urlScheme u = scheme \<and> canonicalHost (urlHostname u) = canonicalHost host \<and> urlPort u = []) \<and>
        (\<forall>n\<in>{1..65535}. xURL x (scheme @ ''://'' @ joinHostPort host (itoa n)) = Some u \<longrightarrow>
           urlScheme u = scheme \<and> canonicalHost (urlHostname u) = canonicalHost host \<and> urlPort u = itoa n))"

definition publicTarget :: "socksTarget \<Rightarrow> bool" where
  "publicTarget t \<longleftrightarrow> 1 \<le> tgtPort t \<and> tgtPort t \<le> 65535 \<and>
     (case ParseIP (tgtHost t) of
        Some ip \<Rightarrow> To4 ip \<noteq> None \<and> hostTargetAddressAllowed ip
      | None \<Rightarrow> tgtHost t \<noteq> ''localhost'' \<and> \<not> has_suffix (tgtHost t) ''.local'' \<and> validHostPattern (tgtHost t))"

lemma canonicalOrigin_cases:
  assumes "canonicalModuleNetworkOrigin x raw = Some origin"
  obtains scheme host n where "scheme \<in> {''http'', ''https''}" "host \<noteq> []" "CHR '':'' \<notin> set host" "validHostTarget host" "1 \<le> n" "n \<le> 65535"
    "origin = scheme @ ''://'' @ host \<and> itoa n = (if scheme = ''https'' then ''443'' else ''80'') \<or> origin = scheme @ ''://'' @ joinHostPort host (itoa n)"
proof -
  obtain u where u: "xURL x raw = Some u"
    using assms by (cases "xURL x raw") (auto simp: canonicalModuleNetworkOrigin_def split: if_splits)
  define scheme host where "scheme = to_lower (urlScheme u)" and "host = canonicalHost (urlHostname u)"
  define defaultPort where "defaultPort = (if scheme = ''https'' then ''443'' else ''80'')"
  note a = assms[unfolded canonicalModuleNetworkOrigin_def Let_def branches u option.inject]
  have "\<exists>n. (1 \<le> n \<and> n \<le> 65535) \<and> (if itoa n = defaultPort then Some (scheme @ ''://'' @ host) else Some (scheme @ ''://'' @ joinHostPort host (itoa n))) = Some origin"
    unfolding scheme_def host_def defaultPort_def using a by (meson not_less)
  moreover have "scheme \<in> {''http'', ''https''}" "host \<noteq> []" "CHR '':'' \<notin> set host" "validHostTarget host"
    unfolding scheme_def host_def using a by blast+
  ultimately show thesis using that[of scheme host] by (auto simp: defaultPort_def split: if_splits)
qed

lemma validHostTarget_public:
  assumes "validHostTarget host" "CHR '':'' \<notin> set host" "1 \<le> n" "n \<le> 65535"
  shows "publicTarget \<lparr>tgtHost = canonicalHost host, tgtPort = n\<rparr>"
proof -
  have "CHR '':'' \<notin> set (to_lower (trim_space host))"
  proof -
    have "set (trim_space host) \<subseteq> set host" unfolding trim_space_def by (metis set_dropWhileD set_rev subsetI)
    moreover have "lower_char c = CHR '':'' \<Longrightarrow> c = CHR '':''" for c
    proof (rule ccontr)
      assume l: "lower_char c = CHR '':''" and "c \<noteq> CHR '':''"
      then have "65 \<le> code c" "code c \<le> 90" by (auto simp: lower_char_def split: if_splits)
      then have "code (lower_char c) = code c + 32" by (simp add: lower_char_def code_char_of)
      moreover have "code (CHR '':'') = 58" by (simp add: code_def)
      ultimately show False using l \<open>65 \<le> code c\<close> by simp
    qed
    moreover have "\<not> (\<exists>c\<in>set (trim_space host). lower_char c = CHR '':'')" using calculation assms(2) by blast
    ultimately show ?thesis unfolding to_lower_def set_map image_iff by metis
  qed
  then have "\<not> has_prefix (to_lower (trim_space host)) hostTargetServerPrefix"
    by (auto simp: has_prefix_iff hostTargetServerPrefix_def)
  then show ?thesis using assms by (auto simp: validHostTarget_def publicTarget_def Let_def split: option.splits)
qed

text \<open>The target is a function of the origin.\<close>

definition originTarget :: "externs \<Rightarrow> string \<Rightarrow> socksTarget option" where
  "originTarget x origin =
     (case xURL x origin of
        None \<Rightarrow> None
      | Some ou \<Rightarrow>
          map_option (\<lambda>port. \<lparr>tgtHost = canonicalHost (urlHostname ou), tgtPort = port\<rparr>)
            (atoi (if urlPort ou \<noteq> [] then urlPort ou else if urlScheme ou = ''https'' then ''443'' else ''80'')))"

lemma parse_target:
  assumes "parseModuleNetworkRequestURL x raw = Some (u, origin, t)"
  shows "originTarget x origin = Some t" "\<exists>r. canonicalModuleNetworkOrigin x r = Some origin"
  using assms by (auto simp: parseModuleNetworkRequestURL_def originTarget_def Let_def split: if_splits option.splits)

lemma parsed_public:
  assumes "originsParse x" "parseModuleNetworkRequestURL x raw = Some (u, origin, t)"
  shows "publicTarget t"
proof -
  obtain r where "canonicalModuleNetworkOrigin x r = Some origin" using parse_target(2)[OF assms(2)] by blast
  then obtain scheme host n where c: "scheme \<in> {''http'', ''https''}" "host \<noteq> []" "CHR '':'' \<notin> set host" "validHostTarget host" "1 \<le> n" "n \<le> 65535"
    "origin = scheme @ ''://'' @ host \<and> itoa n = (if scheme = ''https'' then ''443'' else ''80'') \<or> origin = scheme @ ''://'' @ joinHostPort host (itoa n)"
    by (rule canonicalOrigin_cases)
  have law: "xURL x (scheme @ ''://'' @ host) = Some u \<Longrightarrow> urlScheme u = scheme \<and> canonicalHost (urlHostname u) = canonicalHost host \<and> urlPort u = []"
    "xURL x (scheme @ ''://'' @ joinHostPort host (itoa n)) = Some u \<Longrightarrow> urlScheme u = scheme \<and> canonicalHost (urlHostname u) = canonicalHost host \<and> urlPort u = itoa n"
    for u using assms(1) c(1,3-6) unfolding originsParse_def by auto
  have i: "itoa n = digits_of (nat n)" using c(5) by (simp add: itoa_def)
  have n: "atoi (itoa n) = Some n" using atoi_digits_of[of "nat n"] c(5,6) by (simp add: i)
  have "itoa n \<noteq> []" unfolding i by (subst digits_of.simps) simp
  then have "t = \<lparr>tgtHost = canonicalHost host, tgtPort = n\<rparr>"
    using c(5-7) law parse_target(1)[OF assms(2)] n by (auto simp: originTarget_def split: if_splits option.splits)
  then show ?thesis using validHostTarget_public[OF c(4,3,5,6)] by simp
qed

section \<open>What an action sends\<close>

definition confinedMessage :: "networkMessage \<Rightarrow> bool" where
  "confinedMessage msg \<longleftrightarrow> validModuleNetworkMethod (nmMethod msg) \<and>
     (\<forall>(name, values)\<in>set (nmHeaders msg). validModuleNetworkHeaderName name \<and> (isHopByHopHeader name \<longrightarrow> equalFold name ''Te'') \<and>
        \<not> managedHeader name \<and> (\<forall>v\<in>set values. \<not> hasNewline v)) \<and>
     headerBytes (nmHeaders msg) \<le> maxModuleNetworkHeaderBytes \<and>
     (\<forall>body. nmBody msg = Some body \<longrightarrow> length body \<le> maxModuleNetworkRequestBody)"

lemma networkHeaderSize_Inr:
  "networkHeaderSize h = Inr n \<Longrightarrow> n = headerBytes h \<and>
     (\<forall>(name, values)\<in>set h. validModuleNetworkHeaderName name \<and> (isHopByHopHeader name \<longrightarrow> equalFold name ''Te'') \<and> \<not> managedHeader name \<and> (\<forall>v\<in>set values. \<not> hasNewline v))"
proof (induction h arbitrary: n rule: networkHeaderSize.induct)
  case (2 name vs h)
  then show ?case by (cases "networkHeaderSize h") (auto simp: headerBytes_def list_ex_iff split: if_splits)
qed (simp add: headerBytes_def)

lemma validated_headers:
  assumes "validateModuleNetworkHeaders h = Inr h'"
  shows "headerBytes h' \<le> maxModuleNetworkHeaderBytes \<and>
     (\<forall>(name, values)\<in>set h'. validModuleNetworkHeaderName name \<and> (isHopByHopHeader name \<longrightarrow> equalFold name ''Te'') \<and> \<not> managedHeader name \<and> (\<forall>v\<in>set values. \<not> hasNewline v))"
proof -
  obtain n where "networkHeaderSize h' = Inr n" "n \<le> maxModuleNetworkHeaderBytes"
    using assms by (auto simp: validateModuleNetworkHeaders_def bindJ_def split: sum.splits if_splits)
  then show ?thesis using networkHeaderSize_Inr[of h' n] by blast
qed

lemma newModuleNetworkRequest_Inr:
  assumes "newModuleNetworkRequest x options = Inr req"
  obtains raw where "parseModuleNetworkRequestURL x raw = Some (nrURL req, nrOrigin req, nrTarget req)" "length raw \<le> 4096"
    "validModuleNetworkMethod (nrMethod req)" "length (nrBody req) \<le> maxModuleNetworkRequestBody" "\<exists>h. validateModuleNetworkHeaders h = Inr (nrHeaders req)"
proof -
  obtain raw parsed origin target m h body h' where r: "optionURL options = Inr raw" "parseModuleNetworkRequestURL x raw = Some (parsed, origin, target)"
    "optionMethod options = Inr m" "optionHeaders options = Inr h" "optionBody options = Inr body" "validateModuleNetworkHeaders (defaultedHeaders h) = Inr h'"
    "req = \<lparr>nrURL = parsed, nrOrigin = origin, nrTarget = target, nrMethod = m, nrHeaders = h', nrBody = body, nrHasBody = (map_of options ''body'' \<noteq> None)\<rparr>"
    using assms by (auto simp: newModuleNetworkRequest_def bindJ_def split: if_splits sum.splits option.splits)
  have "validModuleNetworkMethod ''GET''" by code_simp
  then have "validModuleNetworkMethod m" using r(3) by (auto simp: optionMethod_def split: option.splits exported.splits if_splits)
  moreover have "length raw \<le> 4096" using r(1) by (auto simp: optionURL_def split: option.splits exported.splits if_splits)
  moreover have "length body \<le> maxModuleNetworkRequestBody" using r(5) by (auto simp: optionBody_def split: option.splits if_splits)
  ultimately show thesis using that[of raw] r by auto
qed

definition requesterOK :: "externs \<Rightarrow> moduleNetworkRequester \<Rightarrow> bool" where
  "requesterOK x r \<longleftrightarrow> (\<forall>(origin, t)\<in>set (nqTransports r). originTarget x origin = Some t)"

lemma performRequest_confined:
  assumes "performRequest x render send slot req r = (result, sent, r')" "requesterOK x r" "newModuleNetworkRequest x options = Inr req" "originsParse x"
  shows "requesterOK x r' \<and> (\<forall>t msg. sent = Some (t, msg) \<longrightarrow> publicTarget t \<and> t = nrTarget req \<and> dialPermitted t (dialAddress (nmURL msg)) \<and> confinedMessage msg)"
proof -
  obtain raw where q: "parseModuleNetworkRequestURL x raw = Some (nrURL req, nrOrigin req, nrTarget req)"
    "validModuleNetworkMethod (nrMethod req)" "length (nrBody req) \<le> maxModuleNetworkRequestBody" "\<exists>h. validateModuleNetworkHeaders h = Inr (nrHeaders req)"
    using newModuleNetworkRequest_Inr[OF assms(3)] by metis
  note t = parse_target(1)[OF q(1)] parsed_public[OF assms(4) q(1)]
  have tr: "requesterOK x r1 \<and> t1 = nrTarget req" if "transport (nrOrigin req) (nrTarget req) r = Inr (t1, r1)" for t1 r1
    using that assms(2) t(1) by (auto simp: transport_def requesterOK_def split: if_splits option.splits dest!: map_of_SomeD)
  obtain h where "validateModuleNetworkHeaders h = Inr (nrHeaders req)" using q(4) by blast
  note h = validated_headers[OF this]
  have "confinedMessage \<lparr>nmMethod = nrMethod req, nmURL = u, nmHeaders = nrHeaders req, nmBody = (if nrHasBody req then Some (nrBody req) else None)\<rparr>" for u
    using h q(2,3) by (auto simp: confinedMessage_def)
  then show ?thesis using assms(1,2) tr t(2)
    by (auto simp: performRequest_def Let_def split: if_splits option.splits sum.splits)
qed

fun networkRun :: "externs \<Rightarrow> (parsedURL \<Rightarrow> string) \<Rightarrow> (socksTarget \<Rightarrow> networkMessage \<Rightarrow> networkReply option) \<Rightarrow> (network_call \<times> bool) list \<Rightarrow> networkAction \<Rightarrow>
    (socksTarget \<times> networkMessage) list" where
  "networkRun x render send [] a = []"
| "networkRun x render send (c # cs) a =
     (case networkCall x render send c a of (_, sent, a) \<Rightarrow> (case sent of None \<Rightarrow> [] | Some m \<Rightarrow> [m]) @ networkRun x render send cs a)"

lemma networkCall_step:
  assumes "networkCall x render send c a = (result, sent, a')" "requesterOK x (naRequester a)" "originsParse x"
  shows "requesterOK x (naRequester a') \<and> naCalls a' = naCalls a + 1 \<and> (naCalls a \<ge> maxModuleNetworkCallsPerAction \<longrightarrow> sent = None) \<and>
    (\<forall>t msg. sent = Some (t, msg) \<longrightarrow> publicTarget t \<and> dialPermitted t (dialAddress (nmURL msg)) \<and> confinedMessage msg)"
proof (cases "naCalls a + 1 > maxModuleNetworkCallsPerAction \<or> (\<exists>e. callOptions (fst c) = Inl e) \<or> (\<exists>e options. callOptions (fst c) = Inr options \<and> newModuleNetworkRequest x options = Inl e)")
  case True
  then have "result = result \<and> sent = None \<and> a' = a\<lparr>naCalls := naCalls a + 1\<rparr>" using assms(1)
    by (auto simp: networkCall_def Let_def split: if_splits sum.splits)
  then show ?thesis using assms(2) by simp
next
  case False
  then obtain options req where o: "callOptions (fst c) = Inr options" "newModuleNetworkRequest x options = Inr req"
    by (metis sum.exhaust)
  obtain res sent1 r1 where p: "performRequest x render send (snd c) req (naRequester a) = (res, sent1, r1)" by (metis prod_cases3)
  note c = performRequest_confined[OF p assms(2) o(2) assms(3)]
  show ?thesis using assms(1) False c by (auto simp: networkCall_def Let_def o p)
qed

lemma networkRun_confined:
  assumes "originsParse x"
  shows "requesterOK x (naRequester a) \<Longrightarrow>
    length (networkRun x render send cs a) \<le> maxModuleNetworkCallsPerAction - naCalls a \<and>
    (\<forall>(t, msg)\<in>set (networkRun x render send cs a). publicTarget t \<and> dialPermitted t (dialAddress (nmURL msg)) \<and> confinedMessage msg)"
proof (induction cs arbitrary: a)
  case (Cons c cs)
  obtain result sent a' where s: "networkCall x render send c a = (result, sent, a')" by (metis prod_cases3)
  note step = networkCall_step[OF s Cons.prems assms]
  show ?case using Cons.IH[of a'] step by (cases sent) (auto simp: s)
qed simp

text \<open>C32: Whatever a script asks of the network in one action, through either interface, at most four requests leave, and
each of them is dialled at the address of its own URL, a public target (no loopback, private or otherwise reserved address, no
\<^verbatim>\<open>localhost\<close> or \<^verbatim>\<open>.local\<close> name) on a valid port; it carries a valid method, at most 1 MiB of body, and at most 64 KiB of header
fields, none of them hop-by-hop (but \<^verbatim>\<open>TE: trailers\<close>), managed by the runtime or split over lines.\<close>
theorem network_calls_confined:
  assumes "originsParse x"
  shows "length (networkRun x render send cs \<lparr>naCalls = 0, naRequester = newModuleNetworkRequester\<rparr>) \<le> 4 \<and>
    (\<forall>(t, msg)\<in>set (networkRun x render send cs \<lparr>naCalls = 0, naRequester = newModuleNetworkRequester\<rparr>).
       publicTarget t \<and> dialPermitted t (dialAddress (nmURL msg)) \<and> confinedMessage msg)"
  using networkRun_confined[OF assms, of "\<lparr>naCalls = 0, naRequester = newModuleNetworkRequester\<rparr>" render send cs]
  by (simp add: requesterOK_def newModuleNetworkRequester_def maxModuleNetworkCallsPerAction_def)

definition apiURL :: parsedURL where
  "apiURL = \<lparr>urlScheme = ''https'', urlOpaque = [], urlUser = None, urlHost = ''api.example.com'', urlPath = [], urlRawQuery = [],
     urlForceQuery = False, urlFragment = []\<rparr>"

definition apiExterns :: externs where
  "apiExterns = docExterns\<lparr>xURL := (\<lambda>s. if s = ''https://api.example.com'' then Some apiURL else None)\<rparr>"

lemma apiExterns_originsParse: "originsParse apiExterns"
proof -
  have one: "scheme = ''https'' \<and> rest = ''api.example.com''"
    if "scheme \<in> {''http'', ''https''}" "scheme @ ''://'' @ rest = ''https://api.example.com''" for scheme rest :: string
    using that by auto
  have join: "joinHostPort host (itoa n) \<noteq> ''api.example.com''" if "CHR '':'' \<notin> set host" for host n
  proof
    assume "joinHostPort host (itoa n) = ''api.example.com''"
    moreover have "CHR '':'' \<in> set (joinHostPort host (itoa n))" using that by (simp add: joinHostPort_def)
    ultimately show False by simp
  qed
  have host: "canonicalHost (urlHostname apiURL) = canonicalHost ''api.example.com''" "urlPort apiURL = []" "urlScheme apiURL = ''https''"
    by code_simp+
  have x: "xURL apiExterns s = Some u \<longleftrightarrow> s = ''https://api.example.com'' \<and> u = apiURL" for s u by (auto simp: apiExterns_def)
  show ?thesis unfolding originsParse_def x using one join host by metis
qed

definition apiReply :: "socksTarget \<Rightarrow> networkMessage \<Rightarrow> networkReply option" where
  "apiReply t msg = Some \<lparr>npStatus = 200, npHeader = [], npTrailer = [], npBody = (''ok'', True)\<rparr>"

definition apiRequest :: moduleNetworkRequest where
  "apiRequest = \<lparr>nrURL = apiURL, nrOrigin = ''https://api.example.com'', nrTarget = \<lparr>tgtHost = ''api.example.com'', tgtPort = 443\<rparr>,
     nrMethod = ''GET'', nrHeaders = [(''User-Agent'', [[]]), (''Accept-Encoding'', [''identity''])], nrBody = [], nrHasBody = False\<rparr>"

definition apiCalls :: "(network_call \<times> bool) list" where
  "apiCalls = replicate 5 (CompatRequest ''get'' (ExString ''https://api.example.com'') True, True)"

lemma apiRequest_built:
  "callOptions (CompatRequest ''get'' (ExString ''https://api.example.com'') True) = Inr [(''method'', ExString ''GET''), (''url'', ExString ''https://api.example.com'')]"
  "newModuleNetworkRequest apiExterns [(''method'', ExString ''GET''), (''url'', ExString ''https://api.example.com'')] = Inr apiRequest"
proof -
  show "callOptions (CompatRequest ''get'' (ExString ''https://api.example.com'') True) = Inr [(''method'', ExString ''GET''), (''url'', ExString ''https://api.example.com'')]"
    by code_simp
  have "canonicalHost (urlHostname apiURL) = ''api.example.com''" "urlHostname apiURL = ''api.example.com''" "urlPort apiURL = []"
    "ParseIP ''api.example.com'' = None" "validHostTarget ''api.example.com''" "to_lower ''https'' = ''https''" "atoi ''443'' = Some 443" "itoa 443 = ''443''"
    "trim_space ''https://api.example.com'' = ''https://api.example.com''" "canonicalHost ''api.example.com'' = ''api.example.com''"
    by code_simp+
  note url = this
  have "canonicalModuleNetworkOrigin apiExterns ''https://api.example.com'' = Some ''https://api.example.com''"
    by (simp add: canonicalModuleNetworkOrigin_def url apiExterns_def) (simp add: apiURL_def url has_suffix_def)
  then have p: "parseModuleNetworkRequestURL apiExterns ''https://api.example.com'' = Some (apiURL, ''https://api.example.com'', \<lparr>tgtHost = ''api.example.com'', tgtPort = 443\<rparr>)"
    using url by (simp add: parseModuleNetworkRequestURL_def apiExterns_def apiURL_def Let_def)
  have "defaultedHeaders [] = [(''User-Agent'', [[]]), (''Accept-Encoding'', [''identity''])]" "validModuleNetworkMethod ''GET''"
    "normalizeRequestTEHeader [(''User-Agent'', [[]]), (''Accept-Encoding'', [''identity''])] = Inr [(''User-Agent'', [[]]), (''Accept-Encoding'', [''identity''])]"
    "networkHeaderSize [(''User-Agent'', [[]]), (''Accept-Encoding'', [''identity''])] = Inr 33"
    by code_simp+
  then show "newModuleNetworkRequest apiExterns [(''method'', ExString ''GET''), (''url'', ExString ''https://api.example.com'')] = Inr apiRequest"
    by (simp add: newModuleNetworkRequest_def optionURL_def optionMethod_def optionHeaders_def optionBody_def bindJ_def validateModuleNetworkHeaders_def
      maxModuleNetworkHeaderBytes_def apiRequest_def p)
qed

lemma apiRequest_performed:
  assumes "nqTransports r = [] \<or> nqTransports r = [(''https://api.example.com'', nrTarget apiRequest)]" "\<not> nqClosed r"
  shows "\<exists>result msg r'. performRequest apiExterns (\<lambda>u. ''https://api.example.com'') apiReply True apiRequest r = (result, Some (nrTarget apiRequest, msg), r') \<and>
    nqTransports r' = [(''https://api.example.com'', nrTarget apiRequest)] \<and> \<not> nqClosed r'"
proof -
  have "dialPermitted (nrTarget apiRequest) (dialAddress apiURL)" "nrOrigin apiRequest = ''https://api.example.com''" by code_simp+
  moreover have "xURL apiExterns ''https://api.example.com'' = Some apiURL" by (simp add: apiExterns_def)
  ultimately show ?thesis using assms by (auto simp: performRequest_def apiReply_def transport_def)
qed

lemma apiCall_sent:
  assumes "nqTransports (naRequester a) = [] \<or> nqTransports (naRequester a) = [(''https://api.example.com'', nrTarget apiRequest)]" "\<not> nqClosed (naRequester a)"
    "naCalls a < 4"
  shows "\<exists>result m a'. networkCall apiExterns (\<lambda>u. ''https://api.example.com'') apiReply (CompatRequest ''get'' (ExString ''https://api.example.com'') True, True) a
      = (result, Some m, a') \<and> nqTransports (naRequester a') = [(''https://api.example.com'', nrTarget apiRequest)] \<and> \<not> nqClosed (naRequester a') \<and> naCalls a' = naCalls a + 1"
  using apiRequest_performed[OF assms(1,2)] assms(3)
  by (auto simp: networkCall_def apiRequest_built maxModuleNetworkCallsPerAction_def)

lemma apiRun_length:
  assumes "nqTransports (naRequester a) = [] \<or> nqTransports (naRequester a) = [(''https://api.example.com'', nrTarget apiRequest)]" "\<not> nqClosed (naRequester a)"
  shows "length (networkRun apiExterns (\<lambda>u. ''https://api.example.com'') apiReply
    (replicate n (CompatRequest ''get'' (ExString ''https://api.example.com'') True, True)) a) = min n (4 - naCalls a)"
  using assms
proof (induction n arbitrary: a)
  case (Suc n)
  show ?case
  proof (cases "naCalls a < 4")
    case True
    obtain result m a' where "networkCall apiExterns (\<lambda>u. ''https://api.example.com'') apiReply (CompatRequest ''get'' (ExString ''https://api.example.com'') True, True) a
      = (result, Some m, a')" "nqTransports (naRequester a') = [(''https://api.example.com'', nrTarget apiRequest)]" "\<not> nqClosed (naRequester a')" "naCalls a' = naCalls a + 1"
      using apiCall_sent[OF Suc.prems True] by blast
    then show ?thesis using Suc.IH[of a'] True by (simp add: min_def) arith
  next
    case False
    then have "networkCall apiExterns (\<lambda>u. ''https://api.example.com'') apiReply (CompatRequest ''get'' (ExString ''https://api.example.com'') True, True) a
      = (Inl CallLimit, None, a\<lparr>naCalls := naCalls a + 1\<rparr>)" by (simp add: networkCall_def maxModuleNetworkCallsPerAction_def Let_def)
    then show ?thesis using Suc.IH[of "a\<lparr>naCalls := naCalls a + 1\<rparr>"] Suc.prems False by simp
  qed
qed simp

theorem network_calls_confined_witness:
  "length (networkRun apiExterns (\<lambda>u. ''https://api.example.com'') apiReply apiCalls \<lparr>naCalls = 0, naRequester = newModuleNetworkRequester\<rparr>) = 4 \<and>
    list_all (\<lambda>(t, msg). publicTarget t \<and> confinedMessage msg)
      (networkRun apiExterns (\<lambda>u. ''https://api.example.com'') apiReply apiCalls \<lparr>naCalls = 0, naRequester = newModuleNetworkRequester\<rparr>)"
proof -
  have "length (networkRun apiExterns (\<lambda>u. ''https://api.example.com'') apiReply apiCalls \<lparr>naCalls = 0, naRequester = newModuleNetworkRequester\<rparr>) = 4"
    unfolding apiCalls_def by (subst apiRun_length) (simp_all add: newModuleNetworkRequester_def)
  then show ?thesis
    using network_calls_confined[OF apiExterns_originsParse, of "\<lambda>u. ''https://api.example.com''" apiReply apiCalls]
    unfolding list_all_iff by fast
qed

end
