(* ===== verification/Dom.thy ===== *)
theory Dom
  imports Validation
begin

text \<open>
  The document model a published bundle may use (module_dom.go): one parsed tree, the objects that stand for its nodes, and
  the methods and accessors of these objects.

  A node is its position in the list of nodes; the links between nodes are a parent and a list of children, and the two
  operations of \<^verbatim>\<open>x/net/html\<close> that change them panic where the library does. Parsing, rendering and selectors are arguments.
  An object of the script engine is a number.
\<close>

section \<open>Nodes\<close>

datatype node_type = ElementNode | TextNode | OtherNode

record domNode =
  dnType :: node_type
  dnData :: string
  dnAttr :: "(string \<times> string) list"
  dnParent :: "nat option"
  dnChildren :: "nat list"

definition maxDOMDocumentBytes :: nat where "maxDOMDocumentBytes = 8 * 2 ^ 20"
definition maxDOMNodes :: nat where "maxDOMNodes = 200000"
definition maxDOMSelectorBytes :: nat where "maxDOMSelectorBytes = 1024"

text \<open>\<open>None\<close> is a panic of the library.\<close>

definition htmlRemoveChild :: "nat \<Rightarrow> nat \<Rightarrow> domNode list \<Rightarrow> domNode list option" where
  "htmlRemoveChild n c h =
     (if dnParent (h ! c) \<noteq> Some n then None
      else (let h = h[n := (h ! n)\<lparr>dnChildren := removeAll c (dnChildren (h ! n))\<rparr>]
            in Some (h[c := (h ! c)\<lparr>dnParent := None\<rparr>])))"

definition htmlAppendChild :: "nat \<Rightarrow> nat \<Rightarrow> domNode list \<Rightarrow> domNode list option" where
  "htmlAppendChild n c h =
     (if dnParent (h ! c) \<noteq> None then None
      else (let h = h[n := (h ! n)\<lparr>dnChildren := dnChildren (h ! n) @ [c]\<rparr>]
            in Some (h[c := (h ! c)\<lparr>dnParent := Some n\<rparr>])))"

section \<open>Walks\<close>

text \<open>The walks recurse on the links; the first argument bounds the depth of the recursion.\<close>

fun countLoop :: "(nat \<Rightarrow> nat option) \<Rightarrow> nat \<Rightarrow> nat list \<Rightarrow> nat option" where
  "countLoop f acc [] = Some acc"
| "countLoop f acc (c # cs) =
     (case f c of
        None \<Rightarrow> None
      | Some m \<Rightarrow> (if acc + m > maxDOMNodes then Some (acc + m) else countLoop f (acc + m) cs))"

fun countDOMNodes :: "nat \<Rightarrow> domNode list \<Rightarrow> nat \<Rightarrow> nat option" where
  "countDOMNodes 0 h n = None"
| "countDOMNodes (Suc k) h n = countLoop (countDOMNodes k h) 1 (dnChildren (h ! n))"

fun findLoop :: "(nat \<Rightarrow> nat option option) \<Rightarrow> nat list \<Rightarrow> nat option option" where
  "findLoop f [] = Some None"
| "findLoop f (c # cs) =
     (case f c of None \<Rightarrow> None | Some (Some found) \<Rightarrow> Some (Some found) | Some None \<Rightarrow> findLoop f cs)"

fun findElement :: "nat \<Rightarrow> domNode list \<Rightarrow> string \<Rightarrow> nat \<Rightarrow> nat option option" where
  "findElement 0 h tag n = None"
| "findElement (Suc k) h tag n =
     (if dnType (h ! n) = ElementNode \<and> dnData (h ! n) = tag then Some (Some n)
      else findLoop (findElement k h tag) (dnChildren (h ! n)))"

fun domTextContent :: "nat \<Rightarrow> domNode list \<Rightarrow> nat \<Rightarrow> string option" where
  "domTextContent 0 h n = None"
| "domTextContent (Suc k) h n =
     (if dnType (h ! n) = TextNode then Some (dnData (h ! n))
      else map_option concat (those (map (domTextContent k h) (dnChildren (h ! n)))))"

section \<open>The document\<close>

datatype dom_error =
    NotHTML | DocumentTooLong | ParseFailed | TooManyNodes | NoTagName | SelectorTooLong | SelectorInvalid
  | ForeignNode | NotAChild | NotSerialized | LibraryPanic

text \<open>\<open>dxSelect\<close> compiles a selector to the function that gives its matches below a node in document order.\<close>

record domExterns =
  dxParse :: "string \<Rightarrow> domNode list option"
  dxSelect :: "string \<Rightarrow> (domNode list \<Rightarrow> nat \<Rightarrow> nat list) option"
  dxRender :: "domNode list \<Rightarrow> nat \<Rightarrow> string option"

text \<open>\<open>ddWrapped\<close> and \<open>ddObjects\<close> are the two maps; \<open>ddNext\<close> is the next object of the script engine.\<close>

record domDocument =
  ddHeap :: "domNode list"
  ddRoot :: nat
  ddWrapped :: "nat \<rightharpoonup> nat"
  ddObjects :: "nat \<rightharpoonup> nat"
  ddNext :: nat

definition newDOMDocument :: "domExterns \<Rightarrow> nat \<Rightarrow> nat \<Rightarrow> string \<Rightarrow> dom_error + domDocument" where
  "newDOMDocument x depth object source =
     (if length source > maxDOMDocumentBytes then Inl DocumentTooLong
      else (case dxParse x source of
              None \<Rightarrow> Inl ParseFailed
            | Some h \<Rightarrow>
                (case countDOMNodes depth h 0 of
                   None \<Rightarrow> Inl LibraryPanic
                 | Some count \<Rightarrow>
                     (if count > maxDOMNodes then Inl TooManyNodes
                      else Inr \<lparr>ddHeap = h, ddRoot = 0, ddWrapped = Map.empty, ddObjects = Map.empty, ddNext = object\<rparr>))))"

definition parseFromString :: "domExterns \<Rightarrow> nat \<Rightarrow> nat \<Rightarrow> string \<Rightarrow> string \<Rightarrow> dom_error + domDocument" where
  "parseFromString x depth object source mime =
     (if to_lower (trim_space mime) \<noteq> ''text/html'' then Inl NotHTML else newDOMDocument x depth object source)"

text \<open>The one object that stands for a node.\<close>

definition wrap :: "nat \<Rightarrow> domDocument \<Rightarrow> nat \<times> domDocument" where
  "wrap n d =
     (case ddWrapped d n of
        Some object \<Rightarrow> (object, d)
      | None \<Rightarrow>
          (ddNext d, d\<lparr>ddWrapped := (ddWrapped d)(n \<mapsto> ddNext d), ddObjects := (ddObjects d)(ddNext d \<mapsto> n), ddNext := ddNext d + 1\<rparr>))"

fun wrapAll :: "nat list \<Rightarrow> domDocument \<Rightarrow> nat list \<times> domDocument" where
  "wrapAll [] d = ([], d)"
| "wrapAll (n # ns) d = (case wrap n d of (object, d) \<Rightarrow> case wrapAll ns d of (objects, d) \<Rightarrow> (object # objects, d))"

text \<open>A value a script passes: an object, or \<open>None\<close> for anything else.\<close>

definition nodeOf :: "nat option \<Rightarrow> domDocument \<Rightarrow> dom_error + nat" where
  "nodeOf v d =
     (case v of
        None \<Rightarrow> Inl ForeignNode
      | Some object \<Rightarrow> (case ddObjects d object of None \<Rightarrow> Inl ForeignNode | Some n \<Rightarrow> Inr n))"

section \<open>Methods and accessors\<close>

text \<open>\<open>Throws\<close> is an exception in the script, \<open>NoReturn\<close> a recursion deeper than the bound.\<close>

datatype dom_value = AnObject nat | Null | Undefined | AText string | Objects "nat list" | Throws dom_error | NoReturn

definition allocNode :: "domNode \<Rightarrow> domDocument \<Rightarrow> nat \<times> domDocument" where
  "allocNode node d = (length (ddHeap d), d\<lparr>ddHeap := ddHeap d @ [node]\<rparr>)"

definition newNode :: "node_type \<Rightarrow> string \<Rightarrow> domNode" where
  "newNode t data = \<lparr>dnType = t, dnData = data, dnAttr = [], dnParent = None, dnChildren = []\<rparr>"

definition returnObject :: "nat \<Rightarrow> domDocument \<Rightarrow> dom_value \<times> domDocument" where
  "returnObject n d = (case wrap n d of (object, d) \<Rightarrow> (AnObject object, d))"

definition createElement :: "string \<Rightarrow> domDocument \<Rightarrow> dom_value \<times> domDocument" where
  "createElement tag d =
     (let name = to_lower (trim_space tag)
      in if name = [] then (Throws NoTagName, d)
         else (case allocNode (newNode ElementNode name) d of (n, d) \<Rightarrow> returnObject n d))"

definition compileSelector :: "domExterns \<Rightarrow> string \<Rightarrow> dom_error + (domNode list \<Rightarrow> nat \<Rightarrow> nat list)" where
  "compileSelector x selector =
     (if length selector > maxDOMSelectorBytes then Inl SelectorTooLong
      else (case dxSelect x selector of None \<Rightarrow> Inl SelectorInvalid | Some f \<Rightarrow> Inr f))"

definition selectAll :: "domExterns \<Rightarrow> nat \<Rightarrow> string \<Rightarrow> domDocument \<Rightarrow> dom_value \<times> domDocument" where
  "selectAll x scope selector d =
     (case compileSelector x selector of
        Inl e \<Rightarrow> (Throws e, d)
      | Inr f \<Rightarrow> (case wrapAll (f (ddHeap d) scope) d of (objects, d) \<Rightarrow> (Objects objects, d)))"

definition querySelector :: "domExterns \<Rightarrow> string \<Rightarrow> domDocument \<Rightarrow> dom_value \<times> domDocument" where
  "querySelector x selector d =
     (case compileSelector x selector of
        Inl e \<Rightarrow> (Throws e, d)
      | Inr f \<Rightarrow> (case f (ddHeap d) (ddRoot d) of [] \<Rightarrow> (Null, d) | n # _ \<Rightarrow> returnObject n d))"

definition firstElement :: "nat \<Rightarrow> string \<Rightarrow> domDocument \<Rightarrow> dom_value \<times> domDocument" where
  "firstElement depth tag d =
     (case findElement depth (ddHeap d) tag (ddRoot d) of
        None \<Rightarrow> (NoReturn, d)
      | Some None \<Rightarrow> (Null, d)
      | Some (Some n) \<Rightarrow> returnObject n d)"

definition appendChild :: "nat \<Rightarrow> nat option \<Rightarrow> domDocument \<Rightarrow> dom_value \<times> domDocument" where
  "appendChild n v d =
     (case nodeOf v d of
        Inl e \<Rightarrow> (Throws e, d)
      | Inr c \<Rightarrow>
          (case (case dnParent (ddHeap d ! c) of None \<Rightarrow> Some (ddHeap d) | Some p \<Rightarrow> htmlRemoveChild p c (ddHeap d)) of
             None \<Rightarrow> (Throws LibraryPanic, d)
           | Some h \<Rightarrow>
               (case htmlAppendChild n c h of
                  None \<Rightarrow> (Throws LibraryPanic, d\<lparr>ddHeap := h\<rparr>)
                | Some h \<Rightarrow> returnObject c (d\<lparr>ddHeap := h\<rparr>))))"

definition removeChild :: "nat \<Rightarrow> nat option \<Rightarrow> domDocument \<Rightarrow> dom_value \<times> domDocument" where
  "removeChild n v d =
     (case nodeOf v d of
        Inl e \<Rightarrow> (Throws e, d)
      | Inr c \<Rightarrow>
          (if dnParent (ddHeap d ! c) \<noteq> Some n then (Throws NotAChild, d)
           else (case htmlRemoveChild n c (ddHeap d) of
                   None \<Rightarrow> (Throws LibraryPanic, d)
                 | Some h \<Rightarrow> returnObject c (d\<lparr>ddHeap := h\<rparr>))))"

definition getAttribute :: "nat \<Rightarrow> string \<Rightarrow> domDocument \<Rightarrow> dom_value" where
  "getAttribute n name d =
     (case map_of (dnAttr (ddHeap d ! n)) (to_lower name) of None \<Rightarrow> Null | Some v \<Rightarrow> AText v)"

text \<open>The first attribute of that name is changed, or one is added at the end.\<close>

fun setFirst :: "string \<Rightarrow> string \<Rightarrow> (string \<times> string) list \<Rightarrow> (string \<times> string) list" where
  "setFirst name v [] = [(name, v)]"
| "setFirst name v ((k, w) # rest) = (if k = name then (k, v) # rest else (k, w) # setFirst name v rest)"

definition setAttribute :: "nat \<Rightarrow> string \<Rightarrow> string \<Rightarrow> domDocument \<Rightarrow> domDocument" where
  "setAttribute n name v d =
     d\<lparr>ddHeap := (ddHeap d)[n := (ddHeap d ! n)\<lparr>dnAttr := setFirst (to_lower name) v (dnAttr (ddHeap d ! n))\<rparr>]\<rparr>"

definition parentElement :: "nat \<Rightarrow> domDocument \<Rightarrow> dom_value \<times> domDocument" where
  "parentElement n d =
     (case dnParent (ddHeap d ! n) of
        None \<Rightarrow> (Null, d)
      | Some p \<Rightarrow> (if dnType (ddHeap d ! p) \<noteq> ElementNode then (Null, d) else returnObject p d))"

fun removeEach :: "nat \<Rightarrow> nat list \<Rightarrow> domNode list \<Rightarrow> domNode list option" where
  "removeEach n [] h = Some h"
| "removeEach n (c # cs) h = (case htmlRemoveChild n c h of None \<Rightarrow> None | Some h \<Rightarrow> removeEach n cs h)"

definition setTextContent :: "nat \<Rightarrow> string \<Rightarrow> domDocument \<Rightarrow> dom_value \<times> domDocument" where
  "setTextContent n data d =
     (case removeEach n (dnChildren (ddHeap d ! n)) (ddHeap d) of
        None \<Rightarrow> (Throws LibraryPanic, d)
      | Some h \<Rightarrow>
          (case allocNode (newNode TextNode data) (d\<lparr>ddHeap := h\<rparr>) of
             (c, d) \<Rightarrow> (case htmlAppendChild n c (ddHeap d) of
                          None \<Rightarrow> (Throws LibraryPanic, d)
                        | Some h \<Rightarrow> (Undefined, d\<lparr>ddHeap := h\<rparr>))))"

text \<open>An element that has a parent is rendered through a copy that has none.\<close>

definition domRender :: "domExterns \<Rightarrow> domNode list \<Rightarrow> nat \<Rightarrow> string option" where
  "domRender x h n =
     (if dnParent (h ! n) \<noteq> None \<and> dnType (h ! n) = ElementNode
      then dxRender x (h @ [(h ! n)\<lparr>dnParent := None\<rparr>]) (length h)
      else dxRender x h n)"

definition outerHTML :: "domExterns \<Rightarrow> nat \<Rightarrow> domDocument \<Rightarrow> dom_value" where
  "outerHTML x n d = (case domRender x (ddHeap d) n of None \<Rightarrow> Throws NotSerialized | Some s \<Rightarrow> AText s)"

definition innerHTML :: "domExterns \<Rightarrow> nat \<Rightarrow> domDocument \<Rightarrow> dom_value" where
  "innerHTML x n d =
     (case those (map (domRender x (ddHeap d)) (dnChildren (ddHeap d ! n))) of None \<Rightarrow> Throws NotSerialized | Some ss \<Rightarrow> AText (concat ss))"

text \<open>What a script can call: on the document, or on an object, whose node the closures of the object hold.\<close>

datatype dom_call =
    CreateElement string | QuerySelectorAll string | QuerySelector string | FirstElement string
  | AppendChild nat "nat option" | RemoveChild nat "nat option" | QueryBelow nat string
  | GetAttribute nat string | SetAttribute nat string string | TagName nat | ParentElement nat
  | TextContent nat | SetTextContent nat string | OuterHTML nat | InnerHTML nat

definition onNode :: "nat \<Rightarrow> domDocument \<Rightarrow> (nat \<Rightarrow> dom_value \<times> domDocument) \<Rightarrow> dom_value \<times> domDocument" where
  "onNode object d f = (case ddObjects d object of None \<Rightarrow> (Throws ForeignNode, d) | Some n \<Rightarrow> f n)"

definition domCall :: "domExterns \<Rightarrow> nat \<Rightarrow> dom_call \<Rightarrow> domDocument \<Rightarrow> dom_value \<times> domDocument" where
  "domCall x depth call d =
     (case call of
        CreateElement tag \<Rightarrow> createElement tag d
      | QuerySelectorAll s \<Rightarrow> selectAll x (ddRoot d) s d
      | QuerySelector s \<Rightarrow> querySelector x s d
      | FirstElement tag \<Rightarrow> firstElement depth tag d
      | AppendChild object v \<Rightarrow> onNode object d (\<lambda>n. appendChild n v d)
      | RemoveChild object v \<Rightarrow> onNode object d (\<lambda>n. removeChild n v d)
      | QueryBelow object s \<Rightarrow> onNode object d (\<lambda>n. selectAll x n s d)
      | GetAttribute object name \<Rightarrow> onNode object d (\<lambda>n. (getAttribute n name d, d))
      | SetAttribute object name v \<Rightarrow> onNode object d (\<lambda>n. (Undefined, setAttribute n name v d))
      | TagName object \<Rightarrow> onNode object d (\<lambda>n. (AText (to_upper (dnData (ddHeap d ! n))), d))
      | ParentElement object \<Rightarrow> onNode object d (\<lambda>n. parentElement n d)
      | TextContent object \<Rightarrow> onNode object d (\<lambda>n. (case domTextContent depth (ddHeap d) n of None \<Rightarrow> NoReturn | Some s \<Rightarrow> AText s, d))
      | SetTextContent object data \<Rightarrow> onNode object d (\<lambda>n. setTextContent n data d)
      | OuterHTML object \<Rightarrow> onNode object d (\<lambda>n. (outerHTML x n d, d))
      | InnerHTML object \<Rightarrow> onNode object d (\<lambda>n. (innerHTML x n d, d)))"

end
