(* ===== verification/Dom_Properties.thy ===== *)
theory Dom_Properties
  imports Dom
begin

text \<open>
  What a script can rely on in a document: one object per node for as long as the document lives, links that stay those of a
  forest, and reads that return as long as no node is put below itself.
\<close>

section \<open>Links\<close>

text \<open>The links of a tree: a node is listed by its parent, once, and by nobody else.\<close>

definition linked :: "domNode list \<Rightarrow> bool" where
  "linked h \<longleftrightarrow> (\<forall>n<length h. distinct (dnChildren (h ! n)) \<and> (\<forall>c. c \<in> set (dnChildren (h ! n)) \<longleftrightarrow> c < length h \<and> dnParent (h ! c) = Some n) \<and>
     (\<forall>p. dnParent (h ! n) = Some p \<longrightarrow> p < length h))"

definition parentRel :: "domNode list \<Rightarrow> (nat \<times> nat) set" where
  "parentRel h = {(c, p). c < length h \<and> dnParent (h ! c) = Some p}"

lemma linkedD:
  assumes "linked h" "n < length h"
  shows "distinct (dnChildren (h ! n))" "c \<in> set (dnChildren (h ! n)) \<longleftrightarrow> c < length h \<and> dnParent (h ! c) = Some n" "dnParent (h ! n) = Some p \<Longrightarrow> p < length h"
  using assms unfolding linked_def by blast+

lemma remove_linked:
  assumes "linked h" "n < length h" "c < length h" "htmlRemoveChild n c h = Some h'"
  shows "linked h' \<and> length h' = length h \<and> parentRel h' = parentRel h - {(c, n)} \<and> dnParent (h' ! c) = None"
proof -
  have p: "dnParent (h ! c) = Some n" using assms(4) by (auto simp: htmlRemoveChild_def split: if_splits)
  define g where "g = h[n := (h ! n)\<lparr>dnChildren := removeAll c (dnChildren (h ! n))\<rparr>]"
  have h': "h' = g[c := (g ! c)\<lparr>dnParent := None\<rparr>]" using assms(4) p by (simp add: htmlRemoveChild_def g_def Let_def)
  have len: "length h' = length h" by (simp add: h' g_def)
  have par: "dnParent (h' ! i) = (if i = c then None else dnParent (h ! i))" if "i < length h" for i
    using that assms(2,3) by (auto simp: h' g_def nth_list_update)
  have kids: "dnChildren (h' ! i) = (if i = n then removeAll c (dnChildren (h ! n)) else dnChildren (h ! i))" if "i < length h" for i
    using that assms(2,3) by (auto simp: h' g_def nth_list_update)
  have "linked h'" unfolding linked_def len
  proof (intro allI impI conjI)
    fix i assume i: "i < length h"
    show "distinct (dnChildren (h' ! i))" using linkedD(1)[OF assms(1)] i assms(2) by (simp add: kids distinct_removeAll)
    show "j \<in> set (dnChildren (h' ! i)) \<longleftrightarrow> j < length h \<and> dnParent (h' ! j) = Some i" for j
      using linkedD(2)[OF assms(1) i, of j] linkedD(2)[OF assms(1,2), of j] p by (auto simp: kids[OF i] par split: if_splits)
    show "dnParent (h' ! i) = Some q \<Longrightarrow> q < length h" for q using linkedD(3)[OF assms(1) i, of q] by (auto simp: par[OF i] split: if_splits)
  qed
  moreover have "parentRel h' = parentRel h - {(c, n)}" using p assms(3) by (auto simp: parentRel_def len par split: if_splits)
  ultimately show ?thesis using len par[OF assms(3)] by simp
qed

lemma append_linked:
  assumes "linked h" "n < length h" "c < length h" "htmlAppendChild n c h = Some h'"
  shows "linked h' \<and> length h' = length h \<and> parentRel h' = insert (c, n) (parentRel h)"
proof -
  have p: "dnParent (h ! c) = None" using assms(4) by (auto simp: htmlAppendChild_def split: if_splits)
  define g where "g = h[n := (h ! n)\<lparr>dnChildren := dnChildren (h ! n) @ [c]\<rparr>]"
  have h': "h' = g[c := (g ! c)\<lparr>dnParent := Some n\<rparr>]" using assms(4) p by (simp add: htmlAppendChild_def g_def Let_def)
  have len: "length h' = length h" by (simp add: h' g_def)
  have par: "dnParent (h' ! i) = (if i = c then Some n else dnParent (h ! i))" if "i < length h" for i
    using that assms(2,3) by (auto simp: h' g_def nth_list_update)
  have kids: "dnChildren (h' ! i) = (if i = n then dnChildren (h ! n) @ [c] else dnChildren (h ! i))" if "i < length h" for i
    using that assms(2,3) by (auto simp: h' g_def nth_list_update)
  have "linked h'" unfolding linked_def len
  proof (intro allI impI conjI)
    fix i assume i: "i < length h"
    have "c \<notin> set (dnChildren (h ! i))" using linkedD(2)[OF assms(1) i] p by simp
    then show "distinct (dnChildren (h' ! i))" using linkedD(1)[OF assms(1)] i assms(2) by (auto simp: kids)
    show "j \<in> set (dnChildren (h' ! i)) \<longleftrightarrow> j < length h \<and> dnParent (h' ! j) = Some i" for j
      using linkedD(2)[OF assms(1) i, of j] p assms(3) by (auto simp: kids[OF i] par split: if_splits)
    show "dnParent (h' ! i) = Some q \<Longrightarrow> q < length h" for q using linkedD(3)[OF assms(1) i, of q] assms(2) by (auto simp: par[OF i] split: if_splits)
  qed
  moreover have "parentRel h' = insert (c, n) (parentRel h)" using p assms(3) by (auto simp: parentRel_def len par split: if_splits)
  ultimately show ?thesis using len by simp
qed

lemma alloc_linked:
  assumes "linked h"
  shows "linked (h @ [newNode t data])" "parentRel (h @ [newNode t data]) = parentRel h"
proof -
  have nth: "(h @ [newNode t data]) ! i = (if i < length h then h ! i else newNode t data)" if "i < Suc (length h)" for i
    using that by (auto simp: nth_append less_Suc_eq)
  have nn: "dnParent (newNode t data) = None" "dnChildren (newNode t data) = []" by (simp_all add: newNode_def)
  show "parentRel (h @ [newNode t data]) = parentRel h" by (auto simp: parentRel_def nth nn split: if_splits)
  have "j \<in> set (dnChildren (h ! i)) \<Longrightarrow> j < length h" if "i < length h" for i j using linkedD(2)[OF assms that] by simp
  then show "linked (h @ [newNode t data])" using assms
    by (auto simp: linked_def nth less_Suc_eq nn)
qed

lemma attr_linked:
  assumes "n < length h"
  shows "linked (h[n := (h ! n)\<lparr>dnAttr := a\<rparr>]) = linked h" "parentRel (h[n := (h ! n)\<lparr>dnAttr := a\<rparr>]) = parentRel h"
proof -
  let ?h = "h[n := (h ! n)\<lparr>dnAttr := a\<rparr>]"
  have e: "dnChildren (?h ! i) = dnChildren (h ! i)" "dnParent (?h ! i) = dnParent (h ! i)" for i
    using assms by (cases "i = n"; simp)+
  show "linked ?h = linked h" "parentRel ?h = parentRel h" by (simp_all add: linked_def parentRel_def e)
qed

text \<open>Removing every child never reaches a panic of the library.\<close>

lemma removeEach_linked:
  assumes "linked h" "n < length h" "distinct cs" "set cs \<subseteq> set (dnChildren (h ! n))"
  shows "\<exists>h'. removeEach n cs h = Some h' \<and> linked h' \<and> length h' = length h \<and> parentRel h' \<subseteq> parentRel h"
  using assms
proof (induction cs arbitrary: h)
  case (Cons c cs)
  have c: "c < length h" "dnParent (h ! c) = Some n" using linkedD(2)[OF Cons.prems(1,2), of c] Cons.prems(4) by auto
  then obtain h1 where h1: "htmlRemoveChild n c h = Some h1" by (auto simp: htmlRemoveChild_def Let_def)
  note r = remove_linked[OF Cons.prems(1,2) c(1) h1]
  have "set cs \<subseteq> set (dnChildren (h1 ! n))"
  proof
    fix x assume x: "x \<in> set cs"
    then have "(x, n) \<in> parentRel h - {(c, n)}" using linkedD(2)[OF Cons.prems(1,2), of x] Cons.prems(3,4) by (auto simp: parentRel_def)
    then show "x \<in> set (dnChildren (h1 ! n))" using r linkedD(2)[of h1 n x] Cons.prems(2) by (auto simp: parentRel_def set_eq_iff)
  qed
  from Cons.IH[of h1] this r Cons.prems(2,3) obtain h' where "removeEach n cs h1 = Some h'" "linked h'" "length h' = length h1" "parentRel h' \<subseteq> parentRel h1" by auto
  then show ?case using r h1 by auto
qed simp

section \<open>Objects\<close>

text \<open>The two maps are inverse to each other, name existing nodes, and know no object that has not been made.\<close>

definition domOK :: "domDocument \<Rightarrow> bool" where
  "domOK d \<longleftrightarrow> linked (ddHeap d) \<and> ddRoot d < length (ddHeap d) \<and>
     (\<forall>n object. ddWrapped d n = Some object \<longleftrightarrow> ddObjects d object = Some n) \<and>
     (\<forall>n object. ddWrapped d n = Some object \<longrightarrow> n < length (ddHeap d) \<and> object < ddNext d)"

text \<open>What a later document keeps of an earlier one.\<close>

definition keepsObjects :: "domDocument \<Rightarrow> domDocument \<Rightarrow> bool" where
  "keepsObjects d d' \<longleftrightarrow> length (ddHeap d) \<le> length (ddHeap d') \<and> ddRoot d' = ddRoot d \<and> ddWrapped d \<subseteq>\<^sub>m ddWrapped d'"

lemma keeps_refl [simp]: "keepsObjects d d" by (simp add: keepsObjects_def)

lemma keeps_trans: "keepsObjects a b \<Longrightarrow> keepsObjects b c \<Longrightarrow> keepsObjects a c"
  unfolding keepsObjects_def by (metis le_trans map_le_trans)

lemma wrap_OK:
  assumes "domOK d" "n < length (ddHeap d)" "wrap n d = (object, d')"
  shows "domOK d' \<and> keepsObjects d d' \<and> ddHeap d' = ddHeap d \<and> ddWrapped d' n = Some object"
proof (cases "ddWrapped d n")
  case (Some ob)
  then show ?thesis using assms by (simp add: wrap_def)
next
  case None
  have fresh: "ddObjects d (ddNext d) = None"
  proof (rule ccontr)
    assume "ddObjects d (ddNext d) \<noteq> None"
    then obtain m where "ddWrapped d m = Some (ddNext d)" using assms(1) by (auto simp: domOK_def)
    then show False using assms(1) by (auto simp: domOK_def)
  qed
  have d': "d' = d\<lparr>ddWrapped := (ddWrapped d)(n \<mapsto> ddNext d), ddObjects := (ddObjects d)(ddNext d \<mapsto> n), ddNext := ddNext d + 1\<rparr>" "object = ddNext d"
    using assms(3) None by (auto simp: wrap_def)
  have "ddObjects d ob \<noteq> Some n" for ob using assms(1) None unfolding domOK_def by (metis option.distinct(1))
  then have "domOK d'" using assms(1,2) None fresh unfolding domOK_def d'(1) by (auto simp: less_Suc_eq)
  moreover have "keepsObjects d d'" using None by (auto simp: keepsObjects_def d'(1) map_le_def)
  ultimately show ?thesis by (simp add: d')
qed

lemma wrapAll_OK:
  assumes "domOK d" "\<forall>n\<in>set ns. n < length (ddHeap d)" "wrapAll ns d = (objects, d')"
  shows "domOK d' \<and> keepsObjects d d' \<and> ddHeap d' = ddHeap d \<and> map (ddWrapped d') ns = map Some objects"
  using assms
proof (induction ns arbitrary: d objects)
  case (Cons n ns)
  obtain o1 d1 os where w: "wrap n d = (o1, d1)" "wrapAll ns d1 = (os, d')" "objects = o1 # os"
    using Cons.prems(3) by (auto split: prod.splits)
  have s: "domOK d1 \<and> keepsObjects d d1 \<and> ddHeap d1 = ddHeap d \<and> ddWrapped d1 n = Some o1" using wrap_OK[OF Cons.prems(1) _ w(1)] Cons.prems(2) by simp
  moreover have r: "domOK d' \<and> keepsObjects d1 d' \<and> ddHeap d' = ddHeap d1 \<and> map (ddWrapped d') ns = map Some os" using Cons.IH[OF _ _ w(2)] s Cons.prems(2) by simp
  moreover have "ddWrapped d' n = Some o1" using s r by (auto simp: keepsObjects_def map_le_def dom_def)
  ultimately show ?case using keeps_trans[of d d1 d'] w(3) by simp
qed simp

section \<open>Calls\<close>

text \<open>What is used of the selector library: it gives nodes of the tree it was asked about.\<close>

definition selectsNodes :: "domExterns \<Rightarrow> bool" where
  "selectsNodes x \<longleftrightarrow> (\<forall>s f h n. dxSelect x s = Some f \<and> linked h \<and> n < length h \<longrightarrow> (\<forall>m\<in>set (f h n). m < length h))"

text \<open>The links of a call are kept, or one node is taken from its place and put below another.\<close>

definition relinks :: "dom_call \<Rightarrow> domDocument \<Rightarrow> domDocument \<Rightarrow> bool" where
  "relinks call d d' \<longleftrightarrow>
     (case call of
        AppendChild object v \<Rightarrow>
          parentRel (ddHeap d') = parentRel (ddHeap d) \<or>
          (\<exists>n ob c. v = Some ob \<and> ddObjects d object = Some n \<and> ddObjects d ob = Some c \<and> parentRel (ddHeap d') \<subseteq> insert (c, n) (parentRel (ddHeap d)))
      | SetTextContent object data \<Rightarrow> \<exists>n. parentRel (ddHeap d') \<subseteq> insert (length (ddHeap d), n) (parentRel (ddHeap d)) \<and> n < length (ddHeap d)
      | _ \<Rightarrow> parentRel (ddHeap d') \<subseteq> parentRel (ddHeap d))"

definition callOK :: "dom_call \<Rightarrow> dom_value \<Rightarrow> domDocument \<Rightarrow> domDocument \<Rightarrow> bool" where
  "callOK call v d d' \<longleftrightarrow> domOK d' \<and> keepsObjects d d' \<and> v \<noteq> Throws LibraryPanic \<and> relinks call d d'"

lemma domOK_object: "domOK d \<Longrightarrow> ddObjects d object = Some n \<Longrightarrow> n < length (ddHeap d)"
  unfolding domOK_def by blast

lemma domOK_linked: "domOK d \<Longrightarrow> linked (ddHeap d)" "domOK d \<Longrightarrow> ddRoot d < length (ddHeap d)"
  by (simp_all add: domOK_def)

lemma domOK_heap: "domOK d \<Longrightarrow> linked h \<Longrightarrow> length (ddHeap d) \<le> length h \<Longrightarrow> domOK (d\<lparr>ddHeap := h\<rparr>)"
  unfolding domOK_def by fastforce

lemma returnObject_OK:
  assumes "domOK d" "n < length (ddHeap d)" "returnObject n d = (v, d')"
  shows "domOK d' \<and> keepsObjects d d' \<and> ddHeap d' = ddHeap d \<and> v \<noteq> Throws e"
  using assms wrap_OK[OF assms(1,2)] by (auto simp: returnObject_def split: prod.splits)

lemma nodeOf_OK: "domOK d \<Longrightarrow> nodeOf v d = Inr c \<Longrightarrow> \<exists>ob. v = Some ob \<and> ddObjects d ob = Some c \<and> c < length (ddHeap d)"
  by (auto simp: nodeOf_def domOK_object split: option.splits)

lemma createElement_OK:
  assumes "domOK d" "createElement tag d = (v, d')"
  shows "domOK d' \<and> keepsObjects d d' \<and> parentRel (ddHeap d') \<subseteq> parentRel (ddHeap d) \<and> v \<noteq> Throws LibraryPanic"
proof (cases "to_lower (trim_space tag) = []")
  case True
  then show ?thesis using assms by (auto simp: createElement_def)
next
  case False
  let ?h = "ddHeap d @ [newNode ElementNode (to_lower (trim_space tag))]"
  have l: "linked (ddHeap d)" by (rule domOK_linked(1)[OF assms(1)])
  have ok: "domOK (d\<lparr>ddHeap := ?h\<rparr>)" using domOK_heap[OF assms(1) alloc_linked(1)[OF l]] by simp
  have "returnObject (length (ddHeap d)) (d\<lparr>ddHeap := ?h\<rparr>) = (v, d')" using assms(2) False by (simp add: createElement_def allocNode_def Let_def)
  from returnObject_OK[OF ok _ this] show ?thesis using alloc_linked(2)[OF l] by (auto simp: keepsObjects_def)
qed

lemma selectAll_OK:
  assumes "domOK d" "selectsNodes x" "n < length (ddHeap d)" "selectAll x n s d = (v, d')"
  shows "domOK d' \<and> keepsObjects d d' \<and> ddHeap d' = ddHeap d \<and> v \<noteq> Throws LibraryPanic"
proof (cases "compileSelector x s")
  case (Inl e)
  then show ?thesis using assms by (auto simp: selectAll_def compileSelector_def split: if_splits option.splits)
next
  case (Inr f)
  have l: "linked (ddHeap d)" by (rule domOK_linked(1)[OF assms(1)])
  have "dxSelect x s = Some f" using Inr by (auto simp: compileSelector_def split: if_splits option.splits)
  then have "\<forall>m\<in>set (f (ddHeap d) n). m < length (ddHeap d)" using assms(2,3) l by (auto simp: selectsNodes_def)
  from wrapAll_OK[OF assms(1) this] show ?thesis using assms(4) by (auto simp: selectAll_def Inr split: prod.splits)
qed

lemma querySelector_OK:
  assumes "domOK d" "selectsNodes x" "querySelector x s d = (v, d')"
  shows "domOK d' \<and> keepsObjects d d' \<and> ddHeap d' = ddHeap d \<and> v \<noteq> Throws LibraryPanic"
proof (cases "compileSelector x s")
  case (Inl e)
  then show ?thesis using assms by (auto simp: querySelector_def compileSelector_def split: if_splits option.splits)
next
  case (Inr f)
  have l: "linked (ddHeap d)" "ddRoot d < length (ddHeap d)" using domOK_linked[OF assms(1)] by simp_all
  have "dxSelect x s = Some f" using Inr by (auto simp: compileSelector_def split: if_splits option.splits)
  then have m: "\<forall>m\<in>set (f (ddHeap d) (ddRoot d)). m < length (ddHeap d)" using assms(2) l by (auto simp: selectsNodes_def)
  show ?thesis
  proof (cases "f (ddHeap d) (ddRoot d)")
    case Nil
    then show ?thesis using assms(1,3) by (simp add: querySelector_def Inr)
  next
    case (Cons k ks)
    then have "returnObject k d = (v, d')" "k < length (ddHeap d)" using assms(3) m by (simp_all add: querySelector_def Inr)
    from returnObject_OK[OF assms(1) this(2,1)] show ?thesis by simp
  qed
qed

lemma findLoop_found:
  "findLoop f cs = Some (Some m) \<Longrightarrow> \<exists>c\<in>set cs. f c = Some (Some m)"
  by (induction cs) (auto split: option.splits)

lemma findElement_node: "linked h \<Longrightarrow> n < length h \<Longrightarrow> findElement k h tag n = Some (Some m) \<Longrightarrow> m < length h"
proof (induction k arbitrary: n)
  case (Suc k)
  show ?case
  proof (cases "m = n")
    case False
    then have "findLoop (findElement k h tag) (dnChildren (h ! n)) = Some (Some m)" using Suc.prems(3) by (auto split: if_splits)
    then obtain c where "c \<in> set (dnChildren (h ! n))" "findElement k h tag c = Some (Some m)" using findLoop_found by metis
    then show ?thesis using Suc.IH Suc.prems(1) linkedD(2)[OF Suc.prems(1,2)] by blast
  qed (use Suc.prems in simp)
qed simp

lemma firstElement_OK:
  assumes "domOK d" "firstElement k tag d = (v, d')"
  shows "domOK d' \<and> keepsObjects d d' \<and> ddHeap d' = ddHeap d \<and> v \<noteq> Throws LibraryPanic"
proof -
  have l: "linked (ddHeap d)" "ddRoot d < length (ddHeap d)" using domOK_linked[OF assms(1)] by simp_all
  show ?thesis
  proof (cases "\<exists>m. findElement k (ddHeap d) tag (ddRoot d) = Some (Some m)")
    case True
    then obtain m where m: "findElement k (ddHeap d) tag (ddRoot d) = Some (Some m)" by blast
    then have "returnObject m d = (v, d')" "m < length (ddHeap d)" using assms(2) findElement_node[OF l] by (auto simp: firstElement_def)
    from returnObject_OK[OF assms(1) this(2,1)] show ?thesis by simp
  next
    case False
    then show ?thesis using assms by (auto simp: firstElement_def split: option.splits)
  qed
qed

lemma appendChild_OK:
  assumes "domOK d" "ddObjects d object = Some n" "appendChild n v d = (r, d')"
  shows "callOK (AppendChild object v) r d d'"
proof (cases "nodeOf v d")
  case (Inl e)
  then have "e = ForeignNode" by (auto simp: nodeOf_def split: option.splits)
  then show ?thesis using assms Inl by (auto simp: appendChild_def callOK_def relinks_def)
next
  case (Inr c)
  then obtain ob where c: "v = Some ob" "ddObjects d ob = Some c" "c < length (ddHeap d)" using nodeOf_OK[OF assms(1)] by blast
  have l: "linked (ddHeap d)" "n < length (ddHeap d)" using domOK_linked(1)[OF assms(1)] domOK_object[OF assms(1,2)] by simp_all
  have "\<exists>h. (case dnParent (ddHeap d ! c) of None \<Rightarrow> Some (ddHeap d) | Some p \<Rightarrow> htmlRemoveChild p c (ddHeap d)) = Some h \<and>
      linked h \<and> length h = length (ddHeap d) \<and> parentRel h \<subseteq> parentRel (ddHeap d) \<and> dnParent (h ! c) = None"
  proof (cases "dnParent (ddHeap d ! c)")
    case None
    then show ?thesis using l by simp
  next
    case (Some p)
    then obtain h where h: "htmlRemoveChild p c (ddHeap d) = Some h" by (simp add: htmlRemoveChild_def Let_def)
    show ?thesis using remove_linked[OF l(1) linkedD(3)[OF l(1) c(3) Some] c(3) h] Some h by auto
  qed
  then obtain h where h: "(case dnParent (ddHeap d ! c) of None \<Rightarrow> Some (ddHeap d) | Some p \<Rightarrow> htmlRemoveChild p c (ddHeap d)) = Some h"
    "linked h" "length h = length (ddHeap d)" "parentRel h \<subseteq> parentRel (ddHeap d)" "dnParent (h ! c) = None" by blast
  then obtain h' where h': "htmlAppendChild n c h = Some h'" by (simp add: htmlAppendChild_def Let_def)
  have a: "linked h' \<and> length h' = length h \<and> parentRel h' = insert (c, n) (parentRel h)"
    using append_linked[OF h(2) _ _ h'] l(2) c(3) h(3) by simp
  have ok: "domOK (d\<lparr>ddHeap := h'\<rparr>)" using domOK_heap[OF assms(1)] a h(3) by simp
  have "returnObject c (d\<lparr>ddHeap := h'\<rparr>) = (r, d')" using assms(3) h(1) h' by (simp add: appendChild_def Inr)
  from returnObject_OK[OF ok _ this] have "domOK d' \<and> keepsObjects (d\<lparr>ddHeap := h'\<rparr>) d' \<and> ddHeap d' = h' \<and> r \<noteq> Throws LibraryPanic" using a c(3) h(3) by simp
  then show ?thesis using a h(3,4) c assms(2) by (auto simp: callOK_def relinks_def keepsObjects_def)
qed

lemma removeChild_OK:
  assumes "domOK d" "n < length (ddHeap d)" "removeChild n v d = (r, d')"
  shows "domOK d' \<and> keepsObjects d d' \<and> parentRel (ddHeap d') \<subseteq> parentRel (ddHeap d) \<and> r \<noteq> Throws LibraryPanic"
proof (cases "nodeOf v d")
  case (Inl e)
  then have "e = ForeignNode" by (auto simp: nodeOf_def split: option.splits)
  then show ?thesis using assms Inl by (auto simp: removeChild_def)
next
  case (Inr c)
  then have c: "c < length (ddHeap d)" using nodeOf_OK[OF assms(1)] by blast
  have l: "linked (ddHeap d)" by (rule domOK_linked(1)[OF assms(1)])
  show ?thesis
  proof (cases "dnParent (ddHeap d ! c) = Some n")
    case True
    then obtain h where h: "htmlRemoveChild n c (ddHeap d) = Some h" by (simp add: htmlRemoveChild_def Let_def)
    note r = remove_linked[OF l assms(2) c h]
    have ok: "domOK (d\<lparr>ddHeap := h\<rparr>)" using domOK_heap[OF assms(1)] r by simp
    have "returnObject c (d\<lparr>ddHeap := h\<rparr>) = (r, d')" using assms(3) True h by (simp add: removeChild_def Inr)
    from returnObject_OK[OF ok _ this] show ?thesis using r c by (auto simp: keepsObjects_def)
  next
    case False
    then show ?thesis using assms(1,3) by (auto simp: removeChild_def Inr)
  qed
qed

lemma setTextContent_OK:
  assumes "domOK d" "ddObjects d object = Some n" "setTextContent n data d = (r, d')"
  shows "callOK (SetTextContent object data) r d d'"
proof -
  have l: "linked (ddHeap d)" "n < length (ddHeap d)" using domOK_linked(1)[OF assms(1)] domOK_object[OF assms(1,2)] by simp_all
  obtain h where h: "removeEach n (dnChildren (ddHeap d ! n)) (ddHeap d) = Some h" "linked h" "length h = length (ddHeap d)" "parentRel h \<subseteq> parentRel (ddHeap d)"
    using removeEach_linked[OF l linkedD(1)[OF l] order_refl] by blast
  let ?g = "h @ [newNode TextNode data]"
  have g: "linked ?g" "parentRel ?g = parentRel h" using alloc_linked[OF h(2)] by simp_all
  have "dnParent (?g ! length h) = None" by (simp add: newNode_def)
  then obtain h' where h': "htmlAppendChild n (length h) ?g = Some h'" by (simp add: htmlAppendChild_def Let_def)
  have a: "linked h' \<and> length h' = length ?g \<and> parentRel h' = insert (length h, n) (parentRel ?g)"
    using append_linked[OF g(1) _ _ h'] l(2) h(3) by simp
  have d': "r = Undefined" "d' = d\<lparr>ddHeap := h'\<rparr>" using assms(3) h(1) h' by (simp_all add: setTextContent_def allocNode_def)
  have "domOK d'" using domOK_heap[OF assms(1)] a h(3) unfolding d'(2) by simp
  then show ?thesis using a g h(3,4) l(2) d' by (auto simp: callOK_def relinks_def keepsObjects_def)
qed

lemma parentElement_OK:
  assumes "domOK d" "n < length (ddHeap d)" "parentElement n d = (r, d')"
  shows "domOK d' \<and> keepsObjects d d' \<and> ddHeap d' = ddHeap d \<and> r \<noteq> Throws LibraryPanic"
proof (cases "\<exists>p. dnParent (ddHeap d ! n) = Some p \<and> dnType (ddHeap d ! p) = ElementNode")
  case True
  then obtain p where p: "dnParent (ddHeap d ! n) = Some p" "dnType (ddHeap d ! p) = ElementNode" by blast
  then have "returnObject p d = (r, d')" using assms(3) by (simp add: parentElement_def)
  from returnObject_OK[OF assms(1) _ this] show ?thesis using linkedD(3)[OF domOK_linked(1)[OF assms(1)] assms(2) p(1)] by simp
next
  case False
  then show ?thesis using assms by (auto simp: parentElement_def split: option.splits)
qed

lemma callOK_kept:
  assumes "domOK d" "v \<noteq> Throws LibraryPanic"
  shows "callOK call v d d"
  using assms domOK_linked(2)[OF assms(1)] by (auto simp: callOK_def relinks_def split: dom_call.splits)

lemma callOK_same:
  assumes "domOK d'" "keepsObjects d d'" "parentRel (ddHeap d') \<subseteq> parentRel (ddHeap d)" "v \<noteq> Throws LibraryPanic"
    "\<forall>object c. call \<noteq> AppendChild object c" "\<forall>object data. call \<noteq> SetTextContent object data"
  shows "callOK call v d d'"
  using assms by (cases call) (auto simp: callOK_def relinks_def)

lemma onNode_cases:
  assumes "onNode object d f = (v, d')"
  obtains (foreign) "v = Throws ForeignNode" "d' = d" | (node) n where "ddObjects d object = Some n" "f n = (v, d')"
  using assms by (auto simp: onNode_def split: option.splits)

lemma setAttribute_OK:
  assumes "domOK d" "n < length (ddHeap d)"
  shows "domOK (setAttribute n name v d)" "keepsObjects d (setAttribute n name v d)" "parentRel (ddHeap (setAttribute n name v d)) = parentRel (ddHeap d)"
  using domOK_heap[OF assms(1)] attr_linked[OF assms(2)] domOK_linked(1)[OF assms(1)] by (simp_all add: setAttribute_def keepsObjects_def)

lemma domCall_OK:
  assumes "domOK d" "selectsNodes x" "domCall x k call d = (v, d')"
  shows "callOK call v d d'"
proof (cases call)
  case (CreateElement tag)
  then show ?thesis using createElement_OK[OF assms(1)] assms(3) by (intro callOK_same) (auto simp: domCall_def)
next
  case (QuerySelectorAll s)
  then show ?thesis using selectAll_OK[OF assms(1,2) domOK_linked(2)[OF assms(1)], of s v d'] assms(3) by (intro callOK_same) (auto simp: domCall_def)
next
  case (QuerySelector s)
  then show ?thesis using querySelector_OK[OF assms(1,2), of s v d'] assms(3) by (intro callOK_same) (auto simp: domCall_def)
next
  case (FirstElement tag)
  then show ?thesis using firstElement_OK[OF assms(1), of k tag v d'] assms(3) by (intro callOK_same) (auto simp: domCall_def)
next
  case (AppendChild object c)
  then have "onNode object d (\<lambda>n. appendChild n c d) = (v, d')" using assms(3) by (simp add: domCall_def)
  then show ?thesis by (cases rule: onNode_cases) (use AppendChild assms(1) callOK_kept appendChild_OK in auto)
next
  case (RemoveChild object c)
  then have "onNode object d (\<lambda>n. removeChild n c d) = (v, d')" using assms(3) by (simp add: domCall_def)
  then show ?thesis
  proof (cases rule: onNode_cases)
    case (node n)
    from removeChild_OK[OF assms(1) domOK_object[OF assms(1) node(1)] node(2)] show ?thesis by (intro callOK_same) (auto simp: RemoveChild)
  qed (use assms(1) callOK_kept in auto)
next
  case (QueryBelow object s)
  then have "onNode object d (\<lambda>n. selectAll x n s d) = (v, d')" using assms(3) by (simp add: domCall_def)
  then show ?thesis
  proof (cases rule: onNode_cases)
    case (node n)
    from selectAll_OK[OF assms(1,2) domOK_object[OF assms(1) node(1)] node(2)] show ?thesis by (intro callOK_same) (auto simp: QueryBelow)
  qed (use assms(1) callOK_kept in auto)
next
  case (GetAttribute object name)
  then have "onNode object d (\<lambda>n. (getAttribute n name d, d)) = (v, d')" using assms(3) by (simp add: domCall_def)
  then show ?thesis by (cases rule: onNode_cases) (use assms(1) callOK_kept in \<open>auto simp: getAttribute_def split: option.splits\<close>)
next
  case (SetAttribute object name w)
  then have "onNode object d (\<lambda>n. (Undefined, setAttribute n name w d)) = (v, d')" using assms(3) by (simp add: domCall_def)
  then show ?thesis
  proof (cases rule: onNode_cases)
    case (node n)
    from setAttribute_OK[OF assms(1) domOK_object[OF assms(1) node(1)]] node(2) show ?thesis by (intro callOK_same) (auto simp: SetAttribute)
  qed (use assms(1) callOK_kept in auto)
next
  case (TagName object)
  then have "onNode object d (\<lambda>n. (AText (to_upper (dnData (ddHeap d ! n))), d)) = (v, d')" using assms(3) by (simp add: domCall_def)
  then show ?thesis by (cases rule: onNode_cases) (use assms(1) callOK_kept in auto)
next
  case (ParentElement object)
  then have "onNode object d (\<lambda>n. parentElement n d) = (v, d')" using assms(3) by (simp add: domCall_def)
  then show ?thesis
  proof (cases rule: onNode_cases)
    case (node n)
    from parentElement_OK[OF assms(1) domOK_object[OF assms(1) node(1)] node(2)] show ?thesis by (intro callOK_same) (auto simp: ParentElement)
  qed (use assms(1) callOK_kept in auto)
next
  case (TextContent object)
  then have "onNode object d (\<lambda>n. (case domTextContent k (ddHeap d) n of None \<Rightarrow> NoReturn | Some s \<Rightarrow> AText s, d)) = (v, d')" using assms(3) by (simp add: domCall_def)
  then show ?thesis by (cases rule: onNode_cases) (use assms(1) callOK_kept in \<open>auto split: option.splits\<close>)
next
  case (SetTextContent object data)
  then have "onNode object d (\<lambda>n. setTextContent n data d) = (v, d')" using assms(3) by (simp add: domCall_def)
  then show ?thesis by (cases rule: onNode_cases) (use SetTextContent assms(1) callOK_kept setTextContent_OK in auto)
next
  case (OuterHTML object)
  then have "onNode object d (\<lambda>n. (outerHTML x n d, d)) = (v, d')" using assms(3) by (simp add: domCall_def)
  then show ?thesis by (cases rule: onNode_cases) (use assms(1) callOK_kept in \<open>auto simp: outerHTML_def split: option.splits\<close>)
next
  case (InnerHTML object)
  then have "onNode object d (\<lambda>n. (innerHTML x n d, d)) = (v, d')" using assms(3) by (simp add: domCall_def)
  then show ?thesis by (cases rule: onNode_cases) (use assms(1) callOK_kept in \<open>auto simp: innerHTML_def split: option.splits\<close>)
qed

fun domRun :: "domExterns \<Rightarrow> nat \<Rightarrow> dom_call list \<Rightarrow> domDocument \<Rightarrow> dom_value list \<times> domDocument" where
  "domRun x k [] d = ([], d)"
| "domRun x k (c # cs) d = (case domCall x k c d of (v, d) \<Rightarrow> case domRun x k cs d of (vs, d) \<Rightarrow> (v # vs, d))"

lemma domRun_OK:
  "domOK d \<Longrightarrow> selectsNodes x \<Longrightarrow> domRun x k cs d = (vs, d') \<Longrightarrow> domOK d' \<and> keepsObjects d d' \<and> Throws LibraryPanic \<notin> set vs"
proof (induction cs arbitrary: d vs)
  case (Cons c cs)
  obtain v d1 ws where s: "domCall x k c d = (v, d1)" "domRun x k cs d1 = (ws, d')" "vs = v # ws"
    using Cons.prems(3) by (auto split: prod.splits)
  have "callOK c v d d1" by (rule domCall_OK[OF Cons.prems(1,2) s(1)])
  then show ?case using Cons.IH[OF _ Cons.prems(2) s(2)] s(3) keeps_trans[of d d1 d'] by (auto simp: callOK_def)
qed simp

section \<open>Trees\<close>

definition below :: "domNode list \<Rightarrow> nat \<Rightarrow> nat set" where
  "below h n = {m. (m, n) \<in> (parentRel h)\<^sup>*}"

definition treeLinks :: "domNode list \<Rightarrow> bool" where
  "treeLinks h \<longleftrightarrow> linked h \<and> acyclic (parentRel h)"

lemma below_nodes: "n < length h \<Longrightarrow> below h n \<subseteq> {..<length h}"
proof
  fix m assume n: "n < length h" and "m \<in> below h n"
  then have "(m, n) \<in> (parentRel h)\<^sup>*" by (simp add: below_def)
  then show "m \<in> {..<length h}" by (cases rule: converse_rtranclE) (use n in \<open>auto simp: parentRel_def\<close>)
qed

lemma below_finite: "n < length h \<Longrightarrow> finite (below h n)"
  using below_nodes finite_subset by blast

lemma below_self [simp]: "n \<in> below h n" by (simp add: below_def)

lemma child_rel: "linked h \<Longrightarrow> n < length h \<Longrightarrow> c \<in> set (dnChildren (h ! n)) \<longleftrightarrow> (c, n) \<in> parentRel h"
  using linkedD(2)[of h n c] by (simp add: parentRel_def)

lemma below_children:
  assumes "linked h" "n < length h"
  shows "below h n = insert n (\<Union>c\<in>set (dnChildren (h ! n)). below h c)"
  unfolding below_def using child_rel[OF assms] by (auto elim: rtranclE intro: rtrancl_into_rtrancl)

lemma below_child_smaller:
  assumes "treeLinks h" "n < length h" "c \<in> set (dnChildren (h ! n))"
  shows "below h c \<subset> below h n" "c < length h" "n \<notin> below h c"
proof -
  have l: "linked h" "acyclic (parentRel h)" using assms(1) by (simp_all add: treeLinks_def)
  have r: "(c, n) \<in> parentRel h" using child_rel[OF l(1) assms(2)] assms(3) by simp
  then show "c < length h" by (simp add: parentRel_def)
  show n: "n \<notin> below h c"
  proof
    assume "n \<in> below h c"
    then have "(n, n) \<in> (parentRel h)\<^sup>+" using r by (simp add: below_def rtrancl_into_trancl1)
    then show False using l(2) by (simp add: acyclic_def)
  qed
  show "below h c \<subset> below h n" using below_children[OF l(1) assms(2)] assms(3) n below_self[of n h] by blast
qed

lemma below_card_child:
  assumes "treeLinks h" "n < length h" "c \<in> set (dnChildren (h ! n))" "card (below h n) \<le> Suc k"
  shows "card (below h c) \<le> k"
  using psubset_card_mono[OF below_finite[OF assms(2)] below_child_smaller(1)[OF assms(1-3)]] assms(4) by simp

lemma below_card_pos: "n < length h \<Longrightarrow> 0 < card (below h n)"
  using below_finite[of n h] below_self[of n h] card_gt_0_iff by blast

lemma below_card: "n < length h \<Longrightarrow> card (below h n) \<le> length h"
  using card_mono[OF _ below_nodes[of n h]] by simp

text \<open>The text of a node: its own, or that of its children in order.\<close>

inductive textIs :: "domNode list \<Rightarrow> nat \<Rightarrow> string \<Rightarrow> bool" for h where
  text_node: "dnType (h ! n) = TextNode \<Longrightarrow> textIs h n (dnData (h ! n))"
| text_inner: "dnType (h ! n) \<noteq> TextNode \<Longrightarrow> list_all2 (textIs h) (dnChildren (h ! n)) ss \<Longrightarrow> textIs h n (concat ss)"

lemma those_map_Some: "\<forall>c\<in>set cs. \<exists>s. f c = Some s \<and> P c s \<Longrightarrow> \<exists>ss. those (map f cs) = Some ss \<and> list_all2 P cs ss"
  by (induction cs) fastforce+

lemma textContent_returns:
  "treeLinks h \<Longrightarrow> n < length h \<Longrightarrow> card (below h n) \<le> k \<Longrightarrow> \<exists>s. domTextContent k h n = Some s \<and> textIs h n s"
proof (induction k arbitrary: n)
  case 0
  then show ?case using below_card_pos[of n h] by simp
next
  case (Suc k)
  show ?case
  proof (cases "dnType (h ! n) = TextNode")
    case True
    then show ?thesis by (simp add: text_node)
  next
    case False
    have "\<forall>c\<in>set (dnChildren (h ! n)). \<exists>s. domTextContent k h c = Some s \<and> textIs h c s"
      using Suc.IH Suc.prems(1) below_card_child[OF Suc.prems(1,2) _ Suc.prems(3)] below_child_smaller(2)[OF Suc.prems(1,2)] by blast
    then obtain ss where "those (map (domTextContent k h) (dnChildren (h ! n))) = Some ss" "list_all2 (textIs h) (dnChildren (h ! n)) ss"
      using those_map_Some by metis
    then show ?thesis using False text_inner[OF False] by auto
  qed
qed

text \<open>Looking for an element finds one exactly when there is one.\<close>

definition isElement :: "domNode list \<Rightarrow> string \<Rightarrow> nat \<Rightarrow> bool" where
  "isElement h tag n \<longleftrightarrow> dnType (h ! n) = ElementNode \<and> dnData (h ! n) = tag"

lemma findLoop_returns:
  "\<forall>c\<in>set cs. \<exists>r. f c = Some r \<and> (case r of None \<Rightarrow> \<forall>m\<in>B c. \<not> P m | Some m \<Rightarrow> P m \<and> m \<in> B c) \<Longrightarrow>
   \<exists>r. findLoop f cs = Some r \<and> (case r of None \<Rightarrow> \<forall>c\<in>set cs. \<forall>m\<in>B c. \<not> P m | Some m \<Rightarrow> P m \<and> (\<exists>c\<in>set cs. m \<in> B c))"
proof (induction cs)
  case (Cons c cs)
  then obtain r where r: "f c = Some r" "case r of None \<Rightarrow> \<forall>m\<in>B c. \<not> P m | Some m \<Rightarrow> P m \<and> m \<in> B c" by auto
  then show ?case using Cons by (cases r) (auto split: option.splits)
qed simp

lemma findElement_returns:
  "treeLinks h \<Longrightarrow> n < length h \<Longrightarrow> card (below h n) \<le> k \<Longrightarrow>
   \<exists>r. findElement k h tag n = Some r \<and> (case r of None \<Rightarrow> \<forall>m\<in>below h n. \<not> isElement h tag m | Some m \<Rightarrow> isElement h tag m \<and> m \<in> below h n)"
proof (induction k arbitrary: n)
  case 0
  then show ?case using below_card_pos[of n h] by simp
next
  case (Suc k)
  show ?case
  proof (cases "isElement h tag n")
    case True
    then show ?thesis by (auto simp: isElement_def)
  next
    case False
    have "\<forall>c\<in>set (dnChildren (h ! n)). \<exists>r. findElement k h tag c = Some r \<and>
        (case r of None \<Rightarrow> \<forall>m\<in>below h c. \<not> isElement h tag m | Some m \<Rightarrow> isElement h tag m \<and> m \<in> below h c)"
      using Suc.IH Suc.prems(1) below_card_child[OF Suc.prems(1,2) _ Suc.prems(3)] below_child_smaller(2)[OF Suc.prems(1,2)] by blast
    from findLoop_returns[OF this] obtain r where r: "findLoop (findElement k h tag) (dnChildren (h ! n)) = Some r"
      "case r of None \<Rightarrow> \<forall>c\<in>set (dnChildren (h ! n)). \<forall>m\<in>below h c. \<not> isElement h tag m
       | Some m \<Rightarrow> isElement h tag m \<and> (\<exists>c\<in>set (dnChildren (h ! n)). m \<in> below h c)" by blast
    have "linked h" using Suc.prems(1) by (simp add: treeLinks_def)
    from below_children[OF this Suc.prems(2)] r False show ?thesis by (cases r) (auto simp: isElement_def)
  qed
qed

lemma countLoop_exact:
  assumes "\<forall>c\<in>set cs. \<exists>t. f c = Some t \<and> (if N c \<le> maxDOMNodes then t = N c else maxDOMNodes < t)"
  shows "\<exists>t. countLoop f acc cs = Some t \<and> (if acc + sum_list (map N cs) \<le> maxDOMNodes then t = acc + sum_list (map N cs) else maxDOMNodes < t \<or> cs = [] \<and> t = acc)"
  using assms
proof (induction cs arbitrary: acc)
  case (Cons c cs)
  then obtain m where m: "f c = Some m" "if N c \<le> maxDOMNodes then m = N c else maxDOMNodes < m" by auto
  show ?case
  proof (cases "acc + m > maxDOMNodes")
    case True
    then show ?thesis using m by (auto split: if_splits)
  next
    case False
    then have "m = N c" using m(2) by (auto split: if_splits)
    moreover obtain t where "countLoop f (acc + m) cs = Some t"
      "if acc + m + sum_list (map N cs) \<le> maxDOMNodes then t = acc + m + sum_list (map N cs) else maxDOMNodes < t \<or> cs = [] \<and> t = acc + m"
      using Cons.IH[of "acc + m"] Cons.prems by auto
    ultimately show ?thesis using False m(1) by (auto simp: add.assoc split: if_splits)
  qed
qed simp

lemma below_disjoint:
  assumes "treeLinks h" "n < length h" "c \<in> set (dnChildren (h ! n))" "c' \<in> set (dnChildren (h ! n))" "c \<noteq> c'"
  shows "below h c \<inter> below h c' = {}"
proof (rule ccontr)
  assume "below h c \<inter> below h c' \<noteq> {}"
  then obtain m where m: "(m, c) \<in> (parentRel h)\<^sup>*" "(m, c') \<in> (parentRel h)\<^sup>*" by (auto simp: below_def)
  have l: "linked h" "single_valued (parentRel h)" using assms(1) by (auto simp: treeLinks_def parentRel_def single_valued_def)
  have no: False if cm: "(a, b) \<in> (parentRel h)\<^sup>*" "a \<noteq> b" "a \<in> set (dnChildren (h ! n))" "b \<in> set (dnChildren (h ! n))" for a b
  proof -
    obtain y where y: "(a, y) \<in> parentRel h" "(y, b) \<in> (parentRel h)\<^sup>*" using cm(1,2) by (auto elim: converse_rtranclE)
    moreover have "(a, n) \<in> parentRel h" using child_rel[OF l(1) assms(2)] cm(3) by simp
    ultimately have "y = n" using l(2) by (auto simp: single_valued_def)
    then show False using y(2) below_child_smaller(3)[OF assms(1,2) cm(4)] by (simp add: below_def)
  qed
  show False using single_valued_confluent[OF l(2) m] no assms(3-5) by metis
qed

lemma below_card_sum:
  assumes "treeLinks h" "n < length h"
  shows "card (below h n) = 1 + sum_list (map (\<lambda>c. card (below h c)) (dnChildren (h ! n)))"
proof -
  let ?cs = "dnChildren (h ! n)"
  have l: "linked h" using assms(1) by (simp add: treeLinks_def)
  have fin: "finite (below h c)" if "c \<in> set ?cs" for c using below_finite below_child_smaller(2)[OF assms that] by blast
  have "n \<notin> (\<Union>c\<in>set ?cs. below h c)" using below_child_smaller(3)[OF assms] by blast
  then have "card (below h n) = 1 + card (\<Union>c\<in>set ?cs. below h c)" using below_children[OF l assms(2)] fin by simp
  also have "card (\<Union>c\<in>set ?cs. below h c) = (\<Sum>c\<in>set ?cs. card (below h c))"
    using fin below_disjoint[OF assms] by (intro card_UN_disjoint) auto
  also have "\<dots> = sum_list (map (\<lambda>c. card (below h c)) ?cs)" using linkedD(1)[OF l assms(2)] by (simp add: sum_list_distinct_conv_sum_set)
  finally show ?thesis .
qed

lemma countDOMNodes_exact:
  "treeLinks h \<Longrightarrow> n < length h \<Longrightarrow> card (below h n) \<le> k \<Longrightarrow>
   \<exists>t. countDOMNodes k h n = Some t \<and> (if card (below h n) \<le> maxDOMNodes then t = card (below h n) else maxDOMNodes < t)"
proof (induction k arbitrary: n)
  case 0
  then show ?case using below_card_pos[of n h] by simp
next
  case (Suc k)
  have "\<forall>c\<in>set (dnChildren (h ! n)). \<exists>t. countDOMNodes k h c = Some t \<and> (if card (below h c) \<le> maxDOMNodes then t = card (below h c) else maxDOMNodes < t)"
    using Suc.IH Suc.prems(1) below_card_child[OF Suc.prems(1,2) _ Suc.prems(3)] below_child_smaller(2)[OF Suc.prems(1,2)] by blast
  from countLoop_exact[OF this, of 1] obtain t where t: "countDOMNodes (Suc k) h n = Some t"
    "if card (below h n) \<le> maxDOMNodes then t = card (below h n) else maxDOMNodes < t \<or> dnChildren (h ! n) = [] \<and> t = 1"
    unfolding below_card_sum[OF Suc.prems(1,2)] by auto
  moreover have "card (below h n) \<le> maxDOMNodes" if "dnChildren (h ! n) = []" using below_card_sum[OF Suc.prems(1,2)] that by (simp add: maxDOMNodes_def)
  ultimately show ?case by (auto split: if_splits)
qed

section \<open>Runs\<close>

text \<open>What is used of the parser: it gives a tree.\<close>

definition parsesTrees :: "domExterns \<Rightarrow> bool" where
  "parsesTrees x \<longleftrightarrow> (\<forall>source h. dxParse x source = Some h \<longrightarrow> h \<noteq> [] \<and> treeLinks h)"

lemma newDOMDocument_OK:
  assumes "parsesTrees x" "newDOMDocument x k object source = Inr d"
  shows "domOK d \<and> treeLinks (ddHeap d)"
proof -
  obtain h where h: "dxParse x source = Some h" "d = \<lparr>ddHeap = h, ddRoot = 0, ddWrapped = Map.empty, ddObjects = Map.empty, ddNext = object\<rparr>"
    using assms(2) by (auto simp: newDOMDocument_def split: if_splits option.splits)
  then show ?thesis using assms(1) by (auto simp: parsesTrees_def domOK_def treeLinks_def)
qed

text \<open>A call that puts no node at or below itself.\<close>

definition keepsTree :: "dom_call \<Rightarrow> domDocument \<Rightarrow> bool" where
  "keepsTree call d =
     (case call of
        AppendChild object (Some ob) \<Rightarrow>
          (case (ddObjects d object, ddObjects d ob) of (Some n, Some c) \<Rightarrow> n \<notin> below (ddHeap d) c | _ \<Rightarrow> True)
      | _ \<Rightarrow> True)"

fun keepsTreeRun :: "domExterns \<Rightarrow> nat \<Rightarrow> dom_call list \<Rightarrow> domDocument \<Rightarrow> bool" where
  "keepsTreeRun x k [] d \<longleftrightarrow> True"
| "keepsTreeRun x k (c # cs) d \<longleftrightarrow> keepsTree c d \<and> keepsTreeRun x k cs (snd (domCall x k c d))"

lemma call_keeps_tree:
  assumes "callOK call v d d'" "domOK d" "keepsTree call d" "acyclic (parentRel (ddHeap d))"
  shows "acyclic (parentRel (ddHeap d'))"
proof (cases "\<exists>object c. call = AppendChild object c")
  case True
  then obtain object c where call: "call = AppendChild object c" by blast
  show ?thesis
  proof (cases "parentRel (ddHeap d') = parentRel (ddHeap d)")
    case False
    then obtain n ob m where s: "c = Some ob" "ddObjects d object = Some n" "ddObjects d ob = Some m"
      "parentRel (ddHeap d') \<subseteq> insert (m, n) (parentRel (ddHeap d))" using assms(1) by (auto simp: callOK_def relinks_def call)
    then have "(n, m) \<notin> (parentRel (ddHeap d))\<^sup>*" using assms(3) by (simp add: keepsTree_def call below_def)
    then show ?thesis using assms(4) acyclic_subset[OF _ s(4)] by (simp add: acyclic_insert)
  qed (use assms(4) in simp)
next
  case other: False
  show ?thesis
  proof (cases "\<exists>object data. call = SetTextContent object data")
    case True
    then obtain n where n: "parentRel (ddHeap d') \<subseteq> insert (length (ddHeap d), n) (parentRel (ddHeap d))" "n < length (ddHeap d)"
      using assms(1) by (auto simp: callOK_def relinks_def)
    have "(n, length (ddHeap d)) \<notin> (parentRel (ddHeap d))\<^sup>*"
    proof
      assume "(n, length (ddHeap d)) \<in> (parentRel (ddHeap d))\<^sup>*"
      then obtain y where "(y, length (ddHeap d)) \<in> parentRel (ddHeap d)" using n(2) by (auto elim: rtranclE)
      then show False using linkedD(3)[OF domOK_linked(1)[OF assms(2)], of y "length (ddHeap d)"] by (auto simp: parentRel_def)
    qed
    then show ?thesis using assms(4) acyclic_subset[OF _ n(1)] by (simp add: acyclic_insert)
  next
    case False
    then have "parentRel (ddHeap d') \<subseteq> parentRel (ddHeap d)" using assms(1) other by (cases call) (auto simp: callOK_def relinks_def)
    then show ?thesis using assms(4) acyclic_subset by blast
  qed
qed

lemma run_keeps_tree:
  "domOK d \<Longrightarrow> selectsNodes x \<Longrightarrow> keepsTreeRun x k cs d \<Longrightarrow> acyclic (parentRel (ddHeap d)) \<Longrightarrow> domRun x k cs d = (vs, d') \<Longrightarrow> treeLinks (ddHeap d')"
proof (induction cs arbitrary: d vs)
  case Nil
  then show ?case by (simp add: treeLinks_def domOK_def)
next
  case (Cons c cs)
  obtain v d1 ws where s: "domCall x k c d = (v, d1)" "domRun x k cs d1 = (ws, d')" "vs = v # ws"
    using Cons.prems(5) by (auto split: prod.splits)
  have ok: "callOK c v d d1" by (rule domCall_OK[OF Cons.prems(1,2) s(1)])
  have "acyclic (parentRel (ddHeap d1))" using call_keeps_tree[OF ok Cons.prems(1)] Cons.prems(3,4) by simp
  then show ?case using Cons.IH[OF _ Cons.prems(2) _ _ s(2)] ok Cons.prems(3) s(1) by (simp add: callOK_def)
qed


text \<open>C34: As long as a script puts no node at or below itself, reading the text of any node returns, with a recursion no deeper
than the document has nodes, the texts below it in order; looking up the document element, head or body returns too, and finds
an element exactly when the document has one. Parsing accepts exactly the documents within the two bounds.\<close>
theorem dom_reads_return:
  assumes "parsesTrees x" "selectsNodes x" "newDOMDocument x k object source = Inr d"
    and "domRun x k' cs d = (vs, d')" "keepsTreeRun x k' cs d" "n < length (ddHeap d')" "length (ddHeap d') \<le> depth"
  shows "(\<exists>s. domTextContent depth (ddHeap d') n = Some s \<and> textIs (ddHeap d') n s) \<and>
    (\<exists>r. findElement depth (ddHeap d') tag n = Some r \<and> (r = None \<longleftrightarrow> (\<forall>m\<in>below (ddHeap d') n. \<not> isElement (ddHeap d') tag m))) \<and>
    length source \<le> maxDOMDocumentBytes \<and> (length (ddHeap d) \<le> k \<longrightarrow> card (below (ddHeap d) (ddRoot d)) \<le> maxDOMNodes)"
proof -
  have ok: "domOK d" "treeLinks (ddHeap d)" using newDOMDocument_OK[OF assms(1,3)] by simp_all
  have t: "treeLinks (ddHeap d')" using run_keeps_tree[OF ok(1) assms(2,5) _ assms(4)] ok(2) by (simp add: treeLinks_def)
  have k: "card (below (ddHeap d') n) \<le> depth" using below_card[OF assms(6)] assms(7) by simp
  obtain r where r: "findElement depth (ddHeap d') tag n = Some r"
    "case r of None \<Rightarrow> \<forall>m\<in>below (ddHeap d') n. \<not> isElement (ddHeap d') tag m | Some m \<Rightarrow> isElement (ddHeap d') tag m \<and> m \<in> below (ddHeap d') n"
    using findElement_returns[OF t assms(6) k] by blast
  have root: "ddRoot d = 0" "ddRoot d < length (ddHeap d)" "length source \<le> maxDOMDocumentBytes" "\<exists>t. countDOMNodes k (ddHeap d) 0 = Some t \<and> t \<le> maxDOMNodes"
    using assms(3) domOK_linked(2)[OF ok(1)] by (auto simp: newDOMDocument_def not_less split: if_splits option.splits)
  have "card (below (ddHeap d) (ddRoot d)) \<le> maxDOMNodes" if "length (ddHeap d) \<le> k"
    using countDOMNodes_exact[OF ok(2) root(2), of k] below_card[OF root(2)] that root(1,4) by (auto split: if_splits)
  then show ?thesis using textContent_returns[OF t assms(6) k] r root(3) by (auto split: option.splits)
qed

text \<open>A node that is its own child has no text.\<close>

lemma cycle_never_returns:
  assumes "n \<in> set (dnChildren (h ! n))" "dnType (h ! n) \<noteq> TextNode"
  shows "domTextContent k h n = None"
proof (induction k)
  case (Suc k)
  have "those (map (domTextContent k h) cs) = None" if "n \<in> set cs" for cs using that Suc by (induction cs) (auto split: option.splits)
  then show ?case using assms by simp
qed simp


section \<open>An example\<close>

definition exNode :: "node_type \<Rightarrow> string \<Rightarrow> nat option \<Rightarrow> nat list \<Rightarrow> domNode" where
  "exNode t data p cs = \<lparr>dnType = t, dnData = data, dnAttr = [], dnParent = p, dnChildren = cs\<rparr>"

definition exTree :: "domNode list" where
  "exTree = [exNode OtherNode [] None [1], exNode ElementNode ''html'' (Some 0) [2, 3], exNode ElementNode ''head'' (Some 1) [],
     exNode ElementNode ''body'' (Some 1) [4], exNode TextNode ''hello'' (Some 3) []]"

definition exDom :: domExterns where
  "exDom = \<lparr>dxParse = (\<lambda>_. Some exTree), dxSelect = (\<lambda>_. Some (\<lambda>_ n. [n])), dxRender = (\<lambda>_ _. Some [])\<rparr>"

lemma exTree_links: "treeLinks exTree"
proof -
  have "i < length exTree \<longleftrightarrow> i = 0 \<or> i = 1 \<or> i = 2 \<or> i = 3 \<or> i = 4" for i by (auto simp: exTree_def)
  note cases = this
  have nodes: "exTree ! 0 = exNode OtherNode [] None [1]" "exTree ! 1 = exNode ElementNode ''html'' (Some 0) [2, 3]" "exTree ! Suc 0 = exNode ElementNode ''html'' (Some 0) [2, 3]"
    "exTree ! 2 = exNode ElementNode ''head'' (Some 1) []" "exTree ! 3 = exNode ElementNode ''body'' (Some 1) [4]" "exTree ! 4 = exNode TextNode ''hello'' (Some 3) []"
    by (simp_all add: exTree_def)
  have par: "c < length exTree \<and> dnParent (exTree ! c) = Some p \<longleftrightarrow> (c, p) \<in> {(1, 0), (2, 1), (3, 1), (4, 3)}" for c p
    unfolding cases by (auto simp: nodes exNode_def)
  have "linked exTree" unfolding linked_def
  proof (intro allI impI)
    fix n assume n: "n < length exTree"
    have "distinct (dnChildren (exTree ! n)) \<and> (\<forall>c. c \<in> set (dnChildren (exTree ! n)) \<longleftrightarrow> (c, n) \<in> {(1, 0), (2, 1), (3, 1), (4, 3)})"
      using n unfolding cases by (auto simp: nodes exNode_def)
    moreover have "p < length exTree" if "dnParent (exTree ! n) = Some p" for p using par[of n p] n that by (auto simp: exTree_def)
    ultimately show "distinct (dnChildren (exTree ! n)) \<and> (\<forall>c. (c \<in> set (dnChildren (exTree ! n))) = (c < length exTree \<and> dnParent (exTree ! c) = Some n)) \<and>
        (\<forall>p. dnParent (exTree ! n) = Some p \<longrightarrow> p < length exTree)" unfolding par by blast
  qed
  moreover have "p < c" if "(c, p) \<in> parentRel exTree" for c p using that par[of c p] by (auto simp: parentRel_def)
  then have "acyclic (parentRel exTree)" by (intro acyclicI_order[where f = id]) auto
  ultimately show ?thesis by (simp add: treeLinks_def)
qed

lemma exDom_OK: "parsesTrees exDom" "selectsNodes exDom"
  using exTree_links by (auto simp: parsesTrees_def selectsNodes_def exDom_def exTree_def)

text \<open>A script takes the body, appends an element and sets its text.\<close>

definition exCalls :: "dom_call list" where
  "exCalls = [FirstElement ''body'', CreateElement ''P'', AppendChild 7 (Some 8), SetTextContent 8 '' world'']"

definition exDoc :: domDocument where
  "exDoc = \<lparr>ddHeap = exTree, ddRoot = 0, ddWrapped = Map.empty, ddObjects = Map.empty, ddNext = 7\<rparr>"

lemma exDoc_parsed: "newDOMDocument exDom 5 7 [] = Inr exDoc"
proof -
  have "countDOMNodes (Suc (Suc (Suc (Suc (Suc 0))))) exTree 0 = Some 5" by (simp add: exTree_def exNode_def maxDOMNodes_def)
  then have "countDOMNodes 5 exTree 0 = Some 5" by (simp add: eval_nat_numeral)
  then show ?thesis by (simp add: newDOMDocument_def exDom_def exDoc_def maxDOMNodes_def)
qed

lemma exDomRun:
  "domRun exDom 9 exCalls exDoc = ([AnObject 7, AnObject 8, AnObject 8, Undefined], snd (domRun exDom 9 exCalls exDoc))"
  "length (ddHeap (snd (domRun exDom 9 exCalls exDoc))) = 7"
  "domTextContent 9 (ddHeap (snd (domRun exDom 9 exCalls exDoc))) 0 = Some ''hello world''"
  "ddWrapped (snd (domRun exDom 9 exCalls exDoc)) 3 = Some 7"
proof -
  have "fst (domRun exDom 9 exCalls exDoc) = [AnObject 7, AnObject 8, AnObject 8, Undefined]" by code_simp
  then show "domRun exDom 9 exCalls exDoc = ([AnObject 7, AnObject 8, AnObject 8, Undefined], snd (domRun exDom 9 exCalls exDoc))" by (metis prod.collapse)
  show "length (ddHeap (snd (domRun exDom 9 exCalls exDoc))) = 7" by code_simp
  show "domTextContent 9 (ddHeap (snd (domRun exDom 9 exCalls exDoc))) 0 = Some ''hello world''" by code_simp
  show "ddWrapped (snd (domRun exDom 9 exCalls exDoc)) 3 = Some 7" by code_simp
qed

lemma exCalls_keepTree: "keepsTreeRun exDom 9 exCalls exDoc"
proof -
  let ?d2 = "snd (domRun exDom 9 (take 2 exCalls) exDoc)"
  have h: "ddHeap ?d2 = exTree @ [newNode ElementNode ''p'']" by code_simp
  have "ddObjects ?d2 7 = Some 3" "ddObjects ?d2 8 = Some 5" by code_simp+
  moreover have "3 \<notin> below (ddHeap ?d2) 5"
  proof
    assume "3 \<in> below (ddHeap ?d2) 5"
    then have "(3, 5) \<in> (parentRel exTree)\<^sup>*" using alloc_linked(2)[of exTree] exTree_links by (simp add: below_def h treeLinks_def)
    then obtain y where "(y, 5) \<in> parentRel exTree" by (auto elim: rtranclE)
    then show False using linkedD(3)[of exTree y 5] exTree_links by (auto simp: parentRel_def treeLinks_def exTree_def)
  qed
  ultimately have "keepsTree (AppendChild 7 (Some 8)) ?d2" by (simp add: keepsTree_def)
  then show ?thesis by (simp add: exCalls_def keepsTree_def split_beta)
qed

theorem dom_reads_return_witness:
  "\<exists>s. domTextContent 9 (ddHeap (snd (domRun exDom 9 exCalls exDoc))) 0 = Some s \<and> textIs (ddHeap (snd (domRun exDom 9 exCalls exDoc))) 0 s \<and> s = ''hello world''"
proof -
  have "(0::nat) < length (ddHeap (snd (domRun exDom 9 exCalls exDoc)))" "length (ddHeap (snd (domRun exDom 9 exCalls exDoc))) \<le> 9" by (simp_all add: exDomRun(2))
  from dom_reads_return[OF exDom_OK exDoc_parsed exDomRun(1) exCalls_keepTree this, of "''html''"] exDomRun(3) show ?thesis by auto
qed


text \<open>
  A script that appends a node to itself makes reading its text recurse without end; nothing in the runtime bounds that
  recursion but the stack of the process.
\<close>

lemma appended_to_itself_never_returns:
  "fst (domRun exDom 9 [FirstElement ''body'', AppendChild 7 (Some 7)] exDoc) = [AnObject 7, AnObject 7] \<and>
   (\<forall>k. domTextContent k (ddHeap (snd (domRun exDom 9 [FirstElement ''body'', AppendChild 7 (Some 7)] exDoc))) 3 = None)"
proof -
  have "fst (domRun exDom 9 [FirstElement ''body'', AppendChild 7 (Some 7)] exDoc) = [AnObject 7, AnObject 7]" by code_simp
  moreover have "3 \<in> set (dnChildren (ddHeap (snd (domRun exDom 9 [FirstElement ''body'', AppendChild 7 (Some 7)] exDoc)) ! 3))" by code_simp
  moreover have "dnType (ddHeap (snd (domRun exDom 9 [FirstElement ''body'', AppendChild 7 (Some 7)] exDoc)) ! 3) \<noteq> TextNode" by code_simp
  ultimately show ?thesis using cycle_never_returns by blast
qed

end
