(* ===== verification/Web_Api.thy ===== *)
theory Web_Api
  imports Script_Results
begin

text \<open>
  The web globals a published bundle expects (module_webapi.go): \<^verbatim>\<open>URL\<close> and \<^verbatim>\<open>URLSearchParams\<close> over one parsed address,
  \<^verbatim>\<open>TextEncoder\<close> and \<^verbatim>\<open>TextDecoder\<close>.

  The query syntax of \<^verbatim>\<open>net/url\<close> is modelled; the parser and the renderer of an address are arguments. \<open>escFragment\<close> is
  \<^verbatim>\<open>URL.EscapedFragment\<close> and \<open>resolve\<close> is \<^verbatim>\<open>URL.ResolveReference\<close>.
\<close>

section \<open>Queries (net/url)\<close>

definition unreservedByte :: "char \<Rightarrow> bool" where
  "unreservedByte c \<longleftrightarrow> is_digit c \<or> (97 \<le> code c \<and> code c \<le> 122) \<or> (65 \<le> code c \<and> code c \<le> 90) \<or> c \<in> set ''-_.~''"

definition upperHex :: "nat \<Rightarrow> char" where
  "upperHex n = (if n < 10 then char_of (48 + n) else char_of (55 + n))"

definition escapeByte :: "char \<Rightarrow> string" where
  "escapeByte c =
     (if unreservedByte c then [c] else if c = CHR '' '' then ''+''
      else [CHR ''%'', upperHex (code c div 16), upperHex (code c mod 16)])"

definition queryEscape :: "string \<Rightarrow> string" where
  "queryEscape s = concat (map escapeByte s)"

fun queryUnescape :: "string \<Rightarrow> string option" where
  "queryUnescape [] = Some []"
| "queryUnescape (c # s) =
     (if c = CHR ''%'' then
        (case s of
           a # b # s' \<Rightarrow>
             (case (hexValue a, hexValue b) of
                (Some x, Some y) \<Rightarrow> map_option (\<lambda>t. char_of (16 * x + y) # t) (queryUnescape s')
              | _ \<Rightarrow> None)
         | _ \<Rightarrow> None)
      else map_option (\<lambda>t. (if c = CHR ''+'' then CHR '' '' else c) # t) (queryUnescape s))"

type_synonym params = "(string \<times> string list) list"

definition valuesOf :: "params \<Rightarrow> string \<Rightarrow> string list" where
  "valuesOf m k = (case map_of m k of None \<Rightarrow> [] | Some vs \<Rightarrow> vs)"

definition valuesAdd :: "string \<Rightarrow> string \<Rightarrow> params \<Rightarrow> params" where
  "valuesAdd k v m = AList.update k (valuesOf m k @ [v]) m"

definition valuesSet :: "string \<Rightarrow> string \<Rightarrow> params \<Rightarrow> params" where
  "valuesSet k v m = AList.update k [v] m"

definition valuesDel :: "string \<Rightarrow> params \<Rightarrow> params" where
  "valuesDel k m = AList.delete k m"

text \<open>A part of a query between ampersands, cut at its first equals sign.\<close>

datatype query_part = SkippedPart | BrokenPart | PairPart string string

definition queryPart :: "string \<Rightarrow> query_part" where
  "queryPart p =
     (if CHR '';'' \<in> set p then BrokenPart
      else if p = [] then SkippedPart
      else (case (queryUnescape (takeWhile (\<lambda>c. c \<noteq> CHR ''='') p), queryUnescape (drop 1 (dropWhile (\<lambda>c. c \<noteq> CHR ''='') p))) of
              (Some k, Some v) \<Rightarrow> PairPart k v
            | _ \<Rightarrow> BrokenPart))"

fun parseParts :: "string list \<Rightarrow> params \<times> bool \<Rightarrow> params \<times> bool" where
  "parseParts [] r = r"
| "parseParts (p # ps) (m, ok) =
     parseParts ps (case queryPart p of SkippedPart \<Rightarrow> (m, ok) | BrokenPart \<Rightarrow> (m, False) | PairPart k v \<Rightarrow> (valuesAdd k v m, ok))"

text \<open>The values, and whether every part could be read.\<close>

definition parseQuery :: "string \<Rightarrow> params \<times> bool" where
  "parseQuery q = parseParts (split_on CHR ''&'' q) ([], True)"

definition queryPairs :: "params \<Rightarrow> (string \<times> string) list" where
  "queryPairs m = concat (map (\<lambda>k. map (Pair k) (valuesOf m k)) (sort (map fst m)))"

definition valuesEncode :: "params \<Rightarrow> string" where
  "valuesEncode m = join ''&'' (map (\<lambda>(k, v). queryEscape k @ ''='' @ queryEscape v) (queryPairs m))"

section \<open>URLSearchParams\<close>

definition readParams :: "string \<Rightarrow> params" where
  "readParams q = (case parseQuery q of (m, ok) \<Rightarrow> if ok then m else [])"

definition newSearchParams :: "string option \<Rightarrow> string" where
  "newSearchParams v = (case v of None \<Rightarrow> [] | Some s \<Rightarrow> trim_prefix s ''?'')"

definition paramsGet :: "string \<Rightarrow> string \<Rightarrow> string option" where
  "paramsGet q name = (case map_of (readParams q) name of Some (v # _) \<Rightarrow> Some v | _ \<Rightarrow> None)"

definition paramsGetAll :: "string \<Rightarrow> string \<Rightarrow> string list" where
  "paramsGetAll q name = valuesOf (readParams q) name"

definition paramsHas :: "string \<Rightarrow> string \<Rightarrow> bool" where
  "paramsHas q name \<longleftrightarrow> map_of (readParams q) name \<noteq> None"

definition paramsSet :: "string \<Rightarrow> string \<Rightarrow> string \<Rightarrow> string" where
  "paramsSet name v q = valuesEncode (valuesSet name v (readParams q))"

definition paramsAppend :: "string \<Rightarrow> string \<Rightarrow> string \<Rightarrow> string" where
  "paramsAppend name v q = valuesEncode (valuesAdd name v (readParams q))"

definition paramsDelete :: "string \<Rightarrow> string \<Rightarrow> string" where
  "paramsDelete name q = valuesEncode (valuesDel name (readParams q))"

section \<open>URL\<close>

datatype url_error = InvalidURL | InvalidBase

definition isAbs :: "parsedURL \<Rightarrow> bool" where "isAbs u \<longleftrightarrow> urlScheme u \<noteq> []"

definition newURL :: "externs \<Rightarrow> (parsedURL \<Rightarrow> parsedURL \<Rightarrow> parsedURL) \<Rightarrow> string \<Rightarrow> string option \<Rightarrow> url_error + parsedURL" where
  "newURL x resolve raw base =
     (case xURL x raw of
        None \<Rightarrow> Inl InvalidURL
      | Some u \<Rightarrow>
          bindJ (case base of
                   None \<Rightarrow> Inr u
                 | Some b \<Rightarrow> (case xURL x b of None \<Rightarrow> Inl InvalidBase | Some bu \<Rightarrow> Inr (resolve bu u)))
            (\<lambda>u. if \<not> isAbs u then Inl InvalidURL else Inr u))"

definition setHref :: "externs \<Rightarrow> string \<Rightarrow> parsedURL \<Rightarrow> url_error + parsedURL" where
  "setHref x v u = (case xURL x v of None \<Rightarrow> Inl InvalidURL | Some n \<Rightarrow> if \<not> isAbs n then Inl InvalidURL else Inr n)"

definition getProtocol :: "parsedURL \<Rightarrow> string" where "getProtocol u = urlScheme u @ '':''"

definition setHostname :: "string \<Rightarrow> parsedURL \<Rightarrow> parsedURL" where
  "setHostname v u = (if urlPort u \<noteq> [] then u\<lparr>urlHost := v @ '':'' @ urlPort u\<rparr> else u\<lparr>urlHost := v\<rparr>)"

definition setHost :: "string \<Rightarrow> parsedURL \<Rightarrow> parsedURL" where "setHost v u = u\<lparr>urlHost := v\<rparr>"

definition getOrigin :: "parsedURL \<Rightarrow> string" where
  "getOrigin u = (if urlScheme u = [] \<or> urlHost u = [] then ''null'' else urlScheme u @ ''://'' @ urlHost u)"

definition getPathname :: "externs \<Rightarrow> parsedURL \<Rightarrow> string" where
  "getPathname x u = (if xEscapedPath x u = [] then ''/'' else xEscapedPath x u)"

definition setPathname :: "string \<Rightarrow> parsedURL \<Rightarrow> parsedURL" where "setPathname v u = u\<lparr>urlPath := v\<rparr>"

definition getSearch :: "parsedURL \<Rightarrow> string" where
  "getSearch u = (if urlRawQuery u = [] then [] else CHR ''?'' # urlRawQuery u)"

definition setSearch :: "string \<Rightarrow> parsedURL \<Rightarrow> parsedURL" where
  "setSearch v u = u\<lparr>urlRawQuery := trim_prefix v ''?''\<rparr>"

definition getHash :: "(parsedURL \<Rightarrow> string) \<Rightarrow> parsedURL \<Rightarrow> string" where
  "getHash escFragment u = (if urlFragment u = [] then [] else CHR ''#'' # escFragment u)"

definition setHash :: "string \<Rightarrow> parsedURL \<Rightarrow> parsedURL" where
  "setHash v u = u\<lparr>urlFragment := trim_prefix v ''#''\<rparr>"

text \<open>The params object of an address works on the query of that address.\<close>

definition onQuery :: "(string \<Rightarrow> string) \<Rightarrow> parsedURL \<Rightarrow> parsedURL" where
  "onQuery f u = u\<lparr>urlRawQuery := f (urlRawQuery u)\<rparr>"

section \<open>TextEncoder and TextDecoder\<close>

definition encodeText :: "string option \<Rightarrow> string" where
  "encodeText v = (case v of None \<Rightarrow> [] | Some s \<Rightarrow> s)"

datatype decoder_error = UnsupportedLabel | NotBytes | NotUTF8Text

definition newTextDecoder :: "string option \<Rightarrow> bool \<Rightarrow> decoder_error + bool" where
  "newTextDecoder label fatal =
     (let l = (case label of None \<Rightarrow> ''utf-8'' | Some s \<Rightarrow> to_lower s)
      in if l \<in> set [''utf-8'', ''utf8'', ''unicode-1-1-utf-8''] then Inr fatal else Inl UnsupportedLabel)"

definition textDecode :: "bool \<Rightarrow> exported option \<Rightarrow> decoder_error + string" where
  "textDecode fatal raw =
     (case raw of
        None \<Rightarrow> Inr []
      | Some v \<Rightarrow>
          (case exportedBody v of
             None \<Rightarrow> Inl NotBytes
           | Some body \<Rightarrow> (if fatal \<and> \<not> validUTF8 body then Inl NotUTF8Text else Inr body)))"

end
