(* ===== verification/Web_Api_Properties.thy ===== *)
theory Web_Api_Properties
  imports Web_Api Http_Headers_Properties
begin

text \<open>
  A query read through the params object is a map from names to lists of values, and the methods of the object are its
  operations; escaping is inverted by reading.
\<close>

section \<open>Escaping\<close>

lemma code_inject: "code a = code b \<Longrightarrow> a = b"
  by (simp add: code_def)

lemma hex_upperHex: "n < 16 \<Longrightarrow> hexValue (upperHex n) = Some n"
  by (auto simp: hexValue_def upperHex_def is_digit_def code_char_of)

lemma char_of_own_code: "char_of (code c) = c"
  by (simp add: code_def)

lemma unescape_byte: "queryUnescape (escapeByte c @ s) = map_option (\<lambda>t. c # t) (queryUnescape s)"
proof (cases "unreservedByte c")
  case True
  then have "c \<noteq> CHR ''%''" "c \<noteq> CHR ''+''" by (auto simp: unreservedByte_def is_digit_def code_def)
  then show ?thesis using True by (simp add: escapeByte_def)
next
  case False
  show ?thesis
  proof (cases "c = CHR '' ''")
    case True
    then show ?thesis using False by (simp add: escapeByte_def)
  next
    case other: False
    have "code c div 16 < 16" "code c mod 16 < 16" using code_less[of c] by auto
    then show ?thesis using False other by (simp add: escapeByte_def hex_upperHex char_of_own_code)
  qed
qed

lemma unescape_escape: "queryUnescape (queryEscape s) = Some s"
proof (induction s)
  case (Cons c s)
  have "queryEscape (c # s) = escapeByte c @ queryEscape s" by (simp add: queryEscape_def)
  then show ?case using Cons by (simp only: unescape_byte) simp
qed (simp add: queryEscape_def)

text \<open>Nothing that separates parts of a query is left in an escaped text.\<close>

lemma escape_chars: "c \<in> set (queryEscape s) \<Longrightarrow> unreservedByte c \<or> c = CHR ''%'' \<or> c = CHR ''+''"
proof -
  have hex: "unreservedByte (upperHex n)" if "n < 16" for n
    using that by (auto simp: unreservedByte_def upperHex_def is_digit_def code_char_of)
  have "c \<in> set (escapeByte a) \<Longrightarrow> unreservedByte c \<or> c = CHR ''%'' \<or> c = CHR ''+''" for a
  proof -
    have "code a div 16 < 16" "code a mod 16 < 16" using code_less[of a] by auto
    then show "c \<in> set (escapeByte a) \<Longrightarrow> unreservedByte c \<or> c = CHR ''%'' \<or> c = CHR ''+''"
      using hex by (auto simp: escapeByte_def split: if_splits)
  qed
  then show "c \<in> set (queryEscape s) \<Longrightarrow> unreservedByte c \<or> c = CHR ''%'' \<or> c = CHR ''+''" by (auto simp: queryEscape_def)
qed

lemma escape_free: "CHR ''&'' \<notin> set (queryEscape s)" "CHR ''='' \<notin> set (queryEscape s)" "CHR '';'' \<notin> set (queryEscape s)"
  using escape_chars[of "CHR ''&''" s] escape_chars[of "CHR ''=''" s] escape_chars[of "CHR '';''" s]
  by (auto simp: unreservedByte_def is_digit_def code_def)

section \<open>Queries\<close>

lemma split_on_append: "c \<notin> set s \<Longrightarrow> split_on c (s @ c # t) = s # split_on c t"
  by (induction s) auto

lemma split_on_free: "c \<notin> set s \<Longrightarrow> split_on c s = [s]"
  by (induction s) auto

lemma split_on_join: "xs \<noteq> [] \<Longrightarrow> \<forall>x\<in>set xs. c \<notin> set x \<Longrightarrow> split_on c (join [c] xs) = xs"
  by (induction "[c]" xs rule: join.induct) (auto simp: split_on_append split_on_free)

lemma queryPart_pair: "queryPart (queryEscape k @ ''='' @ queryEscape v) = PairPart k v"
proof -
  have t: "takeWhile (\<lambda>c. c \<noteq> CHR ''='') (queryEscape k @ ''='' @ queryEscape v) = queryEscape k"
    "dropWhile (\<lambda>c. c \<noteq> CHR ''='') (queryEscape k @ ''='' @ queryEscape v) = CHR ''='' # queryEscape v"
    using escape_free(2)[of k] by (auto simp: takeWhile_append dropWhile_append)
  show ?thesis unfolding queryPart_def t using escape_free(3) by (simp add: unescape_escape)
qed

definition pairValues :: "(string \<times> string) list \<Rightarrow> string \<Rightarrow> string list" where
  "pairValues ps k = map snd (filter (\<lambda>p. fst p = k) ps)"

lemma valuesOf_add: "valuesOf (valuesAdd k v m) = (valuesOf m)(k := valuesOf m k @ [v])"
  by (auto simp: valuesOf_def valuesAdd_def AList.update_conv' fun_eq_iff)

lemma valuesOf_set: "valuesOf (valuesSet k v m) = (valuesOf m)(k := [v])"
  by (auto simp: valuesOf_def valuesSet_def AList.update_conv' fun_eq_iff)

lemma valuesOf_del: "valuesOf (valuesDel k m) = (valuesOf m)(k := [])"
  by (auto simp: valuesOf_def valuesDel_def AList.delete_conv' fun_eq_iff)

lemma parseParts_pairs:
  "\<exists>m'. parseParts (map (\<lambda>(k, v). queryEscape k @ ''='' @ queryEscape v) ps) (m, ok) = (m', ok) \<and> (\<forall>k. valuesOf m' k = valuesOf m k @ pairValues ps k)"
proof (induction ps arbitrary: m)
  case Nil
  then show ?case by (simp add: pairValues_def)
next
  case (Cons p ps)
  obtain k v where p: "p = (k, v)" by force
  obtain m' where "parseParts (map (\<lambda>(k, v). queryEscape k @ ''='' @ queryEscape v) ps) (valuesAdd k v m, ok) = (m', ok)"
    "\<forall>j. valuesOf m' j = valuesOf (valuesAdd k v m) j @ pairValues ps j" using Cons.IH by blast
  then show ?case by (intro exI[of _ m']) (auto simp: p queryPart_pair[simplified] valuesOf_add pairValues_def)
qed

lemma pairValues_queryPairs:
  assumes "distinct (map fst m)"
  shows "pairValues (queryPairs m) k = valuesOf m k"
proof -
  have one: "pairValues (concat (map (\<lambda>k. map (Pair k) (f k)) ks)) k = (if k \<in> set ks then f k else [])" if "distinct ks" for ks f
    using that
  proof (induction ks)
    case (Cons j ks)
    then show ?case by (cases "j = k") (auto simp: pairValues_def filter_map comp_def)
  qed (simp add: pairValues_def)
  show ?thesis using assms by (simp add: queryPairs_def one) (force simp: valuesOf_def map_of_eq_None_iff split: option.splits)
qed

lemma read_encode:
  assumes "distinct (map fst m)"
  shows "valuesOf (readParams (valuesEncode m)) = valuesOf m"
proof
  fix k
  show "valuesOf (readParams (valuesEncode m)) k = valuesOf m k"
  proof (cases "queryPairs m = []")
    case True
    then have "valuesOf m k = []" using pairValues_queryPairs[OF assms, of k] by (simp add: pairValues_def)
    moreover have "readParams (valuesEncode m) = []" using True by (simp add: valuesEncode_def readParams_def parseQuery_def queryPart_def)
    ultimately show ?thesis by (simp add: valuesOf_def)
  next
    case False
    let ?parts = "map (\<lambda>(k, v). queryEscape k @ ''='' @ queryEscape v) (queryPairs m)"
    have "split_on CHR ''&'' (valuesEncode m) = ?parts"
      unfolding valuesEncode_def using False escape_free(1) by (intro split_on_join) auto
    then obtain m' where "parseQuery (valuesEncode m) = (m', True)" "\<forall>k. valuesOf m' k = pairValues (queryPairs m) k"
      using parseParts_pairs[of "queryPairs m" "[]" True] by (auto simp: parseQuery_def valuesOf_def)
    then show ?thesis using pairValues_queryPairs[OF assms] by (simp add: readParams_def)
  qed
qed

lemma parseParts_distinct:
  "distinct (map fst m) \<and> [] \<notin> snd ` set m \<Longrightarrow> distinct (map fst (fst (parseParts ps (m, ok)))) \<and> [] \<notin> snd ` set (fst (parseParts ps (m, ok)))"
proof (induction ps arbitrary: m ok)
  case (Cons p ps)
  have "distinct (map fst (valuesAdd k v m)) \<and> [] \<notin> snd ` set (valuesAdd k v m)" for k v
    using set_alist_update[of k "valuesOf m k @ [v]" m] Cons.prems by (fastforce simp: valuesAdd_def AList.distinct_update)
  then show ?case using Cons by (auto split: query_part.splits)
qed simp

lemma readParams_shape: "distinct (map fst (readParams q))" "[] \<notin> snd ` set (readParams q)"
proof -
  obtain m ok where p: "parseParts (split_on CHR ''&'' q) ([], True) = (m, ok)" by force
  then have "readParams q = (if ok then m else [])" by (simp add: readParams_def parseQuery_def)
  moreover have "distinct (map fst m)" "[] \<notin> snd ` set m" using parseParts_distinct[of "[]" "split_on CHR ''&'' q" True] by (simp_all add: p)
  ultimately show "distinct (map fst (readParams q))" "[] \<notin> snd ` set (readParams q)" by (cases ok; simp)+
qed

text \<open>C35: A query is a map from names to lists of values: whatever the query is, setting, appending to and deleting a
parameter through the params object acts on what the object reads as the map operation, for that name and no other; get gives
the first value and has says whether there is one. What was escaped on the way into the query is read back unchanged.\<close>
theorem search_params_refine:
  "paramsGetAll (paramsSet name v q) = (paramsGetAll q)(name := [v]) \<and>
   paramsGetAll (paramsAppend name v q) = (paramsGetAll q)(name := paramsGetAll q name @ [v]) \<and>
   paramsGetAll (paramsDelete name q) = (paramsGetAll q)(name := []) \<and>
   paramsGet q name = (case paramsGetAll q name of [] \<Rightarrow> None | v # _ \<Rightarrow> Some v) \<and> paramsHas q name = (paramsGetAll q name \<noteq> [])"
proof -
  have d: "distinct (map fst (valuesSet name v (readParams q)))" "distinct (map fst (valuesAdd name v (readParams q)))" "distinct (map fst (valuesDel name (readParams q)))"
    using readParams_shape(1)[of q] by (simp_all add: valuesSet_def valuesAdd_def valuesDel_def AList.distinct_update AList.distinct_delete)
  have "vs \<noteq> []" if "map_of (readParams q) name = Some vs" for vs using readParams_shape(2)[of q] map_of_SomeD[OF that] by force
  then show ?thesis
    using read_encode[OF d(1)] read_encode[OF d(2)] read_encode[OF d(3)]
    by (auto simp: paramsGetAll_def[abs_def] paramsSet_def paramsAppend_def paramsDelete_def valuesOf_set valuesOf_add valuesOf_del
        paramsGet_def paramsHas_def valuesOf_def[of "readParams q"] split: option.splits list.splits)
qed

text \<open>Setting the host name of an address keeps its port.\<close>

lemma index_byte_append: "c \<notin> set s \<Longrightarrow> index_byte (s @ c # t) c = Some (length s)"
  by (induction s) auto

lemma last_index_byte_append: "c \<notin> set t \<Longrightarrow> last_index_byte (s @ c # t) c = Some (length s)"
  using index_byte_append[of c "rev t" "rev s"] by (simp add: last_index_byte_def)

lemma urlPort_digits: "list_all is_digit (urlPort u)"
  by (auto simp: urlPort_def urlSplit_def Let_def split: option.splits if_splits)

lemma setHostname_keeps_port:
  assumes "CHR '':'' \<notin> set v" "\<not> has_prefix v ''[''"
  shows "urlHostname (setHostname v u) = v \<and> urlPort (setHostname v u) = urlPort u"
proof (cases "urlPort u = []")
  case True
  have "last_index_byte v CHR '':'' = None" using assms(1) by simp
  then have "urlSplit v = (v, [])" using assms(2) unfolding urlSplit_def by (simp del: last_index_byte_None)
  then show ?thesis using True by (simp add: setHostname_def urlHostname_def) (simp add: urlPort_def)
next
  case False
  have d: "list_all is_digit (urlPort u)" by (rule urlPort_digits)
  then have "CHR '':'' \<notin> set (urlPort u)" by (auto simp: list_all_iff is_digit_def code_def)
  then have "last_index_byte (v @ CHR '':'' # urlPort u) CHR '':'' = Some (length v)" by (rule last_index_byte_append)
  then have "urlSplit (v @ CHR '':'' # urlPort u) = (v, urlPort u)" using d assms(2) by (simp add: urlSplit_def)
  then show ?thesis using False by (simp add: setHostname_def urlHostname_def urlPort_def[of "u\<lparr>urlHost := v @ CHR '':'' # urlPort u\<rparr>"])
qed

text \<open>A query with a part that cannot be read is lost as soon as a parameter is set.\<close>

lemma unread_query_erased:
  "paramsSet ''d'' ''4'' ''a=1;b=2&c=3'' = ''d=4'' \<and> paramsSet ''d'' ''4'' ''a=1&c=3'' = ''a=1&c=3&d=4''"
  by code_simp

end
