(* ===== verification/Proxy_Front.thy ===== *)
theory Proxy_Front
  imports Socks_Conn Validation
begin

text \<open>
  The connections of the proxy (proxy.go): a SOCKS session up to the point where HTTP takes over, the UDP association, the
  session ticket keys of the client-facing TLS side, the report of failed handshakes, and the connections of the HTTP/3
  transports.

  HTTP, TLS and QUIC themselves belong to other packages. Times are nanoseconds; what the clock, the random source and the
  operating system answer are arguments.
\<close>

section \<open>A SOCKS session\<close>

datatype 'e front_error =
    ConfigUnavailable 'e | SocksFailed socks_error | TargetRefused | UnsupportedCommand nat
  | BadLocalAddress | BadRemoteAddress | ListenFailed

datatype 'e session_outcome = SessionFailed "'e front_error" | ServePlainHTTP | ServeTLS string | ServeUDP

definition socksCommandConnect :: nat where "socksCommandConnect = 1"
definition socksCommandUDP :: nat where "socksCommandUDP = 3"

text \<open>What the connection is handed to, and the connection at that point; \<open>local\<close> is the text of its local address.\<close>

definition handleSOCKSConnection :: "('e + Config) \<Rightarrow> string \<Rightarrow> sconn \<Rightarrow> 'e session_outcome \<times> sconn" where
  "handleSOCKSConnection current local c =
     (case current of
        Inl e \<Rightarrow> (SessionFailed (ConfigUnavailable e), c)
      | Inr cfg \<Rightarrow>
          (case readSOCKSRequest (cfgUsername cfg) (cfgPassword cfg) c of
             (Inl e, c) \<Rightarrow> (SessionFailed (SocksFailed e), c)
           | (Inr (command, target), c) \<Rightarrow>
               (if command = socksCommandConnect then
                  (if \<not> allowedInboundSOCKSTarget cfg target then (SessionFailed TargetRefused, snd (writeSOCKSReply 2 None c))
                   else (case writeSOCKSReply 0 (Some local) c of
                           (Inl e, c) \<Rightarrow> (SessionFailed (SocksFailed e), c)
                         | (Inr _, c) \<Rightarrow> (if tgtPort target = 80 then ServePlainHTTP else ServeTLS (tgtHost target), c)))
                else if command = socksCommandUDP then (ServeUDP, c)
                else (SessionFailed (UnsupportedCommand command), snd (writeSOCKSReply 7 None c)))))"

text \<open>
  The association: \<open>listen\<close> opens the socket on an address and gives the text of the address it is bound to, or fails.
  \<open>DiscardQUIC\<close> reads and drops every datagram, \<open>ServeHTTP3\<close> serves them.
\<close>

datatype 'e association = AssociationFailed "'e front_error" | DiscardQUIC socksServerPacketConn | ServeHTTP3 socksServerPacketConn

definition newPacketConn :: "string \<Rightarrow> Config \<Rightarrow> datagram list \<Rightarrow> socksServerPacketConn" where
  "newPacketConn remoteHost cfg arrivals =
     \<lparr>spAllowedIP = ParseIP remoteHost, spAuthorization = newInboundUDPAuthorization cfg, spRelay = None, spReadCap = 0, spWriteCap = 0,
      spArrivals = arrivals, spSent = []\<rparr>"

definition serveUDPAssociation :: "('e + Config) \<Rightarrow> (nat list option \<Rightarrow> string option) \<Rightarrow> string \<Rightarrow> string \<Rightarrow> datagram list \<Rightarrow> sconn \<Rightarrow> 'e association \<times> sconn" where
  "serveUDPAssociation current listen local remote arrivals c =
     (case split_host_port local of
        None \<Rightarrow> (AssociationFailed BadLocalAddress, c)
      | Some (localHost, _) \<Rightarrow>
          (case listen (Option.bind (ParseIP localHost) To4) of
             None \<Rightarrow> (AssociationFailed ListenFailed, snd (writeSOCKSReply 1 None c))
           | Some bound \<Rightarrow>
               (case split_host_port remote of
                  None \<Rightarrow> (AssociationFailed BadRemoteAddress, c)
                | Some (remoteHost, _) \<Rightarrow>
                    (case current of
                       Inl e \<Rightarrow> (AssociationFailed (ConfigUnavailable e), c)
                     | Inr cfg \<Rightarrow>
                         (case writeSOCKSReply 0 (Some bound) c of
                            (Inl e, c) \<Rightarrow> (AssociationFailed (SocksFailed e), c)
                          | (Inr _, c) \<Rightarrow>
                              ((if mitmQUICFallbackProtection (cfgMITM cfg) then DiscardQUIC else ServeHTTP3) (newPacketConn remoteHost cfg arrivals), c))))))"

section \<open>Session ticket keys\<close>

definition mitmTicketKeyLifetime :: int where "mitmTicketKeyLifetime = 24 * 3600 * 1000000000"
definition mitmTicketKeyHistory :: nat where "mitmTicketKeyHistory = 2"

record ticketKeys =
  tkKeys :: "string list"
  tkSet :: int

definition noTicketKeys :: ticketKeys where "noTicketKeys = \<lparr>tkKeys = [], tkSet = 0\<rparr>"

text \<open>\<open>fresh\<close> is what the random source gives; \<open>now\<close> and \<open>now'\<close> are the two readings of the clock.\<close>

definition sessionTicketKeys :: "int \<Rightarrow> int \<Rightarrow> string option \<Rightarrow> ticketKeys \<Rightarrow> string list option \<times> ticketKeys" where
  "sessionTicketKeys now now' fresh t =
     (if tkKeys t \<noteq> [] \<and> now - tkSet t < mitmTicketKeyLifetime then (Some (tkKeys t), t)
      else (case fresh of
              None \<Rightarrow> (None, t)
            | Some key \<Rightarrow>
                (let rotated = take mitmTicketKeyHistory (key # tkKeys t)
                 in (Some rotated, \<lparr>tkKeys = rotated, tkSet = now'\<rparr>))))"

definition mitmTLSNextProtos :: "bool \<Rightarrow> string list" where
  "mitmTLSNextProtos http2 = (if http2 then [''h2'', ''http/1.1''] else [''http/1.1''])"

record tlsConfig =
  tcMinVersion :: nat
  tcNextProtos :: "string list"
  tcTicketKeys :: "string list"

definition mitmTLSConfig :: "bool \<Rightarrow> int \<Rightarrow> int \<Rightarrow> string option \<Rightarrow> ticketKeys \<Rightarrow> tlsConfig option \<times> ticketKeys" where
  "mitmTLSConfig http2 now now' fresh t =
     (case sessionTicketKeys now now' fresh t of
        (None, t) \<Rightarrow> (None, t)
      | (Some keys, t) \<Rightarrow> (Some \<lparr>tcMinVersion = 0x303, tcNextProtos = mitmTLSNextProtos http2, tcTicketKeys = keys\<rparr>, t))"

section \<open>Failed handshakes\<close>

definition interceptCertificateTrustLogInterval :: int where "interceptCertificateTrustLogInterval = 60 * 1000000000"

text \<open>Whether a text contains another.\<close>

fun hasSubstring :: "string \<Rightarrow> string \<Rightarrow> bool" where
  "hasSubstring [] p = (p = [])"
| "hasSubstring (c # s) p = (has_prefix (c # s) p \<or> hasSubstring s p)"

datatype handshake_line = HandshakeLine string string | TrustLine string

text \<open>The lines that are logged, whether the trust warning is also published, and the time of the last one.\<close>

definition report :: "string \<Rightarrow> string \<Rightarrow> int \<Rightarrow> int option \<Rightarrow> handshake_line list \<times> bool \<times> int option" where
  "report target message now since =
     (if message = [] then ([], False, since)
      else if \<not> hasSubstring (to_lower message) ''remote error: tls: unknown certificate'' then ([HandshakeLine target message], False, since)
      else (case since of
              Some l \<Rightarrow> (if now < l + interceptCertificateTrustLogInterval then ([HandshakeLine target message], False, since)
                         else ([HandshakeLine target message, TrustLine target], True, Some now))
            | None \<Rightarrow> ([HandshakeLine target message, TrustLine target], True, Some now)))"

definition writeHandshakeError :: "string \<Rightarrow> string \<Rightarrow> int \<Rightarrow> int option \<Rightarrow> handshake_line list \<times> bool \<times> int option" where
  "writeHandshakeError target payload now since = report target (trim_space payload) now since"

section \<open>Upstream connections\<close>

definition dialUpstreamTCP :: "upstreamTransportProjection \<Rightarrow> string \<Rightarrow> socksTarget option" where
  "dialUpstreamTCP p address =
     (case split_host_port address of None \<Rightarrow> None | Some (host, portText) \<Rightarrow> upstreamTarget (upTargets p) host portText)"

definition maxUpstreamHTTP3Connections :: nat where "maxUpstreamHTTP3Connections = 64"

text \<open>\<open>h3Slots\<close> is what the channel holds; \<open>h3Open\<close> are the connections whose end will give a slot back.\<close>

record http3Connections =
  h3Slots :: nat
  h3Open :: "socksTarget list"

datatype http3_error = QUICTargetRefused | QUICBusy | QUICContextDone | QUICRelayFailed | QUICDialFailed

text \<open>
  What happens around a dial: whether the request is the only one of its generation, which connections end while it waits,
  whether the context ends first, and whether the relay and the handshake succeed.
\<close>

record http3Env =
  heSole :: bool
  heEnded :: nat
  heContextDone :: bool
  heRelay :: bool
  heHandshake :: bool

definition endConnections :: "nat \<Rightarrow> http3Connections \<Rightarrow> http3Connections" where
  "endConnections n s = \<lparr>h3Slots = h3Slots s - min n (length (h3Open s)), h3Open = drop n (h3Open s)\<rparr>"

definition acquireHTTP3ConnectionSlot :: "http3Env \<Rightarrow> http3Connections \<Rightarrow> (http3_error + unit) \<times> http3Connections" where
  "acquireHTTP3ConnectionSlot e s =
     (if h3Slots s < maxUpstreamHTTP3Connections then (Inr (), s\<lparr>h3Slots := h3Slots s + 1\<rparr>)
      else if \<not> heSole e then (Inl QUICBusy, s)
      else (let s = endConnections (heEnded e) s
            in if h3Slots s < maxUpstreamHTTP3Connections then (Inr (), s\<lparr>h3Slots := h3Slots s + 1\<rparr>)
               else if heContextDone e then (Inl QUICContextDone, s) else (Inl QUICBusy, s)))"

definition dialHTTP3 :: "upstreamTransportProjection \<Rightarrow> http3Env \<Rightarrow> string \<Rightarrow> http3Connections \<Rightarrow> (http3_error + socksTarget) \<times> http3Connections" where
  "dialHTTP3 p e address s =
     (case dialUpstreamTCP p address of
        None \<Rightarrow> (Inl QUICTargetRefused, s)
      | Some target \<Rightarrow>
          (case acquireHTTP3ConnectionSlot e s of
             (Inl err, s) \<Rightarrow> (Inl err, s)
           | (Inr _, s) \<Rightarrow>
               (if \<not> heRelay e then (Inl QUICRelayFailed, s\<lparr>h3Slots := h3Slots s - 1\<rparr>)
                else if \<not> heHandshake e then (Inl QUICDialFailed, s\<lparr>h3Slots := h3Slots s - 1\<rparr>)
                else (Inr target, s\<lparr>h3Open := h3Open s @ [target]\<rparr>))))"

section \<open>The relay of an upstream association\<close>

datatype relay_error = RelayProxyAddress | RelayLookup | RelayNoAddress | RelayNotIPv4 | RelaySocks socks_error | RelayListen

text \<open>\<open>lookup\<close> is the resolver. A relay that names no address is at the host of the proxy.\<close>

definition relayHost :: "string \<Rightarrow> socksTarget \<Rightarrow> relay_error + string" where
  "relayHost address relay =
     (case ParseIP (tgtHost relay) of
        Some ip \<Rightarrow>
          (if IsUnspecified ip
           then (case split_host_port address of None \<Rightarrow> Inl RelayProxyAddress | Some (host, _) \<Rightarrow> Inr host)
           else Inr (tgtHost relay))
      | None \<Rightarrow> Inr (tgtHost relay))"

definition resolveSOCKSRelay :: "(string \<Rightarrow> addr list option) \<Rightarrow> string \<Rightarrow> socksTarget \<Rightarrow> relay_error + addr \<times> int" where
  "resolveSOCKSRelay lookup address relay =
     (case relayHost address relay of
        Inl e \<Rightarrow> Inl e
      | Inr host \<Rightarrow>
          (case (case ParseIP host of
                   Some ip \<Rightarrow> Inr ip
                 | None \<Rightarrow> (case lookup host of None \<Rightarrow> Inl RelayLookup | Some [] \<Rightarrow> Inl RelayNoAddress | Some (ip # _) \<Rightarrow> Inr ip)) of
             Inl e \<Rightarrow> Inl e
           | Inr ip \<Rightarrow> (case To4 ip of None \<Rightarrow> Inl RelayNotIPv4 | Some os \<Rightarrow> Inr (V4 os, tgtPort relay))))"

definition dialSOCKS5UDP :: "(string \<Rightarrow> addr list option) \<Rightarrow> bool \<Rightarrow> ProxyConfig \<Rightarrow> socksTarget \<Rightarrow> datagram list \<Rightarrow> sconn \<Rightarrow>
    (relay_error + fixedSOCKSPacketConn) \<times> sconn" where
  "dialSOCKS5UDP lookup listens proxy target arrivals c =
     (let closed = (\<lambda>e c. (Inl e, c\<lparr>connClosed := True\<rparr>))
      in case andThenC (authenticateSOCKSClient (proxyUsername proxy) (proxyPassword proxy) c) (\<lambda>_ c.
              case encodeSOCKSAddress \<lparr>tgtHost = ''0.0.0.0'', tgtPort = 0\<rparr> of
                Inl e \<Rightarrow> fails e c
              | Inr address \<Rightarrow> andThenC (send ([byte 5, byte 3, byte 0] @ address) c) (\<lambda>_ c. readSOCKSClientReply c)) of
           (Inl e, c) \<Rightarrow> closed (RelaySocks e) c
         | (Inr relay, c) \<Rightarrow>
             (case resolveSOCKSRelay lookup (proxyAddress proxy) relay of
                Inl e \<Rightarrow> closed e c
              | Inr relayAddr \<Rightarrow>
                  (if \<not> listens then closed RelayListen c
                   else (Inr \<lparr>fpRelay = relayAddr, fpTarget = target, fpReadCap = 0, fpWriteCap = 0, fpArrivals = arrivals, fpSent = []\<rparr>, c))))"

section \<open>One connection per server\<close>

text \<open>
  The listener a server is given for one connection: the first call of \<^verbatim>\<open>Accept\<close> gets it, every later one waits until the
  connection is closed and fails then. \<open>None\<close> is a call that waits.
\<close>

record singleConn =
  slAccepted :: bool
  slDone :: bool

definition acceptSingle :: "singleConn \<Rightarrow> bool option \<times> singleConn" where
  "acceptSingle l =
     (if \<not> slAccepted l then (Some True, l\<lparr>slAccepted := True\<rparr>)
      else if slDone l then (Some False, l) else (None, l))"

definition closeSingle :: "singleConn \<Rightarrow> singleConn" where
  "closeSingle l = l\<lparr>slDone := True\<rparr>"

end
