(* ===== verification/Proxy_Front_Properties.thy ===== *)
theory Proxy_Front_Properties
  imports Proxy_Front Config_Example
begin

text \<open>
  Which sessions are handed on, how long a session ticket resumes, how often the trust warning appears, and that the slots of
  the HTTP/3 transports are their connections.
\<close>

section \<open>Sessions\<close>

lemma readSOCKSRequest_Inr:
  assumes "readSOCKSRequest u p c = (Inr (command, target), c')"
  shows "\<exists>methods rest. connIn c = handshakeInput methods u p @ rest \<and> byte 2 \<in> set methods"
proof -
  obtain c1 where "authenticateSOCKSServer u p c = (Inr (), c1)" using assms by (auto simp: readSOCKSRequest_def andThenC_Inr)
  from auth_success[OF this] show ?thesis by blast
qed

text \<open>What a session must have shown to be handed on.\<close>

definition admittedSession :: "Config \<Rightarrow> sconn \<Rightarrow> 'e session_outcome \<Rightarrow> bool" where
  "admittedSession cfg c outcome \<longleftrightarrow>
     (\<exists>methods rest. connIn c = handshakeInput methods (cfgUsername cfg) (cfgPassword cfg) @ rest \<and> byte 2 \<in> set methods) \<and>
     (case outcome of
        SessionFailed e \<Rightarrow> False
      | ServePlainHTTP \<Rightarrow> \<exists>target. allowedInboundSOCKSTarget cfg target \<and> tgtPort target = 80
      | ServeTLS host \<Rightarrow> allowedInboundSOCKSTarget cfg \<lparr>tgtHost = host, tgtPort = 443\<rparr>
      | ServeUDP \<Rightarrow> True)"


section \<open>Ticket keys\<close>

text \<open>A call with the two readings of the clock and what the random source gave.\<close>

type_synonym key_call = "int \<times> int \<times> string option"

fun keyRun :: "key_call list \<Rightarrow> ticketKeys \<Rightarrow> ticketKeys" where
  "keyRun [] t = t"
| "keyRun ((now, now', fresh) # cs) t = keyRun cs (snd (sessionTicketKeys now now' fresh t))"

fun ticking :: "int \<Rightarrow> key_call list \<Rightarrow> bool" where
  "ticking start [] \<longleftrightarrow> True"
| "ticking start ((now, now', fresh) # cs) \<longleftrightarrow> start \<le> now \<and> now \<le> now' \<and> ticking now' cs"

definition resumes :: "string \<Rightarrow> int \<Rightarrow> ticketKeys \<Rightarrow> bool" where
  "resumes key issued t \<longleftrightarrow> tkKeys t \<noteq> [] \<and> length (tkKeys t) \<le> mitmTicketKeyHistory \<and>
     (hd (tkKeys t) = key \<or> key \<in> set (tkKeys t) \<and> issued \<le> tkSet t)"

lemma keys_step:
  assumes "resumes key issued t" "issued \<le> now" "now \<le> now'" "now < issued + mitmTicketKeyLifetime"
  shows "resumes key issued (snd (sessionTicketKeys now now' fresh t))"
proof (cases "now - tkSet t < mitmTicketKeyLifetime \<or> fresh = None")
  case True
  then show ?thesis using assms(1) by (auto simp: sessionTicketKeys_def resumes_def split: option.splits)
next
  case False
  then obtain f where f: "fresh = Some f" by blast
  have "hd (tkKeys t) = key" using assms(1,4) False by (auto simp: resumes_def)
  then obtain ks where "tkKeys t = key # ks" using assms(1) by (cases "tkKeys t") (auto simp: resumes_def)
  then show ?thesis using False f assms(2,3) by (auto simp: sessionTicketKeys_def resumes_def mitmTicketKeyHistory_def Let_def)
qed

lemma keys_run:
  "resumes key issued t \<Longrightarrow> issued \<le> start \<Longrightarrow> ticking start cs \<Longrightarrow> \<forall>(now, now', fresh)\<in>set cs. now < issued + mitmTicketKeyLifetime \<Longrightarrow>
   resumes key issued (keyRun cs t)"
proof (induction cs arbitrary: t start)
  case (Cons c cs)
  obtain now now' fresh where c: "c = (now, now', fresh)" by (metis prod_cases3)
  have "resumes key issued (snd (sessionTicketKeys now now' fresh t))" using keys_step[OF Cons.prems(1)] Cons.prems(2-4) c by auto
  from Cons.IH[OF this, of now'] show ?case using Cons.prems c by auto
qed simp

lemma keyRun_shape: "length (tkKeys t) \<le> mitmTicketKeyHistory \<Longrightarrow> length (tkKeys (keyRun cs t)) \<le> mitmTicketKeyHistory"
  by (induction cs t rule: keyRun.induct) (auto simp: sessionTicketKeys_def mitmTicketKeyHistory_def Let_def split: option.splits if_splits)

text \<open>C37: A ticket handed out to a client still resumes a day later: the key that was the newest at a connection is among the
keys of every connection of the following 24 hours, whatever connections come in between, although no more than two keys are
kept; and the newest key of a connection is itself less than 24 hours old.\<close>
theorem tickets_resume_for_a_day:
  assumes "t = keyRun before noTicketKeys" "sessionTicketKeys now now' fresh t = (Some keys, t')" "now \<le> now'"
    and "ticking now' cs" "\<forall>(n, n', f)\<in>set cs. n < now + mitmTicketKeyLifetime"
    and "sessionTicketKeys later later' fresh' (keyRun cs t') = (Some keys', t'')" "later < now + mitmTicketKeyLifetime" "ticking now' (cs @ [(later, later', fresh')])"
  shows "hd keys \<in> set keys' \<and> length keys' \<le> 2 \<and> (tkSet t' = now' \<or> now - tkSet t' < mitmTicketKeyLifetime)"
proof -
  have l: "length (tkKeys t) \<le> mitmTicketKeyHistory" using keyRun_shape[of noTicketKeys before] assms(1) by (simp add: noTicketKeys_def)
  have k: "keys = tkKeys t'" "keys \<noteq> []" "length keys \<le> mitmTicketKeyHistory" "tkSet t' = now' \<or> now - tkSet t' < mitmTicketKeyLifetime"
    using assms(2) l by (auto simp: sessionTicketKeys_def mitmTicketKeyHistory_def Let_def split: if_splits option.splits)
  then have "resumes (hd keys) now t'" by (simp add: resumes_def)
  then have r: "resumes (hd keys) now (keyRun cs t')" using keys_run[OF _ assms(3,4,5)] by blast
  have n: "now \<le> later \<and> later \<le> later'" using assms(3,8)
  proof -
    have "ticking s (cs @ [(later, later', fresh')]) \<Longrightarrow> s \<le> later \<and> later \<le> later'" for s
      by (induction s cs rule: ticking.induct) auto
    then show ?thesis using assms(3,8) by force
  qed
  have "resumes (hd keys) now t''" using keys_step[OF r, of later later' fresh'] n assms(6,7) by simp
  moreover have "keys' = tkKeys t''" using assms(6) by (auto simp: sessionTicketKeys_def Let_def split: if_splits option.splits)
  ultimately show ?thesis using k(4) by (auto simp: resumes_def mitmTicketKeyHistory_def dest: hd_in_set)
qed

section \<open>Trust warnings\<close>

fun reportRun :: "(string \<times> string \<times> int) list \<Rightarrow> int option \<Rightarrow> int list" where
  "reportRun [] since = []"
| "reportRun ((target, message, now) # rs) since =
     (case report target message now since of (_, published, since) \<Rightarrow> (if published then [now] else []) @ reportRun rs since)"

text \<open>Two warnings are at least a minute apart.\<close>

lemma warnings_spaced:
  "sorted_wrt (\<lambda>a b. a + interceptCertificateTrustLogInterval \<le> b) (reportRun rs since) \<and>
   (\<forall>s t. since = Some s \<longrightarrow> t \<in> set (reportRun rs since) \<longrightarrow> s + interceptCertificateTrustLogInterval \<le> t)"
proof (induction rs arbitrary: since)
  case (Cons r rs)
  obtain target message now where r: "r = (target, message, now)" by (metis prod_cases3)
  have i: "0 \<le> interceptCertificateTrustLogInterval" by (simp add: interceptCertificateTrustLogInterval_def)
  show ?case
  proof (cases "fst (snd (report target message now since))")
    case True
    then have p: "snd (snd (report target message now since)) = Some now" "\<forall>s. since = Some s \<longrightarrow> s + interceptCertificateTrustLogInterval \<le> now"
      by (auto simp: report_def split: if_splits option.splits)
    have "reportRun (r # rs) since = now # reportRun rs (Some now)" using True p(1) by (simp add: r split_beta)
    moreover have "\<forall>t\<in>set (reportRun rs (Some now)). now + interceptCertificateTrustLogInterval \<le> t" using Cons.IH[of "Some now"] by blast
    ultimately show ?thesis using Cons.IH[of "Some now"] p(2) i by fastforce
  next
    case False
    then have "snd (snd (report target message now since)) = since" by (auto simp: report_def split: if_splits option.splits)
    then have "reportRun (r # rs) since = reportRun rs since" using False by (simp add: r split_beta)
    then show ?thesis using Cons.IH[of since] by metis
  qed
qed simp

section \<open>HTTP/3 connections\<close>

datatype http3_event = DialEvent upstreamTransportProjection http3Env string | EndEvent nat

definition http3Event :: "http3_event \<Rightarrow> http3Connections \<Rightarrow> http3Connections" where
  "http3Event ev s = (case ev of DialEvent p e address \<Rightarrow> snd (dialHTTP3 p e address s) | EndEvent n \<Rightarrow> endConnections n s)"

definition slotsMatch :: "http3Connections \<Rightarrow> bool" where
  "slotsMatch s \<longleftrightarrow> h3Slots s = length (h3Open s) \<and> length (h3Open s) \<le> maxUpstreamHTTP3Connections \<and>
     (\<forall>t\<in>set (h3Open s). \<exists>p address. dialUpstreamTCP p address = Some t)"

lemma slotsMatch_end: "slotsMatch s \<Longrightarrow> slotsMatch (endConnections n s)"
  by (auto simp: slotsMatch_def endConnections_def dest: in_set_dropD)

lemma acquire_slot:
  assumes "slotsMatch s" "acquireHTTP3ConnectionSlot e s = (r, s')"
  shows "case r of Inl _ \<Rightarrow> slotsMatch s' | Inr _ \<Rightarrow> \<exists>s0. slotsMatch s0 \<and> h3Slots s0 < maxUpstreamHTTP3Connections \<and> s' = s0\<lparr>h3Slots := h3Slots s0 + 1\<rparr>"
  using assms slotsMatch_end[OF assms(1), of "heEnded e"]
  by (auto simp: acquireHTTP3ConnectionSlot_def Let_def split: if_splits)

lemma slotsMatch_dial:
  assumes "slotsMatch s"
  shows "slotsMatch (snd (dialHTTP3 p e address s))"
proof (cases "dialUpstreamTCP p address")
  case None
  then show ?thesis using assms by (simp add: dialHTTP3_def)
next
  case (Some target)
  obtain r s' where r: "acquireHTTP3ConnectionSlot e s = (r, s')" by force
  show ?thesis using acquire_slot[OF assms r] Some by (cases r) (auto simp: dialHTTP3_def r slotsMatch_def)
qed


text \<open>A server gets its connection once.\<close>

lemma accepts_once:
  "fst (acceptSingle l) = Some True \<Longrightarrow> fst (acceptSingle (snd (acceptSingle l))) \<noteq> Some True \<and> fst (acceptSingle (closeSingle (snd (acceptSingle l)))) = Some False"
  by (auto simp: acceptSingle_def closeSingle_def split: if_splits)


text \<open>An upstream association that opens is for the target that was asked for, its relay is an IPv4 address, and one that does
  not open leaves no connection behind.\<close>

lemma dialSOCKS5UDP_result:
  assumes "dialSOCKS5UDP lookup listens proxy target arrivals c = (r, c')"
  shows "case r of Inl e \<Rightarrow> connClosed c' | Inr pc \<Rightarrow> fpTarget pc = target \<and> (\<exists>os. fst (fpRelay pc) = V4 os)"
  using assms
  by (auto simp: dialSOCKS5UDP_def resolveSOCKSRelay_def Let_def split: prod.splits sum.splits if_splits option.splits)

section \<open>Examples\<close>

definition frontRequest :: string where
  "frontRequest = handshakeInput [byte 2] ''me'' ''secret'' @ [byte 5, byte 1, byte 0, byte 3, byte 13] @ ''a.example.com'' @ [byte 1, byte 187]"

definition frontConfig :: Config where
  "frontConfig = document\<lparr>cfgUsername := ''me'', cfgPassword := ''secret''\<rparr>"

definition frontListen :: "nat list option \<Rightarrow> string option" where
  "frontListen a = Some ''127.0.0.1:5353''"


theorem tickets_resume_for_a_day_witness:
  "fst (sessionTicketKeys 172799999999998 172799999999998 (Some ''k2'') (keyRun [(86400000000000, 86400000000000, Some ''k1'')]
     (snd (sessionTicketKeys 86399999999999 86399999999999 (Some ''x'') (keyRun [(0, 0, Some ''k0'')] noTicketKeys))))) = Some [''k1'', ''k0''] \<and>
   ''k0'' \<in> set [''k1'', ''k0'']"
proof -
  have a: "sessionTicketKeys 86399999999999 86399999999999 (Some ''x'') (keyRun [(0, 0, Some ''k0'')] noTicketKeys) = (Some [''k0''], \<lparr>tkKeys = [''k0''], tkSet = 0\<rparr>)"
    by (simp add: sessionTicketKeys_def noTicketKeys_def mitmTicketKeyLifetime_def mitmTicketKeyHistory_def Let_def)
  have b: "sessionTicketKeys 172799999999998 172799999999998 (Some ''k2'') (keyRun [(86400000000000, 86400000000000, Some ''k1'')] \<lparr>tkKeys = [''k0''], tkSet = 0\<rparr>)
      = (Some [''k1'', ''k0''], \<lparr>tkKeys = [''k1'', ''k0''], tkSet = 86400000000000\<rparr>)"
    by (simp add: sessionTicketKeys_def mitmTicketKeyLifetime_def mitmTicketKeyHistory_def Let_def)
  from tickets_resume_for_a_day[OF refl a _ _ _ b] have "hd [''k0''] \<in> set [''k1'', ''k0'']" by (simp add: mitmTicketKeyLifetime_def)
  then show ?thesis using a b by simp
qed

end
