(* ===== verification/Script_Api.thy ===== *)
theory Script_Api
  imports Script_Storage Log_Fields Script_Results
begin

text \<open>
  What the runtime puts into a script's global object besides the engine's own (module_runtime.go \<^verbatim>\<open>installConsoleAPI\<close>,
  \<^verbatim>\<open>scriptMessageObject\<close>; module_compat.go \<^verbatim>\<open>installProxyCompatAPI\<close>): the console, the message, and for published bundles the
  store, the notification and the decompressor.

  A console argument is the number of UTF-16 units of its text and the function that gives the UTF-8 of a prefix in units.
\<close>

section \<open>Console\<close>

definition maxConsoleLogsPerAction :: nat where "maxConsoleLogsPerAction = 128"
definition maxConsoleLogArguments :: nat where "maxConsoleLogArguments = 16"
definition maxConsoleArgumentBytes :: nat where "maxConsoleArgumentBytes = 512"

type_synonym console_argument = "nat \<times> (nat \<Rightarrow> string)"

text \<open>Carriage returns and line feeds are spelled out.\<close>

definition escapeLineBreaks :: "string \<Rightarrow> string" where
  "escapeLineBreaks s = concat (map (\<lambda>c. if code c = 13 then [CHR 0x5C, CHR ''r''] else if code c = 10 then [CHR 0x5C, CHR ''n''] else [c]) s)"

definition boundedConsoleArgument :: "console_argument \<Rightarrow> int \<Rightarrow> string" where
  "boundedConsoleArgument argument limit =
     (if limit \<le> 0 then []
      else (case argument of (units, prefixOf) \<Rightarrow>
        truncateEngineLogField (escapeLineBreaks (prefixOf (if int units > limit then nat limit else units))) limit))"

fun consoleLoop :: "nat \<Rightarrow> console_argument list \<Rightarrow> string \<Rightarrow> string" where
  "consoleLoop index [] message = message"
| "consoleLoop index (argument # rest) message =
     (if index \<ge> maxConsoleLogArguments \<or> length message \<ge> maxEngineLogMessageBytes then message
      else (let message = (if index > 0 then message @ '' '' else message);
                remaining = int maxEngineLogMessageBytes - int (length message);
                remaining = (if remaining > int maxConsoleArgumentBytes then int maxConsoleArgumentBytes else remaining)
            in consoleLoop (index + 1) rest (message @ boundedConsoleArgument argument remaining)))"

record consoleState =
  clPublished :: nat
  clLimitReported :: bool
  clNormalized :: bool
  clMetadata :: EngineLog

definition newConsole :: "EngineLog \<Rightarrow> consoleState" where
  "newConsole metadata = \<lparr>clPublished = 0, clLimitReported = False, clNormalized = False, clMetadata = metadata\<rparr>"

text \<open>What a call publishes, if anything. \<open>enabled\<close> says whether anybody listens at that moment.\<close>

definition consoleCall :: "(string \<Rightarrow> string) \<Rightarrow> bool \<Rightarrow> string \<Rightarrow> console_argument list \<Rightarrow> consoleState \<Rightarrow> EngineLog option \<times> consoleState" where
  "consoleCall sanitize enabled level arguments c =
     (if \<not> enabled then (None, c)
      else
        (let c = (if clNormalized c then c else c\<lparr>clMetadata := (clMetadata c)\<lparr>logURL := sanitize (logURL (clMetadata c))\<rparr>, clNormalized := True\<rparr>)
         in if clPublished c \<ge> maxConsoleLogsPerAction then
              (if clLimitReported c then (None, c)
               else (Some ((clMetadata c)\<lparr>logSource := ''engine'', logLevel := ''warn'',
                             logMessage := ''console output limit reached; further messages suppressed''\<rparr>), c\<lparr>clLimitReported := True\<rparr>))
            else
              (Some ((clMetadata c)\<lparr>logLevel := level,
                       logMessage := truncateEngineLogField (consoleLoop 0 arguments []) (int maxEngineLogMessageBytes)\<rparr>),
               c\<lparr>clPublished := clPublished c + 1\<rparr>)))"

definition truncateScriptLog :: "string \<Rightarrow> nat \<Rightarrow> string" where
  "truncateScriptLog s limit = (if length s \<le> limit then s else validPrefix (take limit s) @ ''...'')"

section \<open>The message\<close>

definition flatHeaders :: "headers \<Rightarrow> (string \<times> string) list" where
  "flatHeaders h = map (\<lambda>(name, values). (name, join '', '' values)) h"

definition flatCompatHeaders :: "headers \<Rightarrow> (string \<times> string) list" where
  "flatCompatHeaders h = concat (map (\<lambda>(name, values). case values of [] \<Rightarrow> [] | v # _ \<Rightarrow> [(name, v)]) h)"

text \<open>A body is a string of the engine or a byte array.\<close>

datatype body_value = NoBody | TextBody string | BinaryBody string

record messageObject =
  moURL :: string
  moHeaders :: "(string \<times> string) list"
  moBody :: body_value
  moMethod :: "string option"
  moStatus :: "(int \<times> (string \<times> string) list) option"

definition scriptMessageObject :: "string \<Rightarrow> string \<Rightarrow> headers \<Rightarrow> headers \<Rightarrow> int \<Rightarrow> string \<Rightarrow> string \<Rightarrow> messageObject option" where
  "scriptMessageObject url method h trailers status body bodyMode =
     (let object = (\<lambda>b. \<lparr>moURL = url, moHeaders = flatHeaders h, moBody = b, moMethod = (if method \<noteq> [] then Some method else None),
                        moStatus = (if status \<noteq> 0 then Some (status, flatHeaders trailers) else None)\<rparr>)
      in if bodyMode = ''none'' then Some (object NoBody)
         else if bodyMode = ''text'' then Some (object (TextBody body))
         else if bodyMode = ''binary'' then Some (object (BinaryBody body))
         else None)"

definition compatResponseBody :: "string \<Rightarrow> bool \<Rightarrow> body_value" where
  "compatResponseBody body binary = (if \<not> binary \<and> validUTF8 body then TextBody body else BinaryBody body)"

section \<open>Published bundles\<close>

text \<open>The store of a bundle: without the permission reads miss and writes fail. The value comes before the key.\<close>

definition compatRead :: "bool \<Rightarrow> string \<Rightarrow> string \<Rightarrow> scriptStore \<Rightarrow> string option" where
  "compatRead granted moduleID key s = (if \<not> granted then None else storageGet moduleID key s)"

definition compatWrite :: "(buckets \<Rightarrow> string) \<Rightarrow> bool \<Rightarrow> saveFaults \<Rightarrow> nat \<Rightarrow> string \<Rightarrow> string \<Rightarrow> string \<Rightarrow> scriptStore \<Rightarrow> bool \<times> scriptStore" where
  "compatWrite marshal granted f a moduleID v key s = (if \<not> granted then (False, s) else storageSet marshal f a moduleID key v s)"

text \<open>An argument that is undefined or null is \<open>None\<close>. The separator is a dash between spaces.\<close>

definition compatNotificationText :: "string option list \<Rightarrow> string" where
  "compatNotificationText arguments =
     join ('' '' @ map char_of [226, 128, 148 :: nat] @ '' '')
       (filter (\<lambda>s. s \<noteq> []) (map (\<lambda>a. case a of None \<Rightarrow> [] | Some s \<Rightarrow> trim_space s) (take 3 arguments)))"

definition compatLogNotification :: "(string \<Rightarrow> string) \<Rightarrow> (string \<Rightarrow> console_argument) \<Rightarrow> bool \<Rightarrow> string option list \<Rightarrow> consoleState \<Rightarrow> EngineLog option \<times> consoleState" where
  "compatLogNotification sanitize ofText enabled arguments c =
     consoleCall sanitize enabled ''info'' [ofText ''$notification.post'', ofText (compatNotificationText arguments)] c"

datatype ungzip_error = UngzipArgument | UngzipFailed coding_error

definition compatUngzip :: "codecs \<Rightarrow> nat \<Rightarrow> exported \<Rightarrow> ungzip_error + string" where
  "compatUngzip cx limit v =
     (case exportedBody v of
        None \<Rightarrow> Inl UngzipArgument
      | Some body \<Rightarrow> (case decodeContentBody cx body ''gzip'' limit of Inl e \<Rightarrow> Inl (UngzipFailed e) | Inr decoded \<Rightarrow> Inr decoded))"

end
