(* ===== verification/Script_Api_Properties.thy ===== *)
theory Script_Api_Properties
  imports Script_Api
begin

text \<open>
  What a script can do to the log through its console, and the bound of its decompressor.
\<close>

section \<open>Line breaks\<close>

definition lineFree :: "string \<Rightarrow> bool" where
  "lineFree s \<longleftrightarrow> (\<forall>c\<in>set s. code c \<noteq> 10 \<and> code c \<noteq> 13)"

lemma lineFree_append [simp]: "lineFree (s @ t) \<longleftrightarrow> lineFree s \<and> lineFree t"
  by (auto simp: lineFree_def)

lemma lineFree_take: "lineFree s \<Longrightarrow> lineFree (take n s)"
  by (auto simp: lineFree_def dest: in_set_takeD)

lemma toValid_chars: "set (toValidUTF8 bad rep s) \<subseteq> set rep \<union> set s"
proof (induction bad rep s rule: toValidUTF8.induct)
  case (1 bad rep s)
  then show ?case by (subst toValidUTF8.simps) (auto dest!: in_set_takeD in_set_dropD)
qed

lemma truncate_lineFree:
  assumes "lineFree s"
  shows "lineFree (truncateEngineLogField s limit)"
proof -
  have rep: "lineFree replacementRune" by (simp add: lineFree_def replacementRune_def code_char_of)
  have "lineFree (validPrefix (take n (toValidUTF8 False replacementRune t)))" if "lineFree t" for n t
  proof -
    have "lineFree (toValidUTF8 False replacementRune t)"
      using toValid_chars[of False replacementRune t] rep that by (auto simp: lineFree_def)
    then have "lineFree (take n (toValidUTF8 False replacementRune t))" by (rule lineFree_take)
    then show ?thesis using validPrefix_props(2)[of "take n (toValidUTF8 False replacementRune t)"] by (auto simp: lineFree_def dest!: set_mono_prefix)
  qed
  note p = this
  have "lineFree ''...''" "lineFree (replicate n CHR ''.'')" for n by (auto simp: lineFree_def code_def)
  then show ?thesis using assms lineFree_take[OF assms] by (auto simp: truncateEngineLogField_def Let_def lineFree_def[of "[]"] intro!: p)
qed

lemma escape_lineFree: "lineFree (escapeLineBreaks s)"
proof -
  have "code (CHR 0x5C) = 92" "code (CHR ''r'') = 114" "code (CHR ''n'') = 110" by (simp_all add: code_def)
  then show ?thesis by (auto simp: escapeLineBreaks_def lineFree_def)
qed

lemma argument_lineFree: "lineFree (boundedConsoleArgument a limit)"
  by (auto simp: boundedConsoleArgument_def truncate_lineFree escape_lineFree lineFree_def[of "[]"] split: prod.splits)

lemma loop_lineFree: "lineFree message \<Longrightarrow> lineFree (consoleLoop index arguments message)"
proof (induction index arguments message rule: consoleLoop.induct)
  case (2 index argument rest message)
  have "lineFree '' ''" by (simp add: lineFree_def code_def)
  then show ?case using 2 argument_lineFree by (auto simp: Let_def)
qed simp

section \<open>Console\<close>

fun consoleRun :: "(string \<Rightarrow> string) \<Rightarrow> (bool \<times> string \<times> console_argument list) list \<Rightarrow> consoleState \<Rightarrow> EngineLog list" where
  "consoleRun sanitize [] c = []"
| "consoleRun sanitize ((enabled, level, arguments) # calls) c =
     (case consoleCall sanitize enabled level arguments c of
        (None, c) \<Rightarrow> consoleRun sanitize calls c
      | (Some event, c) \<Rightarrow> event # consoleRun sanitize calls c)"

definition boundedEvent :: "EngineLog \<Rightarrow> bool" where
  "boundedEvent e \<longleftrightarrow> length (logMessage e) \<le> 2048 \<and> validUTF8 (logMessage e) \<and> lineFree (logMessage e)"

definition limitWarning :: "EngineLog \<Rightarrow> bool" where
  "limitWarning e \<longleftrightarrow> logSource e = ''engine'' \<and> logLevel e = ''warn'' \<and> logMessage e = ''console output limit reached; further messages suppressed''"

definition consoleOK :: "consoleState \<Rightarrow> bool" where
  "consoleOK c \<longleftrightarrow> clPublished c \<le> maxConsoleLogsPerAction \<and> (clLimitReported c \<longrightarrow> clPublished c = maxConsoleLogsPerAction)"

lemma consoleCall_cases:
  assumes "consoleOK c" "consoleCall sanitize enabled level arguments c = (r, c')"
  shows "consoleOK c' \<and> (case r of
      None \<Rightarrow> clPublished c' = clPublished c \<and> clLimitReported c' = clLimitReported c
    | Some e \<Rightarrow> (boundedEvent e \<and> clPublished c < maxConsoleLogsPerAction \<and> clPublished c' = clPublished c + 1 \<and> clLimitReported c' = clLimitReported c) \<or>
        (limitWarning e \<and> clPublished c = maxConsoleLogsPerAction \<and> \<not> clLimitReported c \<and> clLimitReported c' \<and> clPublished c' = clPublished c))"
proof -
  let ?m = "truncateEngineLogField (consoleLoop 0 arguments []) (int maxEngineLogMessageBytes)"
  have m: "length ?m \<le> 2048" "validUTF8 ?m" "lineFree ?m"
    using truncate_length[of "consoleLoop 0 arguments []" "int maxEngineLogMessageBytes"] truncate_valid truncate_lineFree[OF loop_lineFree]
    by (simp_all add: maxEngineLogMessageBytes_def lineFree_def[of "[]"])
  show ?thesis using assms m
    by (auto simp: consoleCall_def consoleOK_def boundedEvent_def limitWarning_def Let_def split: if_splits)
qed

lemma run_shape_console:
  "consoleOK c \<Longrightarrow> \<exists>events warning. consoleRun sanitize calls c = events @ warning \<and> length events \<le> maxConsoleLogsPerAction - clPublished c \<and>
     (\<forall>e\<in>set events. boundedEvent e) \<and> (warning = [] \<or> (\<exists>w. warning = [w] \<and> limitWarning w \<and> \<not> clLimitReported c \<and> length events = maxConsoleLogsPerAction - clPublished c))"
proof (induction calls arbitrary: c)
  case (Cons call calls)
  obtain enabled level arguments where call: "call = (enabled, level, arguments)" by (metis prod_cases3)
  obtain r c' where r: "consoleCall sanitize enabled level arguments c = (r, c')" by force
  note s = consoleCall_cases[OF Cons.prems r]
  then obtain events warning where run: "consoleRun sanitize calls c' = events @ warning" "length events \<le> maxConsoleLogsPerAction - clPublished c'"
    "\<forall>e\<in>set events. boundedEvent e" "warning = [] \<or> (\<exists>w. warning = [w] \<and> limitWarning w \<and> \<not> clLimitReported c' \<and> length events = maxConsoleLogsPerAction - clPublished c')"
    using Cons.IH[of c'] by blast
  show ?case
  proof (cases r)
    case None
    then show ?thesis using run s by (intro exI[of _ events] exI[of _ warning]) (simp add: call r)
  next
    case (Some e)
    show ?thesis
    proof (cases "clPublished c < maxConsoleLogsPerAction")
      case True
      then have "boundedEvent e" "clPublished c' = clPublished c + 1" "clLimitReported c' = clLimitReported c" using s Some by auto
      then show ?thesis using run True Some by (intro exI[of _ "e # events"] exI[of _ warning]) (auto simp: call r)
    next
      case False
      then have "limitWarning e" "clPublished c = maxConsoleLogsPerAction" "\<not> clLimitReported c" "clLimitReported c'" "clPublished c' = clPublished c" using s Some by auto
      then show ?thesis using run Some by (intro exI[of _ "[]"] exI[of _ "[e]"]) (auto simp: call r)
    qed
  qed
qed simp


section \<open>Bundles\<close>

text \<open>What a bundle decompresses is bounded by the body limit of its action.\<close>

lemma ungzip_bounded: "compatUngzip cx limit v = Inr decoded \<Longrightarrow> length decoded \<le> limit"
proof -
  assume a: "compatUngzip cx limit v = Inr decoded"
  then obtain body where "decodeContentBody cx body ''gzip'' limit = Inr decoded"
    by (auto simp: compatUngzip_def split: option.splits sum.splits)
  moreover have "to_lower (trim_space ''gzip'') = ''gzip''" by code_simp
  ultimately show ?thesis by (auto simp: decodeContentBody_def readBounded_def Let_def split: option.splits prod.splits if_splits)
qed

end
