(* ===== verification/Socket_Lock.thy ===== *)
theory Socket_Lock
  imports Main
begin

text \<open>
  The socket of the engine log and its lock file (engine_logs.go \<^verbatim>\<open>listenEngineLogsSocketAt\<close>, \<^verbatim>\<open>removeStaleEngineLogsSocket\<close>,
  \<^verbatim>\<open>engineLogsLockedListener\<close>). The two paths may be used by several processes; a file is its inode and its kind.
\<close>

section \<open>Files\<close>

datatype file_kind = SocketFile | RegularFile | OtherFile

record fileEntry =
  feInode :: nat
  feKind :: file_kind

text \<open>\<open>skLive\<close> are the sockets somebody listens on.\<close>

record socketFiles =
  skSocket :: "fileEntry option"
  skLock :: "fileEntry option"
  skLive :: "nat list"
  skNext :: nat

datatype socket_error = LockHeld | LockStatFailed | NotASocket | SocketActive | CannotVerify | LstatFailed | RemoveFailed | ListenRefused | ChmodFailed

text \<open>Creating the lock file exclusively gives its inode.\<close>

definition takeLock :: "socketFiles \<Rightarrow> nat option \<times> socketFiles" where
  "takeLock w =
     (case skLock w of
        Some _ \<Rightarrow> (None, w)
      | None \<Rightarrow> (Some (skNext w), w\<lparr>skLock := Some \<lparr>feInode = skNext w, feKind = RegularFile\<rparr>, skNext := skNext w + 1\<rparr>))"

definition releaseLock :: "nat \<Rightarrow> socketFiles \<Rightarrow> socketFiles" where
  "releaseLock i w =
     (case skLock w of
        Some e \<Rightarrow> (if feKind e = RegularFile \<and> feInode e = i then w\<lparr>skLock := None\<rparr> else w)
      | None \<Rightarrow> w)"

text \<open>How the connection attempt to a socket nobody listens on may end, and which system calls fail.\<close>

datatype dial_result = DialRefused | DialMissing | DialTimeout

record socketFaults =
  kfStat :: bool
  kfDial :: dial_result
  kfLstat :: bool
  kfRemove :: bool
  kfListen :: bool
  kfChmod :: bool

definition removeStaleEngineLogsSocket :: "socketFaults \<Rightarrow> socketFiles \<Rightarrow> socket_error option \<times> socketFiles" where
  "removeStaleEngineLogsSocket f w =
     (case skSocket w of
        None \<Rightarrow> (None, w)
      | Some e \<Rightarrow>
          (if feKind e \<noteq> SocketFile then (Some NotASocket, w)
           else if feInode e \<in> set (skLive w) then (Some SocketActive, w)
           else (case kfDial f of
                   DialMissing \<Rightarrow> (None, w)
                 | DialTimeout \<Rightarrow> (Some CannotVerify, w)
                 | DialRefused \<Rightarrow>
                     (if kfLstat f then (Some LstatFailed, w)
                      else if kfRemove f then (Some RemoveFailed, w)
                      else (None, w\<lparr>skSocket := None\<rparr>)))))"

definition bindSocket :: "socketFaults \<Rightarrow> socketFiles \<Rightarrow> nat option \<times> socketFiles" where
  "bindSocket f w =
     (if kfListen f \<or> skSocket w \<noteq> None then (None, w)
      else (Some (skNext w), w\<lparr>skSocket := Some \<lparr>feInode = skNext w, feKind = SocketFile\<rparr>, skLive := skNext w # skLive w, skNext := skNext w + 1\<rparr>))"

text \<open>Closing a listener unlinks the path.\<close>

definition closeSocket :: "nat \<Rightarrow> socketFiles \<Rightarrow> socketFiles" where
  "closeSocket s w = w\<lparr>skLive := removeAll s (skLive w), skSocket := None\<rparr>"

definition listenEngineLogsSocketAt :: "socketFaults \<Rightarrow> socketFiles \<Rightarrow> (socket_error + nat \<times> nat) \<times> socketFiles" where
  "listenEngineLogsSocketAt f w =
     (case takeLock w of
        (None, w) \<Rightarrow> (Inl LockHeld, w)
      | (Some i, w) \<Rightarrow>
          (if kfStat f then (Inl LockStatFailed, w\<lparr>skLock := None\<rparr>)
           else (case removeStaleEngineLogsSocket f w of
                   (Some e, w) \<Rightarrow> (Inl e, releaseLock i w)
                 | (None, w) \<Rightarrow>
                     (case bindSocket f w of
                        (None, w) \<Rightarrow> (Inl ListenRefused, releaseLock i w)
                      | (Some s, w) \<Rightarrow>
                          (if kfChmod f then (Inl ChmodFailed, releaseLock i (closeSocket s w)) else (Inr (i, s), w))))))"

definition closeLockedListener :: "nat \<times> nat \<Rightarrow> socketFiles \<Rightarrow> socketFiles" where
  "closeLockedListener l w = (case l of (i, s) \<Rightarrow> releaseLock i (closeSocket s w))"

end
