(* ===== verification/Socket_Lock_Properties.thy ===== *)
theory Socket_Lock_Properties
  imports Socket_Lock
begin

text \<open>
  Several processes on one socket path: the lock admits one at a time, and a process that dies keeps it.
\<close>

section \<open>Processes\<close>

text \<open>
  The parts of the function that bind the socket are separate steps, so that several processes may be in it at once. A
  process that dies leaves its files behind.
\<close>

datatype phase = Idle | Locked nat | Bound nat nat

inductive lockStep :: "socketFiles \<times> (nat \<Rightarrow> phase) \<Rightarrow> socketFiles \<times> (nat \<Rightarrow> phase) \<Rightarrow> bool" where
  step_lock: "ph p = Idle \<Longrightarrow> takeLock w = (Some i, w') \<Longrightarrow> lockStep (w, ph) (w', ph(p := Locked i))"
| step_refused: "ph p = Idle \<Longrightarrow> takeLock w = (None, w') \<Longrightarrow> lockStep (w, ph) (w', ph)"
| step_clean: "ph p = Locked i \<Longrightarrow> removeStaleEngineLogsSocket f w = (None, w') \<Longrightarrow> lockStep (w, ph) (w', ph)"
| step_give_up: "ph p = Locked i \<Longrightarrow> lockStep (w, ph) (releaseLock i w, ph(p := Idle))"
| step_bind: "ph p = Locked i \<Longrightarrow> bindSocket f w = (Some s, w') \<Longrightarrow> lockStep (w, ph) (w', ph(p := Bound i s))"
| step_close: "ph p = Bound i s \<Longrightarrow> lockStep (w, ph) (closeLockedListener (i, s) w, ph(p := Idle))"
| step_crash: "ph p \<noteq> Idle \<Longrightarrow> lockStep (w, ph) (w\<lparr>skLive := (case ph p of Bound i s \<Rightarrow> removeAll s (skLive w) | _ \<Rightarrow> skLive w)\<rparr>, ph(p := Idle))"

definition holds :: "phase \<Rightarrow> nat \<Rightarrow> bool" where
  "holds x i \<longleftrightarrow> (case x of Idle \<Rightarrow> False | Locked j \<Rightarrow> i = j | Bound j s \<Rightarrow> i = j)"

text \<open>Whoever is in the critical part owns the lock file, alone; whoever is bound owns the socket file.\<close>

definition lockOK :: "socketFiles \<times> (nat \<Rightarrow> phase) \<Rightarrow> bool" where
  "lockOK st \<longleftrightarrow> (case st of (w, ph) \<Rightarrow>
     (\<forall>p i. holds (ph p) i \<longrightarrow> skLock w = Some \<lparr>feInode = i, feKind = RegularFile\<rparr>) \<and>
     (\<forall>p q i j. holds (ph p) i \<and> holds (ph q) j \<longrightarrow> p = q) \<and>
     (\<forall>p i s. ph p = Bound i s \<longrightarrow> skSocket w = Some \<lparr>feInode = s, feKind = SocketFile\<rparr> \<and> s \<in> set (skLive w)))"

lemma holds_simps [simp]: "holds Idle i = False" "holds (Locked j) i = (i = j)" "holds (Bound j s) i = (i = j)"
  by (simp_all add: holds_def)

lemma holds_Idle [simp]: "holds Idle = (\<lambda>_. False)"
  by (simp add: fun_eq_iff)

lemma only_holder:
  assumes "lockOK (w, ph)" "holds (ph p) i" "q \<noteq> p"
  shows "ph q = Idle"
proof -
  have "\<not> holds (ph q) j" for j using assms unfolding lockOK_def by blast
  then show ?thesis by (cases "ph q") (metis holds_simps(2,3))+
qed

lemma holder_lock: "lockOK (w, ph) \<Longrightarrow> holds (ph p) i \<Longrightarrow> skLock w = Some \<lparr>feInode = i, feKind = RegularFile\<rparr>"
  unfolding lockOK_def by blast

lemma nobody_OK: "(\<And>q. ph q = Idle) \<Longrightarrow> lockOK (w, ph)"
  by (simp add: lockOK_def)

text \<open>With one process in the critical part the conditions are about that process.\<close>

lemma one_OK:
  assumes "\<And>q. q \<noteq> p \<Longrightarrow> ph q = Idle" "holds (ph p) i" "skLock w = Some \<lparr>feInode = i, feKind = RegularFile\<rparr>"
    and "\<And>j s. ph p = Bound j s \<Longrightarrow> skSocket w = Some \<lparr>feInode = s, feKind = SocketFile\<rparr> \<and> s \<in> set (skLive w)"
  shows "lockOK (w, ph)"
proof -
  have h: "q = p \<and> j = i" if "holds (ph q) j" for q j
  proof -
    have "q = p" using assms(1)[of q] that by (cases "q = p") auto
    then show ?thesis using assms(2) that by (cases "ph p") auto
  qed
  have b: "q = p" if "ph q = Bound j s" for q j s using assms(1)[of q] that by (cases "q = p") auto
  show ?thesis unfolding lockOK_def prod.case
  proof (intro conjI allI impI)
    show "skLock w = Some \<lparr>feInode = j, feKind = RegularFile\<rparr>" if "holds (ph q) j" for q j using h[OF that] assms(3) by simp
    show "q = q'" if "holds (ph q) j \<and> holds (ph q') j'" for q q' j j' using h that by metis
    show "skSocket w = Some \<lparr>feInode = s, feKind = SocketFile\<rparr>" "s \<in> set (skLive w)" if "ph q = Bound j s" for q j s
      using assms(4)[of j s] that b[OF that] by simp_all
  qed
qed

lemma lockStep_OK: "lockStep st st' \<Longrightarrow> lockOK st \<Longrightarrow> lockOK st'"
proof (induction rule: lockStep.induct)
  case (step_lock ph p w i w')
  have none: "skLock w = None" "i = skNext w" "w' = w\<lparr>skLock := Some \<lparr>feInode = skNext w, feKind = RegularFile\<rparr>, skNext := skNext w + 1\<rparr>"
    using step_lock(2) by (auto simp: takeLock_def split: option.splits)
  have "\<not> holds (ph q) j" for q j using holder_lock[OF step_lock(3), of q j] none(1) by auto
  then have "ph q = Idle" for q by (cases "ph q") (metis holds_simps(2,3))+
  then show ?case using none by (intro one_OK[of p _ i]) auto
next
  case (step_refused ph p w w')
  then show ?case by (auto simp: takeLock_def split: option.splits)
next
  case (step_clean ph p i f w w')
  have "skLock w' = skLock w" using step_clean(2) by (auto simp: removeStaleEngineLogsSocket_def split: option.splits if_splits dial_result.splits)
  then show ?case using step_clean(1) only_holder[OF step_clean(3), of p i] holder_lock[OF step_clean(3), of p i] by (intro one_OK[of p _ i]) auto
next
  case (step_give_up ph p i w)
  then show ?case using only_holder[OF step_give_up(2), of p i] by (intro nobody_OK) auto
next
  case (step_bind ph p i f w s w')
  have w': "w' = w\<lparr>skSocket := Some \<lparr>feInode = s, feKind = SocketFile\<rparr>, skLive := s # skLive w, skNext := skNext w + 1\<rparr>"
    using step_bind(2) by (auto simp: bindSocket_def split: if_splits)
  show ?case using step_bind(1) only_holder[OF step_bind(3), of p i] holder_lock[OF step_bind(3), of p i] by (intro one_OK[of p _ i]) (auto simp: w')
next
  case (step_close ph p i s w)
  then show ?case using only_holder[OF step_close(2), of p i] by (intro nobody_OK) auto
next
  case (step_crash ph p w)
  then obtain i where "holds (ph p) i" by (cases "ph p") auto
  then show ?case using only_holder[OF step_crash(2), of p i] by (intro nobody_OK) auto
qed

lemma lockRun_OK: "lockStep\<^sup>*\<^sup>* st st' \<Longrightarrow> lockOK st \<Longrightarrow> lockOK st'"
  by (induction rule: rtranclp_induct) (auto intro: lockStep_OK)

text \<open>C40: However many processes start, stop and die on the same path, at most one of them is between taking the lock and giving
it back, and as long as it serves, the socket file is its own and it listens on it: no other process replaces it.\<close>
theorem one_log_listener:
  assumes "lockStep\<^sup>*\<^sup>* (w0, \<lambda>_. Idle) (w, ph)" "ph p \<noteq> Idle"
  shows "(\<forall>q. q \<noteq> p \<longrightarrow> ph q = Idle) \<and>
    (\<forall>i s. ph p = Bound i s \<longrightarrow> skSocket w = Some \<lparr>feInode = s, feKind = SocketFile\<rparr> \<and> s \<in> set (skLive w))"
proof -
  have ok: "lockOK (w, ph)" using lockRun_OK[OF assms(1)] nobody_OK[of "\<lambda>_. Idle" w0] by simp
  obtain i where "holds (ph p) i" using assms(2) by (cases "ph p") auto
  then show ?thesis using only_holder[OF ok] ok unfolding lockOK_def by blast
qed

text \<open>The lock file of a process that died is never removed: from then on nobody serves.\<close>

lemma lost_lock_step:
  assumes "lockStep (w, ph) (w', ph')" "\<And>q. ph q = Idle" "skLock w \<noteq> None"
  shows "(\<forall>q. ph' q = Idle) \<and> skLock w' \<noteq> None"
  using assms by (auto elim!: lockStep.cases simp: takeLock_def split: option.splits)

lemma lost_lock_run:
  "lockStep\<^sup>*\<^sup>* st st' \<Longrightarrow> (\<forall>q. snd st q = Idle) \<and> skLock (fst st) \<noteq> None \<Longrightarrow> (\<forall>q. snd st' q = Idle) \<and> skLock (fst st') \<noteq> None"
proof (induction rule: rtranclp_induct)
  case (step y z)
  then show ?case using lost_lock_step[of "fst y" "snd y" "fst z" "snd z"] by simp
qed

lemma crash_locks_out:
  assumes "lockOK (w, ph)" "ph p \<noteq> Idle"
    and "lockStep\<^sup>*\<^sup>* (w\<lparr>skLive := (case ph p of Bound i s \<Rightarrow> removeAll s (skLive w) | _ \<Rightarrow> skLive w)\<rparr>, ph(p := Idle)) (w', ph')"
  shows "(\<forall>q. ph' q = Idle) \<and> fst (listenEngineLogsSocketAt f w') = Inl LockHeld"
proof -
  obtain i where i: "holds (ph p) i" using assms(2) by (cases "ph p") auto
  let ?st = "(w\<lparr>skLive := (case ph p of Bound i s \<Rightarrow> removeAll s (skLive w) | _ \<Rightarrow> skLive w)\<rparr>, ph(p := Idle))"
  have start: "(\<forall>q. snd ?st q = Idle) \<and> skLock (fst ?st) \<noteq> None" using only_holder[OF assms(1) i] holder_lock[OF assms(1) i] by auto
  from lost_lock_run[OF assms(3) start] show ?thesis by (auto simp: listenEngineLogsSocketAt_def takeLock_def)
qed

section \<open>The function in one piece\<close>

text \<open>Alone on the path, a start succeeds or leaves the lock file absent.\<close>

lemma listen_alone:
  assumes "skLock w = None" "listenEngineLogsSocketAt f w = (r, w')"
  shows "case r of Inl e \<Rightarrow> skLock w' = None | Inr (i, s) \<Rightarrow> skLock (closeLockedListener (i, s) w') = None \<and> skSocket (closeLockedListener (i, s) w') = None"
  using assms
  by (auto simp: listenEngineLogsSocketAt_def takeLock_def removeStaleEngineLogsSocket_def bindSocket_def releaseLock_def closeSocket_def closeLockedListener_def
      split: option.splits if_splits dial_result.splits)

section \<open>An example\<close>

definition emptyPaths :: socketFiles where
  "emptyPaths = \<lparr>skSocket = None, skLock = None, skLive = [], skNext = 0\<rparr>"

definition noSocketFaults :: socketFaults where
  "noSocketFaults = \<lparr>kfStat = False, kfDial = DialRefused, kfLstat = False, kfRemove = False, kfListen = False, kfChmod = False\<rparr>"

definition servedPaths :: socketFiles where
  "servedPaths = snd (listenEngineLogsSocketAt noSocketFaults emptyPaths)"

lemma served_run: "lockStep\<^sup>*\<^sup>* (emptyPaths, \<lambda>_. Idle) (servedPaths, (\<lambda>_. Idle)(3 := Bound 0 1))"
proof -
  have l: "takeLock emptyPaths = (Some 0, snd (takeLock emptyPaths))" by code_simp
  have b: "bindSocket noSocketFaults (snd (takeLock emptyPaths)) = (Some 1, servedPaths)" by code_simp
  have "lockStep (emptyPaths, \<lambda>_. Idle) (snd (takeLock emptyPaths), (\<lambda>_. Idle)(3 := Locked 0))" by (rule step_lock[OF refl l])
  moreover have "lockStep (snd (takeLock emptyPaths), (\<lambda>_. Idle)(3 := Locked 0)) (servedPaths, ((\<lambda>_. Idle)(3 := Locked 0))(3 := Bound 0 1))"
    by (rule step_bind[OF _ b]) simp
  ultimately show ?thesis by (metis converse_rtranclp_into_rtranclp fun_upd_upd r_into_rtranclp)
qed

theorem one_log_listener_witness:
  "skSocket servedPaths = Some \<lparr>feInode = 1, feKind = SocketFile\<rparr> \<and> 1 \<in> set (skLive servedPaths)"
  using one_log_listener[OF served_run, of 3] by simp

end
