(* ===== verification/Spec2Isabelle.thy ===== *)
theory Spec2Isabelle
  imports Bundle_Properties Script_Nesting Projection_Properties Socks_Conn Log_Hub Declarative_Properties Compile_Properties
    Config_Store_Properties Config_Example Web_Socket_Properties Control_Properties Http_Headers_Properties
    Script_Results_Properties Response_Writer_Properties Proxy_Serve_Properties
    Certificates_Properties Transport_Pool_Properties
    Script_Storage_Properties Async_Loop_Properties Script_Network_Properties Dom_Properties
    Web_Api_Properties Proxy_Front_Properties Script_Api_Properties Socket_Lock_Properties
begin

text \<open>
  A verification development for the extension sidecar of the gateway (the Go program under \<^verbatim>\<open>src/\<close>).

  \<^bold>\<open>The program.\<close> The sidecar terminates intercepted connections that the gateway hands over by SOCKS5, runs the actions of
  installed extensions on the requests and responses, and sends the requests on through the gateway. A coordinator pushes
  configuration documents, called bundles, over a Unix socket (\<^verbatim>\<open>control_api.go\<close>); the bundle manager stages, commits and
  withdraws them (\<^verbatim>\<open>bundle_manager.go\<close>) in a durable store (\<^verbatim>\<open>bundle_store.go\<close>). The configuration store (\<^verbatim>\<open>config.go\<close>
  \<^verbatim>\<open>configStore\<close>) hands every request the snapshot that is live: the private file until a bundle has been live, bundles from
  then on. A document is decoded and validated (\<^verbatim>\<open>config.go\<close>), its scripts are guarded (\<^verbatim>\<open>script_nesting.go\<close>) and compiled
  (\<^verbatim>\<open>module_runtime.go\<close>). A request is admitted, its body accounted for, and passed through the request actions
  (\<^verbatim>\<open>proxy.go\<close> \<^verbatim>\<open>ServeHTTP\<close>, \<^verbatim>\<open>module_proxy.go\<close>, \<^verbatim>\<open>module_request_rewrite.go\<close>); its upstream is chosen by the projection
  (\<^verbatim>\<open>transport_projection.go\<close>) and reached over a pooled transport; the response goes through the response actions and is
  written to the client. Actions are declarative (\<^verbatim>\<open>module_mock.go\<close>, \<^verbatim>\<open>module_rewrite.go\<close>), jq filters (\<^verbatim>\<open>module_jq.go\<close>) or scripts,
  which have storage, timers, a network client, a console and a document model (\<^verbatim>\<open>module_runtime.go\<close>, \<^verbatim>\<open>module_async.go\<close>, \<^verbatim>\<open>module_network.go\<close>,
  \<^verbatim>\<open>module_compat.go\<close>, \<^verbatim>\<open>module_dom.go\<close>, \<^verbatim>\<open>module_webapi.go\<close>). The certificate shown to a client comes from \<^verbatim>\<open>cert.go\<close>. Events go to a log hub and
  from there to consoles over WebSocket (\<^verbatim>\<open>engine_logs.go\<close>).

  \<^bold>\<open>How it is modelled.\<close> A Go string or byte slice is a \<^typ>\<open>string\<close>, one character per byte; a map is an association list with
  distinct keys, or a HOL map where no order can be observed; a struct is a record; an error is the left side of a sum, one
  constructor per message. Code that changes state takes and returns it; a region under a mutex is one step. Case folding and
  trimming of white space are those of ASCII.

  \<^descr>[Shared] \<open>Prelude\<close> (strings, numbers, bytes), \<open>Utf8\<close> (\<^verbatim>\<open>unicode/utf8\<close>), \<open>Base64\<close>, \<open>Net_Addr\<close> (\<^verbatim>\<open>net/netip\<close>), \<open>Hosts\<close> (host names
    and patterns; the compiled matcher equals the linear one).
  \<^descr>[Bundles] \<open>Durable_Store\<close> is the contract between manager and store as the locales \<open>durable_store\<close> and \<open>listed_store\<close>;
    \<open>Bundle_Store\<close> is the directory of files with a fault schedule for its system calls (each may fail, fail after its effect,
    or end the process) and interprets the locale; \<open>Bundle_Manager\<close> holds the operations; \<open>Bundle_Lifecycle\<close>, \<open>Bundle_System\<close> and
    \<open>Bundle_Properties\<close> the step relation of the process with crashes and restarts, its invariants, and what a coordinator relies
    on: commits are exclusive, survive a restart, and an error keeps what was served.
  \<^descr>[Documents] \<open>Config_Types\<close> (records), \<open>Json_Decode\<close>, \<open>Validation\<close> (every check in the order of the code) with
    \<open>Validation_Properties\<close> (validation accepts exactly the declaratively well-formed documents), \<open>Rule_Matching\<close> with
    \<open>Compile_Properties\<close> (an accepted document compiles, and matching over the snapshot equals a direct reading),
    \<open>Script_Nesting\<close> (the guard equals the depth and prefix specification on plain source), \<open>Config_Example\<close> (the document the
    witnesses use).
  \<^descr>[Snapshots] \<open>Config_Store\<close> and \<open>Config_Store_Properties\<close>: the locale \<open>bundle_source\<close>, interpreted by the manager; a generation
    names one snapshot, and the handover to bundles is final. The theorem below composes both with decoding.
  \<^descr>[Control] \<open>Control_Api\<close> and \<open>Control_Properties\<close>: routes, handlers, error codes, and the check of the connecting process.
  \<^descr>[Exchanges] \<open>Declarative\<close>, \<open>Script_Results\<close>, \<open>Http_Headers\<close>, \<open>Request_Pipeline\<close>, \<open>Response_Writer\<close>, \<open>Proxy_Serve\<close> with their
    property theories: what an action may change, which header fields pass, where a request may go, the accounting of bodies
    under interleaved exchanges, the framing of responses.
  \<^descr>[Connections] \<open>Proxy_Front\<close> (\<^verbatim>\<open>proxy.go\<close>: SOCKS sessions and UDP associations up to the server they are handed to, session ticket
    keys, handshake reports, HTTP/3 dials) and \<open>Proxy_Front_Properties\<close>: who is handed on, how long a ticket resumes, that slots
    are connections.
  \<^descr>[Upstream] \<open>Projection\<close> (with the fingerprint), \<open>Transport_Pool\<close> (generations of transports under a step relation, HTTP/3
    fallback), \<open>Socks_Address\<close> and \<open>Socks_Conn\<close> (\<^verbatim>\<open>socks.go\<close>), \<open>Certificates\<close> (\<^verbatim>\<open>cert.go\<close>).
  \<^descr>[Scripts] \<open>Script_Storage\<close> (the locale \<open>keyed_store\<close>, interpreted by the storage of the code; quotas; restarts), \<open>Async_Loop\<close>
    (timers and callbacks under a step relation), \<open>Script_Network\<close> (what a script may send), \<open>Dom\<close> (documents), \<open>Web_Api\<close> (addresses and
    queries refine a map), \<open>Script_Api\<close> (console, message and globals of bundles).
  \<^descr>[Logs] \<open>Log_Fields\<close>, \<open>Log_Hub\<close> (ring and subscriptions as an interleaving that refines a list), \<open>Web_Socket\<close>,
    \<open>Socket_Lock\<close> (the socket and its lock file under several processes).

  \<^bold>\<open>Arguments that stand for other code.\<close> \<open>externs\<close> collects SHA-256, the JSON reader, \<^verbatim>\<open>net/url\<close>, regular expressions, the
  JavaScript and jq compilers; \<open>engines\<close> the running of a script or filter; \<open>codecs\<close> content codings; \<open>unmarshal\<close> and \<open>marshal\<close> the
  reflective part of \<^verbatim>\<open>encoding/json\<close>; \<open>render\<close> the text of a URL; \<open>client\<close> and \<open>send\<close> what an origin answers; \<open>domExterns\<close> the HTML
  parser, selectors and renderer. Where a theorem needs a fact about one of them it is a named hypothesis with a witness.

  \<^bold>\<open>Bounds and fuel.\<close> System calls that may fail are driven by finite schedules, all of which are quantified over. Loops that
  wait (\<open>acquireLoop\<close>, \<open>wait\<close>, the read loops) run over the list of what they receive and have not returned when it ends; that they
  return once what they wait for arrives is proved. The walks over a document take a bound on the depth of the recursion; the
  number of nodes is enough (\<open>dom_reads_return\<close>), and on a cyclic document none is. Sequence numbers, generations and durations
  are 64-bit words.

  \<^bold>\<open>Not modelled.\<close> The script engine itself, the conversion of values between it and Go, and the installation of objects
  into it; TLS, HTTP/1, HTTP/2 and QUIC, which belong to the standard library and \<^verbatim>\<open>quic-go\<close>; the permissions of
  sockets, \<^verbatim>\<open>SO_PEERCRED\<close>, flags and process start (\<^verbatim>\<open>main.go\<close>, \<^verbatim>\<open>control_peer_linux.go\<close>); deadlines other than as
  events that may happen at any time; the text of log messages; Unicode case folding.
\<close>

section \<open>What the process serves\<close>

text \<open>The document decoder the bundle manager is built with.\<close>

definition decodeDocument :: "externs \<Rightarrow> (string \<Rightarrow> Config option) \<Rightarrow> string \<Rightarrow> Config option" where
  "decodeDocument x unmarshal body = (case decodeConfig x unmarshal body of Inl _ \<Rightarrow> None | Inr cfg \<Rightarrow> Some cfg)"

lemma decodeDocument_Some: "decodeDocument x unmarshal body = Some cfg \<longleftrightarrow> decodeConfig x unmarshal body = Inr cfg"
  by (cases "decodeConfig x unmarshal body") (auto simp: decodeDocument_def)

lemma matching_generation [simp]:
  "matchingScriptRulesParsed x (cfg\<lparr>cfgGeneration := g\<rparr>) phase msg matchStatus u = matchingScriptRulesParsed x cfg phase msg matchStatus u"
  by (simp add: matchingScriptRulesParsed_def compileScriptConfigWithPrograms_def split: option.splits)

lemma runtimeFits_generation [simp]: "runtimeFits (cfg\<lparr>cfgGeneration := g\<rparr>) = runtimeFits cfg"
  by (simp add: runtimeFits_def split: option.splits)

text \<open>What a snapshot has to be to be served: the decoding of an accepted document, whose actions it selects.\<close>

definition acceptedSnapshot :: "externs \<Rightarrow> (string \<Rightarrow> Config option) \<Rightarrow> Config \<Rightarrow> bool" where
  "acceptedSnapshot x unmarshal cfg \<longleftrightarrow>
     (\<exists>body c. unmarshal body = Some c \<and> configOK x c \<and> runtimeFits cfg \<and>
        (\<forall>phase msg matchStatus u.
           pairIDs (matchingScriptRulesParsed x cfg phase msg matchStatus u) = selectedActions x c phase msg matchStatus u))"

lemma decoded_accepted:
  assumes "fromDocument (decodeConfig x unmarshal) cfg"
  shows "acceptedSnapshot x unmarshal cfg"
proof -
  obtain body d g where d: "decodeConfig x unmarshal body = Inr d" "cfg = d\<lparr>cfgGeneration := g\<rparr>"
    using assms by (auto simp: fromDocument_def)
  obtain c where c: "unmarshal body = Some c" "configOK x c" using decodeConfig_Inr[OF d(1)] by metis
  show ?thesis unfolding acceptedSnapshot_def d(2) matching_generation runtimeFits_generation
    using c decoded_runtimeFits[OF d(1)] matching_selected[OF d(1) c(1)] by blast
qed

lemma pushed_accepted:
  assumes "managerOK (decodeDocument x unmarshal) m0" "pushed (managerStep sha (decodeDocument x unmarshal)) mgrActive m0 cfg"
  shows "acceptedSnapshot x unmarshal cfg"
proof -
  obtain m1 n d g where "(managerStep sha (decodeDocument x unmarshal))\<^sup>*\<^sup>* m0 m1" "mgrActive m1 = Some (n, d)" "cfg = d\<lparr>cfgGeneration := g\<rparr>"
    using assms(2) by (auto simp: pushed_def)
  moreover from this have "managerOK (decodeDocument x unmarshal) m1" using src.ok_steps assms(1) by blast
  ultimately obtain body where "decodeConfig x unmarshal body = Inr d"
    by (auto simp: managerOK_def decodeDocument_Some)
  then show ?thesis using decoded_accepted[OF fromDocumentI] \<open>cfg = d\<lparr>cfgGeneration := g\<rparr>\<close> by blast
qed

text \<open>C11: Whatever the process answers a request for its configuration, after any sequence of
  changes of the private file, stage, commit, abort, purge, recovery, faults, crashes and
  restarts, is an accepted document: it satisfies everything validation asks for, its compiled
  snapshot answers host questions like the document itself, and every message is matched against
  the actions the document declares. The only other answer is that nothing is active, and that
  only after a bundle was live.\<close>

theorem served_configuration_accepted:
  assumes "reachable sha (decodeDocument x unmarshal) (Running m0)"
    and "newConfigStore hash (decodeConfig x unmarshal) f0 = Inr s0"
    and "storeRun (managerStep sha (decodeDocument x unmarshal)) mgrActive mgrMigrated hash (decodeConfig x unmarshal)
      m0 (setBundleSource s0) m s outs"
    and "r \<in> set outs"
  shows "case r of
      Inl e \<Rightarrow> e = NoActiveBundle \<and> mgrMigrated m
    | Inr cfg \<Rightarrow> acceptedSnapshot x unmarshal cfg"
proof -
  have ok: "managerOK (decodeDocument x unmarshal) m0" by (rule reachable_managerOK[OF assms(1)])
  have "case r of Inl e \<Rightarrow> e = NoActiveBundle \<and> mgrMigrated m
      | Inr c \<Rightarrow> pushed (managerStep sha (decodeDocument x unmarshal)) mgrActive m0 c \<or> fromDocument (decodeConfig x unmarshal) c"
    using src.storeRun_answers[OF assms(3) newConfigStore_start(4)[OF assms(2)]] assms(4) by blast
  then show ?thesis using pushed_accepted[OF ok] decoded_accepted by (auto split: sum.splits)
qed

definition oneDocument :: "Config \<Rightarrow> string \<Rightarrow> Config option" where
  "oneDocument cfg body = (if body = ''doc'' then Some cfg else None)"

lemma oneDocument_live:
  "\<exists>m n. reachable exSha (oneDocument cfg) (Running m) \<and> mgrActive m = Some (n, cfg)"
proof -
  define staged where "staged = snd (runOp exSha (oneDocument cfg) (OpStage ''a'' ''doc'') (mgrWithIO [] [8] exOpened))"
  define live' where "live' = snd (runOp exSha (oneDocument cfg) (OpCommit ''a'' []) (mgrWithIO [] [9, 9] staged))"
  have "fst (openBundleStore ''store'' (withIO [] [7] emptyWorld)) = Ret ()" by code_simp
  then have o: "reachable exSha (oneDocument cfg) (Running exOpened)" unfolding exOpened_def
    by (intro reach_open[OF reach_new, where dir = "''store''" and xs = "[]" and ts = "[7]"]) (simp add: prod_eq_iff)
  have s: "reachable exSha (oneDocument cfg) (Running staged)"
    unfolding staged_def by (rule reach_op_ok[OF o]) code_simp
  have l: "reachable exSha (oneDocument cfg) (Running live')"
    unfolding live'_def by (rule reach_op_ok[OF s]) (unfold staged_def, code_simp)
  have "mgrActive live' = Some (0, cfg)" unfolding live'_def staged_def by code_simp
  then show ?thesis using l by blast
qed

lemma decodeDocument_example: "\<exists>cfg. decodeDocument docExterns docUnmarshal = oneDocument cfg"
proof -
  obtain cfg where "decodeConfig docExterns docUnmarshal ''doc'' = Inr cfg"
    using decodeConfig_accepts[of docExterns document "''doc''" "JStr ''doc''" docUnmarshal]
      document_rawNulls document_unmarshalled document_OK by blast
  then have "decodeDocument docExterns docUnmarshal body = oneDocument cfg body" for body
    by (cases "body = ''doc''") (auto simp: decodeDocument_def decodeConfig_def oneDocument_def docUnmarshal_def split: sum.splits)
  then show ?thesis by blast
qed

theorem served_configuration_accepted_witness:
  "\<exists>m n cfg g. reachable exSha (decodeDocument docExterns docUnmarshal) (Running m) \<and> mgrActive m = Some (n, cfg) \<and>
     acceptedSnapshot docExterns docUnmarshal (cfg\<lparr>cfgGeneration := g\<rparr>)"
proof -
  obtain cfg m n where m: "reachable exSha (decodeDocument docExterns docUnmarshal) (Running m)" "mgrActive m = Some (n, cfg)"
    and d: "decodeDocument docExterns docUnmarshal = oneDocument cfg"
    using decodeDocument_example oneDocument_live by metis
  have "decodeConfig docExterns docUnmarshal ''doc'' = Inr cfg" using d by (simp add: decodeDocument_Some[symmetric] oneDocument_def)
  then obtain s0 where s0: "newConfigStore id (decodeConfig docExterns docUnmarshal) exFile = Inr s0"
    by (simp add: newConfigStore_def exFile_read)
  let ?run = "storeRun (managerStep exSha (decodeDocument docExterns docUnmarshal)) mgrActive mgrMigrated id
    (decodeConfig docExterns docUnmarshal) m (setBundleSource s0)"
  obtain r s where cur: "Current id (decodeConfig docExterns docUnmarshal) (mgrActive m, mgrMigrated m) exFile (setBundleSource s0) = (r, s)"
    by fastforce
  have r: "r = Inr (cfg\<lparr>cfgGeneration := csGeneration s\<rparr>)"
    using Current_live(1)[OF cur[unfolded m(2)] newConfigStore_start(3)[OF s0]] .
  have "?run m (setBundleSource s0) []" by (rule run_start)
  then have "?run m s ([] @ [r])" by (rule run_current) (rule rtranclp.rtrancl_refl, rule cur)
  from served_configuration_accepted[OF m(1) s0 this, of r] show ?thesis using m r by auto
qed

end
